(* ===== verification/Prelude.thy ===== *)
theory Prelude
  imports Main "HOL-Library.Word" "HOL-Library.List_Lexorder" "HOL-Library.Char_ord"
begin

text \<open>
  What every component theory shares: the Rust vocabulary of the sources.

  \<^item> \<open>Result\<close> and the question-mark operator (\<open>and_then\<close>, \<open>ok_or\<close>) over sum types,
    \<open>for\<close> loops that return early (\<open>try_all\<close>, \<open>try_fold\<close>);
  \<^item> fixed-width integers: \<open>u32\<close> and \<open>u64\<close> are machine words, \<open>i64\<close> is an \<open>int\<close>
    with explicit bounds, \<open>usize\<close> is a \<open>nat\<close>;
  \<^item> the string functions the sources call (\<open>str::trim\<close>, \<open>str::parse\<close>, \<open>strip_prefix\<close>,
    decimal formatting), over UTF-8 byte strings.
\<close>

named_theorems result_simps \<open>inversion of results: when a computation returned, and what\<close>
named_theorems invariants \<open>an operation keeps a well-formedness invariant\<close>

section \<open>Results and early returns\<close>

definition and_then :: "'e + 'a \<Rightarrow> ('a \<Rightarrow> 'e + 'b) \<Rightarrow> 'e + 'b" where
  "and_then r f = (case r of Inl e \<Rightarrow> Inl e | Inr x \<Rightarrow> f x)"

definition ok_or :: "'a option \<Rightarrow> 'e \<Rightarrow> 'e + 'a" where
  "ok_or v e = (case v of None \<Rightarrow> Inl e | Some x \<Rightarrow> Inr x)"

primrec try_all :: "('a \<Rightarrow> 'e + unit) \<Rightarrow> 'a list \<Rightarrow> 'e + unit" where
  "try_all f [] = Inr ()"
| "try_all f (x # xs) = and_then (f x) (\<lambda>_. try_all f xs)"

primrec try_fold :: "('s \<Rightarrow> 'a \<Rightarrow> 'e + 's) \<Rightarrow> 's \<Rightarrow> 'a list \<Rightarrow> 'e + 's" where
  "try_fold f s [] = Inr s"
| "try_fold f s (x # xs) = and_then (f s x) (\<lambda>t. try_fold f t xs)"

definition map_err :: "('e \<Rightarrow> 'f) \<Rightarrow> 'e + 'a \<Rightarrow> 'f + 'a" where
  "map_err f r = (case r of Inl e \<Rightarrow> Inl (f e) | Inr x \<Rightarrow> Inr x)"

text \<open>\<open>map\<close> and \<open>collect\<close> into a \<open>Result\<close>: the first error ends the traversal.\<close>

primrec try_map :: "('a \<Rightarrow> 'e + 'b) \<Rightarrow> 'a list \<Rightarrow> 'e + 'b list" where
  "try_map f [] = Inr []"
| "try_map f (x # xs) = and_then (f x) (\<lambda>y. and_then (try_map f xs) (\<lambda>ys. Inr (y # ys)))"

section \<open>Fixed-width integers\<close>

type_synonym u8 = "8 word"
type_synonym u32 = "32 word"
type_synonym u64 = "64 word"

definition usize_max :: nat where
  "usize_max = 18446744073709551615"

definition u32_max :: nat where
  "u32_max = 4294967295"

definition i64_min :: int where
  "i64_min = - 9223372036854775808"

definition i64_max :: int where
  "i64_max = 9223372036854775807"

definition is_i64 :: "int \<Rightarrow> bool" where
  "is_i64 v \<longleftrightarrow> i64_min \<le> v \<and> v \<le> i64_max"

definition checked_add :: "'l::len word \<Rightarrow> 'l word \<Rightarrow> 'l word option" where
  "checked_add a b = (if unat a + unat b < 2 ^ LENGTH('l) then Some (a + b) else None)"

definition saturating_add :: "'l::len word \<Rightarrow> 'l word \<Rightarrow> 'l word" where
  "saturating_add a b = (if unat a + unat b < 2 ^ LENGTH('l) then a + b else - 1)"

definition saturating_sub :: "'l::len word \<Rightarrow> 'l word \<Rightarrow> 'l word" where
  "saturating_sub a b = (if b \<le> a then a - b else 0)"

definition i64_checked_add :: "int \<Rightarrow> int \<Rightarrow> int option" where
  "i64_checked_add a b = (if is_i64 (a + b) then Some (a + b) else None)"

definition i64_checked_sub :: "int \<Rightarrow> int \<Rightarrow> int option" where
  "i64_checked_sub a b = (if is_i64 (a - b) then Some (a - b) else None)"

definition u32_try_from :: "nat \<Rightarrow> u32 option" where
  "u32_try_from n = (if n \<le> u32_max then Some (of_nat n) else None)"

definition u32_try_from_i64 :: "int \<Rightarrow> u32 option" where
  "u32_try_from_i64 v = (if 0 \<le> v \<and> v \<le> int u32_max then Some (of_int v) else None)"

text \<open>\<open>u64::try_from\<close> of a \<open>usize\<close>.\<close>

definition u64_try_from :: "nat \<Rightarrow> u64 option" where
  "u64_try_from n = (if n \<le> usize_max then Some (of_nat n) else None)"

definition saturating_mul :: "'l::len word \<Rightarrow> 'l word \<Rightarrow> 'l word" where
  "saturating_mul a b = (if unat a * unat b < 2 ^ LENGTH('l) then a * b else - 1)"

definition checked_mul :: "'l::len word \<Rightarrow> 'l word \<Rightarrow> 'l word option" where
  "checked_mul a b = (if unat a * unat b < 2 ^ LENGTH('l) then Some (a * b) else None)"

definition checked_pow :: "'l::len word \<Rightarrow> nat \<Rightarrow> 'l word option" where
  "checked_pow a n = (if unat a ^ n < 2 ^ LENGTH('l) then Some (a ^ n) else None)"

section \<open>Strings\<close>

text \<open>
  A \<open>String\<close> is its list of UTF-8 bytes; the derived \<open>Ord\<close> of the sources compares
  bytes lexicographically, as the order of \<open>List_Lexorder\<close> on \<open>char list\<close> does.
  \<open>str::trim\<close> removes the characters with the Unicode property White\_Space at both
  ends; the byte sequences below are their encodings.
\<close>

definition byte :: "nat \<Rightarrow> char" where
  "byte n = char_of n"

definition ascii_white_space :: "char \<Rightarrow> bool" where
  "ascii_white_space c \<longleftrightarrow> (let n = of_char c :: nat in (9 \<le> n \<and> n \<le> 13) \<or> n = 32)"

definition white_space2 :: "char \<Rightarrow> char \<Rightarrow> bool" where
  "white_space2 a b \<longleftrightarrow>
     (of_char a :: nat) = 194 \<and> ((of_char b :: nat) = 133 \<or> (of_char b :: nat) = 160)"

definition white_space3 :: "char \<Rightarrow> char \<Rightarrow> char \<Rightarrow> bool" where
  "white_space3 a b c \<longleftrightarrow>
     (let x = of_char a; y = of_char b; z = of_char c :: nat in
        (x = 225 \<and> y = 154 \<and> z = 128) \<or>
        (x = 226 \<and> y = 128 \<and> ((128 \<le> z \<and> z \<le> 138) \<or> z = 168 \<or> z = 169 \<or> z = 175)) \<or>
        (x = 226 \<and> y = (129 :: nat) \<and> z = 159) \<or>
        (x = (227 :: nat) \<and> y = 128 \<and> z = 128))"

fun trim_start :: "string \<Rightarrow> string" where
  "trim_start (a # b # c # s) =
     (if ascii_white_space a then trim_start (b # c # s)
      else if white_space2 a b then trim_start (c # s)
      else if white_space3 a b c then trim_start s
      else a # b # c # s)"
| "trim_start [a, b] =
     (if ascii_white_space a then trim_start [b]
      else if white_space2 a b then [] else [a, b])"
| "trim_start [a] = (if ascii_white_space a then [] else [a])"
| "trim_start [] = []"

fun trim_end_rev :: "string \<Rightarrow> string" where
  "trim_end_rev (a # b # c # s) =
     (if ascii_white_space a then trim_end_rev (b # c # s)
      else if white_space2 b a then trim_end_rev (c # s)
      else if white_space3 c b a then trim_end_rev s
      else a # b # c # s)"
| "trim_end_rev [a, b] =
     (if ascii_white_space a then trim_end_rev [b]
      else if white_space2 b a then [] else [a, b])"
| "trim_end_rev [a] = (if ascii_white_space a then [] else [a])"
| "trim_end_rev [] = []"

definition trim :: "string \<Rightarrow> string" where
  "trim s = rev (trim_end_rev (rev (trim_start s)))"

text \<open>The test \<open>value.trim().is_empty()\<close> of the sources.\<close>

definition is_blank :: "string \<Rightarrow> bool" where
  "is_blank s \<longleftrightarrow> trim s = []"

text \<open>A byte that is no part of a white space character.\<close>

definition printable :: "char \<Rightarrow> bool" where
  "printable c \<longleftrightarrow> 33 \<le> (of_char c :: nat) \<and> (of_char c :: nat) < 127"

fun strip_prefix :: "string \<Rightarrow> string \<Rightarrow> string option" where
  "strip_prefix [] s = Some s"
| "strip_prefix (p # ps) [] = None"
| "strip_prefix (p # ps) (c # s) = (if p = c then strip_prefix ps s else None)"

definition strip_suffix_char :: "char \<Rightarrow> string \<Rightarrow> string option" where
  "strip_suffix_char c s = (if s \<noteq> [] \<and> last s = c then Some (butlast s) else None)"

definition digit_value :: "char \<Rightarrow> nat option" where
  "digit_value c =
     (let n = of_char c :: nat in if 48 \<le> n \<and> n \<le> 57 then Some (n - 48) else None)"

fun parse_digits :: "nat \<Rightarrow> string \<Rightarrow> nat option" where
  "parse_digits acc [] = Some acc"
| "parse_digits acc (c # s) =
     (case digit_value c of None \<Rightarrow> None | Some d \<Rightarrow> parse_digits (10 * acc + d) s)"

text \<open>\<open>str::parse::<i64>\<close>: an optional sign, at least one digit, and the value in range.\<close>

definition parse_i64 :: "string \<Rightarrow> int option" where
  "parse_i64 s =
     (let (negative, digits) =
        (case s of [] \<Rightarrow> (False, [])
         | c # cs \<Rightarrow> if c = CHR ''-'' then (True, cs) else if c = CHR ''+'' then (False, cs)
                    else (False, s))
      in if digits = [] then None
         else case parse_digits 0 digits of
                None \<Rightarrow> None
              | Some n \<Rightarrow> (let v = (if negative then - int n else int n)
                          in if is_i64 v then Some v else None))"

text \<open>\<open>str::parse\<close> at an unsigned type: an optional plus sign, digits, and the value in range.\<close>

definition parse_unsigned :: "string \<Rightarrow> 'l::len word option" where
  "parse_unsigned s =
     (let digits = (case s of c # cs \<Rightarrow> if c = CHR ''+'' then cs else s | [] \<Rightarrow> []) in
      if digits = [] then None
      else case parse_digits 0 digits of
             None \<Rightarrow> None
           | Some n \<Rightarrow> if n < 2 ^ LENGTH('l) then Some (of_nat n) else None)"

text \<open>\<open>str::split_once\<close> and \<open>str::split\<close> at an ASCII character.\<close>

fun split_once :: "char \<Rightarrow> string \<Rightarrow> (string \<times> string) option" where
  "split_once c [] = None"
| "split_once c (x # xs) =
     (if x = c then Some ([], xs)
      else map_option (\<lambda>(a, b). (x # a, b)) (split_once c xs))"

fun split_on :: "char \<Rightarrow> string \<Rightarrow> string list" where
  "split_on c [] = [[]]"
| "split_on c (x # xs) =
     (if x = c then [] # split_on c xs
      else case split_on c xs of [] \<Rightarrow> [[x]] | p # ps \<Rightarrow> (x # p) # ps)"

text \<open>The decimal \<open>Display\<close> of an unsigned integer.\<close>

fun show_nat :: "nat \<Rightarrow> string" where
  "show_nat n = (if n < 10 then [byte (48 + n)] else show_nat (n div 10) @ [byte (48 + n mod 10)])"

declare show_nat.simps [simp del]

section \<open>Lemmas on results\<close>

lemma and_then_simps [simp]:
  "and_then (Inl e) f = Inl e"
  "and_then (Inr x) f = f x"
  by (simp_all add: and_then_def)

lemma and_then_Inr [result_simps]:
  "and_then r f = Inr y \<longleftrightarrow> (\<exists>x. r = Inr x \<and> f x = Inr y)"
  by (cases r) simp_all

lemma and_then_Inl [result_simps]:
  "and_then r f = Inl e \<longleftrightarrow> r = Inl e \<or> (\<exists>x. r = Inr x \<and> f x = Inl e)"
  by (cases r) simp_all

lemma and_then_cong [fundef_cong]:
  "r = r' \<Longrightarrow> (\<And>x. r' = Inr x \<Longrightarrow> f x = f' x) \<Longrightarrow> and_then r f = and_then r' f'"
  by (cases r') simp_all

lemma ok_or_simps [simp]:
  "ok_or None e = Inl e"
  "ok_or (Some x) e = Inr x"
  by (simp_all add: ok_or_def)

lemma ok_or_Inr [result_simps]: "ok_or v e = Inr x \<longleftrightarrow> v = Some x"
  by (cases v) simp_all

lemma ok_or_Inl [result_simps]: "ok_or v e = Inl e' \<longleftrightarrow> v = None \<and> e' = e"
  by (cases v) auto

lemma if_Inl_Inr [result_simps]:
  "(if b then Inl e else r) = Inr y \<longleftrightarrow> \<not> b \<and> r = Inr y"
  by simp

lemma try_all_Inr [result_simps]: "try_all f xs = Inr u \<longleftrightarrow> (\<forall>x \<in> set xs. f x = Inr ())"
  by (induction xs) (auto simp: and_then_Inr)

lemma try_all_Inl:
  "try_all f xs = Inl e \<Longrightarrow> \<exists>x \<in> set xs. f x = Inl e"
  by (induction xs) (auto simp: and_then_Inl)

lemma try_fold_append:
  "try_fold f s (xs @ ys) = and_then (try_fold f s xs) (\<lambda>t. try_fold f t ys)"
proof (induction xs arbitrary: s)
  case (Cons x xs)
  then show ?case by (cases "f s x") simp_all
qed simp

text \<open>The loop rule: what each iteration that does not return early keeps, the loop keeps.\<close>

lemma try_fold_invariant:
  assumes "try_fold f s xs = Inr t" and "P s"
    and "\<And>s x s'. x \<in> set xs \<Longrightarrow> P s \<Longrightarrow> f s x = Inr s' \<Longrightarrow> P s'"
  shows "P t"
  using assms
proof (induction xs arbitrary: s)
  case (Cons x xs)
  from Cons.prems(1) obtain u where u: "f s x = Inr u" "try_fold f u xs = Inr t"
    by (auto simp: and_then_Inr)
  have "P u" using Cons.prems(2) u(1) by (rule Cons.prems(3) [rotated]) simp
  with u(2) show ?case
  proof (rule Cons.IH)
    show "P s'" if "y \<in> set xs" "P s" "f s y = Inr s'" for s y s'
      using that(2,3) by (rule Cons.prems(3) [rotated]) (simp add: that(1))
  qed
qed simp

lemma try_fold_error:
  assumes "try_fold f s xs = Inl e"
  shows "\<exists>t x. x \<in> set xs \<and> f t x = Inl e"
  using assms
proof (induction xs arbitrary: s)
  case (Cons x xs)
  then show ?case by (auto simp: and_then_Inl) blast
qed simp

lemma map_err_simps [simp]:
  "map_err f (Inl e) = Inl (f e)"
  "map_err f (Inr x) = Inr x"
  by (simp_all add: map_err_def)

lemma map_err_Inr [result_simps]: "map_err f r = Inr x \<longleftrightarrow> r = Inr x"
  by (cases r) simp_all

lemma try_map_Inr [result_simps]:
  "try_map f xs = Inr ys \<longleftrightarrow> list_all2 (\<lambda>x y. f x = Inr y) xs ys"
  by (induction xs arbitrary: ys) (auto simp: and_then_Inr list_all2_Cons1)

section \<open>Lemmas on fixed-width integers\<close>

lemma checked_add_Some:
  "checked_add a b = Some c \<longleftrightarrow> c = a + b \<and> unat a + unat b < 2 ^ LENGTH('l)"
  for a b c :: "'l::len word"
  by (auto simp: checked_add_def)

lemma unat_checked_add:
  "checked_add a b = Some c \<Longrightarrow> unat c = unat a + unat b"
  by (auto simp: checked_add_def unat_word_ariths split: if_splits)

lemma checked_add_saturating: "checked_add a b = Some c \<Longrightarrow> saturating_add a b = c"
  by (auto simp: checked_add_def saturating_add_def split: if_splits)

lemma unat_saturating_add:
  "unat (saturating_add a b) = min (unat a + unat b) (2 ^ LENGTH('l) - 1)"
  for a b :: "'l::len word"
  by (auto simp: saturating_add_def unat_word_ariths unsigned_minus_1_eq_mask mask_eq_exp_minus_1)

lemma saturating_add_one_nonzero: "saturating_add a 1 \<noteq> 0" for a :: "'l::len word"
proof -
  have "0 < LENGTH('l)" by (rule len_gt_0)
  then have "(2::nat) \<le> 2 ^ LENGTH('l)"
    using self_le_power [of "2::nat" "LENGTH('l)"] by simp
  then have "0 < unat (saturating_add a 1)"
    by (simp add: unat_saturating_add)
  then show ?thesis by auto
qed

lemma unat_saturating_sub: "unat (saturating_sub a b) = unat a - unat b"
  by (auto simp: saturating_sub_def unat_sub word_le_nat_alt)

lemma saturating_sub_one: "0 < a \<Longrightarrow> saturating_sub a 1 = a - 1" for a :: "'l::len word"
  by (simp add: saturating_sub_def word_le_nat_alt word_less_nat_alt Suc_leI)

lemma u32_try_from_Some:
  "u32_try_from n = Some w \<longleftrightarrow> n \<le> u32_max \<and> w = of_nat n"
  by (auto simp: u32_try_from_def)

lemma unat_u32_try_from: "u32_try_from n = Some w \<Longrightarrow> unat w = n"
  by (auto simp: u32_try_from_def u32_max_def unat_of_nat split: if_splits)

lemma u64_try_from_Some: "u64_try_from n = Some w \<longleftrightarrow> n \<le> usize_max \<and> w = of_nat n"
  by (auto simp: u64_try_from_def)

lemma unat_u64_try_from: "u64_try_from n = Some w \<Longrightarrow> unat w = n"
  by (auto simp: u64_try_from_def usize_max_def unat_of_nat split: if_splits)

lemma unat_saturating_mul:
  "unat (saturating_mul a b) = min (unat a * unat b) (2 ^ LENGTH('l) - 1)"
  for a b :: "'l::len word"
  by (auto simp: saturating_mul_def unat_word_ariths unsigned_minus_1_eq_mask mask_eq_exp_minus_1)

lemma printable_not_white:
  assumes "printable c"
  shows "\<not> ascii_white_space c" and "\<not> white_space2 c x" and "\<not> white_space2 x c"
    and "\<not> white_space3 c x y" and "\<not> white_space3 x c y" and "\<not> white_space3 x y c"
  using assms
  by (simp_all add: printable_def ascii_white_space_def white_space2_def white_space3_def)

lemma trim_start_printable: "printable c \<Longrightarrow> c \<in> set s \<Longrightarrow> c \<in> set (trim_start s)"
  by (induction s rule: trim_start.induct) (auto simp: printable_not_white)

lemma trim_end_printable: "printable c \<Longrightarrow> c \<in> set s \<Longrightarrow> c \<in> set (trim_end_rev s)"
  by (induction s rule: trim_end_rev.induct) (auto simp: printable_not_white)

lemma not_blank:
  assumes "printable c" and "c \<in> set s"
  shows "\<not> is_blank s"
  using trim_end_printable [of c "rev (trim_start s)"] trim_start_printable [of c s] assms
  by (auto simp: is_blank_def trim_def)

section \<open>Decimal numbers\<close>

lemma parse_digits_append:
  "parse_digits acc (s @ t) = Option.bind (parse_digits acc s) (\<lambda>acc. parse_digits acc t)"
  by (induction s arbitrary: acc) (auto split: option.split)

lemma digit_value_byte: "d < 10 \<Longrightarrow> digit_value (byte (48 + d)) = Some d"
  by (simp add: digit_value_def byte_def)

lemma parse_show_nat: "parse_digits 0 (show_nat n) = Some n"
proof (induction n rule: show_nat.induct)
  case (1 n)
  show ?case
  proof (cases "n < 10")
    case True
    then show ?thesis by (subst show_nat.simps) (simp add: digit_value_byte)
  next
    case False
    have "digit_value (byte (48 + n mod 10)) = Some (n mod 10)" by (rule digit_value_byte) simp
    then show ?thesis
      using 1 False by (subst show_nat.simps) (simp add: parse_digits_append)
  qed
qed

lemma show_nat_inject [simp]: "show_nat m = show_nat n \<longleftrightarrow> m = n"
  using parse_show_nat by (metis option.inject)

lemma show_nat_digits: "list_all (\<lambda>c. digit_value c \<noteq> None) (show_nat n)"
proof (induction n rule: show_nat.induct)
  case (1 n)
  have "digit_value (byte (48 + n mod 10)) = Some (n mod 10)" by (rule digit_value_byte) simp
  then show ?case
    using 1 by (subst show_nat.simps) (auto simp: digit_value_byte)
qed

lemma show_nat_nonempty [simp]: "show_nat n \<noteq> []"
  by (subst show_nat.simps) simp

lemma digit_not_plus: "digit_value c \<noteq> None \<Longrightarrow> c \<noteq> CHR ''+''"
  by (auto simp: digit_value_def)

lemma parse_unsigned_digits:
  assumes "s \<noteq> []" and "list_all (\<lambda>c. digit_value c \<noteq> None) s" and "parse_digits 0 s = Some n"
    and "n < 2 ^ LENGTH('l)"
  shows "parse_unsigned s = Some (of_nat n :: 'l::len word)"
proof (cases s)
  case (Cons c cs)
  then have "c \<noteq> CHR ''+''" using assms(2) digit_not_plus [of c] by simp
  then show ?thesis
    using assms(3,4) Cons unfolding parse_unsigned_def by (simp del: parse_digits.simps)
qed (use assms(1) in simp)

lemma parse_unsigned_shown:
  "n < 2 ^ LENGTH('l) \<Longrightarrow> parse_unsigned (show_nat n) = Some (of_nat n :: 'l::len word)"
  by (rule parse_unsigned_digits [OF _ show_nat_digits parse_show_nat]) simp_all

lemma split_once_absent: "c \<notin> set s \<Longrightarrow> split_once c s = None"
  by (induction s) auto

lemma split_once_found: "c \<notin> set s \<Longrightarrow> split_once c (s @ c # t) = Some (s, t)"
  by (induction s) auto

lemma dot_not_shown: "CHR ''.'' \<notin> set (show_nat n)"
  using show_nat_digits [of n] by (auto simp: list_all_iff digit_value_def)

lemmas split_once_shown = split_once_absent [OF dot_not_shown] split_once_found [OF dot_not_shown]

lemma trim_start_id: "printable c \<Longrightarrow> trim_start (c # s) = c # s"
  by (cases "c # s" rule: trim_start.cases) (auto simp: printable_not_white)

lemma trim_end_rev_id: "printable c \<Longrightarrow> trim_end_rev (c # s) = c # s"
  by (cases "c # s" rule: trim_end_rev.cases) (auto simp: printable_not_white)

lemma trim_id: "printable a \<Longrightarrow> printable z \<Longrightarrow> trim (a # s @ [z]) = a # s @ [z]"
  by (simp add: trim_def trim_start_id trim_end_rev_id)

lemma unat_u32_max: "unat (w :: u32) \<le> u32_max"
proof -
  have "unat w < 2 ^ LENGTH(32)" by (rule unsigned_less)
  then show ?thesis by (simp add: u32_max_def)
qed

end
