(* ===== verification/BTree.thy ===== *)
theory BTree
  imports Prelude
begin

text \<open>
  \<open>BTreeMap\<close> and \<open>BTreeSet\<close> of the Rust standard library, which hold every piece of
  workflow state. A map is its list of entries in ascending key order, which is what
  \<open>iter\<close>, \<open>keys\<close> and \<open>values\<close> enumerate; a set is its ascending list of elements.
  The contract the components rely on is the locale \<open>ordered_map\<close> (lookup laws, key
  order, extensionality), interpreted on these operations at the end.
\<close>

section \<open>Operations\<close>

type_synonym ('k, 'v) btree_map = "('k \<times> 'v) list"
type_synonym 'a btree_set = "'a list"

definition bt_get :: "('k, 'v) btree_map \<Rightarrow> 'k \<Rightarrow> 'v option" where
  "bt_get m k = map_of m k"

fun bt_insert :: "'k::linorder \<Rightarrow> 'v \<Rightarrow> ('k, 'v) btree_map \<Rightarrow> ('k, 'v) btree_map" where
  "bt_insert k v [] = [(k, v)]"
| "bt_insert k v ((a, b) # m) =
     (if k < a then (k, v) # (a, b) # m
      else if k = a then (k, v) # m
      else (a, b) # bt_insert k v m)"

definition bt_remove :: "'k \<Rightarrow> ('k, 'v) btree_map \<Rightarrow> ('k, 'v) btree_map" where
  "bt_remove k m = filter (\<lambda>e. fst e \<noteq> k) m"

definition bt_retain :: "('k \<Rightarrow> 'v \<Rightarrow> bool) \<Rightarrow> ('k, 'v) btree_map \<Rightarrow> ('k, 'v) btree_map" where
  "bt_retain p m = filter (\<lambda>e. p (fst e) (snd e)) m"

definition bt_keys :: "('k, 'v) btree_map \<Rightarrow> 'k list" where
  "bt_keys m = map fst m"

definition bt_values :: "('k, 'v) btree_map \<Rightarrow> 'v list" where
  "bt_values m = map snd m"

definition bt_contains_key :: "('k, 'v) btree_map \<Rightarrow> 'k \<Rightarrow> bool" where
  "bt_contains_key m k \<longleftrightarrow> bt_get m k \<noteq> None"

text \<open>\<open>Extend\<close>, and \<open>collect\<close> when the first map is empty: later entries win.\<close>

definition bt_extend ::
  "('k::linorder, 'v) btree_map \<Rightarrow> ('k \<times> 'v) list \<Rightarrow> ('k, 'v) btree_map" where
  "bt_extend m es = foldl (\<lambda>acc (k, v). bt_insert k v acc) m es"

fun bs_insert :: "'a::linorder \<Rightarrow> 'a btree_set \<Rightarrow> 'a btree_set" where
  "bs_insert x [] = [x]"
| "bs_insert x (y # ys) =
     (if x < y then x # y # ys else if x = y then y # ys else y # bs_insert x ys)"

definition bs_remove :: "'a \<Rightarrow> 'a btree_set \<Rightarrow> 'a btree_set" where
  "bs_remove x s = filter (\<lambda>y. y \<noteq> x) s"

definition bs_collect :: "'a::linorder list \<Rightarrow> 'a btree_set" where
  "bs_collect xs = foldl (\<lambda>acc x. bs_insert x acc) [] xs"

definition bt_sorted :: "('k::linorder, 'v) btree_map \<Rightarrow> bool" where
  "bt_sorted m \<longleftrightarrow> sorted_wrt (<) (map fst m)"

definition bs_sorted :: "'a::linorder btree_set \<Rightarrow> bool" where
  "bs_sorted s \<longleftrightarrow> sorted_wrt (<) s"

section \<open>Lookup laws\<close>

lemma bt_get_empty [simp]: "bt_get [] k = None"
  by (simp add: bt_get_def)

lemma bt_get_Cons: "bt_get ((a, b) # m) k = (if k = a then Some b else bt_get m k)"
  by (simp add: bt_get_def)

lemma bt_get_insert [simp]:
  "bt_get (bt_insert k v m) k' = (if k' = k then Some v else bt_get m k')"
  by (induction k v m rule: bt_insert.induct) (auto simp: bt_get_def)

lemma bt_get_filter_key:
  "bt_get (filter (\<lambda>e. P (fst e)) m) k = (if P k then bt_get m k else None)"
  by (induction m) (auto simp: bt_get_def)

lemma bt_get_remove [simp]: "bt_get (bt_remove k m) k' = (if k' = k then None else bt_get m k')"
  using bt_get_filter_key [of "\<lambda>a. a \<noteq> k" m k'] by (simp add: bt_remove_def)

lemma bt_contains_insert [simp]:
  "bt_contains_key (bt_insert k v m) k' \<longleftrightarrow> k' = k \<or> bt_contains_key m k'"
  by (simp add: bt_contains_key_def)

lemma bt_get_None_iff: "bt_get m k = None \<longleftrightarrow> k \<notin> set (bt_keys m)"
  by (simp add: bt_get_def bt_keys_def map_of_eq_None_iff)

lemma bt_contains_key_iff: "bt_contains_key m k \<longleftrightarrow> k \<in> set (bt_keys m)"
  by (simp add: bt_contains_key_def bt_get_None_iff)

lemma bt_get_in_set: "bt_get m k = Some v \<Longrightarrow> (k, v) \<in> set m"
  by (simp add: bt_get_def map_of_SomeD)

lemma bt_get_in_values: "bt_get m k = Some v \<Longrightarrow> v \<in> set (bt_values m)"
  unfolding bt_values_def by (drule bt_get_in_set) force

lemma bt_insert_nonempty [simp]: "bt_insert k v m \<noteq> []"
  by (induction k v m rule: bt_insert.induct) auto

lemma bt_empty_iff: "m = [] \<longleftrightarrow> (\<forall>k. bt_get m k = None)"
  by (cases m) (auto simp: bt_get_Cons split: if_splits)

lemma set_bt_insert_subset: "set (bt_insert k v m) \<subseteq> insert (k, v) (set m)"
  by (induction k v m rule: bt_insert.induct) auto

lemma ball_bt_insert:
  "\<forall>x \<in> set m. P x \<Longrightarrow> P (k, v) \<Longrightarrow> \<forall>x \<in> set (bt_insert k v m). P x"
  using set_bt_insert_subset [of k v m] by blast

lemma keys_bt_insert: "set (bt_keys (bt_insert k v m)) = insert k (set (bt_keys m))"
  by (induction k v m rule: bt_insert.induct) (auto simp: bt_keys_def)

lemma values_bt_insert: "set (bt_values (bt_insert k v m)) \<subseteq> insert v (set (bt_values m))"
  using set_bt_insert_subset [of k v m] by (force simp: bt_values_def)

lemma values_bt_remove: "set (bt_values (bt_remove k m)) \<subseteq> set (bt_values m)"
  by (auto simp: bt_values_def bt_remove_def)

section \<open>Key order\<close>

lemma bt_sorted_simps [simp]:
  "bt_sorted []"
  "bt_sorted ((k, v) # m) \<longleftrightarrow> (\<forall>a \<in> set (bt_keys m). k < a) \<and> bt_sorted m"
  by (auto simp: bt_sorted_def bt_keys_def)

lemma bt_sorted_insert [invariants]: "bt_sorted m \<Longrightarrow> bt_sorted (bt_insert k v m)"
proof (induction k v m rule: bt_insert.induct)
  case (2 k v a b m)
  have keys: "set (bt_keys (bt_insert k v m)) = insert k (set (bt_keys m))"
    by (rule keys_bt_insert)
  show ?case
    using 2 keys by (cases k a rule: linorder_cases) (auto simp: bt_keys_def)
qed (simp add: bt_keys_def)

lemma bt_sorted_filter [invariants]: "bt_sorted m \<Longrightarrow> bt_sorted (filter P m)"
  by (induction m) (auto simp: bt_sorted_def)

lemma bt_sorted_remove [invariants]: "bt_sorted m \<Longrightarrow> bt_sorted (bt_remove k m)"
  by (simp add: bt_remove_def bt_sorted_filter)

lemma bt_sorted_retain [invariants]: "bt_sorted m \<Longrightarrow> bt_sorted (bt_retain p m)"
  by (simp add: bt_retain_def bt_sorted_filter)

lemma bt_sorted_extend [invariants]: "bt_sorted m \<Longrightarrow> bt_sorted (bt_extend m es)"
  unfolding bt_extend_def by (induction es arbitrary: m) (auto intro: bt_sorted_insert)

lemma bt_sorted_distinct: "bt_sorted m \<Longrightarrow> distinct (map fst m)"
  by (auto simp: bt_sorted_def intro: strict_sorted_imp_sorted dest: strict_sorted_iff [THEN iffD1])

lemma bt_get_iff: "bt_sorted m \<Longrightarrow> bt_get m k = Some v \<longleftrightarrow> (k, v) \<in> set m"
  by (simp add: bt_get_def bt_sorted_distinct)

lemma bt_in_values_iff: "bt_sorted m \<Longrightarrow> v \<in> set (bt_values m) \<longleftrightarrow> (\<exists>k. bt_get m k = Some v)"
  by (force simp: bt_values_def bt_get_iff)

lemma bt_get_retain:
  assumes "bt_sorted m"
  shows "bt_get (bt_retain p m) k =
    (case bt_get m k of None \<Rightarrow> None | Some v \<Rightarrow> if p k v then Some v else None)"
proof (cases "bt_get m k")
  case None
  then have "k \<notin> set (bt_keys (bt_retain p m))"
    by (auto simp: bt_get_None_iff bt_keys_def bt_retain_def)
  then have "bt_get (bt_retain p m) k = None" by (simp add: bt_get_None_iff)
  with None show ?thesis by simp
next
  case (Some v)
  have sorted: "bt_sorted (bt_retain p m)"
    by (rule bt_sorted_retain [OF assms])
  have unique: "w = v" if "(k, w) \<in> set m" for w
    using that Some assms by (simp add: bt_get_iff [symmetric])
  show ?thesis
  proof (cases "p k v")
    case True
    with Some have "(k, v) \<in> set (bt_retain p m)"
      by (simp add: bt_retain_def bt_get_in_set)
    then show ?thesis using True Some sorted by (simp add: bt_get_iff)
  next
    case False
    then have "k \<notin> set (bt_keys (bt_retain p m))"
      using unique by (auto simp: bt_keys_def bt_retain_def)
    then show ?thesis using False Some by (simp add: bt_get_None_iff)
  qed
qed

text \<open>A map in key order is determined by what lookups return.\<close>

lemma bt_extensional:
  "bt_sorted m \<Longrightarrow> bt_sorted n \<Longrightarrow> (\<And>k. bt_get m k = bt_get n k) \<Longrightarrow> m = n"
proof (induction m arbitrary: n)
  case Nil
  then have "\<forall>k. bt_get n k = None" by (metis bt_get_empty)
  then show ?case by (simp add: bt_empty_iff [symmetric])
next
  case (Cons e m)
  obtain k v where e: "e = (k, v)" by (cases e)
  obtain k' v' n' where n: "n = (k', v') # n'"
    using Cons.prems(3) [of k] by (cases n) (auto simp: e bt_get_Cons)
  have m_above: "bt_get m a = None" if "a \<le> k" for a
    using Cons.prems(1) that by (auto simp: e bt_get_None_iff)
  have n_above: "bt_get n' a = None" if "a \<le> k'" for a
    using Cons.prems(2) that by (auto simp: n bt_get_None_iff)
  have kk: "k = k'"
  proof (rule ccontr)
    assume "k \<noteq> k'"
    then have "bt_get n' k \<noteq> None" and "bt_get m k' \<noteq> None"
      using Cons.prems(3) [of k, symmetric] Cons.prems(3) [of k']
      by (auto simp: e n bt_get_Cons split: if_splits)
    with m_above [of k'] n_above [of k] show False by (meson linear)
  qed
  have "bt_get m a = bt_get n' a" for a
    using Cons.prems(3) [of a] m_above n_above by (cases "a = k") (auto simp: e n kk bt_get_Cons)
  then have "m = n'"
    using Cons.prems(1,2) by (intro Cons.IH) (auto simp: e n)
  moreover have "v = v'"
    using Cons.prems(3) [of k] by (simp add: e n kk bt_get_Cons)
  ultimately show ?case by (simp add: e n kk)
qed

section \<open>Sets\<close>

lemma set_bs_insert [simp]: "set (bs_insert x s) = insert x (set s)"
  by (induction x s rule: bs_insert.induct) auto

lemma set_bs_remove [simp]: "set (bs_remove x s) = set s - {x}"
  by (auto simp: bs_remove_def)

lemma bs_sorted_simps [simp]:
  "bs_sorted []"
  "bs_sorted (x # s) \<longleftrightarrow> (\<forall>y \<in> set s. x < y) \<and> bs_sorted s"
  by (auto simp: bs_sorted_def)

lemma bs_sorted_insert [invariants]: "bs_sorted s \<Longrightarrow> bs_sorted (bs_insert x s)"
  by (induction x s rule: bs_insert.induct) auto

lemma bs_sorted_remove [invariants]: "bs_sorted s \<Longrightarrow> bs_sorted (bs_remove x s)"
  by (simp add: bs_remove_def bs_sorted_def sorted_wrt_filter)

lemma bs_collect_sorted: "bs_sorted s \<Longrightarrow> bs_sorted (foldl (\<lambda>acc x. bs_insert x acc) s xs)"
  by (induction xs arbitrary: s) (auto intro: bs_sorted_insert)

lemma bs_sorted_collect [invariants]: "bs_sorted (bs_collect xs)"
  by (simp add: bs_collect_def bs_collect_sorted)

lemma set_bs_collect [simp]: "set (bs_collect xs) = set xs"
proof -
  have "set (foldl (\<lambda>acc x. bs_insert x acc) s xs) = set s \<union> set xs" for s
    by (induction xs arbitrary: s) auto
  then show ?thesis by (simp add: bs_collect_def)
qed

lemma bs_sorted_distinct: "bs_sorted s \<Longrightarrow> distinct s"
  by (induction s) auto

lemma length_bs_sorted: "bs_sorted s \<Longrightarrow> length s = card (set s)"
  by (simp add: bs_sorted_distinct distinct_card)

lemma bs_collect_length: "length (bs_collect xs) = length xs \<longleftrightarrow> distinct xs"
  using length_bs_sorted [OF bs_sorted_collect, of xs]
  by (metis card_distinct distinct_card set_bs_collect)

lemma bs_insert_member: "bs_sorted s \<Longrightarrow> x \<in> set s \<Longrightarrow> bs_insert x s = s"
  by (induction s) auto

lemma length_bs_insert: "bs_sorted s \<Longrightarrow> x \<notin> set s \<Longrightarrow> length (bs_insert x s) = Suc (length s)"
  by (simp add: length_bs_sorted bs_sorted_insert)

lemma length_bs_remove: "bs_sorted s \<Longrightarrow> x \<in> set s \<Longrightarrow> length (bs_remove x s) = length s - 1"
  by (simp add: length_bs_sorted bs_sorted_remove)

section \<open>The contract of an ordered map\<close>

locale ordered_map =
  fixes lookup :: "'m \<Rightarrow> 'k::linorder \<Rightarrow> 'v option"
    and ins :: "'k \<Rightarrow> 'v \<Rightarrow> 'm \<Rightarrow> 'm"
    and del :: "'k \<Rightarrow> 'm \<Rightarrow> 'm"
    and invar :: "'m \<Rightarrow> bool"
  assumes lookup_ins: "lookup (ins k v m) a = (if a = k then Some v else lookup m a)"
    and lookup_del: "lookup (del k m) a = (if a = k then None else lookup m a)"
    and invar_ins: "invar m \<Longrightarrow> invar (ins k v m)"
    and invar_del: "invar m \<Longrightarrow> invar (del k m)"
    and extensional: "invar m \<Longrightarrow> invar n \<Longrightarrow> (\<And>a. lookup m a = lookup n a) \<Longrightarrow> m = n"
begin

lemma ins_ins_same: "invar m \<Longrightarrow> ins k w (ins k v m) = ins k w m"
  by (rule extensional) (auto simp: lookup_ins invar_ins)

lemma ins_ins_commute: "invar m \<Longrightarrow> k \<noteq> l \<Longrightarrow> ins k v (ins l w m) = ins l w (ins k v m)"
  by (rule extensional) (auto simp: lookup_ins invar_ins)

lemma ins_lookup_same: "invar m \<Longrightarrow> lookup m k = Some v \<Longrightarrow> ins k v m = m"
  by (rule extensional) (auto simp: lookup_ins invar_ins)

lemma del_ins_same: "invar m \<Longrightarrow> del k (ins k v m) = del k m"
  by (rule extensional) (auto simp: lookup_ins lookup_del invar_ins invar_del)

lemma del_absent: "invar m \<Longrightarrow> lookup m k = None \<Longrightarrow> del k m = m"
  by (rule extensional) (auto simp: lookup_del invar_del)

lemma invar_del_list: "invar m \<Longrightarrow> invar (foldl (\<lambda>acc k. del k acc) m ks)"
  by (induction ks arbitrary: m) (auto intro: invar_del)

lemma lookup_del_list:
  "lookup (foldl (\<lambda>acc k. del k acc) m ks) a = (if a \<in> set ks then None else lookup m a)"
  by (induction ks arbitrary: m) (auto simp: lookup_del)

end

interpretation bt: ordered_map bt_get bt_insert bt_remove bt_sorted
  by unfold_locales (auto intro: bt_sorted_insert bt_sorted_remove bt_extensional)

text \<open>
  Removing the entries that satisfy a predicate one key at a time is \<open>retain\<close> of the
  others: the two ways in which the sources disarm boundary events agree.
\<close>

lemma bt_remove_matching:
  assumes "bt_sorted m"
  shows "foldl (\<lambda>acc k. bt_remove k acc) m (bt_keys (bt_retain (\<lambda>_ v. p v) m)) =
    bt_retain (\<lambda>_ v. \<not> p v) m"
proof (rule bt_extensional)
  show "bt_sorted (foldl (\<lambda>acc k. bt_remove k acc) m (bt_keys (bt_retain (\<lambda>_ v. p v) m)))"
    by (rule bt.invar_del_list [OF assms])
  show "bt_sorted (bt_retain (\<lambda>_ v. \<not> p v) m)"
    by (rule bt_sorted_retain [OF assms])
  show "bt_get (foldl (\<lambda>acc k. bt_remove k acc) m (bt_keys (bt_retain (\<lambda>_ v. p v) m))) k =
    bt_get (bt_retain (\<lambda>_ v. \<not> p v) m) k" for k
    using bt_get_retain [OF assms, of "\<lambda>_ v. p v" k]
    by (auto simp: bt.lookup_del_list bt_get_retain [OF assms] bt_get_None_iff [symmetric]
        split: option.splits if_splits)
qed

text \<open>A key counter that drops entries at zero: what \<open>clear\<close>, \<open>extend\<close> and emptiness see.\<close>

lemma bt_get_extend_notin:
  "k \<notin> set (map fst es) \<Longrightarrow> bt_get (bt_extend m es) k = bt_get m k"
  unfolding bt_extend_def by (induction es arbitrary: m) auto

lemma bt_get_extend:
  "bt_get (bt_extend m es) k =
    (case map_of (rev es) k of None \<Rightarrow> bt_get m k | Some v \<Rightarrow> Some v)"
  unfolding bt_extend_def
proof (induction es arbitrary: m)
  case (Cons e es)
  then show ?case by (cases e) (auto simp: map_add_def split: option.splits)
qed simp

text \<open>Collecting the entries of a map gives the map.\<close>

lemma bt_extend_empty: "bt_sorted m \<Longrightarrow> bt_extend [] m = m"
proof (rule bt_extensional)
  assume "bt_sorted m"
  then have "map_of (rev m) k = bt_get m k" for k
    using map_of_inject_set [of "rev m" m] bt_sorted_distinct [of m] by (simp add: bt_get_def rev_map [symmetric])
  then show "bt_get (bt_extend [] m) k = bt_get m k" for k
    by (simp add: bt_get_extend split: option.split)
qed (simp_all add: bt_sorted_extend)

end
