(* ===== verification/Workflow_Types.thy ===== *)
theory Workflow_Types
  imports BTree
begin

text \<open>
  The data of \<open>crates/bpmp-domain-core/src/workflow.rs\<close> and \<open>identifiers.rs\<close>: compiled
  workflow definitions, commands, domain events, instance state and errors. A struct is a
  record whose fields carry a short prefix naming the struct; an enum is a datatype with
  the constructors of the source (prefixed where two enums share a name) and the fields in
  source order. Identifiers are the strings they wrap.
\<close>

section \<open>Identifiers\<close>

type_synonym tenant_id = string
type_synonym workflow_type = string
type_synonym workflow_version = string
type_synonym node_id = string
type_synonym task_type = string
type_synonym scope_instance_id = string
type_synonym case_id = string
type_synonym case_model_id = string
type_synonym plan_item_id = string
type_synonym sentry_id = string

text \<open>The constructor every identifier type shares: the value must not be blank.\<close>

definition identifier_new :: "string \<Rightarrow> string \<Rightarrow> string + string" where
  "identifier_new kind value = (if is_blank value then Inl kind else Inr value)"

section \<open>Values, guards and decision tables\<close>

datatype workflow_value =
    VBoolean bool
  | VInteger int
  | VString string
  | VList "workflow_value list"

datatype comparison_operator =
  Equal | NotEqual | LessThan | LessThanOrEqual | GreaterThan | GreaterThanOrEqual

record guard_expression =
  ge_variable :: string
  ge_operator :: comparison_operator
  ge_literal :: workflow_value

datatype boolean_expression =
    Comparison guard_expression
  | Conjunction "boolean_expression list"
  | Disjunction "boolean_expression list"
  | Negation boolean_expression
  | Constant bool

record guarded_transition =
  gt_target :: node_id
  gt_guard :: "guard_expression option"
  gt_expression :: "boolean_expression option"

record integer_interval =
  ii_lower :: "int option"
  ii_upper :: "int option"

datatype gateway_coverage_domain =
    CoverBoolean
  | CoverEnum "string list"
  | CoverInteger "integer_interval list"
  | CoverSymbolic

record gateway_coverage =
  gc_variable :: string
  gc_domain :: gateway_coverage_domain

datatype workflow_value_type = TBoolean | TInteger | TString

datatype hit_policy = Unique | First

datatype unary_test =
    TestAny
  | TestEqual workflow_value
  | TestIntegerInterval integer_interval

record decision_input =
  di_name :: string
  di_value_type :: workflow_value_type

record decision_output =
  do_name :: string
  do_value_type :: workflow_value_type

record decision_rule =
  dr_id :: string
  dr_input_tests :: "unary_test list"
  dr_output_values :: "workflow_value list"

record decision_table =
  dt_id :: string
  dt_hit_policy :: hit_policy
  dt_inputs :: "decision_input list"
  dt_outputs :: "decision_output list"
  dt_rules :: "decision_rule list"

section \<open>Workflow definitions\<close>

datatype node =
    Start node_id
  | ServiceTask task_type node_id
  | UserTask task_type string "string option" string node_id
  | ScriptTask task_type string string node_id
  | DecisionTask string node_id
  | CallActivity workflow_type "workflow_version option" node_id
  | SubProcess node_id node_id node_id
  | ExclusiveGateway "guarded_transition list" "gateway_coverage option"
  | ParallelSplit "node_id list" node_id
  | ParallelJoin node_id node_id
  | InclusiveSplit "guarded_transition list" "gateway_coverage option" node_id
  | InclusiveJoin node_id node_id
  | End

datatype boundary_timer_kind = TimerDate | TimerDuration | TimerCycle

datatype boundary_trigger =
    TriggerTimer boundary_timer_kind string
  | TriggerError "string option"
  | TriggerMessage string

record boundary_event_definition =
  be_id :: node_id
  be_cancel_activity :: bool
  be_target :: node_id
  be_trigger :: boundary_trigger

datatype multi_instance_mode = Sequential | Parallel

record multi_instance_definition =
  mi_mode :: multi_instance_mode
  mi_collection_expression :: "string option"
  mi_item_variable :: "string option"
  mi_cardinality_expression :: "string option"
  mi_max_parallelism :: "u32 option"
  mi_completion_condition :: "boolean_expression option"

datatype extension_property_value =
    PropString string
  | PropInteger int
  | PropBoolean bool
  | PropDurationMilliseconds u64

record extension_property =
  ep_namespace_uri :: string
  ep_element_name :: string
  ep_name :: string
  ep_value :: extension_property_value

record node_execution_metadata =
  nm_multi_instance :: "multi_instance_definition option"
  nm_properties :: "extension_property list"
  nm_owner_scope_id :: "node_id option"

record case_stage_definition =
  cs_id :: plan_item_id
  cs_name :: string
  cs_entry_sentry_ids :: "sentry_id list"
  cs_exit_sentry_ids :: "sentry_id list"

record case_milestone_definition =
  cm_id :: plan_item_id
  cm_name :: string
  cm_entry_sentry_ids :: "sentry_id list"

record case_sentry_definition =
  sentry_id_of :: sentry_id
  sentry_condition :: boolean_expression

record case_definition =
  cd_id :: case_model_id
  cd_name :: string
  cd_stages :: "case_stage_definition list"
  cd_milestones :: "case_milestone_definition list"
  cd_sentries :: "case_sentry_definition list"

record workflow_execution_contracts =
  ec_boundary_events :: "(node_id \<times> boundary_event_definition) list"
  ec_node_metadata :: "(node_id \<times> node_execution_metadata) list"
  ec_properties :: "extension_property list"
  ec_case_models :: "case_definition list"

record workflow_definition =
  wd_tenant_id :: tenant_id
  wd_workflow_type :: workflow_type
  wd_workflow_version :: workflow_version
  wd_start_node :: node_id
  wd_nodes :: "(node_id, node) btree_map"
  wd_decision_tables :: "(string, decision_table) btree_map"
  wd_boundary_events :: "(node_id, boundary_event_definition list) btree_map"
  wd_node_metadata :: "(node_id, node_execution_metadata) btree_map"
  wd_properties :: "extension_property list"
  wd_case_models :: "(case_model_id, case_definition) btree_map"

section \<open>Instance state\<close>

type_synonym variables = "(string, workflow_value) btree_map"

datatype lifecycle = Initial | Active node_id | Completed | TerminatedForCompliance

datatype case_lifecycle = CaseActive | CaseDone

datatype case_plan_item_kind = Stage | Milestone

datatype case_plan_item_status = ItemAvailable | ItemActive | ItemCompleted

record case_plan_item_state =
  pi_kind :: case_plan_item_kind
  pi_status :: case_plan_item_status

record active_case =
  ac_model_id :: case_model_id
  ac_lifecycle :: case_lifecycle
  ac_satisfied_sentries :: "sentry_id btree_set"
  ac_plan_items :: "(plan_item_id, case_plan_item_state) btree_map"

record active_multi_instance =
  am_task_type :: task_type
  am_mode :: multi_instance_mode
  am_total_instances :: u32
  am_next_iteration :: u32
  am_max_parallelism :: u32
  am_item_variable :: "string option"
  am_items :: "workflow_value list"
  am_active_iterations :: "u32 btree_set"
  am_completed_iterations :: "u32 btree_set"

record active_boundary_subscription =
  ab_attached_node_id :: node_id
  ab_target_node_id :: node_id
  ab_cancel_activity :: bool
  ab_trigger :: boundary_trigger
  ab_armed_at_epoch_ms :: u64

record active_execution_scope =
  as_scope_node_id :: node_id
  as_start_node_id :: node_id
  as_parent_scope_instance_id :: "scope_instance_id option"
  as_invocation :: u64

record pending_gateway_join =
  pj_expected_tokens :: u32
  pj_arrived_tokens :: u32

record instance_state =
  is_lifecycle :: lifecycle
  is_sequence :: u64
  is_variables :: variables
  is_active_tokens :: "(node_id, u32) btree_map"
  is_pending_gateway_joins :: "(node_id, pending_gateway_join) btree_map"
  is_active_multi_instances :: "(node_id, active_multi_instance) btree_map"
  is_active_boundary_subscriptions :: "(node_id, active_boundary_subscription) btree_map"
  is_active_scopes :: "(scope_instance_id, active_execution_scope) btree_map"
  is_scope_invocation_counts :: "(node_id, u64) btree_map"
  is_active_cases :: "(case_id, active_case) btree_map"

definition default_instance_state :: instance_state where
  "default_instance_state =
     \<lparr>is_lifecycle = Initial, is_sequence = 0, is_variables = [], is_active_tokens = [],
      is_pending_gateway_joins = [], is_active_multi_instances = [],
      is_active_boundary_subscriptions = [], is_active_scopes = [],
      is_scope_invocation_counts = [], is_active_cases = []\<rparr>"

section \<open>Commands and events\<close>

datatype (plugins only: code) command =
    ActivateCase case_id case_model_id u64
  | EvaluateCaseSentries case_id u64
  | StartWorkflow tenant_id u64
  | CompleteServiceTask node_id variables u64
  | CompleteUserTask node_id string u64
  | CompleteScriptTask node_id u64
  | CompleteMultiInstanceIteration node_id u32 u64
  | TriggerBoundaryEvent node_id u64

datatype (plugins only: code) domain_event =
    CaseActivated case_id case_model_id "plan_item_id list" "plan_item_id list" u64
  | CaseSentrySatisfied case_id sentry_id u64
  | CasePlanItemTransitioned case_id plan_item_id case_plan_item_kind case_plan_item_status
      "sentry_id list" u64
  | CaseCompleted case_id u64
  | WorkflowStarted tenant_id workflow_type workflow_version node_id u64
  | ServiceTaskActivated node_id task_type u64
  | ServiceTaskCompleted node_id variables u64
  | UserTaskActivated node_id task_type string "string option" u64
  | UserTaskCompleted node_id string string u64
  | UserTaskCancelled node_id string u64
  | ScriptTaskActivated node_id task_type string string u64
  | ScriptTaskCompleted node_id u64
  | DecisionTaskEvaluated node_id string variables u64
  | GatewaySplitActivated node_id node_id "node_id list" u64
  | GatewayTokenArrived node_id u64
  | GatewayJoined node_id u64
  | BoundaryEventArmed node_id node_id node_id bool boundary_trigger u64
  | BoundaryEventsDisarmed node_id "node_id list" u64
  | MultiInstanceStarted node_id task_type multi_instance_mode u32 u32 "string option"
      "workflow_value list" u64
  | MultiInstanceIterationActivated node_id task_type u32 "workflow_value option" u64
  | MultiInstanceIterationCompleted node_id u32 u64
  | MultiInstanceCompleted node_id bool "u32 list" u64
  | BoundaryEventTriggered node_id node_id node_id bool "u32 list" u32 u64
  | ScopeEntered scope_instance_id node_id node_id "scope_instance_id option" u64 u64
  | ScopeCompleted scope_instance_id node_id node_id u64
  | WorkflowBranchCompleted node_id u64
  | WorkflowCompleted u64
  | WorkflowTerminatedForCompliance string "u8 list" string u32 u64

section \<open>Errors\<close>

text \<open>
  \<open>DomainError\<close> has 85 variants. They are kept under their names, in four groups that
  follow where they arise: constructing a definition, evaluating guards and decision
  tables, the case runtime and the workflow runtime. A failed computation carries one of
  them, or \<open>Panic\<close> where the Rust code would panic (\<open>expect\<close>, \<open>unreachable!\<close>, arithmetic
  overflow in checked builds), so that absence of panics is a statement about the model.
\<close>

datatype (plugins only: code) definition_error =
    DuplicateCaseModel
  | DuplicateCaseSentry case_model_id
  | UnknownCaseSentry case_model_id sentry_id
  | DuplicateCasePlanItem plan_item_id
  | DuplicateNode node_id
  | InvalidStartNode node_id
  | MissingTransitionTarget node_id node_id
  | TransitionToStartNode node_id
  | UnreachableNode node_id
  | UnknownBoundaryOwner node_id
  | DuplicateBoundaryEvent node_id
  | UnknownNodeMetadataOwner node_id
  | InvalidScopeOwner node_id
  | RecursiveScopeOwnership node_id
  | ScopeBoundaryOwnershipMismatch node_id node_id
  | DuplicateNodeMetadata node_id
  | InvalidMultiInstance node_id string
  | InvalidExtensionProperty
  | DuplicateExtensionProperty
  | MissingDecisionTable string
  | DuplicateDecisionTable
  | InvalidDecisionTable string string
  | GatewayRequiresBranches node_id
  | GatewayRequiresDefaultOrCoverage node_id
  | GatewayCoverageWithDefault node_id
  | GatewayRequiresOneDefault node_id nat
  | InvalidGatewayCoverage node_id string
  | DuplicateGatewayTarget node_id node_id
  | InvalidGatewayPair node_id node_id

datatype evaluation_error =
    GuardVariableMissing string
  | GuardTypeMismatch string string string
  | ConflictingGuardRepresentations
  | AmbiguousGateway node_id
  | NoGatewayBranch node_id
  | AmbiguousDecisionTable string
  | NoDecisionRuleMatched string
  | DecisionInputMissing string string
  | DecisionInputTypeMismatch string string string string

datatype case_error =
    UnknownCaseModel case_model_id
  | UnknownCasePlanItem plan_item_id
  | CaseAlreadyActivated case_id
  | CaseNotActive case_id
  | CaseAlreadyCompleted case_id
  | NoCaseSentrySatisfied case_id

datatype (plugins only: code) activity_error =
    UnknownNode node_id
  | NodeIsNotServiceTask node_id
  | NodeIsNotUserTask node_id
  | InvalidUserTaskDecision node_id
  | NodeIsNotScriptTask node_id
  | NodeIsNotMultiInstanceActivity node_id
  | TaskNotActive node_id
  | MultiInstanceAlreadyActive node_id
  | MultiInstanceNotActive node_id
  | MultiInstanceIterationNotActive node_id u32
  | MultiInstanceActivationLimit node_id
  | MultiInstanceInputMissing node_id string
  | MultiInstanceCollectionTypeMismatch node_id string
  | InvalidMultiInstanceCardinality node_id string
  | MultiInstanceCardinalityMismatch node_id u32 u32
  | MultiInstanceCardinalityExceeded node_id u32 u32
  | UnknownBoundaryEvent node_id
  | BoundaryEventNotArmed node_id
  | BoundaryEventAlreadyArmed node_id
  | BoundarySubscriptionDefinitionMismatch node_id
  | BoundaryOwnerNotActive node_id
  | InterruptingScopeBoundaryUnsupported node_id

datatype (plugins only: code) runtime_error =
    AlreadyStarted
  | NotStarted
  | AlreadyCompleted
  | InstanceTerminatedForCompliance
  | TenantMismatch tenant_id tenant_id
  | ScopeAlreadyActive node_id
  | ScopeNotActive node_id
  | AmbiguousActiveScope node_id
  | ScopeContextMissing node_id
  | ScopeInvocationOverflow node_id
  | InvalidScopeInstanceIdentity node_id
  | ScopeInstanceNotActive scope_instance_id
  | ScopeInstanceOwnerMismatch scope_instance_id node_id node_id
  | AutomaticTransitionLimitExceeded node_id
  | JoinAlreadyPending node_id
  | UnexpectedGatewayJoin node_id
  | TokenCountOverflow node_id
  | EndReachedWithOutstandingTokens node_id
  | DecisionLimitExceeded u32 u32

datatype failure =
    DefinitionError definition_error
  | EvaluationError evaluation_error
  | CaseError case_error
  | ActivityError activity_error
  | RuntimeError runtime_error
  | Panic string

type_synonym 'a result = "failure + 'a"

abbreviation runtime_fail :: "runtime_error \<Rightarrow> 'a result" where
  "runtime_fail e \<equiv> Inl (RuntimeError e)"

abbreviation activity_fail :: "activity_error \<Rightarrow> 'a result" where
  "activity_fail e \<equiv> Inl (ActivityError e)"

abbreviation definition_fail :: "definition_error \<Rightarrow> 'a result" where
  "definition_fail e \<equiv> Inl (DefinitionError e)"

abbreviation evaluation_fail :: "evaluation_error \<Rightarrow> 'a result" where
  "evaluation_fail e \<equiv> Inl (EvaluationError e)"

abbreviation case_fail :: "case_error \<Rightarrow> 'a result" where
  "case_fail e \<equiv> Inl (CaseError e)"

text \<open>A computation is panic free when no run of it ends in \<open>Panic\<close>.\<close>

definition no_panic :: "'a result \<Rightarrow> bool" where
  "no_panic r \<longleftrightarrow> (\<forall>m. r \<noteq> Inl (Panic m))"

lemma no_panic_simps [simp]:
  "no_panic (Inr x)"
  "no_panic (Inl (DefinitionError de))"
  "no_panic (Inl (EvaluationError ee))"
  "no_panic (Inl (CaseError ce))"
  "no_panic (Inl (ActivityError ae))"
  "no_panic (Inl (RuntimeError re))"
  "no_panic (Inl (Panic m)) = False"
  by (auto simp: no_panic_def)

lemma no_panic_and_then [intro!]:
  "no_panic r \<Longrightarrow> (\<And>x. r = Inr x \<Longrightarrow> no_panic (f x)) \<Longrightarrow> no_panic (and_then r f)"
  by (cases r) (auto simp: no_panic_def)

lemma no_panic_ok_or [simp]: "no_panic (ok_or v e) \<longleftrightarrow> v \<noteq> None \<or> (\<forall>m. e \<noteq> Panic m)"
  by (cases v) (auto simp: no_panic_def)

lemma no_panic_try_all: "(\<And>x. x \<in> set xs \<Longrightarrow> no_panic (f x)) \<Longrightarrow> no_panic (try_all f xs)"
  by (induction xs) auto

lemma no_panic_try_fold:
  "(\<And>s x. x \<in> set xs \<Longrightarrow> no_panic (f s x)) \<Longrightarrow> no_panic (try_fold f s xs)"
  by (induction xs arbitrary: s) auto

end
