(* ===== verification/Expressions.thy ===== *)
theory Expressions
  imports Workflow_Types
begin

text \<open>
  Typed evaluation against the variables of an instance: guards, boolean expressions, the
  branch selection of exclusive and inclusive gateways, and decision tables
  (\<open>workflow.rs\<close>, \<open>select_transition\<close> to \<open>WorkflowValueType\<close>). A missing variable or a
  type mismatch is an error, never a false guard. Branch selection is compared with a
  reference definition (the list of enabled targets), and decision tables with the list of
  matching rules.
\<close>

section \<open>Comparison of values\<close>

datatype ordering = OrdLess | OrdEqual | OrdGreater

definition ord_cmp :: "'a::linorder \<Rightarrow> 'a \<Rightarrow> ordering" where
  "ord_cmp a b = (if a < b then OrdLess else if a = b then OrdEqual else OrdGreater)"

fun same_type_cmp :: "workflow_value \<Rightarrow> workflow_value \<Rightarrow> ordering option" where
  "same_type_cmp (VInteger left) (VInteger right) = Some (ord_cmp left right)"
| "same_type_cmp (VString left) (VString right) = Some (ord_cmp left right)"
| "same_type_cmp (VBoolean left) (VBoolean right) = Some (ord_cmp left right)"
| "same_type_cmp _ _ = None"

fun value_type_name :: "workflow_value \<Rightarrow> string" where
  "value_type_name (VBoolean _) = ''boolean''"
| "value_type_name (VInteger _) = ''integer''"
| "value_type_name (VString _) = ''string''"
| "value_type_name (VList _) = ''list''"

fun is_scalar :: "workflow_value \<Rightarrow> bool" where
  "is_scalar (VList _) = False"
| "is_scalar _ = True"

fun type_matches :: "workflow_value_type \<Rightarrow> workflow_value \<Rightarrow> bool" where
  "type_matches TBoolean (VBoolean _) = True"
| "type_matches TInteger (VInteger _) = True"
| "type_matches TString (VString _) = True"
| "type_matches _ _ = False"

fun type_type_name :: "workflow_value_type \<Rightarrow> string" where
  "type_type_name TBoolean = ''boolean''"
| "type_type_name TInteger = ''integer''"
| "type_type_name TString = ''string''"

fun operator_holds :: "comparison_operator \<Rightarrow> ordering \<Rightarrow> bool" where
  "operator_holds Equal c = (c = OrdEqual)"
| "operator_holds NotEqual c = (c \<noteq> OrdEqual)"
| "operator_holds LessThan c = (c = OrdLess)"
| "operator_holds LessThanOrEqual c = (c \<noteq> OrdGreater)"
| "operator_holds GreaterThan c = (c = OrdGreater)"
| "operator_holds GreaterThanOrEqual c = (c \<noteq> OrdLess)"

section \<open>Guards and boolean expressions\<close>

definition guard_evaluate :: "guard_expression \<Rightarrow> variables \<Rightarrow> bool result" where
  "guard_evaluate g vars =
     and_then (ok_or (bt_get vars (ge_variable g))
       (EvaluationError (GuardVariableMissing (ge_variable g)))) (\<lambda>actual.
     and_then (ok_or (same_type_cmp actual (ge_literal g))
       (EvaluationError (GuardTypeMismatch (ge_variable g) (value_type_name actual)
         (value_type_name (ge_literal g))))) (\<lambda>ordering.
     Inr (operator_holds (ge_operator g) ordering)))"

fun expression_evaluate :: "boolean_expression \<Rightarrow> variables \<Rightarrow> bool result"
  and conjunction_evaluate :: "boolean_expression list \<Rightarrow> variables \<Rightarrow> bool result"
  and disjunction_evaluate :: "boolean_expression list \<Rightarrow> variables \<Rightarrow> bool result" where
  "expression_evaluate (Comparison guard) vars = guard_evaluate guard vars"
| "expression_evaluate (Conjunction operands) vars = conjunction_evaluate operands vars"
| "expression_evaluate (Disjunction operands) vars = disjunction_evaluate operands vars"
| "expression_evaluate (Negation operand) vars =
     and_then (expression_evaluate operand vars) (\<lambda>b. Inr (\<not> b))"
| "expression_evaluate (Constant value) vars = Inr value"
| "conjunction_evaluate [] vars = Inr True"
| "conjunction_evaluate (operand # operands) vars =
     and_then (expression_evaluate operand vars)
       (\<lambda>b. if \<not> b then Inr False else conjunction_evaluate operands vars)"
| "disjunction_evaluate [] vars = Inr False"
| "disjunction_evaluate (operand # operands) vars =
     and_then (expression_evaluate operand vars)
       (\<lambda>b. if b then Inr True else disjunction_evaluate operands vars)"

definition is_default :: "guarded_transition \<Rightarrow> bool" where
  "is_default t \<longleftrightarrow> gt_guard t = None \<and> gt_expression t = None"

definition transition_evaluate :: "guarded_transition \<Rightarrow> variables \<Rightarrow> bool result" where
  "transition_evaluate t vars =
     (case (gt_guard t, gt_expression t) of
        (Some guard, None) \<Rightarrow> guard_evaluate guard vars
      | (None, Some expression) \<Rightarrow> expression_evaluate expression vars
      | (None, None) \<Rightarrow> Inr True
      | (Some _, Some _) \<Rightarrow> evaluation_fail ConflictingGuardRepresentations)"

section \<open>Branch selection\<close>

text \<open>The loop of \<open>select_transition\<close>: the one enabled branch so far.\<close>

fun select_loop ::
  "node_id \<Rightarrow> guarded_transition list \<Rightarrow> variables \<Rightarrow> node_id option
   \<Rightarrow> node_id option result" where
  "select_loop gateway_id [] vars selected = Inr selected"
| "select_loop gateway_id (t # ts) vars selected =
     (if is_default t then select_loop gateway_id ts vars selected
      else and_then (transition_evaluate t vars) (\<lambda>matched.
        if matched then
          (if selected \<noteq> None then evaluation_fail (AmbiguousGateway gateway_id)
           else select_loop gateway_id ts vars (Some (gt_target t)))
        else select_loop gateway_id ts vars selected))"

definition default_target :: "guarded_transition list \<Rightarrow> node_id option" where
  "default_target ts = map_option gt_target (find is_default ts)"

definition select_transition ::
  "node_id \<Rightarrow> guarded_transition list \<Rightarrow> variables \<Rightarrow> node_id result" where
  "select_transition gateway_id ts vars =
     and_then (select_loop gateway_id ts vars None) (\<lambda>selected.
       ok_or (case selected of Some target \<Rightarrow> Some target | None \<Rightarrow> default_target ts)
         (EvaluationError (NoGatewayBranch gateway_id)))"

text \<open>The loop of \<open>select_transitions\<close>: every enabled branch, in order.\<close>

fun collect_loop :: "guarded_transition list \<Rightarrow> variables \<Rightarrow> node_id list \<Rightarrow> node_id list result"
  where
  "collect_loop [] vars selected = Inr selected"
| "collect_loop (t # ts) vars selected =
     (if is_default t then collect_loop ts vars selected
      else and_then (transition_evaluate t vars) (\<lambda>matched.
        collect_loop ts vars (if matched then selected @ [gt_target t] else selected)))"

definition select_transitions ::
  "node_id \<Rightarrow> guarded_transition list \<Rightarrow> variables \<Rightarrow> node_id list result" where
  "select_transitions gateway_id ts vars =
     and_then (collect_loop ts vars []) (\<lambda>selected.
       let selected = (if selected = [] then
                         (case default_target ts of Some d \<Rightarrow> [d] | None \<Rightarrow> [])
                       else selected)
       in if selected = [] then evaluation_fail (NoGatewayBranch gateway_id) else Inr selected)"

section \<open>Decision tables\<close>

fun test_matches :: "unary_test \<Rightarrow> workflow_value \<Rightarrow> bool" where
  "test_matches TestAny value = True"
| "test_matches (TestEqual expected) value = (value = expected)"
| "test_matches (TestIntegerInterval interval) value =
     (case value of
        VInteger v \<Rightarrow>
          (case ii_lower interval of None \<Rightarrow> True | Some lower \<Rightarrow> lower \<le> v)
          \<and> (case ii_upper interval of None \<Rightarrow> True | Some upper \<Rightarrow> v \<le> upper)
      | _ \<Rightarrow> False)"

fun rule_tests :: "string \<Rightarrow> (decision_input \<times> unary_test) list \<Rightarrow> variables \<Rightarrow> bool result" where
  "rule_tests table_id [] vars = Inr True"
| "rule_tests table_id ((input, test) # rest) vars =
     and_then (ok_or (bt_get vars (di_name input))
       (EvaluationError (DecisionInputMissing table_id (di_name input)))) (\<lambda>value.
     if \<not> type_matches (di_value_type input) value
     then evaluation_fail (DecisionInputTypeMismatch table_id (di_name input)
            (value_type_name value) (type_type_name (di_value_type input)))
     else if \<not> test_matches test value then Inr False
     else rule_tests table_id rest vars)"

definition decision_rule_matches ::
  "decision_table \<Rightarrow> decision_rule \<Rightarrow> variables \<Rightarrow> bool result" where
  "decision_rule_matches table rule vars =
     rule_tests (dt_id table) (zip (dt_inputs table) (dr_input_tests rule)) vars"

fun decision_loop ::
  "decision_table \<Rightarrow> decision_rule list \<Rightarrow> variables \<Rightarrow> decision_rule option
   \<Rightarrow> decision_rule option result" where
  "decision_loop table [] vars selected = Inr selected"
| "decision_loop table (rule # rules) vars selected =
     and_then (decision_rule_matches table rule vars) (\<lambda>matched.
       if matched then
         (case dt_hit_policy table of
            First \<Rightarrow> Inr (Some rule)
          | Unique \<Rightarrow>
              if selected = None then decision_loop table rules vars (Some rule)
              else evaluation_fail (AmbiguousDecisionTable (dt_id table)))
       else decision_loop table rules vars selected)"

definition evaluate_decision_table :: "decision_table \<Rightarrow> variables \<Rightarrow> variables result" where
  "evaluate_decision_table table vars =
     and_then (decision_loop table (dt_rules table) vars None) (\<lambda>selected.
     and_then (ok_or selected (EvaluationError (NoDecisionRuleMatched (dt_id table)))) (\<lambda>rule.
     Inr (bt_extend []
       (map (\<lambda>(output, value). (do_name output, value))
         (zip (dt_outputs table) (dr_output_values rule))))))"

section \<open>Branch selection meets its reference\<close>

text \<open>The reference: the targets of the conditional branches that evaluate to true.\<close>

definition enabled_targets :: "guarded_transition list \<Rightarrow> variables \<Rightarrow> node_id list" where
  "enabled_targets ts vars =
     map gt_target (filter (\<lambda>t. \<not> is_default t \<and> transition_evaluate t vars = Inr True) ts)"

definition guards_defined :: "guarded_transition list \<Rightarrow> variables \<Rightarrow> bool" where
  "guards_defined ts vars \<longleftrightarrow>
     list_all (\<lambda>t. is_default t \<or> transition_evaluate t vars \<in> {Inr True, Inr False}) ts"

lemma guards_defined_simps [simp]:
  "guards_defined [] vars"
  "guards_defined (t # ts) vars \<longleftrightarrow>
     (is_default t \<or> transition_evaluate t vars = Inr True \<or> transition_evaluate t vars = Inr False)
     \<and> guards_defined ts vars"
  by (auto simp: guards_defined_def)

lemma enabled_targets_simps [simp]:
  "enabled_targets [] vars = []"
  "enabled_targets (t # ts) vars =
     (if \<not> is_default t \<and> transition_evaluate t vars = Inr True
      then gt_target t # enabled_targets ts vars else enabled_targets ts vars)"
  by (simp_all add: enabled_targets_def)

lemma bool_result_cases: "r = Inr True \<or> r = Inr False" if "r = Inr b" for r :: "bool result"
  using that by (cases b) auto

lemma select_loop_defined:
  assumes "guards_defined ts vars"
  shows "select_loop g ts vars sel =
    (case (sel, enabled_targets ts vars) of
       (None, []) \<Rightarrow> Inr None
     | (None, [t]) \<Rightarrow> Inr (Some t)
     | (Some t, []) \<Rightarrow> Inr (Some t)
     | _ \<Rightarrow> evaluation_fail (AmbiguousGateway g))"
  using assms
  by (induction ts arbitrary: sel) (auto split: option.splits list.splits)

lemma select_loop_defines:
  "select_loop g ts vars sel = Inr r \<Longrightarrow> guards_defined ts vars"
  by (induction ts arbitrary: sel)
     (auto simp: and_then_Inr split: if_splits dest: bool_result_cases)

lemma collect_loop_defined:
  "guards_defined ts vars \<Longrightarrow> collect_loop ts vars sel = Inr (sel @ enabled_targets ts vars)"
  by (induction ts arbitrary: sel) auto

lemma collect_loop_defines: "collect_loop ts vars sel = Inr r \<Longrightarrow> guards_defined ts vars"
proof (induction ts arbitrary: sel)
  case (Cons t ts)
  then show ?case by (auto simp: and_then_Inr split: if_splits dest: bool_result_cases)
qed simp

text \<open>
  An exclusive gateway returns exactly when every conditional branch evaluates, and then
  the single enabled branch, or the default when none is.
\<close>

lemma select_transition_Inr:
  "select_transition g ts vars = Inr t \<longleftrightarrow>
    guards_defined ts vars \<and>
    (enabled_targets ts vars = [t] \<or> enabled_targets ts vars = [] \<and> default_target ts = Some t)"
proof (cases "guards_defined ts vars")
  case True
  then show ?thesis
    by (auto simp: select_transition_def select_loop_defined ok_or_Inr
        split: option.splits list.splits)
next
  case False
  then show ?thesis
    using select_loop_defines by (fastforce simp: select_transition_def and_then_Inr)
qed

text \<open>
  The branches before the first one that fails to evaluate, and how that one fails.
\<close>

definition branch_defined :: "variables \<Rightarrow> guarded_transition \<Rightarrow> bool" where
  "branch_defined vars t \<longleftrightarrow> is_default t \<or> \<not> isl (transition_evaluate t vars)"

definition evaluated_branches :: "guarded_transition list \<Rightarrow> variables \<Rightarrow> guarded_transition list" where
  "evaluated_branches ts vars = takeWhile (branch_defined vars) ts"

definition first_failure :: "guarded_transition list \<Rightarrow> variables \<Rightarrow> failure option" where
  "first_failure ts vars =
     (case dropWhile (branch_defined vars) ts of
        [] \<Rightarrow> None | t # _ \<Rightarrow> Some (projl (transition_evaluate t vars)))"

lemma first_failure_simps [simp]:
  "first_failure [] vars = None"
  "first_failure (t # ts) vars =
     (if branch_defined vars t then first_failure ts vars else Some (projl (transition_evaluate t vars)))"
  by (simp_all add: first_failure_def)

lemma evaluated_branches_simps [simp]:
  "evaluated_branches [] vars = []"
  "evaluated_branches (t # ts) vars =
     (if branch_defined vars t then t # evaluated_branches ts vars else [])"
  by (simp_all add: evaluated_branches_def)

lemma branch_defined_cases:
  obtains (default) "is_default t" "branch_defined vars t"
  | (enabled) "\<not> is_default t" "transition_evaluate t vars = Inr True" "branch_defined vars t"
  | (closed) "\<not> is_default t" "transition_evaluate t vars = Inr False" "branch_defined vars t"
  | (failed) e where "\<not> is_default t" "transition_evaluate t vars = Inl e" "\<not> branch_defined vars t"
  using that
  by (cases "is_default t"; cases "transition_evaluate t vars") (auto simp: branch_defined_def)

lemma guards_defined_first_failure: "guards_defined ts vars \<longleftrightarrow> first_failure ts vars = None"
proof (induction ts)
  case (Cons t ts)
  then show ?case by (cases rule: branch_defined_cases [where t = t and vars = vars]) simp_all
qed simp

lemma select_loop_outcome:
  "select_loop g ts vars sel =
    (let targets = (case sel of None \<Rightarrow> [] | Some t \<Rightarrow> [t]) @ enabled_targets (evaluated_branches ts vars) vars in
     if 1 < length targets then evaluation_fail (AmbiguousGateway g)
     else (case first_failure ts vars of
         Some e \<Rightarrow> Inl e
       | None \<Rightarrow> Inr (case targets of [] \<Rightarrow> None | t # _ \<Rightarrow> Some t)))"
proof (induction ts arbitrary: sel)
  case (Cons t ts)
  show ?case
    by (cases rule: branch_defined_cases [where t = t and vars = vars]; cases sel) (simp_all add: Cons.IH Let_def)
qed (simp split: option.split)

lemma select_transition_outcome:
  "select_transition g ts vars =
    (let targets = enabled_targets (evaluated_branches ts vars) vars in
     if 1 < length targets then evaluation_fail (AmbiguousGateway g)
     else (case first_failure ts vars of
         Some e \<Rightarrow> Inl e
       | None \<Rightarrow> (case targets of
           t # _ \<Rightarrow> Inr t
         | [] \<Rightarrow> (case default_target ts of
             Some t \<Rightarrow> Inr t | None \<Rightarrow> evaluation_fail (NoGatewayBranch g)))))"
  by (simp add: select_transition_def select_loop_outcome Let_def split: list.split option.split)

lemma select_transitions_Inr:
  "select_transitions g ts vars = Inr sel \<longleftrightarrow>
    guards_defined ts vars \<and> sel \<noteq> [] \<and>
    (sel = enabled_targets ts vars \<or>
     enabled_targets ts vars = [] \<and> (\<exists>d. default_target ts = Some d \<and> sel = [d]))"
proof (cases "guards_defined ts vars")
  case True
  then show ?thesis
    by (auto simp: select_transitions_def collect_loop_defined Let_def split: option.splits)
next
  case False
  then show ?thesis
    using collect_loop_defines by (fastforce simp: select_transitions_def and_then_Inr)
qed

section \<open>Decision tables meet their reference\<close>

definition rules_defined :: "decision_table \<Rightarrow> decision_rule list \<Rightarrow> variables \<Rightarrow> bool" where
  "rules_defined table rules vars \<longleftrightarrow>
     list_all (\<lambda>r. decision_rule_matches table r vars \<in> {Inr True, Inr False}) rules"

definition matching_rules ::
  "decision_table \<Rightarrow> decision_rule list \<Rightarrow> variables \<Rightarrow> decision_rule list" where
  "matching_rules table rules vars =
     filter (\<lambda>r. decision_rule_matches table r vars = Inr True) rules"

definition rule_outputs :: "decision_table \<Rightarrow> decision_rule \<Rightarrow> variables" where
  "rule_outputs table rule =
     bt_extend [] (map (\<lambda>(output, value). (do_name output, value))
       (zip (dt_outputs table) (dr_output_values rule)))"

lemma decision_loop_unique:
  assumes "dt_hit_policy table = Unique" and "rules_defined table rules vars"
  shows "decision_loop table rules vars sel =
    (case (sel, matching_rules table rules vars) of
       (None, []) \<Rightarrow> Inr None
     | (None, [r]) \<Rightarrow> Inr (Some r)
     | (Some r, []) \<Rightarrow> Inr (Some r)
     | _ \<Rightarrow> evaluation_fail (AmbiguousDecisionTable (dt_id table)))"
  using assms(2)
  by (induction rules arbitrary: sel)
     (auto simp: assms(1) rules_defined_def matching_rules_def split: option.splits list.splits)

lemma decision_loop_first:
  assumes "dt_hit_policy table = First" and "rules_defined table rules vars"
  shows "decision_loop table rules vars None =
    (case matching_rules table rules vars of [] \<Rightarrow> Inr None | r # _ \<Rightarrow> Inr (Some r))"
  using assms(2)
  by (induction rules) (auto simp: assms(1) rules_defined_def matching_rules_def)

lemma evaluate_decision_table_unique:
  assumes "dt_hit_policy table = Unique" and "rules_defined table (dt_rules table) vars"
  shows "evaluate_decision_table table vars =
    (case matching_rules table (dt_rules table) vars of
       [] \<Rightarrow> evaluation_fail (NoDecisionRuleMatched (dt_id table))
     | [r] \<Rightarrow> Inr (rule_outputs table r)
     | _ \<Rightarrow> evaluation_fail (AmbiguousDecisionTable (dt_id table)))"
  using decision_loop_unique [OF assms, of None]
  by (auto simp: evaluate_decision_table_def rule_outputs_def split: list.splits)

lemma evaluate_decision_table_first:
  assumes "dt_hit_policy table = First" and "rules_defined table (dt_rules table) vars"
  shows "evaluate_decision_table table vars =
    (case matching_rules table (dt_rules table) vars of
       [] \<Rightarrow> evaluation_fail (NoDecisionRuleMatched (dt_id table))
     | r # _ \<Rightarrow> Inr (rule_outputs table r))"
  using decision_loop_first [OF assms]
  by (auto simp: evaluate_decision_table_def rule_outputs_def split: list.splits)

text \<open>The rule that a successful evaluation selected.\<close>

lemma decision_loop_member:
  "decision_loop table rules vars sel = Inr (Some r) \<Longrightarrow>
    r \<in> set rules \<and> decision_rule_matches table r vars = Inr True \<or> sel = Some r"
  by (induction rules arbitrary: sel)
     (auto simp: and_then_Inr split: if_splits hit_policy.splits)

lemma evaluate_decision_table_Inr:
  assumes "evaluate_decision_table table vars = Inr out"
  obtains r where "r \<in> set (dt_rules table)" "decision_rule_matches table r vars = Inr True"
    and "out = rule_outputs table r"
  using assms decision_loop_member [of table "dt_rules table" vars None]
  by (auto simp: evaluate_decision_table_def and_then_Inr ok_or_Inr rule_outputs_def)

section \<open>Evaluation never panics\<close>

lemma no_panic_guard_evaluate [simp]: "no_panic (guard_evaluate g vars)"
  by (auto simp: guard_evaluate_def)

lemma no_panic_expression_evaluate [simp]:
  "no_panic (expression_evaluate e vars)"
  "no_panic (conjunction_evaluate es vars)"
  "no_panic (disjunction_evaluate es vars)"
  by (induction e vars and es vars and es vars
      rule: expression_evaluate_conjunction_evaluate_disjunction_evaluate.induct) auto

lemma no_panic_transition_evaluate [simp]: "no_panic (transition_evaluate t vars)"
  by (auto simp: transition_evaluate_def split: option.splits)

lemma no_panic_select_loop: "no_panic (select_loop g ts vars sel)"
  by (induction ts arbitrary: sel) auto

lemma no_panic_select_transition [simp]: "no_panic (select_transition g ts vars)"
  by (auto simp: select_transition_def no_panic_select_loop)

lemma no_panic_collect_loop: "no_panic (collect_loop ts vars sel)"
  by (induction ts arbitrary: sel) auto

lemma no_panic_select_transitions [simp]: "no_panic (select_transitions g ts vars)"
  by (auto simp: select_transitions_def no_panic_collect_loop Let_def)

lemma no_panic_rule_tests: "no_panic (rule_tests tid tests vars)"
  by (induction tid tests vars rule: rule_tests.induct) auto

lemma no_panic_decision_loop: "no_panic (decision_loop table rules vars sel)"
  by (induction rules arbitrary: sel)
     (auto simp: decision_rule_matches_def no_panic_rule_tests split: hit_policy.splits)

lemma no_panic_evaluate_decision_table [simp]: "no_panic (evaluate_decision_table table vars)"
  by (auto simp: evaluate_decision_table_def no_panic_decision_loop)

section \<open>Properties\<close>

text \<open>
  C10. An exclusive gateway, on every outcome. It looks at its conditional branches in order up
  to the first that fails to evaluate. If two of them are enabled it is ambiguous; otherwise
  a failing branch is the result (a missing variable, a type mismatch, two representations
  of one guard); and when all evaluate it takes the single enabled branch, or the default
  branch when none is enabled, or fails when there is no default.
\<close>

theorem select_transition_reference:
  "select_transition g ts vars =
    (let targets = enabled_targets (evaluated_branches ts vars) vars in
     if 1 < length targets then evaluation_fail (AmbiguousGateway g)
     else (case first_failure ts vars of
         Some e \<Rightarrow> Inl e
       | None \<Rightarrow> (case targets of
           t # _ \<Rightarrow> Inr t
         | [] \<Rightarrow> (case default_target ts of
             Some t \<Rightarrow> Inr t | None \<Rightarrow> evaluation_fail (NoGatewayBranch g)))))"
  by (rule select_transition_outcome)

text \<open>
  C11. An inclusive gateway succeeds exactly when every conditional branch evaluates and some
  branch can be taken; it then takes every enabled branch in order, or only the default.
\<close>

theorem select_transitions_reference:
  "select_transitions g ts vars = Inr sel \<longleftrightarrow>
    guards_defined ts vars \<and> sel \<noteq> [] \<and>
    sel = (if enabled_targets ts vars = []
           then (case default_target ts of None \<Rightarrow> [] | Some t \<Rightarrow> [t])
           else enabled_targets ts vars)"
  by (auto simp: select_transitions_Inr split: option.splits if_splits)

text \<open>
  C12. A decision table whose rules all evaluate returns the outputs of the matching rule:
  with hit policy \<open>First\<close> those of the first match, with \<open>Unique\<close> only if it is the
  only match; no match is an error under both.
\<close>

theorem decision_table_reference:
  assumes "rules_defined table (dt_rules table) vars"
  shows "evaluate_decision_table table vars =
    (case matching_rules table (dt_rules table) vars of
       [] \<Rightarrow> evaluation_fail (NoDecisionRuleMatched (dt_id table))
     | r # rs \<Rightarrow>
         if dt_hit_policy table = Unique \<and> rs \<noteq> []
         then evaluation_fail (AmbiguousDecisionTable (dt_id table))
         else Inr (rule_outputs table r))"
  using evaluate_decision_table_unique [OF _ assms] evaluate_decision_table_first [OF _ assms]
  by (cases "dt_hit_policy table") (auto split: list.splits)

definition ex_table :: decision_table where
  "ex_table =
     \<lparr>dt_id = ''d'', dt_hit_policy = First,
      dt_inputs = [\<lparr>di_name = ''n'', di_value_type = TInteger\<rparr>],
      dt_outputs = [\<lparr>do_name = ''o'', do_value_type = TString\<rparr>],
      dt_rules =
        [\<lparr>dr_id = ''1'', dr_input_tests = [TestIntegerInterval \<lparr>ii_lower = None, ii_upper = Some 9\<rparr>],
          dr_output_values = [VString ''low'']\<rparr>,
         \<lparr>dr_id = ''2'', dr_input_tests = [TestAny], dr_output_values = [VString ''any'']\<rparr>]\<rparr>"

lemmas table_defs = ex_table_def rules_defined_def matching_rules_def decision_rule_matches_def
  rule_outputs_def bt_extend_def

theorem decision_table_reference_witness:
  "rules_defined ex_table (dt_rules ex_table) [(''n'', VInteger 7)]
    \<and> evaluate_decision_table ex_table [(''n'', VInteger 7)] = Inr [(''o'', VString ''low'')]"
proof -
  have "rules_defined ex_table (dt_rules ex_table) [(''n'', VInteger 7)]"
    by (simp add: table_defs bt_get_Cons)
  then show ?thesis
    using decision_table_reference [of ex_table "[(''n'', VInteger 7)]"]
    by (simp add: table_defs bt_get_Cons)
qed

end
