(* ===== verification/Gateway_Coverage.thy ===== *)
theory Gateway_Coverage
  imports Expressions "HOL-Library.Option_ord" "HOL-Library.Product_Lexorder"
begin

text \<open>
  The static checks on gateways of \<open>workflow.rs\<close> (\<open>validate_gateway\<close> to
  \<open>validate_inclusive_gateway\<close>). An exclusive gateway without a default branch must carry
  a coverage proof over one variable; the last sections show what an accepted proof gives
  at run time: every value of the domain enables a branch, and for boolean and enumerated
  domains exactly one.
\<close>

section \<open>Coverage of one variable\<close>

definition invalid_gateway_coverage :: "node_id \<Rightarrow> string \<Rightarrow> 'a result" where
  "invalid_gateway_coverage n detail = definition_fail (InvalidGatewayCoverage n detail)"

fun boolean_cover_loop :: "node_id \<Rightarrow> guard_expression list \<Rightarrow> bool btree_set \<Rightarrow> bool btree_set result"
  where
  "boolean_cover_loop n [] covered = Inr covered"
| "boolean_cover_loop n (g # gs) covered =
     (case ge_literal g of
        VBoolean value \<Rightarrow>
          and_then (case ge_operator g of
              Equal \<Rightarrow> Inr value
            | NotEqual \<Rightarrow> Inr (\<not> value)
            | _ \<Rightarrow> invalid_gateway_coverage n ''boolean coverage supports only == and !='')
          (\<lambda>v. if v \<in> set covered
               then invalid_gateway_coverage n ''boolean value is matched by more than one branch''
               else boolean_cover_loop n gs (bs_insert v covered))
      | _ \<Rightarrow> invalid_gateway_coverage n ''boolean coverage cannot mix literal types'')"

definition validate_boolean_coverage :: "node_id \<Rightarrow> guard_expression list \<Rightarrow> unit result" where
  "validate_boolean_coverage n guards =
     and_then (boolean_cover_loop n guards []) (\<lambda>covered.
       if length covered = 2 then Inr ()
       else invalid_gateway_coverage n ''boolean domain is not fully covered'')"

fun enum_cover_loop ::
  "node_id \<Rightarrow> guard_expression list \<Rightarrow> string btree_set \<Rightarrow> string btree_set
   \<Rightarrow> string btree_set result" where
  "enum_cover_loop n [] declared covered = Inr covered"
| "enum_cover_loop n (g # gs) declared covered =
     (case ge_literal g of
        VString value \<Rightarrow>
          if ge_operator g \<noteq> Equal
          then invalid_gateway_coverage n ''enum coverage supports only equality''
          else if value \<notin> set declared
          then invalid_gateway_coverage n ''enum guard is outside coverage domain''
          else if value \<in> set covered
          then invalid_gateway_coverage n ''enum value is matched by more than one branch''
          else enum_cover_loop n gs declared (bs_insert value covered)
      | _ \<Rightarrow> invalid_gateway_coverage n ''enum coverage cannot mix literal types'')"

definition validate_enum_coverage ::
  "node_id \<Rightarrow> guard_expression list \<Rightarrow> string list \<Rightarrow> unit result" where
  "validate_enum_coverage n guards values =
     (if values = [] then invalid_gateway_coverage n ''enum coverage domain is empty''
      else let declared = bs_collect values in
        if length declared \<noteq> length values
        then invalid_gateway_coverage n ''enum coverage domain contains duplicates''
        else and_then (enum_cover_loop n guards declared []) (\<lambda>covered.
          if declared = covered then Inr ()
          else invalid_gateway_coverage n ''enum domain is not fully covered''))"

fun integer_guard_intervals :: "comparison_operator \<Rightarrow> int \<Rightarrow> integer_interval list" where
  "integer_guard_intervals Equal value = [\<lparr>ii_lower = Some value, ii_upper = Some value\<rparr>]"
| "integer_guard_intervals NotEqual value =
     (case i64_checked_sub value 1 of
        Some upper \<Rightarrow> [\<lparr>ii_lower = None, ii_upper = Some upper\<rparr>] | None \<Rightarrow> [])
     @ (case i64_checked_add value 1 of
        Some lower \<Rightarrow> [\<lparr>ii_lower = Some lower, ii_upper = None\<rparr>] | None \<Rightarrow> [])"
| "integer_guard_intervals LessThan value =
     (case i64_checked_sub value 1 of
        Some upper \<Rightarrow> [\<lparr>ii_lower = None, ii_upper = Some upper\<rparr>] | None \<Rightarrow> [])"
| "integer_guard_intervals LessThanOrEqual value = [\<lparr>ii_lower = None, ii_upper = Some value\<rparr>]"
| "integer_guard_intervals GreaterThan value =
     (case i64_checked_add value 1 of
        Some lower \<Rightarrow> [\<lparr>ii_lower = Some lower, ii_upper = None\<rparr>] | None \<Rightarrow> [])"
| "integer_guard_intervals GreaterThanOrEqual value = [\<lparr>ii_lower = Some value, ii_upper = None\<rparr>]"

definition lower_or_min :: "int option \<Rightarrow> int" where
  "lower_or_min l = (case l of None \<Rightarrow> i64_min | Some v \<Rightarrow> v)"

definition compare_interval_lower :: "int option \<Rightarrow> int option \<Rightarrow> ordering" where
  "compare_interval_lower actual expected = ord_cmp (lower_or_min actual) (lower_or_min expected)"

text \<open>
  The sort key of the source, \<open>(lower.unwrap_or(i64::MIN), upper)\<close>, with \<open>None\<close> below
  every \<open>Some\<close>. Rust leaves the order of equal keys open; the model keeps them in place.
\<close>

definition sort_intervals :: "integer_interval list \<Rightarrow> integer_interval list" where
  "sort_intervals is = sort_key (\<lambda>i. (lower_or_min (ii_lower i), ii_upper i)) is"

fun cover_loop :: "node_id \<Rightarrow> integer_interval list \<Rightarrow> int option \<Rightarrow> unit result" where
  "cover_loop n [] expected_lower =
     invalid_gateway_coverage n ''integer intervals do not cover upper range''"
| "cover_loop n (i # is) expected_lower =
     (case compare_interval_lower (ii_lower i) expected_lower of
        OrdLess \<Rightarrow> invalid_gateway_coverage n ''integer intervals overlap''
      | OrdGreater \<Rightarrow> invalid_gateway_coverage n ''integer intervals leave a gap''
      | OrdEqual \<Rightarrow>
          if (case (ii_lower i, ii_upper i) of (Some lower, Some upper) \<Rightarrow> upper < lower | _ \<Rightarrow> False)
          then invalid_gateway_coverage n ''integer interval lower bound is above upper bound''
          else (case ii_upper i of
              None \<Rightarrow> Inr ()
            | Some value \<Rightarrow>
                if value = i64_max then Inr ()
                else (case i64_checked_add value 1 of
                    None \<Rightarrow> invalid_gateway_coverage n ''integer interval upper bound overflows''
                  | Some next \<Rightarrow> cover_loop n is (Some next))))"

text \<open>The slice is sorted in place, so the sorted list is part of the result.\<close>

definition validate_disjoint_integer_cover ::
  "node_id \<Rightarrow> integer_interval list \<Rightarrow> integer_interval list result" where
  "validate_disjoint_integer_cover n is =
     and_then (cover_loop n (sort_intervals is) None) (\<lambda>_. Inr (sort_intervals is))"

fun integer_guards :: "node_id \<Rightarrow> guard_expression list \<Rightarrow> integer_interval list result" where
  "integer_guards n [] = Inr []"
| "integer_guards n (g # gs) =
     (case ge_literal g of
        VInteger value \<Rightarrow> and_then (integer_guards n gs)
          (\<lambda>is. Inr (integer_guard_intervals (ge_operator g) value @ is))
      | _ \<Rightarrow> invalid_gateway_coverage n ''integer coverage cannot mix literal types'')"

definition validate_integer_coverage ::
  "node_id \<Rightarrow> guard_expression list \<Rightarrow> integer_interval list \<Rightarrow> unit result" where
  "validate_integer_coverage n guards proof_intervals =
     and_then (integer_guards n guards) (\<lambda>is.
     and_then (validate_disjoint_integer_cover n is) (\<lambda>intervals.
     and_then (validate_disjoint_integer_cover n proof_intervals) (\<lambda>normalized_proof.
     if intervals = normalized_proof then Inr ()
     else invalid_gateway_coverage n ''integer coverage proof does not match guards'')))"

text \<open>
  The guards of the branches: \<open>transition.guard.as_ref().expect("checked above")\<close>. The
  check above only excludes branches with neither representation, so a branch that has
  an \<open>expression\<close> and no \<open>guard\<close> panics here.
\<close>

fun expect_guards :: "guarded_transition list \<Rightarrow> guard_expression list result" where
  "expect_guards [] = Inr []"
| "expect_guards (t # ts) =
     (case gt_guard t of
        None \<Rightarrow> Inl (Panic ''checked above'')
      | Some g \<Rightarrow> and_then (expect_guards ts) (\<lambda>gs. Inr (g # gs)))"

definition validate_gateway_coverage ::
  "node_id \<Rightarrow> guarded_transition list \<Rightarrow> gateway_coverage \<Rightarrow> unit result" where
  "validate_gateway_coverage n ts coverage =
     (if gc_domain coverage = CoverSymbolic then
        if list_ex is_default ts
        then definition_fail (InvalidGatewayCoverage n
               ''symbolic coverage cannot be combined with default branches'')
        else if list_ex (\<lambda>t. (gt_guard t \<noteq> None) = (gt_expression t \<noteq> None)) ts
        then definition_fail (InvalidGatewayCoverage n
               ''each symbolic branch must contain exactly one guard representation'')
        else Inr ()
      else if is_blank (gc_variable coverage)
      then definition_fail (InvalidGatewayCoverage n ''coverage variable is empty'')
      else if list_ex is_default ts
      then definition_fail (InvalidGatewayCoverage n
             ''coverage proof cannot be combined with default branches'')
      else and_then (expect_guards ts) (\<lambda>guards.
        if list_ex (\<lambda>g. ge_variable g \<noteq> gc_variable coverage) guards
        then definition_fail (InvalidGatewayCoverage n
               ''all covered guards must use the coverage variable'')
        else (case gc_domain coverage of
            CoverBoolean \<Rightarrow> validate_boolean_coverage n guards
          | CoverEnum values \<Rightarrow> validate_enum_coverage n guards values
          | CoverInteger intervals \<Rightarrow> validate_integer_coverage n guards intervals
          | CoverSymbolic \<Rightarrow> Inl (Panic ''handled above''))))"

section \<open>Gateways\<close>

text \<open>The first target that an earlier branch already has.\<close>

fun first_duplicate :: "node_id list \<Rightarrow> node_id btree_set \<Rightarrow> node_id option" where
  "first_duplicate [] seen = None"
| "first_duplicate (t # ts) seen =
     (if t \<in> set seen then Some t else first_duplicate ts (bs_insert t seen))"

definition validate_gateway ::
  "node_id \<Rightarrow> guarded_transition list \<Rightarrow> gateway_coverage option \<Rightarrow> unit result" where
  "validate_gateway n ts coverage =
     (if length ts < 2 then definition_fail (GatewayRequiresBranches n)
      else let defaults = length (filter is_default ts) in
        and_then
          (if defaults = 0 then
             and_then (ok_or coverage (DefinitionError (GatewayRequiresDefaultOrCoverage n)))
               (validate_gateway_coverage n ts)
           else if defaults = 1 then
             (if coverage \<noteq> None then definition_fail (GatewayCoverageWithDefault n) else Inr ())
           else definition_fail (GatewayRequiresOneDefault n defaults))
          (\<lambda>_. case first_duplicate (map gt_target ts) [] of
              Some target \<Rightarrow> definition_fail (DuplicateGatewayTarget n target)
            | None \<Rightarrow> Inr ()))"

definition validate_parallel_split :: "node_id \<Rightarrow> node_id list \<Rightarrow> unit result" where
  "validate_parallel_split n targets =
     (if length targets < 2 then definition_fail (GatewayRequiresBranches n)
      else if length (bs_collect targets) \<noteq> length targets then
        (case find (\<lambda>t. 1 < length (filter (\<lambda>i. i = t) targets)) targets of
           Some target \<Rightarrow> definition_fail (DuplicateGatewayTarget n target)
         | None \<Rightarrow> Inl (Panic ''duplicate target exists''))
      else Inr ())"

definition validate_inclusive_gateway ::
  "node_id \<Rightarrow> guarded_transition list \<Rightarrow> gateway_coverage option \<Rightarrow> unit result" where
  "validate_inclusive_gateway n ts coverage =
     (if length ts < 2 then definition_fail (GatewayRequiresBranches n)
      else let default_count = length (filter is_default ts) in
        if 1 < default_count then definition_fail (GatewayRequiresOneDefault n default_count)
        else if default_count = 0 \<and> coverage = None
        then definition_fail (GatewayRequiresDefaultOrCoverage n)
        else if length (bs_collect (map gt_target ts)) \<noteq> length ts
        then definition_fail (DuplicateGatewayTarget n (gt_target (ts ! 0)))
        else Inr ())"

section \<open>Type bounds of integer literals\<close>

text \<open>Integers of the source are \<open>i64\<close>; the bound is carried as a predicate.\<close>

definition guards_i64 :: "guarded_transition list \<Rightarrow> bool" where
  "guards_i64 ts \<longleftrightarrow>
     list_all (\<lambda>t. case gt_guard t of
        Some g \<Rightarrow> (case ge_literal g of VInteger v \<Rightarrow> is_i64 v | _ \<Rightarrow> True) | None \<Rightarrow> True) ts"

section \<open>Boolean and enumerated coverage is exact\<close>

lemma guard_evaluate_bool:
  "bt_get vars (ge_variable g) = Some (VBoolean b) \<Longrightarrow> ge_literal g = VBoolean lit \<Longrightarrow>
    guard_evaluate g vars = Inr (operator_holds (ge_operator g) (ord_cmp b lit))"
  by (simp add: guard_evaluate_def)

lemma guard_evaluate_string:
  "bt_get vars (ge_variable g) = Some (VString b) \<Longrightarrow> ge_literal g = VString lit \<Longrightarrow>
    guard_evaluate g vars = Inr (operator_holds (ge_operator g) (ord_cmp b lit))"
  by (simp add: guard_evaluate_def)

lemma guard_evaluate_integer:
  "bt_get vars (ge_variable g) = Some (VInteger b) \<Longrightarrow> ge_literal g = VInteger lit \<Longrightarrow>
    guard_evaluate g vars = Inr (operator_holds (ge_operator g) (ord_cmp b lit))"
  by (simp add: guard_evaluate_def)

text \<open>
  The value one guard covers (\<open>cover\<close>) is matched by exactly the guards that cover it;
  the accumulated set holds each covered value once.
\<close>

lemma boolean_cover_loop_exact:
  assumes "boolean_cover_loop n gs covered = Inr out" and "bs_sorted covered"
    and "list_all (\<lambda>g. bt_get vars (ge_variable g) = Some (VBoolean b)) gs"
  shows "set covered \<subseteq> set out \<and> bs_sorted out
    \<and> length (filter (\<lambda>g. guard_evaluate g vars = Inr True) gs)
        = (if b \<in> set out - set covered then 1 else 0)
    \<and> list_all (\<lambda>g. guard_evaluate g vars \<in> {Inr True, Inr False}) gs"
  using assms
proof (induction gs arbitrary: covered)
  case (Cons g gs)
  from Cons.prems(1) obtain lit v where lit: "ge_literal g = VBoolean lit"
    and v: "(case ge_operator g of Equal \<Rightarrow> Inr lit | NotEqual \<Rightarrow> Inr (\<not> lit)
        | _ \<Rightarrow> invalid_gateway_coverage n ''boolean coverage supports only == and !='') = Inr v"
    and fresh: "v \<notin> set covered"
    and rest: "boolean_cover_loop n gs (bs_insert v covered) = Inr out"
    by (auto simp: and_then_Inr invalid_gateway_coverage_def split: workflow_value.splits if_splits)
  have ev: "guard_evaluate g vars = Inr (b = v)"
    using v Cons.prems(3) lit
    by (cases "ge_operator g")
       (auto simp: guard_evaluate_bool [OF _ lit] ord_cmp_def invalid_gateway_coverage_def)
  have IH: "set (bs_insert v covered) \<subseteq> set out \<and> bs_sorted out
    \<and> length (filter (\<lambda>g. guard_evaluate g vars = Inr True) gs)
        = (if b \<in> set out - set (bs_insert v covered) then 1 else 0)
    \<and> list_all (\<lambda>g. guard_evaluate g vars \<in> {Inr True, Inr False}) gs"
    using rest Cons.prems by (intro Cons.IH) (auto intro: bs_sorted_insert)
  then show ?case using ev fresh by auto
qed simp

lemma enum_cover_loop_exact:
  assumes "enum_cover_loop n gs declared covered = Inr out" and "bs_sorted covered"
    and "list_all (\<lambda>g. bt_get vars (ge_variable g) = Some (VString b)) gs"
  shows "set covered \<subseteq> set out \<and> bs_sorted out
    \<and> length (filter (\<lambda>g. guard_evaluate g vars = Inr True) gs)
        = (if b \<in> set out - set covered then 1 else 0)
    \<and> list_all (\<lambda>g. guard_evaluate g vars \<in> {Inr True, Inr False}) gs"
  using assms
proof (induction gs arbitrary: covered)
  case (Cons g gs)
  from Cons.prems(1) obtain v where lit: "ge_literal g = VString v"
    and op: "ge_operator g = Equal" and fresh: "v \<notin> set covered"
    and rest: "enum_cover_loop n gs declared (bs_insert v covered) = Inr out"
    by (auto simp: invalid_gateway_coverage_def split: workflow_value.splits if_splits)
  have ev: "guard_evaluate g vars = Inr (b = v)"
    using Cons.prems(3) op by (simp add: guard_evaluate_string [OF _ lit] ord_cmp_def)
  have IH: "set (bs_insert v covered) \<subseteq> set out \<and> bs_sorted out
    \<and> length (filter (\<lambda>g. guard_evaluate g vars = Inr True) gs)
        = (if b \<in> set out - set (bs_insert v covered) then 1 else 0)
    \<and> list_all (\<lambda>g. guard_evaluate g vars \<in> {Inr True, Inr False}) gs"
    using rest Cons.prems by (intro Cons.IH) (auto intro: bs_sorted_insert)
  then show ?case using ev fresh by auto
qed simp

section \<open>Integer coverage is complete\<close>

definition in_interval :: "int \<Rightarrow> integer_interval \<Rightarrow> bool" where
  "in_interval v i \<longleftrightarrow> lower_or_min (ii_lower i) \<le> v
     \<and> (case ii_upper i of None \<Rightarrow> True | Some u \<Rightarrow> v \<le> u)"

lemma cover_loop_covers:
  assumes "cover_loop n is expected = Inr ()" and "is_i64 v" and "lower_or_min expected \<le> v"
  shows "\<exists>i \<in> set is. in_interval v i"
  using assms
proof (induction "is" arbitrary: expected)
  case (Cons i "is")
  have eq: "lower_or_min (ii_lower i) = lower_or_min expected"
    using Cons.prems(1)
    by (auto simp: compare_interval_lower_def ord_cmp_def invalid_gateway_coverage_def
        split: ordering.splits if_splits)
  show ?case
  proof (cases "in_interval v i")
    case False
    then obtain u where u: "ii_upper i = Some u" "u < v"
      using Cons.prems(3) eq by (auto simp: in_interval_def split: option.splits)
    then have "u \<noteq> i64_max" using Cons.prems(2) by (auto simp: is_i64_def)
    then obtain e where e: "i64_checked_add u 1 = Some e" "cover_loop n is (Some e) = Inr ()"
      using Cons.prems(1) eq u
      by (auto simp: compare_interval_lower_def ord_cmp_def invalid_gateway_coverage_def
          split: if_splits option.splits)
    then have "lower_or_min (Some e) \<le> v"
      using u by (auto simp: lower_or_min_def i64_checked_add_def split: if_splits)
    then show ?thesis using Cons.IH [OF e(2) Cons.prems(2)] by auto
  qed simp
qed (simp add: invalid_gateway_coverage_def)

lemma operator_integer_intervals:
  assumes "is_i64 lit" and "is_i64 v"
  shows "(\<exists>i \<in> set (integer_guard_intervals op lit). in_interval v i)
    \<longleftrightarrow> operator_holds op (ord_cmp v lit)"
  using assms
  by (cases op)
     (auto simp: in_interval_def lower_or_min_def ord_cmp_def i64_checked_add_def
       i64_checked_sub_def is_i64_def split: if_splits)

lemma integer_guards_intervals:
  "integer_guards n gs = Inr is \<Longrightarrow> i \<in> set is \<Longrightarrow>
    \<exists>g \<in> set gs. \<exists>lit. ge_literal g = VInteger lit
      \<and> i \<in> set (integer_guard_intervals (ge_operator g) lit)"
proof (induction gs arbitrary: "is")
  case (Cons g gs)
  then show ?case
    by (fastforce simp: and_then_Inr invalid_gateway_coverage_def split: workflow_value.splits)
qed simp

lemma integer_guards_literals:
  "integer_guards n gs = Inr is \<Longrightarrow> g \<in> set gs \<Longrightarrow> \<exists>lit. ge_literal g = VInteger lit"
  by (induction gs arbitrary: "is")
     (auto simp: and_then_Inr invalid_gateway_coverage_def split: workflow_value.splits)

lemma set_sort_intervals [simp]: "set (sort_intervals is) = set is"
  by (simp add: sort_intervals_def)

lemma integer_coverage_complete:
  assumes "validate_integer_coverage n gs proof_intervals = Inr ()" and "is_i64 v"
    and "\<And>g lit. g \<in> set gs \<Longrightarrow> ge_literal g = VInteger lit \<Longrightarrow> is_i64 lit"
    and "\<And>g. g \<in> set gs \<Longrightarrow> bt_get vars (ge_variable g) = Some (VInteger v)"
  shows "\<exists>g \<in> set gs. guard_evaluate g vars = Inr True"
proof -
  obtain "is" where "is": "integer_guards n gs = Inr is"
    and cover: "cover_loop n (sort_intervals is) None = Inr ()"
    using assms(1)
    by (auto simp: validate_integer_coverage_def validate_disjoint_integer_cover_def and_then_Inr)
  have "lower_or_min None \<le> v" using assms(2) by (simp add: lower_or_min_def is_i64_def)
  then obtain i where i: "i \<in> set is" "in_interval v i"
    using cover_loop_covers [OF cover assms(2)] by auto
  then obtain g lit where g: "g \<in> set gs" "ge_literal g = VInteger lit"
    and "i \<in> set (integer_guard_intervals (ge_operator g) lit)"
    using integer_guards_intervals [OF "is"] by blast
  then have "operator_holds (ge_operator g) (ord_cmp v lit)"
    using operator_integer_intervals [OF assms(3) [OF g] assms(2)] i(2) by blast
  then have "guard_evaluate g vars = Inr True"
    using guard_evaluate_integer [OF assms(4) [OF g(1)] g(2)] by simp
  then show ?thesis using g(1) by blast
qed

section \<open>From guards to branches\<close>

lemma expect_guards_Inr:
  "expect_guards ts = Inr gs \<Longrightarrow> map gt_guard ts = map Some gs"
  by (induction ts arbitrary: gs) (auto simp: and_then_Inr split: option.splits)

text \<open>A branch with a guard and no expression evaluates as its guard does.\<close>

definition simple_branches :: "guarded_transition list \<Rightarrow> bool" where
  "simple_branches ts \<longleftrightarrow> list_all (\<lambda>t. gt_guard t = None \<or> gt_expression t = None) ts"

lemma transition_evaluate_guard:
  "gt_guard t = Some g \<Longrightarrow> gt_expression t = None \<Longrightarrow>
    transition_evaluate t vars = guard_evaluate g vars"
  by (simp add: transition_evaluate_def)

lemma guarded_branches:
  assumes "map gt_guard ts = map Some gs" and "simple_branches ts"
  shows "guards_defined ts vars \<longleftrightarrow>
      list_all (\<lambda>g. guard_evaluate g vars \<in> {Inr True, Inr False}) gs"
    and "length (enabled_targets ts vars) =
      length (filter (\<lambda>g. guard_evaluate g vars = Inr True) gs)"
    and "default_target ts = None"
  using assms
proof (induction ts arbitrary: gs)
  case (Cons t ts)
  {
    case 1
    with Cons.IH(1) [of "tl gs"] show ?case
      by (cases gs) (auto simp: simple_branches_def is_default_def transition_evaluate_guard)
  next
    case 2
    with Cons.IH(2) [of "tl gs"] show ?case
      by (cases gs) (auto simp: simple_branches_def is_default_def transition_evaluate_guard)
  next
    case 3
    with Cons.IH(3) [of "tl gs"] show ?case
      by (cases gs) (auto simp: simple_branches_def is_default_def default_target_def)
  }
qed (auto simp: default_target_def)

lemma coverage_guards:
  assumes "validate_gateway_coverage n ts cov = Inr ()" and "gc_domain cov \<noteq> CoverSymbolic"
  obtains gs where "map gt_guard ts = map Some gs"
    and "\<And>g. g \<in> set gs \<Longrightarrow> ge_variable g = gc_variable cov"
    and "(case gc_domain cov of CoverBoolean \<Rightarrow> validate_boolean_coverage n gs
      | CoverEnum values \<Rightarrow> validate_enum_coverage n gs values
      | CoverInteger intervals \<Rightarrow> validate_integer_coverage n gs intervals
      | CoverSymbolic \<Rightarrow> Inl (Panic ''handled above'')) = Inr ()"
  using assms expect_guards_Inr
  by (fastforce simp: validate_gateway_coverage_def and_then_Inr list_ex_iff split: if_splits)

section \<open>Static checks and panics\<close>

lemma validate_parallel_split_Inr:
  "validate_parallel_split n targets = Inr () \<longleftrightarrow> 2 \<le> length targets \<and> distinct targets"
  by (auto simp: validate_parallel_split_def bs_collect_length split: option.splits)

lemma no_panic_validate_parallel_split: "no_panic (validate_parallel_split n targets)"
proof -
  have "\<exists>t \<in> set targets. 1 < length (filter (\<lambda>i. i = t) targets)" if "\<not> distinct targets"
    using that
  proof (induction targets)
    case (Cons t ts)
    show ?case
    proof (cases "t \<in> set ts")
      case True
      then have "filter (\<lambda>i. i = t) ts \<noteq> []" by (auto simp: filter_empty_conv)
      then show ?thesis by (intro bexI [of _ t]) auto
    next
      case False
      with Cons obtain u where "u \<in> set ts" "1 < length (filter (\<lambda>i. i = u) ts)" by auto
      then show ?thesis by (intro bexI [of _ u]) auto
    qed
  qed simp
  then show ?thesis
    by (auto simp: validate_parallel_split_def bs_collect_length find_None_iff split: option.splits)
qed

section \<open>Properties\<close>

lemma validate_gateway_covered:
  "validate_gateway n ts (Some cov) = Inr () \<Longrightarrow> validate_gateway_coverage n ts cov = Inr ()"
  by (auto simp: validate_gateway_def and_then_Inr Let_def split: if_splits)

lemma single_branch:
  assumes "map gt_guard ts = map Some gs" and "simple_branches ts"
    and "length (filter (\<lambda>g. guard_evaluate g vars = Inr True) gs) = 1"
    and "list_all (\<lambda>g. guard_evaluate g vars \<in> {Inr True, Inr False}) gs"
  shows "\<exists>t. enabled_targets ts vars = [t] \<and> select_transition n ts vars = Inr t"
proof -
  have "length (enabled_targets ts vars) = 1" and "guards_defined ts vars"
    using guarded_branches [OF assms(1,2)] assms(3,4) by simp_all
  then show ?thesis by (auto simp: length_Suc_conv select_transition_Inr)
qed

text \<open>
  A branch with a guard and an expression fails whenever it is reached; the others evaluate as
  their guards do.
\<close>

lemma guarded_first_failure:
  assumes "map gt_guard ts = map Some gs"
    and "list_all (\<lambda>g. guard_evaluate g vars \<in> {Inr True, Inr False}) gs"
  shows "first_failure ts vars =
      (if simple_branches ts then None else Some (EvaluationError ConflictingGuardRepresentations))
    \<and> length (enabled_targets (evaluated_branches ts vars) vars) \<le>
      length (filter (\<lambda>g. guard_evaluate g vars = Inr True) gs)"
  using assms
proof (induction ts arbitrary: gs)
  case (Cons t ts)
  obtain g gs' where gs: "gs = g # gs'" "gt_guard t = Some g" "map gt_guard ts = map Some gs'"
    using Cons.prems by (cases gs) auto
  have "transition_evaluate t vars = (case gt_expression t of None \<Rightarrow> guard_evaluate g vars
      | Some _ \<Rightarrow> Inl (EvaluationError ConflictingGuardRepresentations))"
    using gs(2) by (simp add: transition_evaluate_def split: option.split)
  moreover have "guard_evaluate g vars = Inr True \<or> guard_evaluate g vars = Inr False"
      "list_all (\<lambda>g. guard_evaluate g vars \<in> {Inr True, Inr False}) gs'"
    using Cons.prems(2) gs(1) by auto
  moreover note Cons.IH [OF gs(3)]
  moreover have "\<not> is_default t" using gs(2) by (simp add: is_default_def)
  ultimately show ?case
    using gs by (auto simp: branch_defined_def simple_branches_def split: option.splits)
qed (simp_all add: simple_branches_def)

lemma conflicting_branch:
  assumes "map gt_guard ts = map Some gs" and "\<not> simple_branches ts"
    and "list_all (\<lambda>g. guard_evaluate g vars \<in> {Inr True, Inr False}) gs"
  shows "select_transition n ts vars \<in>
      {evaluation_fail ConflictingGuardRepresentations, evaluation_fail (AmbiguousGateway n)}"
    and "length (filter (\<lambda>g. guard_evaluate g vars = Inr True) gs) \<le> 1 \<Longrightarrow>
      select_transition n ts vars = evaluation_fail ConflictingGuardRepresentations"
proof -
  note failure = guarded_first_failure [OF assms(1,3), THEN conjunct1] guarded_first_failure [OF assms(1,3), THEN conjunct2]
  show "select_transition n ts vars \<in>
      {evaluation_fail ConflictingGuardRepresentations, evaluation_fail (AmbiguousGateway n)}"
    using failure(1) assms(2) by (simp add: select_transition_outcome Let_def split: list.split)
  assume "length (filter (\<lambda>g. guard_evaluate g vars = Inr True) gs) \<le> 1"
  with failure(2) have "length (enabled_targets (evaluated_branches ts vars) vars) \<le> 1" by simp
  then show "select_transition n ts vars = evaluation_fail ConflictingGuardRepresentations"
    using failure(1) assms(2) by (simp add: select_transition_outcome Let_def split: list.split)
qed

lemma covered_selection:
  assumes "map gt_guard ts = map Some gs"
    and "length (filter (\<lambda>g. guard_evaluate g vars = Inr True) gs) = 1"
    and "list_all (\<lambda>g. guard_evaluate g vars \<in> {Inr True, Inr False}) gs"
  shows "if simple_branches ts
    then \<exists>t. enabled_targets ts vars = [t] \<and> select_transition n ts vars = Inr t
    else select_transition n ts vars = evaluation_fail ConflictingGuardRepresentations"
  using single_branch [OF assms(1) _ assms(2,3)] conflicting_branch(2) [OF assms(1) _ assms(3)] assms(2)
  by simp

text \<open>
  C6. A gateway accepted with boolean coverage takes exactly one branch for either value of
  the covered variable: it is neither stuck nor ambiguous. The check does not look at
  expressions, so this needs that no branch carries an expression beside its guard
  (\<open>simple_branches\<close>, which only the loader ensures); with such a branch every selection
  fails with \<open>ConflictingGuardRepresentations\<close>.
\<close>

theorem boolean_gateway_selects:
  assumes "validate_gateway n ts (Some cov) = Inr ()" and "gc_domain cov = CoverBoolean"
    and "bt_get vars (gc_variable cov) = Some (VBoolean b)"
  shows "if simple_branches ts
    then \<exists>t. enabled_targets ts vars = [t] \<and> select_transition n ts vars = Inr t
    else select_transition n ts vars = evaluation_fail ConflictingGuardRepresentations"
proof -
  have "gc_domain cov \<noteq> CoverSymbolic" using assms(2) by simp
  with validate_gateway_covered [OF assms(1)] obtain gs where gs: "map gt_guard ts = map Some gs"
    and var: "\<And>g. g \<in> set gs \<Longrightarrow> ge_variable g = gc_variable cov"
    and "(case gc_domain cov of CoverBoolean \<Rightarrow> validate_boolean_coverage n gs
      | CoverEnum values \<Rightarrow> validate_enum_coverage n gs values
      | CoverInteger intervals \<Rightarrow> validate_integer_coverage n gs intervals
      | CoverSymbolic \<Rightarrow> Inl (Panic ''handled above'')) = Inr ()"
    by (rule coverage_guards) (rule that)
  then have cover: "validate_boolean_coverage n gs = Inr ()" using assms(2) by simp
  from cover obtain covered where loop: "boolean_cover_loop n gs [] = Inr covered"
    and two: "length covered = 2"
    by (auto simp: validate_boolean_coverage_def and_then_Inr invalid_gateway_coverage_def
        split: if_splits)
  have exact: "bs_sorted covered
    \<and> length (filter (\<lambda>g. guard_evaluate g vars = Inr True) gs) = (if b \<in> set covered then 1 else 0)
    \<and> list_all (\<lambda>g. guard_evaluate g vars \<in> {Inr True, Inr False}) gs"
    using boolean_cover_loop_exact [OF loop, of vars b] assms(3) var by (simp add: list_all_iff)
  then have "card (set covered) = card (UNIV :: bool set)"
    using two length_bs_sorted [of covered] by (simp add: card_UNIV_bool)
  then have "set covered = UNIV" by (intro card_subset_eq) simp_all
  then show ?thesis using exact covered_selection [OF gs, of vars n] by simp
qed

text \<open>
  C7. A gateway accepted with enumerated coverage takes exactly one branch for every declared
  value of the covered variable, when no branch carries an expression beside its guard; with
  such a branch every selection fails with \<open>ConflictingGuardRepresentations\<close>.
\<close>

theorem enum_gateway_selects:
  assumes "validate_gateway n ts (Some cov) = Inr ()" and "gc_domain cov = CoverEnum values"
    and "bt_get vars (gc_variable cov) = Some (VString v)" and "v \<in> set values"
  shows "if simple_branches ts
    then \<exists>t. enabled_targets ts vars = [t] \<and> select_transition n ts vars = Inr t
    else select_transition n ts vars = evaluation_fail ConflictingGuardRepresentations"
proof -
  have "gc_domain cov \<noteq> CoverSymbolic" using assms(2) by simp
  with validate_gateway_covered [OF assms(1)] obtain gs where gs: "map gt_guard ts = map Some gs"
    and var: "\<And>g. g \<in> set gs \<Longrightarrow> ge_variable g = gc_variable cov"
    and "(case gc_domain cov of CoverBoolean \<Rightarrow> validate_boolean_coverage n gs
      | CoverEnum values \<Rightarrow> validate_enum_coverage n gs values
      | CoverInteger intervals \<Rightarrow> validate_integer_coverage n gs intervals
      | CoverSymbolic \<Rightarrow> Inl (Panic ''handled above'')) = Inr ()"
    by (rule coverage_guards) (rule that)
  then have cover: "validate_enum_coverage n gs values = Inr ()" using assms(2) by simp
  from cover have loop: "enum_cover_loop n gs (bs_collect values) [] = Inr (bs_collect values)"
    by (auto simp: validate_enum_coverage_def and_then_Inr invalid_gateway_coverage_def Let_def
        split: if_splits)
  have "length (filter (\<lambda>g. guard_evaluate g vars = Inr True) gs) = 1
    \<and> list_all (\<lambda>g. guard_evaluate g vars \<in> {Inr True, Inr False}) gs"
    using enum_cover_loop_exact [OF loop, of vars v] assms(3,4) var by (simp add: list_all_iff)
  then show ?thesis using covered_selection [OF gs, of vars n] by simp
qed

text \<open>
  C8. A gateway accepted with integer coverage has an enabled branch for every 64-bit value
  of the covered variable, and takes it unless several are enabled, which is reported as
  ambiguous. Again this needs that no branch carries an expression beside its guard; with
  such a branch every selection fails.
\<close>

theorem integer_gateway_covers:
  assumes "validate_gateway n ts (Some cov) = Inr ()" and "gc_domain cov = CoverInteger intervals"
    and "guards_i64 ts" and "bt_get vars (gc_variable cov) = Some (VInteger v)" and "is_i64 v"
  shows "if simple_branches ts
    then \<exists>t rest. enabled_targets ts vars = t # rest
      \<and> select_transition n ts vars = (if rest = [] then Inr t else evaluation_fail (AmbiguousGateway n))
    else select_transition n ts vars \<in>
      {evaluation_fail ConflictingGuardRepresentations, evaluation_fail (AmbiguousGateway n)}"
proof -
  have "gc_domain cov \<noteq> CoverSymbolic" using assms(2) by simp
  with validate_gateway_covered [OF assms(1)] obtain gs where gs: "map gt_guard ts = map Some gs"
    and var: "\<And>g. g \<in> set gs \<Longrightarrow> ge_variable g = gc_variable cov"
    and "(case gc_domain cov of CoverBoolean \<Rightarrow> validate_boolean_coverage n gs
      | CoverEnum values \<Rightarrow> validate_enum_coverage n gs values
      | CoverInteger intervals \<Rightarrow> validate_integer_coverage n gs intervals
      | CoverSymbolic \<Rightarrow> Inl (Panic ''handled above'')) = Inr ()"
    by (rule coverage_guards) (rule that)
  then have cover: "validate_integer_coverage n gs intervals = Inr ()" using assms(2) by simp
  have val: "bt_get vars (ge_variable g) = Some (VInteger v)" if "g \<in> set gs" for g
    using var [OF that] assms(4) by simp
  obtain "is" where "is": "integer_guards n gs = Inr is"
    using cover by (auto simp: validate_integer_coverage_def and_then_Inr)
  have lit: "is_i64 lit" if g: "g \<in> set gs" "ge_literal g = VInteger lit" for g lit
  proof -
    have "Some g \<in> set (map gt_guard ts)" using g(1) gs by simp
    then obtain t where "t \<in> set ts" "gt_guard t = Some g" by auto
    then show ?thesis using assms(3) g(2) by (auto simp: guards_i64_def list_all_iff)
  qed
  have "\<exists>g \<in> set gs. guard_evaluate g vars = Inr True"
    using cover assms(5) lit val by (rule integer_coverage_complete)
  then have "filter (\<lambda>g. guard_evaluate g vars = Inr True) gs \<noteq> []" by (auto simp: filter_empty_conv)
  moreover have "guard_evaluate g vars \<in> {Inr True, Inr False}" if "g \<in> set gs" for g
    using integer_guards_literals [OF "is" that] guard_evaluate_integer [OF val [OF that]] by auto
  ultimately have "filter (\<lambda>g. guard_evaluate g vars = Inr True) gs \<noteq> []"
    and defined: "list_all (\<lambda>g. guard_evaluate g vars \<in> {Inr True, Inr False}) gs"
    by (auto simp: list_all_iff)
  show ?thesis
  proof (cases "simple_branches ts")
    case True
    then have "guards_defined ts vars" "enabled_targets ts vars \<noteq> []"
      using guarded_branches(1,2) [OF gs True, of vars] defined
        \<open>filter (\<lambda>g. guard_evaluate g vars = Inr True) gs \<noteq> []\<close> by (auto simp del: filter_False)
    then show ?thesis
      using True by (cases "enabled_targets ts vars")
        (auto simp: select_transition_def select_loop_defined split: list.split)
  next
    case False
    then show ?thesis using conflicting_branch(1) [OF gs False defined] by simp
  qed
qed

definition ex_guarded :: "node_id \<Rightarrow> comparison_operator \<Rightarrow> workflow_value \<Rightarrow> guarded_transition" where
  "ex_guarded t op v =
     \<lparr>gt_target = t, gt_guard = Some \<lparr>ge_variable = ''v'', ge_operator = op, ge_literal = v\<rparr>,
      gt_expression = None\<rparr>"

lemma not_blank_v: "\<not> is_blank ''v''"
  by (rule not_blank [of "CHR ''v''"]) (simp_all add: printable_def)

lemmas coverage_defs = validate_gateway_def validate_gateway_coverage_def is_default_def
  ex_guarded_def not_blank_v simple_branches_def

theorem boolean_gateway_selects_witness:
  "\<exists>t. select_transition ''g''
      [ex_guarded ''x'' Equal (VBoolean True), ex_guarded ''y'' NotEqual (VBoolean True)]
      [(''v'', VBoolean False)] = Inr t"
proof -
  let ?ts = "[ex_guarded ''x'' Equal (VBoolean True), ex_guarded ''y'' NotEqual (VBoolean True)]"
  let ?cov = "\<lparr>gc_variable = ''v'', gc_domain = CoverBoolean\<rparr>"
  have "validate_gateway ''g'' ?ts (Some ?cov) = Inr ()"
    by (simp add: coverage_defs validate_boolean_coverage_def)
  then show ?thesis
    using boolean_gateway_selects [of "''g''" ?ts ?cov "[(''v'', VBoolean False)]" False]
    by (auto simp: coverage_defs bt_get_Cons)
qed

theorem enum_gateway_selects_witness:
  "\<exists>t. select_transition ''g''
      [ex_guarded ''x'' Equal (VString ''a''), ex_guarded ''y'' Equal (VString ''b'')]
      [(''v'', VString ''b'')] = Inr t"
proof -
  let ?ts = "[ex_guarded ''x'' Equal (VString ''a''), ex_guarded ''y'' Equal (VString ''b'')]"
  let ?cov = "\<lparr>gc_variable = ''v'', gc_domain = CoverEnum [''b'', ''a'']\<rparr>"
  have "validate_gateway ''g'' ?ts (Some ?cov) = Inr ()"
    by (simp add: coverage_defs validate_enum_coverage_def bs_collect_def)
  then show ?thesis
    using enum_gateway_selects [of "''g''" ?ts ?cov "[''b'', ''a'']" "[(''v'', VString ''b'')]" "''b''"]
    by (auto simp: coverage_defs bt_get_Cons)
qed

lemmas integer_defs = coverage_defs validate_integer_coverage_def
  validate_disjoint_integer_cover_def sort_intervals_def lower_or_min_def compare_interval_lower_def
  ord_cmp_def i64_checked_add_def i64_checked_sub_def is_i64_def i64_min_def i64_max_def

theorem integer_gateway_covers_witness:
  "enabled_targets [ex_guarded ''x'' LessThan (VInteger 5),
     ex_guarded ''y'' GreaterThanOrEqual (VInteger 5)] [(''v'', VInteger 8)] \<noteq> []"
proof -
  let ?ts = "[ex_guarded ''x'' LessThan (VInteger 5), ex_guarded ''y'' GreaterThanOrEqual (VInteger 5)]"
  let ?is = "[\<lparr>ii_lower = None, ii_upper = Some 4\<rparr>, \<lparr>ii_lower = Some 5, ii_upper = None\<rparr>]"
  let ?cov = "\<lparr>gc_variable = ''v'', gc_domain = CoverInteger ?is\<rparr>"
  have "validate_gateway ''g'' ?ts (Some ?cov) = Inr ()"
    by (simp add: integer_defs)
  moreover have "guards_i64 ?ts" "is_i64 8" by (simp_all add: guards_i64_def integer_defs)
  moreover have "simple_branches ?ts" by (simp add: coverage_defs)
  moreover have "bt_get [(''v'', VInteger 8)] ''v'' = Some (VInteger 8)" by (simp add: bt_get_Cons)
  ultimately show ?thesis
    using integer_gateway_covers [of "''g''" ?ts ?cov ?is "[(''v'', VInteger 8)]" 8] by force
qed

definition integer_branch :: "node_id \<Rightarrow> string \<Rightarrow> comparison_operator \<Rightarrow> int \<Rightarrow> guarded_transition" where
  "integer_branch target x op v =
     \<lparr>gt_target = target, gt_guard = Some \<lparr>ge_variable = x, ge_operator = op, ge_literal = VInteger v\<rparr>,
      gt_expression = None\<rparr>"

text \<open>
  C9. Integer coverage does not exclude overlap above an unbounded interval: for all 64-bit
  bounds \<open>a\<close> and \<open>b\<close> with \<open>a\<close> at most \<open>b\<close>, a gateway with the guards \<open>x < a\<close>, \<open>x >= a\<close> and
  \<open>x > b\<close> is accepted with the integer coverage proof of these guards, and its selection is
  ambiguous at run time for every value above \<open>b\<close>. Exactness, which C6 and C7 show for the
  other domains, fails for integers.
\<close>

theorem integer_overlap_accepted:
  assumes "i64_min < a" and "a \<le> b" and "b < i64_max" and "\<not> is_blank x" and "distinct [t1, t2, t3]"
    and "bt_get vars x = Some (VInteger v)" and "b < v"
  shows "validate_gateway n [integer_branch t1 x LessThan a, integer_branch t2 x GreaterThanOrEqual a,
        integer_branch t3 x GreaterThan b]
      (Some \<lparr>gc_variable = x, gc_domain = CoverInteger
        [\<lparr>ii_lower = None, ii_upper = Some (a - 1)\<rparr>, \<lparr>ii_lower = Some a, ii_upper = None\<rparr>,
         \<lparr>ii_lower = Some (b + 1), ii_upper = None\<rparr>]\<rparr>) = Inr ()
    \<and> select_transition n [integer_branch t1 x LessThan a, integer_branch t2 x GreaterThanOrEqual a,
        integer_branch t3 x GreaterThan b] vars = evaluation_fail (AmbiguousGateway n)"
proof -
  let ?is = "[\<lparr>ii_lower = None, ii_upper = Some (a - 1)\<rparr>, \<lparr>ii_lower = Some a, ii_upper = None\<rparr>,
    \<lparr>ii_lower = Some (b + 1), ii_upper = None\<rparr>]"
  have "i64_checked_sub a 1 = Some (a - 1)" "i64_checked_add b 1 = Some (b + 1)"
      "i64_checked_add (a - 1) 1 = Some a" "a - 1 \<noteq> i64_max"
    using assms(1-3) by (auto simp: i64_checked_sub_def i64_checked_add_def is_i64_def)
  moreover have "sort_intervals ?is = ?is"
    using assms(1-3) by (simp add: sort_intervals_def lower_or_min_def)
  ultimately show ?thesis
    using assms
    by (auto simp: integer_branch_def validate_gateway_def validate_gateway_coverage_def is_default_def
        validate_integer_coverage_def validate_disjoint_integer_cover_def compare_interval_lower_def ord_cmp_def
        lower_or_min_def select_transition_def transition_evaluate_def guard_evaluate_def)
qed

theorem integer_overlap_accepted_witness:
  "select_transition ''g'' [integer_branch ''x'' ''v'' LessThan 5,
     integer_branch ''y'' ''v'' GreaterThanOrEqual 5, integer_branch ''z'' ''v'' GreaterThan 7]
     [(''v'', VInteger 8)] = evaluation_fail (AmbiguousGateway ''g'')"
  using integer_overlap_accepted [of 5 7 "''v''" "''x''" "''y''" "''z''" "[(''v'', VInteger 8)]" 8 "''g''"]
  by (simp add: not_blank_v i64_min_def i64_max_def bt_get_Cons)

end
