(* ===== verification/Workflow_Definition.thy ===== *)
theory Workflow_Definition
  imports Gateway_Coverage "HOL-Library.Multiset"
begin

text \<open>
  Construction of a workflow definition (\<open>workflow.rs\<close>, \<open>impl WorkflowDefinition\<close> and the
  \<open>validate_\<close> functions): indexing of nodes, decision tables, boundary events, node
  metadata and case models, the structural checks, and the breadth-first search that
  rejects unreachable nodes. The last sections show what an accepted definition satisfies
  (\<open>valid_definition\<close>) and that the search computes reachability.
\<close>

section \<open>Accessors\<close>

fun targets :: "node \<Rightarrow> node_id list" where
  "targets (Start next) = [next]"
| "targets (ServiceTask _ next) = [next]"
| "targets (UserTask _ _ _ _ next) = [next]"
| "targets (ScriptTask _ _ _ next) = [next]"
| "targets (DecisionTask _ next) = [next]"
| "targets (CallActivity _ _ next) = [next]"
| "targets (ParallelJoin _ next) = [next]"
| "targets (InclusiveJoin _ next) = [next]"
| "targets (SubProcess start _ next) = [start, next]"
| "targets (ExclusiveGateway transitions _) = map gt_target transitions"
| "targets (InclusiveSplit transitions _ _) = map gt_target transitions"
| "targets (ParallelSplit ts _) = ts"
| "targets End = []"

definition definition_node :: "workflow_definition \<Rightarrow> node_id \<Rightarrow> node result" where
  "definition_node d n = ok_or (bt_get (wd_nodes d) n) (ActivityError (UnknownNode n))"

definition node_multi_instance ::
  "workflow_definition \<Rightarrow> node_id \<Rightarrow> multi_instance_definition option" where
  "node_multi_instance d n =
     Option.bind (bt_get (wd_node_metadata d) n) nm_multi_instance"

definition owner_scope_id :: "workflow_definition \<Rightarrow> node_id \<Rightarrow> node_id option" where
  "owner_scope_id d n = Option.bind (bt_get (wd_node_metadata d) n) nm_owner_scope_id"

definition sub_process_exit :: "workflow_definition \<Rightarrow> node_id \<Rightarrow> node_id result" where
  "sub_process_exit d scope_node_id =
     and_then (definition_node d scope_node_id) (\<lambda>nd.
       case nd of SubProcess _ _ next \<Rightarrow> Inr next
       | _ \<Rightarrow> definition_fail (InvalidScopeOwner scope_node_id))"

definition case_model :: "workflow_definition \<Rightarrow> case_model_id \<Rightarrow> case_definition result" where
  "case_model d i = ok_or (bt_get (wd_case_models d) i) (CaseError (UnknownCaseModel i))"

definition boundary_events ::
  "workflow_definition \<Rightarrow> node_id \<Rightarrow> boundary_event_definition list" where
  "boundary_events d n = (case bt_get (wd_boundary_events d) n of None \<Rightarrow> [] | Some bs \<Rightarrow> bs)"

text \<open>\<open>iter().find_map\<close> over the owners in key order.\<close>

fun find_boundary ::
  "(node_id, boundary_event_definition list) btree_map \<Rightarrow> node_id
   \<Rightarrow> (node_id \<times> boundary_event_definition) option" where
  "find_boundary [] b = None"
| "find_boundary ((owner, boundaries) # m) b =
     (case find (\<lambda>boundary. be_id boundary = b) boundaries of
        Some boundary \<Rightarrow> Some (owner, boundary)
      | None \<Rightarrow> find_boundary m b)"

definition boundary_event ::
  "workflow_definition \<Rightarrow> node_id \<Rightarrow> (node_id \<times> boundary_event_definition) option" where
  "boundary_event d b = find_boundary (wd_boundary_events d) b"

definition active_scope_for_node ::
  "workflow_definition \<Rightarrow> instance_state \<Rightarrow> node_id \<Rightarrow> scope_instance_id option result" where
  "active_scope_for_node d s n =
     (case owner_scope_id d n of
        None \<Rightarrow> Inr None
      | Some owner \<Rightarrow>
          (case map fst (filter (\<lambda>e. as_scope_node_id (snd e) = owner) (is_active_scopes s)) of
             [] \<Rightarrow> runtime_fail (ScopeNotActive owner)
           | [found] \<Rightarrow> Inr (Some found)
           | _ \<Rightarrow> runtime_fail (AmbiguousActiveScope owner)))"

section \<open>Structural checks\<close>

definition reciprocal_pair ::
  "node option \<Rightarrow> (node \<Rightarrow> bool) \<Rightarrow> node_id \<Rightarrow> node_id \<Rightarrow> unit result" where
  "reciprocal_pair paired_node predicate gateway paired =
     (if (case paired_node of None \<Rightarrow> False | Some nd \<Rightarrow> predicate nd) then Inr ()
      else definition_fail (InvalidGatewayPair gateway paired))"

fun validate_gateway_node :: "node_id \<Rightarrow> node \<Rightarrow> (node_id, node) btree_map \<Rightarrow> unit result" where
  "validate_gateway_node n (ExclusiveGateway ts coverage) indexed = validate_gateway n ts coverage"
| "validate_gateway_node n (ParallelSplit ts join) indexed =
     and_then (validate_parallel_split n ts) (\<lambda>_.
       reciprocal_pair (bt_get indexed join)
         (\<lambda>paired. case paired of ParallelJoin split _ \<Rightarrow> split = n | _ \<Rightarrow> False) n join)"
| "validate_gateway_node n (ParallelJoin split _) indexed =
     reciprocal_pair (bt_get indexed split)
       (\<lambda>paired. case paired of ParallelSplit _ join \<Rightarrow> join = n | _ \<Rightarrow> False) n split"
| "validate_gateway_node n (InclusiveSplit ts coverage join) indexed =
     and_then (validate_inclusive_gateway n ts coverage) (\<lambda>_.
       reciprocal_pair (bt_get indexed join)
         (\<lambda>paired. case paired of InclusiveJoin split _ \<Rightarrow> split = n | _ \<Rightarrow> False) n join)"
| "validate_gateway_node n (InclusiveJoin split _) indexed =
     reciprocal_pair (bt_get indexed split)
       (\<lambda>paired. case paired of InclusiveSplit _ _ join \<Rightarrow> join = n | _ \<Rightarrow> False) n split"
| "validate_gateway_node n _ indexed = Inr ()"

definition validate_decision_rule :: "decision_table \<Rightarrow> decision_rule \<Rightarrow> unit result" where
  "validate_decision_rule table rule =
     (if length (dr_input_tests rule) \<noteq> length (dt_inputs table)
      then definition_fail (InvalidDecisionTable (dt_id table)
             (''rule '' @ dr_id rule @ '' input count does not match table inputs''))
      else if length (dr_output_values rule) \<noteq> length (dt_outputs table)
      then definition_fail (InvalidDecisionTable (dt_id table)
             (''rule '' @ dr_id rule @ '' output count does not match table outputs''))
      else try_all (\<lambda>(value, output).
             if \<not> type_matches (do_value_type output) value
             then definition_fail (InvalidDecisionTable (dt_id table)
                    (''rule '' @ dr_id rule @ '' output '' @ do_name output @ '' has wrong type''))
             else Inr ()) (zip (dr_output_values rule) (dt_outputs table)))"

definition validate_decision_table :: "decision_table \<Rightarrow> unit result" where
  "validate_decision_table table =
     (if is_blank (dt_id table)
      then definition_fail (InvalidDecisionTable (dt_id table) ''decision table id is empty'')
      else if dt_inputs table = [] \<or> dt_outputs table = []
      then definition_fail (InvalidDecisionTable (dt_id table)
             ''decision table must declare inputs and outputs'')
      else try_all (validate_decision_rule table) (dt_rules table))"

definition check_sentries :: "case_definition \<Rightarrow> sentry_id btree_set \<Rightarrow> sentry_id list \<Rightarrow> unit result"
  where
  "check_sentries model sentry_ids referenced =
     try_all (\<lambda>i. if i \<notin> set sentry_ids
        then definition_fail (UnknownCaseSentry (cd_id model) i) else Inr ()) referenced"

definition check_plan_item ::
  "case_definition \<Rightarrow> sentry_id btree_set \<Rightarrow> plan_item_id btree_set \<Rightarrow> plan_item_id \<times> sentry_id list
   \<Rightarrow> plan_item_id btree_set result" where
  "check_plan_item model sentry_ids plan_item_ids item =
     (if fst item \<in> set plan_item_ids then definition_fail (DuplicateCasePlanItem (fst item))
      else and_then (check_sentries model sentry_ids (snd item))
             (\<lambda>_. Inr (bs_insert (fst item) plan_item_ids)))"

definition validate_case_definition :: "case_definition \<Rightarrow> unit result" where
  "validate_case_definition model =
     (let sentry_ids = bs_collect (map sentry_id_of (cd_sentries model)) in
      if length sentry_ids \<noteq> length (cd_sentries model)
      then definition_fail (DuplicateCaseSentry (cd_id model))
      else and_then (try_fold (check_plan_item model sentry_ids) []
             (map (\<lambda>stage. (cs_id stage, cs_entry_sentry_ids stage @ cs_exit_sentry_ids stage))
               (cd_stages model))) (\<lambda>plan_item_ids.
           and_then (try_fold (check_plan_item model sentry_ids) plan_item_ids
             (map (\<lambda>milestone. (cm_id milestone, cm_entry_sentry_ids milestone))
               (cd_milestones model))) (\<lambda>_.
           Inr ())))"

type_synonym property_key = "string \<times> string \<times> string"

definition property_key :: "extension_property \<Rightarrow> property_key" where
  "property_key p = (ep_namespace_uri p, ep_element_name p, ep_name p)"

definition validate_extension_properties :: "extension_property list \<Rightarrow> unit result" where
  "validate_extension_properties ps =
     and_then (try_fold (\<lambda>keys p.
         if is_blank (ep_namespace_uri p) \<or> is_blank (ep_element_name p) \<or> is_blank (ep_name p)
         then definition_fail InvalidExtensionProperty
         else if property_key p \<in> set keys then definition_fail DuplicateExtensionProperty
         else Inr (bs_insert (property_key p) keys)) [] ps) (\<lambda>_. Inr ())"

definition validate_node_metadata :: "node_id \<Rightarrow> node_execution_metadata \<Rightarrow> unit result" where
  "validate_node_metadata owner metadata =
     and_then (validate_extension_properties (nm_properties metadata)) (\<lambda>_.
       case nm_multi_instance metadata of
         None \<Rightarrow> Inr ()
       | Some spec \<Rightarrow>
           if mi_collection_expression spec = None \<and> mi_cardinality_expression spec = None
           then definition_fail (InvalidMultiInstance owner
                  ''collection or cardinality expression is required'')
           else if mi_collection_expression spec \<noteq> None \<and> mi_item_variable spec = None
           then definition_fail (InvalidMultiInstance owner
                  ''collection iteration requires an item variable'')
           else if mi_max_parallelism spec = Some 0
           then definition_fail (InvalidMultiInstance owner
                  ''max parallelism must be greater than zero'')
           else Inr ())"

fun is_sub_process :: "node option \<Rightarrow> bool" where
  "is_sub_process (Some (SubProcess _ _ _)) = True"
| "is_sub_process _ = False"

definition metadata_owner ::
  "(node_id, node_execution_metadata) btree_map \<Rightarrow> node_id \<Rightarrow> node_id option" where
  "metadata_owner metadata n = Option.bind (bt_get metadata n) nm_owner_scope_id"

definition validate_scope_ownership ::
  "(node_id, node) btree_map \<Rightarrow> (node_id, node_execution_metadata) btree_map \<Rightarrow> unit result"
  where
  "validate_scope_ownership nodes metadata =
     and_then (try_all (\<lambda>(n, node_metadata).
         case nm_owner_scope_id node_metadata of
           None \<Rightarrow> Inr ()
         | Some owner \<Rightarrow>
             if \<not> is_sub_process (bt_get nodes owner)
             then definition_fail (InvalidScopeOwner owner)
             else if owner = n then definition_fail (RecursiveScopeOwnership n)
             else Inr ()) metadata) (\<lambda>_.
     try_all (\<lambda>(scope_node_id, nd).
         case nd of
           SubProcess start end_node _ \<Rightarrow>
             try_all (\<lambda>child.
               if metadata_owner metadata child \<noteq> Some scope_node_id
               then definition_fail (ScopeBoundaryOwnershipMismatch scope_node_id child)
               else Inr ()) [start, end_node]
         | _ \<Rightarrow> Inr ()) nodes)"

section \<open>Construction\<close>

text \<open>\<open>if map.insert(key, value).is_some() { return Err(error) }\<close>\<close>

definition insert_new ::
  "failure \<Rightarrow> 'k::linorder \<Rightarrow> 'v \<Rightarrow> ('k, 'v) btree_map \<Rightarrow> ('k, 'v) btree_map result" where
  "insert_new e k v m = (if bt_contains_key m k then Inl e else Inr (bt_insert k v m))"

definition index_nodes :: "(node_id \<times> node) list \<Rightarrow> (node_id, node) btree_map result" where
  "index_nodes nodes =
     try_fold (\<lambda>m (n, nd). insert_new (DefinitionError (DuplicateNode n)) n nd m) [] nodes"

definition index_tables :: "decision_table list \<Rightarrow> (string, decision_table) btree_map result" where
  "index_tables tables =
     try_fold (\<lambda>m table. and_then (validate_decision_table table) (\<lambda>_.
       insert_new (DefinitionError DuplicateDecisionTable) (dt_id table) table m)) [] tables"

fun is_start :: "node option \<Rightarrow> bool" where
  "is_start (Some (Start _)) = True"
| "is_start _ = False"

fun enters_owned_start :: "node \<Rightarrow> node_id \<Rightarrow> bool" where
  "enters_owned_start (SubProcess start _ _) next = (start = next)"
| "enters_owned_start _ next = False"

definition check_target ::
  "(node_id, node) btree_map \<Rightarrow> node_id \<Rightarrow> node \<Rightarrow> node_id \<Rightarrow> unit result" where
  "check_target indexed n nd next =
     (if \<not> bt_contains_key indexed next then definition_fail (MissingTransitionTarget n next)
      else if is_start (bt_get indexed next) \<and> \<not> enters_owned_start nd next
      then definition_fail (TransitionToStartNode next)
      else Inr ())"

definition check_node ::
  "(node_id, node) btree_map \<Rightarrow> (string, decision_table) btree_map \<Rightarrow> node_id \<times> node
   \<Rightarrow> unit result" where
  "check_node indexed tables entry =
     and_then (validate_gateway_node (fst entry) (snd entry) indexed) (\<lambda>_.
     and_then (case snd entry of
         DecisionTask table_id _ \<Rightarrow>
           if \<not> bt_contains_key tables table_id
           then definition_fail (MissingDecisionTable table_id) else Inr ()
       | _ \<Rightarrow> Inr ()) (\<lambda>_.
     try_all (check_target indexed (fst entry) (snd entry)) (targets (snd entry))))"

text \<open>The boundary index and the identifiers seen so far.\<close>

definition index_boundary ::
  "(node_id, node) btree_map
   \<Rightarrow> (node_id, boundary_event_definition list) btree_map \<times> node_id btree_set
   \<Rightarrow> node_id \<times> boundary_event_definition
   \<Rightarrow> ((node_id, boundary_event_definition list) btree_map \<times> node_id btree_set) result" where
  "index_boundary indexed acc entry =
     (let (index, ids) = acc; (owner, boundary) = entry in
      if \<not> bt_contains_key indexed owner then definition_fail (UnknownBoundaryOwner owner)
      else if \<not> bt_contains_key indexed (be_target boundary)
      then definition_fail (MissingTransitionTarget owner (be_target boundary))
      else if be_id boundary \<in> set ids
      then definition_fail (DuplicateBoundaryEvent (be_id boundary))
      else Inr (bt_insert owner
              ((case bt_get index owner of None \<Rightarrow> [] | Some bs \<Rightarrow> bs) @ [boundary]) index,
            bs_insert (be_id boundary) ids))"

fun multi_instance_capable :: "node option \<Rightarrow> bool" where
  "multi_instance_capable (Some (ServiceTask _ _)) = True"
| "multi_instance_capable (Some (UserTask _ _ _ _ _)) = True"
| "multi_instance_capable (Some (ScriptTask _ _ _ _)) = True"
| "multi_instance_capable (Some (CallActivity _ _ _)) = True"
| "multi_instance_capable _ = False"

definition index_metadata ::
  "(node_id, node) btree_map \<Rightarrow> (node_id, node_execution_metadata) btree_map
   \<Rightarrow> node_id \<times> node_execution_metadata
   \<Rightarrow> (node_id, node_execution_metadata) btree_map result" where
  "index_metadata indexed m entry =
     (let (owner, metadata) = entry in
      if \<not> bt_contains_key indexed owner then definition_fail (UnknownNodeMetadataOwner owner)
      else if nm_multi_instance metadata \<noteq> None
              \<and> \<not> multi_instance_capable (bt_get indexed owner)
      then definition_fail (InvalidMultiInstance owner
        ''runtime multi-instance is supported only for service, user, script, and call activities'')
      else and_then (validate_node_metadata owner metadata) (\<lambda>_.
        insert_new (DefinitionError (DuplicateNodeMetadata owner)) owner metadata m))"

definition index_case_models ::
  "case_definition list \<Rightarrow> (case_model_id, case_definition) btree_map result" where
  "index_case_models models =
     try_fold (\<lambda>m model. and_then (validate_case_definition model) (\<lambda>_.
       insert_new (DefinitionError DuplicateCaseModel) (cd_id model) model m)) [] models"

text \<open>The successors of a node in the search: its transitions and its boundary targets.\<close>

definition successors :: "workflow_definition \<Rightarrow> node_id \<Rightarrow> node_id list" where
  "successors d n =
     (case bt_get (wd_nodes d) n of None \<Rightarrow> [] | Some nd \<Rightarrow> targets nd)
     @ map be_target (boundary_events d n)"

definition known_ids :: "workflow_definition \<Rightarrow> node_id set" where
  "known_ids d = set (bt_keys (wd_nodes d)) \<union> set (bt_keys (wd_boundary_events d))"

text \<open>Breadth-first search with a queue and the set of visited nodes.\<close>

function reach_loop ::
  "workflow_definition \<Rightarrow> node_id list \<Rightarrow> node_id btree_set \<Rightarrow> node_id btree_set" where
  "reach_loop d [] visited = visited"
| "reach_loop d (n # pending) visited =
     (if n \<in> set visited then reach_loop d pending visited
      else reach_loop d (pending @ successors d n) (bs_insert n visited))"
  by pat_completeness auto

lemma successors_unknown: "n \<notin> known_ids d \<Longrightarrow> successors d n = []"
  by (auto simp: successors_def known_ids_def boundary_events_def bt_get_None_iff [THEN iffD2])

termination reach_loop
proof (relation "measures [\<lambda>(d, pending, visited). card (known_ids d - set visited),
      \<lambda>(d, pending, visited). length pending]")
  fix d n pending visited
  assume fresh: "n \<notin> set (visited :: node_id btree_set)"
  have fin: "finite (known_ids d)" by (simp add: known_ids_def)
  show "((d, pending @ successors d n, bs_insert n visited), d, n # pending, visited)
    \<in> measures [\<lambda>(d, pending, visited). card (known_ids d - set visited),
        \<lambda>(d, pending, visited). length pending]"
  proof (cases "n \<in> known_ids d")
    case True
    then have "known_ids d - set (bs_insert n visited) \<subset> known_ids d - set visited"
      using fresh by auto
    then have "card (known_ids d - set (bs_insert n visited)) < card (known_ids d - set visited)"
      using fin by (intro psubset_card_mono) auto
    then show ?thesis by simp
  next
    case False
    then have "known_ids d - set (bs_insert n visited) = known_ids d - set visited" by auto
    then show ?thesis using False by (simp add: successors_unknown)
  qed
qed auto

definition validate_reachability :: "workflow_definition \<Rightarrow> unit result" where
  "validate_reachability d =
     (let visited = reach_loop d [wd_start_node d] [] in
      case find (\<lambda>n. n \<notin> set visited) (bt_keys (wd_nodes d)) of
        Some unreachable \<Rightarrow> definition_fail (UnreachableNode unreachable)
      | None \<Rightarrow> Inr ())"

definition new_with_execution_contracts ::
  "tenant_id \<Rightarrow> workflow_type \<Rightarrow> workflow_version \<Rightarrow> node_id \<Rightarrow> (node_id \<times> node) list
   \<Rightarrow> decision_table list \<Rightarrow> workflow_execution_contracts \<Rightarrow> workflow_definition result" where
  "new_with_execution_contracts tenant wtype wversion start nodes tables contracts =
     and_then (index_nodes nodes) (\<lambda>indexed.
     and_then (index_tables tables) (\<lambda>indexed_tables.
     if \<not> is_start (bt_get indexed start) then definition_fail (InvalidStartNode start)
     else
     and_then (try_all (check_node indexed indexed_tables) indexed) (\<lambda>_.
     and_then (try_fold (index_boundary indexed) ([], []) (ec_boundary_events contracts))
       (\<lambda>(indexed_boundaries, boundary_ids).
     and_then (try_fold (index_metadata indexed) [] (ec_node_metadata contracts))
       (\<lambda>indexed_metadata.
     and_then (validate_scope_ownership indexed indexed_metadata) (\<lambda>_.
     and_then (validate_extension_properties (ec_properties contracts)) (\<lambda>_.
     and_then (index_case_models (ec_case_models contracts)) (\<lambda>indexed_case_models.
     let d = \<lparr>wd_tenant_id = tenant, wd_workflow_type = wtype, wd_workflow_version = wversion,
              wd_start_node = start, wd_nodes = indexed, wd_decision_tables = indexed_tables,
              wd_boundary_events = indexed_boundaries, wd_node_metadata = indexed_metadata,
              wd_properties = ec_properties contracts, wd_case_models = indexed_case_models\<rparr>
     in and_then (validate_reachability d) (\<lambda>_. Inr d)))))))))"

definition no_contracts :: workflow_execution_contracts where
  "no_contracts = \<lparr>ec_boundary_events = [], ec_node_metadata = [], ec_properties = [],
     ec_case_models = []\<rparr>"

definition new_with_decisions ::
  "tenant_id \<Rightarrow> workflow_type \<Rightarrow> workflow_version \<Rightarrow> node_id \<Rightarrow> (node_id \<times> node) list
   \<Rightarrow> decision_table list \<Rightarrow> workflow_definition result" where
  "new_with_decisions tenant wtype wversion start nodes tables =
     new_with_execution_contracts tenant wtype wversion start nodes tables no_contracts"

definition workflow_definition_new ::
  "tenant_id \<Rightarrow> workflow_type \<Rightarrow> workflow_version \<Rightarrow> node_id \<Rightarrow> (node_id \<times> node) list
   \<Rightarrow> workflow_definition result" where
  "workflow_definition_new tenant wtype wversion start nodes =
     new_with_decisions tenant wtype wversion start nodes []"

section \<open>The search computes reachability\<close>

inductive reachable_node :: "workflow_definition \<Rightarrow> node_id \<Rightarrow> bool" for d where
  reach_start: "reachable_node d (wd_start_node d)"
| reach_step: "reachable_node d a \<Longrightarrow> b \<in> set (successors d a) \<Longrightarrow> reachable_node d b"

lemma reach_loop_sound:
  assumes "\<And>x. x \<in> set pending \<union> set visited \<Longrightarrow> reachable_node d x"
  shows "x \<in> set (reach_loop d pending visited) \<Longrightarrow> reachable_node d x"
  using assms
proof (induction d pending visited rule: reach_loop.induct)
  case (2 d n pending visited)
  show ?case
  proof (cases "n \<in> set visited")
    case True
    with 2 show ?thesis by simp
  next
    case False
    have "reachable_node d y" if "y \<in> set (pending @ successors d n) \<union> set (bs_insert n visited)" for y
      using that "2.prems"(2) by (auto intro: reachable_node.reach_step)
    then show ?thesis using "2.IH"(2) [OF False] "2.prems"(1) False by simp
  qed
qed simp

lemma reach_loop_closed:
  assumes "\<And>a. a \<in> set visited \<Longrightarrow> set (successors d a) \<subseteq> set visited \<union> set pending"
  shows "set visited \<union> set pending \<subseteq> set (reach_loop d pending visited) \<and>
    (\<forall>a \<in> set (reach_loop d pending visited).
      set (successors d a) \<subseteq> set (reach_loop d pending visited))"
  using assms
proof (induction d pending visited rule: reach_loop.induct)
  case (2 d n pending visited)
  show ?case
  proof (cases "n \<in> set visited")
    case True
    have "\<And>a. a \<in> set visited \<Longrightarrow> set (successors d a) \<subseteq> set visited \<union> set pending"
      using "2.prems" True by auto
    from "2.IH"(1) [OF True this] show ?thesis using True by auto
  next
    case False
    have "\<And>a. a \<in> set (bs_insert n visited) \<Longrightarrow>
        set (successors d a) \<subseteq> set (bs_insert n visited) \<union> set (pending @ successors d n)"
      using "2.prems" by auto
    from "2.IH"(2) [OF False this] show ?thesis using False by auto
  qed
qed simp

lemma reach_loop_reachable:
  "set (reach_loop d [wd_start_node d] []) = {n. reachable_node d n}"
proof
  show "set (reach_loop d [wd_start_node d] []) \<subseteq> {n. reachable_node d n}"
    using reach_loop_sound [of "[wd_start_node d]" "[]" d] by (auto intro: reach_start)
  have closed: "wd_start_node d \<in> set (reach_loop d [wd_start_node d] [])"
    "\<And>a b. a \<in> set (reach_loop d [wd_start_node d] []) \<Longrightarrow> b \<in> set (successors d a) \<Longrightarrow>
      b \<in> set (reach_loop d [wd_start_node d] [])"
    using reach_loop_closed [of "[]" d "[wd_start_node d]"] by auto
  have "n \<in> set (reach_loop d [wd_start_node d] [])" if "reachable_node d n" for n
    using that by (induction rule: reachable_node.induct) (blast intro: closed)+
  then show "{n. reachable_node d n} \<subseteq> set (reach_loop d [wd_start_node d] [])" by auto
qed

lemma validate_reachability_Inr:
  "validate_reachability d = Inr u \<longleftrightarrow> (\<forall>n \<in> set (bt_keys (wd_nodes d)). reachable_node d n)"
  using reach_loop_reachable [of d]
  by (auto simp: validate_reachability_def find_None_iff find_Some_iff Let_def split: option.splits)

section \<open>What an accepted definition satisfies\<close>

definition maps_sorted :: "workflow_definition \<Rightarrow> bool" where
  "maps_sorted d \<longleftrightarrow> bt_sorted (wd_nodes d) \<and> bt_sorted (wd_decision_tables d)
     \<and> bt_sorted (wd_boundary_events d) \<and> bt_sorted (wd_node_metadata d)
     \<and> bt_sorted (wd_case_models d)"

definition nodes_valid :: "workflow_definition \<Rightarrow> bool" where
  "nodes_valid d \<longleftrightarrow>
     (\<forall>(n, nd) \<in> set (wd_nodes d).
        validate_gateway_node n nd (wd_nodes d) = Inr ()
        \<and> (case nd of DecisionTask t _ \<Rightarrow> bt_contains_key (wd_decision_tables d) t | _ \<Rightarrow> True)
        \<and> (\<forall>t \<in> set (targets nd). bt_contains_key (wd_nodes d) t
              \<and> (is_start (bt_get (wd_nodes d) t) \<longrightarrow> enters_owned_start nd t)))"

definition boundaries_valid :: "workflow_definition \<Rightarrow> bool" where
  "boundaries_valid d \<longleftrightarrow>
     (\<forall>(owner, bs) \<in> set (wd_boundary_events d). bt_contains_key (wd_nodes d) owner
        \<and> (\<forall>b \<in> set bs. bt_contains_key (wd_nodes d) (be_target b)))
     \<and> distinct (map be_id (concat (bt_values (wd_boundary_events d))))"

definition metadata_valid :: "workflow_definition \<Rightarrow> bool" where
  "metadata_valid d \<longleftrightarrow>
     (\<forall>(owner, m) \<in> set (wd_node_metadata d). bt_contains_key (wd_nodes d) owner
        \<and> (nm_multi_instance m \<noteq> None \<longrightarrow> multi_instance_capable (bt_get (wd_nodes d) owner))
        \<and> validate_node_metadata owner m = Inr ())
     \<and> validate_scope_ownership (wd_nodes d) (wd_node_metadata d) = Inr ()"

definition tables_valid :: "workflow_definition \<Rightarrow> bool" where
  "tables_valid d \<longleftrightarrow>
     (\<forall>(k, table) \<in> set (wd_decision_tables d).
        dt_id table = k \<and> validate_decision_table table = Inr ())
     \<and> (\<forall>(k, model) \<in> set (wd_case_models d).
        cd_id model = k \<and> validate_case_definition model = Inr ())"

definition valid_definition :: "workflow_definition \<Rightarrow> bool" where
  "valid_definition d \<longleftrightarrow> maps_sorted d \<and> is_start (bt_get (wd_nodes d) (wd_start_node d))
     \<and> nodes_valid d \<and> boundaries_valid d \<and> metadata_valid d \<and> tables_valid d
     \<and> (\<forall>n \<in> set (bt_keys (wd_nodes d)). reachable_node d n)"

lemma insert_new_Inr [result_simps]:
  "insert_new e k v m = Inr m' \<longleftrightarrow> \<not> bt_contains_key m k \<and> m' = bt_insert k v m"
  by (auto simp: insert_new_def)

lemma index_nodes_sorted: "index_nodes nodes = Inr m \<Longrightarrow> bt_sorted m"
  unfolding index_nodes_def
  by (erule try_fold_invariant [where P = bt_sorted])
     (auto simp: insert_new_Inr intro: bt_sorted_insert)

lemma index_tables_valid:
  "index_tables tables = Inr m \<Longrightarrow>
    bt_sorted m \<and> (\<forall>(k, t) \<in> set m. dt_id t = k \<and> validate_decision_table t = Inr ())"
  unfolding index_tables_def
  by (erule try_fold_invariant)
     (auto simp: insert_new_Inr and_then_Inr intro: bt_sorted_insert
       dest!: subsetD [OF set_bt_insert_subset])

lemma index_case_models_valid:
  "index_case_models models = Inr m \<Longrightarrow>
    bt_sorted m \<and> (\<forall>(k, t) \<in> set m. cd_id t = k \<and> validate_case_definition t = Inr ())"
  unfolding index_case_models_def
  by (erule try_fold_invariant)
     (auto simp: insert_new_Inr and_then_Inr intro: bt_sorted_insert
       dest!: subsetD [OF set_bt_insert_subset])

lemma index_metadata_valid:
  "try_fold (index_metadata indexed) [] entries = Inr m \<Longrightarrow>
    bt_sorted m \<and> (\<forall>(owner, md) \<in> set m. bt_contains_key indexed owner
      \<and> (nm_multi_instance md \<noteq> None \<longrightarrow> multi_instance_capable (bt_get indexed owner))
      \<and> validate_node_metadata owner md = Inr ())"
proof (erule try_fold_invariant)
  let ?ok = "\<lambda>(owner, md). bt_contains_key indexed owner
      \<and> (nm_multi_instance md \<noteq> None \<longrightarrow> multi_instance_capable (bt_get indexed owner))
      \<and> validate_node_metadata owner md = Inr ()"
  fix m entry m'
  assume step: "index_metadata indexed m entry = Inr m'"
    and m: "bt_sorted m \<and> (\<forall>e \<in> set m. ?ok e)"
  from step obtain owner md where e: "entry = (owner, md)" "m' = bt_insert owner md m" "?ok entry"
    by (cases entry) (auto simp: index_metadata_def insert_new_Inr and_then_Inr split: if_splits)
  have "\<forall>e \<in> set m'. ?ok e"
    unfolding e(2) using m e(1,3) by (intro ball_bt_insert) simp_all
  then show "bt_sorted m' \<and> (\<forall>e \<in> set m'. ?ok e)"
    using m by (simp add: e(2) bt_sorted_insert)
qed simp

text \<open>Appending one boundary to its owner's list permutes the list of all identifiers.\<close>

lemma boundary_ids_insert:
  assumes "bt_sorted m"
  shows "mset (map f (concat (bt_values
      (bt_insert k ((case bt_get m k of None \<Rightarrow> [] | Some bs \<Rightarrow> bs) @ [b]) m)))) =
    add_mset (f b) (mset (map f (concat (bt_values m))))"
  using assms
proof (induction m)
  case (Cons e m)
  then show ?case
    by (cases e) (fastforce simp: bt_values_def bt_get_Cons bt_keys_def
        dest: bt_get_in_set split: option.splits)
qed (simp add: bt_values_def)

definition boundary_index_ok ::
  "(node_id, node) btree_map
   \<Rightarrow> (node_id, boundary_event_definition list) btree_map \<times> node_id btree_set \<Rightarrow> bool" where
  "boundary_index_ok indexed acc \<longleftrightarrow>
     bt_sorted (fst acc)
     \<and> mset (map be_id (concat (bt_values (fst acc)))) = mset (snd acc) \<and> bs_sorted (snd acc)
     \<and> (\<forall>(owner, bs) \<in> set (fst acc). bt_contains_key indexed owner
           \<and> (\<forall>b \<in> set bs. bt_contains_key indexed (be_target b)))"

lemma mset_bs_insert: "x \<notin> set s \<Longrightarrow> mset (bs_insert x s) = add_mset x (mset s)"
  by (induction x s rule: bs_insert.induct) auto

lemma index_boundary_ok:
  assumes "index_boundary indexed acc entry = Inr acc'" and "boundary_index_ok indexed acc"
  shows "boundary_index_ok indexed acc'"
proof -
  obtain m ids owner b where [simp]: "acc = (m, ids)" "entry = (owner, b)" by fastforce
  define bs where "bs = (case bt_get m owner of None \<Rightarrow> [] | Some bs \<Rightarrow> bs)"
  from assms(1) have known: "bt_contains_key indexed owner" "bt_contains_key indexed (be_target b)"
    and fresh: "be_id b \<notin> set ids"
    and acc': "acc' = (bt_insert owner (bs @ [b]) m, bs_insert (be_id b) ids)"
    by (auto simp: index_boundary_def bs_def split: if_splits)
  from assms(2) have m: "bt_sorted m" "bs_sorted ids"
    and ids: "mset (map be_id (concat (bt_values m))) = mset ids"
    and all: "\<forall>(owner, bs) \<in> set m. bt_contains_key indexed owner
           \<and> (\<forall>b \<in> set bs. bt_contains_key indexed (be_target b))"
    by (auto simp: boundary_index_ok_def)
  have bs: "\<forall>b \<in> set bs. bt_contains_key indexed (be_target b)"
  proof (cases "bt_get m owner")
    case (Some l)
    then show ?thesis using all bt_get_in_set [OF Some] by (auto simp: bs_def)
  qed (simp add: bs_def)
  have "\<forall>(owner, bs) \<in> set (bt_insert owner (bs @ [b]) m). bt_contains_key indexed owner
           \<and> (\<forall>b \<in> set bs. bt_contains_key indexed (be_target b))"
    using all bs known by (intro ball_bt_insert) auto
  moreover have "mset (map be_id (concat (bt_values (bt_insert owner (bs @ [b]) m)))) =
      mset (bs_insert (be_id b) ids)"
    using boundary_ids_insert [OF m(1), of be_id owner b] ids fresh
    by (simp add: bs_def mset_bs_insert)
  ultimately show ?thesis
    using m by (simp add: acc' boundary_index_ok_def bt_sorted_insert bs_sorted_insert)
qed

lemma index_boundaries_ok:
  assumes "try_fold (index_boundary indexed) ([], []) entries = Inr acc"
  shows "boundary_index_ok indexed acc"
  using assms
proof (rule try_fold_invariant [where P = "boundary_index_ok indexed"])
  show "boundary_index_ok indexed ([], [])"
    by (simp add: boundary_index_ok_def bt_values_def)
qed (rule index_boundary_ok)

lemma boundary_index_distinct:
  "boundary_index_ok indexed (m, ids) \<Longrightarrow> distinct (map be_id (concat (bt_values m)))"
  by (metis boundary_index_ok_def bs_sorted_distinct fst_conv mset_eq_imp_distinct_iff snd_conv)

lemma check_node_Inr:
  "check_node indexed tables (n, nd) = Inr () \<longleftrightarrow>
    validate_gateway_node n nd indexed = Inr ()
    \<and> (case nd of DecisionTask t _ \<Rightarrow> bt_contains_key tables t | _ \<Rightarrow> True)
    \<and> (\<forall>t \<in> set (targets nd). bt_contains_key indexed t
          \<and> (is_start (bt_get indexed t) \<longrightarrow> enters_owned_start nd t))"
  by (auto simp: check_node_def and_then_Inr try_all_Inr check_target_def
      split: node.splits if_splits)

lemma new_with_execution_contracts_valid:
  assumes "new_with_execution_contracts tenant wtype wversion start nodes tables contracts = Inr d"
  shows "valid_definition d"
proof -
  from assms obtain indexed itables boundaries ids metadata cases where
    d: "d = \<lparr>wd_tenant_id = tenant, wd_workflow_type = wtype, wd_workflow_version = wversion,
              wd_start_node = start, wd_nodes = indexed, wd_decision_tables = itables,
              wd_boundary_events = boundaries, wd_node_metadata = metadata,
              wd_properties = ec_properties contracts, wd_case_models = cases\<rparr>"
    and nodes: "index_nodes nodes = Inr indexed" and itables: "index_tables tables = Inr itables"
    and start: "is_start (bt_get indexed start)"
    and checked: "\<forall>e \<in> set indexed. check_node indexed itables e = Inr ()"
    and boundaries: "try_fold (index_boundary indexed) ([], []) (ec_boundary_events contracts)
          = Inr (boundaries, ids)"
    and metadata: "try_fold (index_metadata indexed) [] (ec_node_metadata contracts) = Inr metadata"
    and scopes: "validate_scope_ownership indexed metadata = Inr ()"
    and cases: "index_case_models (ec_case_models contracts) = Inr cases"
    and reach: "validate_reachability d = Inr ()"
    by (auto simp: new_with_execution_contracts_def and_then_Inr try_all_Inr Let_def
        split: if_splits prod.splits)
  have "nodes_valid d"
    unfolding nodes_valid_def
  proof (intro ballI, clarsimp simp only: split_paired_all prod.case)
    fix n nd
    assume "(n, nd) \<in> set (wd_nodes d)"
    then have "check_node indexed itables (n, nd) = Inr ()" using checked by (auto simp: d)
    then show "validate_gateway_node n nd (wd_nodes d) = Inr ()
        \<and> (case nd of DecisionTask t _ \<Rightarrow> bt_contains_key (wd_decision_tables d) t | _ \<Rightarrow> True)
        \<and> (\<forall>t \<in> set (targets nd). bt_contains_key (wd_nodes d) t
              \<and> (is_start (bt_get (wd_nodes d) t) \<longrightarrow> enters_owned_start nd t))"
      unfolding check_node_Inr d workflow_definition.simps .
  qed
  moreover have "boundaries_valid d"
    using index_boundaries_ok [OF boundaries] boundary_index_distinct [of indexed boundaries ids]
    by (auto simp: boundaries_valid_def boundary_index_ok_def d)
  moreover have "metadata_valid d"
    using index_metadata_valid [OF metadata] scopes by (auto simp: metadata_valid_def d)
  moreover have "tables_valid d"
    using index_tables_valid [OF itables] index_case_models_valid [OF cases]
    by (auto simp: tables_valid_def d)
  moreover have "maps_sorted d"
    using index_nodes_sorted [OF nodes] index_tables_valid [OF itables]
      index_case_models_valid [OF cases] index_metadata_valid [OF metadata]
      index_boundaries_ok [OF boundaries]
    by (auto simp: maps_sorted_def boundary_index_ok_def d)
  ultimately show ?thesis
    using start reach by (auto simp: valid_definition_def validate_reachability_Inr d)
qed

section \<open>Properties\<close>

lemma index_nodes_lookup: "index_nodes nodes = Inr m \<Longrightarrow> bt_get m n = map_of nodes n"
proof (induction nodes arbitrary: m n rule: rev_induct)
  case (snoc e nodes)
  obtain k nd where e: "e = (k, nd)" by (cases e)
  from snoc.prems obtain m0 where m0: "index_nodes nodes = Inr m0" "bt_get m0 k = None"
    and m: "m = bt_insert k nd m0"
    by (auto simp: index_nodes_def try_fold_append and_then_Inr insert_new_Inr e bt_contains_key_def)
  then show ?case using snoc.IH [OF m0(1)] by (auto simp: e map_add_def split: option.split)
qed (simp add: index_nodes_def)

text \<open>
  C14. Every definition the constructor accepts is well formed: its maps are in key order, the
  start node is a start event, every transition leads to an existing node and enters a
  start event only from its own sub-process, gateways pass validation and are paired with
  their joins, decision tasks have their tables, boundary targets and metadata owners
  exist, boundary ids are unique, and every node is reachable.
\<close>

theorem accepted_definition_valid:
  assumes "new_with_execution_contracts tenant wtype wversion start nodes tables contracts = Inr d"
  shows "valid_definition d \<and> wd_tenant_id d = tenant \<and> wd_start_node d = start
    \<and> (\<forall>n. bt_get (wd_nodes d) n = map_of nodes n)"
  using assms index_nodes_lookup new_with_execution_contracts_valid [OF assms]
  by (auto simp: new_with_execution_contracts_def and_then_Inr Let_def split: if_splits prod.splits)

text \<open>
  C15. The breadth-first search terminates and visits exactly the nodes that transitions and
  boundary events reach from the start node, so the check rejects a definition exactly
  when some node is unreachable.
\<close>

theorem search_is_reachability:
  "set (reach_loop d [wd_start_node d] []) = {n. reachable_node d n}
   \<and> (validate_reachability d = Inr () \<longleftrightarrow> set (bt_keys (wd_nodes d)) \<subseteq> {n. reachable_node d n})"
  using reach_loop_reachable [of d] validate_reachability_Inr [of d "()"] by auto

end
