(* ===== verification/Configuration.thy ===== *)
theory Configuration
  imports BTree
begin

text \<open>
  \<open>crates/bpmp-domain-core/src/configuration.rs\<close>: the resolved configuration snapshot
  that every decision takes, and its validation. \<open>resolved_config_new\<close> is the only
  constructor; the last section shows that it accepts exactly the snapshots that satisfy
  the documented bounds, and that accepted scopes follow the override order.
\<close>

section \<open>Policies\<close>

datatype scope_kind =
  Platform | Environment | TenantScope | WorkflowTypeScope | WorkflowVersionScope
  | ApprovedInstanceOverride

record configuration_scope =
  sc_kind :: scope_kind
  sc_reference :: string

record retry_policy =
  rp_max_attempts :: u32
  rp_initial_backoff_ms :: u64
  rp_max_backoff_ms :: u64
  rp_multiplier_millis :: u32

record remote_worker_policy =
  rw_dispatch_batch_size :: u32
  rw_max_workers :: u32
  rw_max_credit_per_worker :: u32
  rw_max_capabilities_per_worker :: u32
  rw_lease_duration_ms :: u64
  rw_heartbeat_timeout_ms :: u64
  rw_max_identifier_bytes :: u32
  rw_max_protocol_version_bytes :: u32
  rw_stream_channel_capacity :: u32
  rw_max_input_bytes :: u32
  rw_max_output_bytes :: u32
  rw_max_attempts :: u32
  rw_retry_delay_ms :: u64

record boundary_runtime_policy =
  br_projection_batch_size :: u32
  br_dispatch_batch_size :: u32
  br_max_dispatch_attempts :: u32
  br_retry_delay_ms :: u64
  br_lease_duration_ms :: u64
  br_max_timer_horizon_ms :: u64
  br_max_expression_bytes :: u32
  br_worker_id :: string
  br_max_signal_id_bytes :: u32
  br_max_reference_bytes :: u32
  br_max_subscriptions_per_instance :: u32

record local_wasm_policy =
  lw_max_module_bytes :: u64
  lw_max_input_bytes :: u64
  lw_max_output_bytes :: u64
  lw_max_memory_bytes :: u64
  lw_max_wasm_stack_bytes :: u64
  lw_max_table_elements :: u32
  lw_max_instances :: u32
  lw_max_tables :: u32
  lw_max_memories :: u32
  lw_fuel :: u64

record engine_worker_policy =
  ew_poll_interval_ms :: u64
  ew_outbox_batch_size :: u32
  ew_outbox_retry :: retry_policy
  ew_local_task_batch_size :: u32
  ew_local_task_retry :: retry_policy
  ew_remote :: remote_worker_policy

record engine_policy =
  en_snapshot_interval_events :: u32
  en_max_events_per_decision :: u32
  en_max_multi_instance_cardinality :: u32
  en_default_multi_instance_parallelism :: u32
  en_boundary_runtime :: boundary_runtime_policy
  en_command_timeout_ms :: u64
  en_optimistic_conflict_retry :: retry_policy
  en_local_wasm :: local_wasm_policy
  en_event_payload_key_scope :: string
  en_authorization_audit_key_scope :: string
  en_workers :: engine_worker_policy

record resolved_config_snapshot =
  rc_config_id :: string
  rc_config_version :: string
  rc_policy_version :: string
  rc_schema_version :: u32
  rc_resolved_scopes :: "configuration_scope list"
  rc_content_hash :: "u8 list"
  rc_engine :: engine_policy

datatype config_error =
    NonPositiveValue string
  | InvalidBackoffRange
  | MissingScopes
  | InvalidScopeOrder
  | EmptyScopeReference scope_kind
  | MissingPublishedSnapshot
  | WasmAbiLengthExceeded string
  | MultiInstanceParallelismExceedsCardinality
  | EmptyBoundaryWorkerId
  | InvalidRemoteWorkerLease

section \<open>Validation\<close>

fun precedence :: "scope_kind \<Rightarrow> u8" where
  "precedence Platform = 0"
| "precedence Environment = 1"
| "precedence TenantScope = 2"
| "precedence WorkflowTypeScope = 3"
| "precedence WorkflowVersionScope = 4"
| "precedence ApprovedInstanceOverride = 5"

definition configuration_scope_new ::
  "scope_kind \<Rightarrow> string \<Rightarrow> config_error + configuration_scope" where
  "configuration_scope_new kind reference =
     (if is_blank reference then Inl (EmptyScopeReference kind)
      else Inr \<lparr>sc_kind = kind, sc_reference = reference\<rparr>)"

text \<open>The loops over \<open>(field, value)\<close> pairs that reject the first zero.\<close>

definition positive_fields :: "(string \<times> 'l::len word) list \<Rightarrow> config_error + unit" where
  "positive_fields pairs =
     try_all (\<lambda>(field, value). if value = 0 then Inl (NonPositiveValue field) else Inr ()) pairs"

definition retry_validate :: "retry_policy \<Rightarrow> config_error + unit" where
  "retry_validate p =
     (if rp_max_attempts p = 0 then Inl (NonPositiveValue ''max_attempts'')
      else if rp_initial_backoff_ms p = 0 then Inl (NonPositiveValue ''initial_backoff_ms'')
      else if rp_max_backoff_ms p < rp_initial_backoff_ms p then Inl InvalidBackoffRange
      else if rp_multiplier_millis p = 0 then Inl (NonPositiveValue ''multiplier_millis'')
      else Inr ())"

definition remote_worker_validate :: "remote_worker_policy \<Rightarrow> config_error + unit" where
  "remote_worker_validate p =
     and_then (positive_fields
       [(''remote_dispatch_batch_size'', rw_dispatch_batch_size p),
        (''remote_max_workers'', rw_max_workers p),
        (''remote_max_credit_per_worker'', rw_max_credit_per_worker p),
        (''remote_max_capabilities_per_worker'', rw_max_capabilities_per_worker p),
        (''remote_max_identifier_bytes'', rw_max_identifier_bytes p),
        (''remote_max_protocol_version_bytes'', rw_max_protocol_version_bytes p),
        (''remote_stream_channel_capacity'', rw_stream_channel_capacity p),
        (''remote_max_input_bytes'', rw_max_input_bytes p),
        (''remote_max_output_bytes'', rw_max_output_bytes p),
        (''remote_max_attempts'', rw_max_attempts p)]) (\<lambda>_.
     and_then (positive_fields
       [(''remote_lease_duration_ms'', rw_lease_duration_ms p),
        (''remote_heartbeat_timeout_ms'', rw_heartbeat_timeout_ms p),
        (''remote_retry_delay_ms'', rw_retry_delay_ms p)]) (\<lambda>_.
     if rw_lease_duration_ms p \<le> rw_heartbeat_timeout_ms p then Inl InvalidRemoteWorkerLease
     else Inr ()))"

definition boundary_runtime_validate :: "boundary_runtime_policy \<Rightarrow> config_error + unit" where
  "boundary_runtime_validate p =
     and_then (positive_fields
       [(''projection_batch_size'', br_projection_batch_size p),
        (''dispatch_batch_size'', br_dispatch_batch_size p),
        (''max_dispatch_attempts'', br_max_dispatch_attempts p),
        (''max_expression_bytes'', br_max_expression_bytes p),
        (''max_signal_id_bytes'', br_max_signal_id_bytes p),
        (''max_reference_bytes'', br_max_reference_bytes p),
        (''max_subscriptions_per_instance'', br_max_subscriptions_per_instance p)]) (\<lambda>_.
     and_then (positive_fields
       [(''boundary_retry_delay_ms'', br_retry_delay_ms p),
        (''boundary_lease_duration_ms'', br_lease_duration_ms p),
        (''max_timer_horizon_ms'', br_max_timer_horizon_ms p)]) (\<lambda>_.
     if is_blank (br_worker_id p) then Inl EmptyBoundaryWorkerId else Inr ()))"

definition local_wasm_validate :: "local_wasm_policy \<Rightarrow> config_error + unit" where
  "local_wasm_validate p =
     and_then (positive_fields
       [(''max_module_bytes'', lw_max_module_bytes p),
        (''max_input_bytes'', lw_max_input_bytes p),
        (''max_output_bytes'', lw_max_output_bytes p),
        (''max_memory_bytes'', lw_max_memory_bytes p),
        (''max_wasm_stack_bytes'', lw_max_wasm_stack_bytes p),
        (''fuel'', lw_fuel p)]) (\<lambda>_.
     and_then (positive_fields
       [(''max_table_elements'', lw_max_table_elements p),
        (''max_instances'', lw_max_instances p),
        (''max_tables'', lw_max_tables p),
        (''max_memories'', lw_max_memories p)]) (\<lambda>_.
     if 2147483647 < lw_max_input_bytes p then Inl (WasmAbiLengthExceeded ''max_input_bytes'')
     else if 2147483647 < lw_max_output_bytes p
     then Inl (WasmAbiLengthExceeded ''max_output_bytes'')
     else Inr ()))"

definition engine_worker_validate :: "engine_worker_policy \<Rightarrow> config_error + unit" where
  "engine_worker_validate p =
     (if ew_poll_interval_ms p = 0 then Inl (NonPositiveValue ''worker_poll_interval_ms'')
      else if ew_outbox_batch_size p = 0 then Inl (NonPositiveValue ''outbox_batch_size'')
      else if ew_local_task_batch_size p = 0
      then Inl (NonPositiveValue ''local_task_batch_size'')
      else and_then (retry_validate (ew_outbox_retry p)) (\<lambda>_.
           and_then (retry_validate (ew_local_task_retry p)) (\<lambda>_.
           remote_worker_validate (ew_remote p))))"

definition engine_validate :: "engine_policy \<Rightarrow> config_error + unit" where
  "engine_validate p =
     (if en_snapshot_interval_events p = 0
      then Inl (NonPositiveValue ''snapshot_interval_events'')
      else if en_max_events_per_decision p = 0
      then Inl (NonPositiveValue ''max_events_per_decision'')
      else if en_max_multi_instance_cardinality p = 0
      then Inl (NonPositiveValue ''max_multi_instance_cardinality'')
      else if en_default_multi_instance_parallelism p = 0
      then Inl (NonPositiveValue ''default_multi_instance_parallelism'')
      else if en_max_multi_instance_cardinality p < en_default_multi_instance_parallelism p
      then Inl MultiInstanceParallelismExceedsCardinality
      else and_then (boundary_runtime_validate (en_boundary_runtime p)) (\<lambda>_.
        if en_command_timeout_ms p = 0 then Inl (NonPositiveValue ''command_timeout_ms'')
        else and_then (retry_validate (en_optimistic_conflict_retry p)) (\<lambda>_.
             and_then (local_wasm_validate (en_local_wasm p)) (\<lambda>_.
             engine_worker_validate (en_workers p)))))"

text \<open>The loop over \<open>resolved_scopes.windows(2)\<close>.\<close>

fun scope_windows :: "configuration_scope list \<Rightarrow> config_error + unit" where
  "scope_windows (a # b # scopes) =
     (if precedence (sc_kind b) \<le> precedence (sc_kind a) then Inl InvalidScopeOrder
      else scope_windows (b # scopes))"
| "scope_windows _ = Inr ()"

definition resolved_config_new ::
  "string \<Rightarrow> string \<Rightarrow> string \<Rightarrow> u32 \<Rightarrow> configuration_scope list \<Rightarrow> u8 list \<Rightarrow> engine_policy
   \<Rightarrow> config_error + resolved_config_snapshot" where
  "resolved_config_new config_id config_version policy_version schema_version
      resolved_scopes content_hash engine =
     (if schema_version = 0 then Inl (NonPositiveValue ''schema_version'')
      else if resolved_scopes = [] then Inl MissingScopes
      else and_then (scope_windows resolved_scopes) (\<lambda>_.
           and_then (engine_validate engine) (\<lambda>_.
           Inr \<lparr>rc_config_id = config_id, rc_config_version = config_version,
                rc_policy_version = policy_version, rc_schema_version = schema_version,
                rc_resolved_scopes = resolved_scopes, rc_content_hash = content_hash,
                rc_engine = engine\<rparr>)))"

section \<open>What validation accepts\<close>

text \<open>The declarative bounds, one predicate per policy.\<close>

definition retry_ok :: "retry_policy \<Rightarrow> bool" where
  "retry_ok p \<longleftrightarrow> 0 < rp_max_attempts p \<and> 0 < rp_initial_backoff_ms p
     \<and> rp_initial_backoff_ms p \<le> rp_max_backoff_ms p \<and> 0 < rp_multiplier_millis p"

definition remote_worker_ok :: "remote_worker_policy \<Rightarrow> bool" where
  "remote_worker_ok p \<longleftrightarrow>
     0 < rw_dispatch_batch_size p \<and> 0 < rw_max_workers p \<and> 0 < rw_max_credit_per_worker p
     \<and> 0 < rw_max_capabilities_per_worker p \<and> 0 < rw_max_identifier_bytes p
     \<and> 0 < rw_max_protocol_version_bytes p \<and> 0 < rw_stream_channel_capacity p
     \<and> 0 < rw_max_input_bytes p \<and> 0 < rw_max_output_bytes p \<and> 0 < rw_max_attempts p
     \<and> 0 < rw_retry_delay_ms p \<and> 0 < rw_heartbeat_timeout_ms p
     \<and> rw_heartbeat_timeout_ms p < rw_lease_duration_ms p"

definition boundary_runtime_ok :: "boundary_runtime_policy \<Rightarrow> bool" where
  "boundary_runtime_ok p \<longleftrightarrow>
     0 < br_projection_batch_size p \<and> 0 < br_dispatch_batch_size p
     \<and> 0 < br_max_dispatch_attempts p \<and> 0 < br_retry_delay_ms p \<and> 0 < br_lease_duration_ms p
     \<and> 0 < br_max_timer_horizon_ms p \<and> 0 < br_max_expression_bytes p
     \<and> \<not> is_blank (br_worker_id p) \<and> 0 < br_max_signal_id_bytes p
     \<and> 0 < br_max_reference_bytes p \<and> 0 < br_max_subscriptions_per_instance p"

definition local_wasm_ok :: "local_wasm_policy \<Rightarrow> bool" where
  "local_wasm_ok p \<longleftrightarrow>
     0 < lw_max_module_bytes p \<and> 0 < lw_max_memory_bytes p \<and> 0 < lw_max_wasm_stack_bytes p
     \<and> 0 < lw_fuel p \<and> 0 < lw_max_table_elements p \<and> 0 < lw_max_instances p
     \<and> 0 < lw_max_tables p \<and> 0 < lw_max_memories p
     \<and> 0 < lw_max_input_bytes p \<and> lw_max_input_bytes p \<le> 2147483647
     \<and> 0 < lw_max_output_bytes p \<and> lw_max_output_bytes p \<le> 2147483647"

definition engine_ok :: "engine_policy \<Rightarrow> bool" where
  "engine_ok p \<longleftrightarrow>
     0 < en_snapshot_interval_events p \<and> 0 < en_max_events_per_decision p
     \<and> 0 < en_default_multi_instance_parallelism p
     \<and> en_default_multi_instance_parallelism p \<le> en_max_multi_instance_cardinality p
     \<and> boundary_runtime_ok (en_boundary_runtime p) \<and> 0 < en_command_timeout_ms p
     \<and> retry_ok (en_optimistic_conflict_retry p) \<and> local_wasm_ok (en_local_wasm p)
     \<and> 0 < ew_poll_interval_ms (en_workers p) \<and> 0 < ew_outbox_batch_size (en_workers p)
     \<and> 0 < ew_local_task_batch_size (en_workers p)
     \<and> retry_ok (ew_outbox_retry (en_workers p)) \<and> retry_ok (ew_local_task_retry (en_workers p))
     \<and> remote_worker_ok (ew_remote (en_workers p))"

lemma positive_fields_Inr:
  "positive_fields pairs = Inr u \<longleftrightarrow> (\<forall>v \<in> set (map snd pairs). 0 < v)"
  by (force simp: positive_fields_def try_all_Inr word_neq_0_conv split: if_splits)

lemma retry_validate_iff: "retry_validate p = Inr u \<longleftrightarrow> retry_ok p"
  by (auto simp: retry_validate_def retry_ok_def word_neq_0_conv)

lemma remote_worker_validate_iff: "remote_worker_validate p = Inr u \<longleftrightarrow> remote_worker_ok p"
  by (auto simp: remote_worker_validate_def remote_worker_ok_def and_then_Inr positive_fields_Inr)

lemma boundary_runtime_validate_iff:
  "boundary_runtime_validate p = Inr u \<longleftrightarrow> boundary_runtime_ok p"
  by (auto simp: boundary_runtime_validate_def boundary_runtime_ok_def and_then_Inr positive_fields_Inr)

lemma local_wasm_validate_iff: "local_wasm_validate p = Inr u \<longleftrightarrow> local_wasm_ok p"
  by (auto simp: local_wasm_validate_def local_wasm_ok_def and_then_Inr positive_fields_Inr)

lemmas policy_iffs = retry_validate_iff remote_worker_validate_iff
  boundary_runtime_validate_iff local_wasm_validate_iff

lemma engine_validate_iff: "engine_validate p = Inr u \<longleftrightarrow> engine_ok p"
  by (auto simp: engine_validate_def engine_worker_validate_def engine_ok_def and_then_Inr
      policy_iffs word_neq_0_conv)

lemma scope_windows_iff:
  "scope_windows scopes = Inr u \<longleftrightarrow>
    sorted_wrt (\<lambda>a b. precedence (sc_kind a) < precedence (sc_kind b)) scopes"
proof (induction scopes rule: scope_windows.induct)
  case (1 a b scopes)
  then show ?case by (auto simp: not_le intro: less_trans)
qed simp_all

lemma resolved_config_new_Inr:
  "resolved_config_new config_id config_version policy_version schema scopes content engine = Inr c
   \<longleftrightarrow> 0 < schema \<and> scopes \<noteq> []
     \<and> sorted_wrt (\<lambda>a b. precedence (sc_kind a) < precedence (sc_kind b)) scopes
     \<and> engine_ok engine
     \<and> c = \<lparr>rc_config_id = config_id, rc_config_version = config_version,
            rc_policy_version = policy_version, rc_schema_version = schema,
            rc_resolved_scopes = scopes, rc_content_hash = content, rc_engine = engine\<rparr>"
  by (auto simp: resolved_config_new_def and_then_Inr scope_windows_iff engine_validate_iff
      word_neq_0_conv)

end
