(* ===== verification/Routing.thy ===== *)
theory Routing
  imports Workflow_Types
begin

text \<open>
  \<open>RoutingState\<close> of \<open>workflow.rs\<close>: the working copy of tokens, pending joins,
  multi-instance activities, boundary subscriptions and scopes that one decision updates
  while it emits events. One definition per method; \<open>&mut self\<close> is the state passed and
  returned. The well-formedness invariant \<open>routing_wf\<close> is kept by every method.
\<close>

section \<open>State\<close>

record routing_state =
  rs_active_tokens :: "(node_id, u32) btree_map"
  rs_pending_joins :: "(node_id, pending_gateway_join) btree_map"
  rs_active_multi_instances :: "(node_id, active_multi_instance) btree_map"
  rs_active_boundary_subscriptions :: "(node_id, active_boundary_subscription) btree_map"
  rs_active_scopes :: "(scope_instance_id, active_execution_scope) btree_map"
  rs_scope_invocation_counts :: "(node_id, u64) btree_map"

definition routing_from :: "instance_state \<Rightarrow> routing_state" where
  "routing_from s =
     \<lparr>rs_active_tokens = is_active_tokens s,
      rs_pending_joins = is_pending_gateway_joins s,
      rs_active_multi_instances = is_active_multi_instances s,
      rs_active_boundary_subscriptions = is_active_boundary_subscriptions s,
      rs_active_scopes = is_active_scopes s,
      rs_scope_invocation_counts = is_scope_invocation_counts s\<rparr>"

definition has_outstanding_work :: "routing_state \<Rightarrow> bool" where
  "has_outstanding_work r \<longleftrightarrow>
     rs_active_tokens r \<noteq> [] \<or> rs_pending_joins r \<noteq> [] \<or> rs_active_multi_instances r \<noteq> []
     \<or> rs_active_boundary_subscriptions r \<noteq> [] \<or> rs_active_scopes r \<noteq> []"

section \<open>Scopes\<close>

text \<open>
  The deterministic identity \<open>{parent}/{scope}#{invocation}\<close>. \<open>ScopeInstanceId::new\<close>
  rejects blank values only.
\<close>

definition scope_identity :: "node_id \<Rightarrow> scope_instance_id option \<Rightarrow> u64 \<Rightarrow> string" where
  "scope_identity scope parent invocation =
     (case parent of
        None \<Rightarrow> scope @ ''#'' @ show_nat (unat invocation)
      | Some p \<Rightarrow> p @ ''/'' @ scope @ ''#'' @ show_nat (unat invocation))"

definition enter_scope ::
  "routing_state \<Rightarrow> node_id \<Rightarrow> node_id \<Rightarrow> scope_instance_id option
   \<Rightarrow> (scope_instance_id \<times> u64 \<times> routing_state) result" where
  "enter_scope r scope start parent =
     (if list_ex (\<lambda>sc. as_scope_node_id sc = scope) (bt_values (rs_active_scopes r))
      then runtime_fail (ScopeAlreadyActive scope)
      else and_then (ok_or
          (checked_add (case bt_get (rs_scope_invocation_counts r) scope of
             None \<Rightarrow> 0 | Some c \<Rightarrow> c) 1)
          (RuntimeError (ScopeInvocationOverflow scope))) (\<lambda>invocation.
        let identity = scope_identity scope parent invocation in
        and_then (if is_blank identity
            then runtime_fail (InvalidScopeInstanceIdentity scope) else Inr identity) (\<lambda>scope_id.
        Inr (scope_id, invocation,
          r\<lparr>rs_scope_invocation_counts :=
              bt_insert scope invocation (rs_scope_invocation_counts r),
            rs_active_scopes :=
              bt_insert scope_id
                \<lparr>as_scope_node_id = scope, as_start_node_id = start,
                 as_parent_scope_instance_id = parent, as_invocation = invocation\<rparr>
                (rs_active_scopes r)\<rparr>))))"

definition complete_scope ::
  "routing_state \<Rightarrow> scope_instance_id \<Rightarrow> node_id
   \<Rightarrow> (active_execution_scope \<times> routing_state) result" where
  "complete_scope r scope_id expected =
     and_then (ok_or (bt_get (rs_active_scopes r) scope_id)
       (RuntimeError (ScopeInstanceNotActive scope_id))) (\<lambda>scope.
     if as_scope_node_id scope \<noteq> expected
     then runtime_fail (ScopeInstanceOwnerMismatch scope_id expected (as_scope_node_id scope))
     else Inr (scope, r\<lparr>rs_active_scopes := bt_remove scope_id (rs_active_scopes r)\<rparr>))"

section \<open>Task tokens\<close>

definition activate_task :: "routing_state \<Rightarrow> node_id \<Rightarrow> routing_state result" where
  "activate_task r n =
     and_then (ok_or
       (checked_add (case bt_get (rs_active_tokens r) n of None \<Rightarrow> 0 | Some c \<Rightarrow> c) 1)
       (RuntimeError (TokenCountOverflow n))) (\<lambda>count.
     Inr (r\<lparr>rs_active_tokens := bt_insert n count (rs_active_tokens r)\<rparr>))"

text \<open>\<open>*count -= 1\<close> panics at zero in builds with overflow checks.\<close>

definition complete_task :: "routing_state \<Rightarrow> node_id \<Rightarrow> routing_state result" where
  "complete_task r n =
     (case bt_get (rs_active_tokens r) n of
        None \<Rightarrow> activity_fail (TaskNotActive n)
      | Some count \<Rightarrow>
          if count = 0 then Inl (Panic ''attempt to subtract with overflow'')
          else if count - 1 = 0
          then Inr (r\<lparr>rs_active_tokens := bt_remove n (rs_active_tokens r)\<rparr>)
          else Inr (r\<lparr>rs_active_tokens := bt_insert n (count - 1) (rs_active_tokens r)\<rparr>))"

section \<open>Multi-instance activities\<close>

definition routing_start_multi_instance ::
  "routing_state \<Rightarrow> node_id \<Rightarrow> active_multi_instance \<Rightarrow> routing_state result" where
  "routing_start_multi_instance r n active =
     (if bt_contains_key (rs_active_multi_instances r) n
      then activity_fail (MultiInstanceAlreadyActive n)
      else Inr (r\<lparr>rs_active_multi_instances :=
                    bt_insert n active (rs_active_multi_instances r)\<rparr>))"

definition activate_next_multi_instance ::
  "routing_state \<Rightarrow> node_id
   \<Rightarrow> (u32 \<times> task_type \<times> workflow_value option \<times> routing_state) result" where
  "activate_next_multi_instance r n =
     and_then (ok_or (bt_get (rs_active_multi_instances r) n)
       (ActivityError (MultiInstanceNotActive n))) (\<lambda>active.
     if am_total_instances active \<le> am_next_iteration active
        \<or> unat (am_max_parallelism active) \<le> length (am_active_iterations active)
     then activity_fail (MultiInstanceActivationLimit n)
     else let iteration = am_next_iteration active in
       and_then (ok_or (checked_add (am_next_iteration active) 1)
         (RuntimeError (TokenCountOverflow n))) (\<lambda>next.
       let active' = active\<lparr>am_next_iteration := next,
             am_active_iterations := bs_insert iteration (am_active_iterations active)\<rparr>
       in Inr (iteration, am_task_type active,
            (if unat iteration < length (am_items active)
             then Some (am_items active ! unat iteration) else None),
            r\<lparr>rs_active_multi_instances :=
                bt_insert n active' (rs_active_multi_instances r)\<rparr>)))"

text \<open>The flag is \<open>MultiInstanceProgress.completed\<close>.\<close>

definition routing_complete_iteration ::
  "routing_state \<Rightarrow> node_id \<Rightarrow> u32 \<Rightarrow> (bool \<times> routing_state) result" where
  "routing_complete_iteration r n iteration =
     and_then (ok_or (bt_get (rs_active_multi_instances r) n)
       (ActivityError (MultiInstanceNotActive n))) (\<lambda>active.
     if iteration \<notin> set (am_active_iterations active)
     then activity_fail (MultiInstanceIterationNotActive n iteration)
     else let active' = active\<lparr>
            am_active_iterations := bs_remove iteration (am_active_iterations active),
            am_completed_iterations := bs_insert iteration (am_completed_iterations active)\<rparr>
       in Inr (length (am_completed_iterations active') = unat (am_total_instances active'),
            r\<lparr>rs_active_multi_instances :=
                bt_insert n active' (rs_active_multi_instances r)\<rparr>))"

definition finish_multi_instance :: "routing_state \<Rightarrow> node_id \<Rightarrow> routing_state" where
  "finish_multi_instance r n =
     r\<lparr>rs_active_multi_instances := bt_remove n (rs_active_multi_instances r)\<rparr>"

section \<open>Boundary subscriptions\<close>

definition arm_boundary ::
  "routing_state \<Rightarrow> node_id \<Rightarrow> active_boundary_subscription \<Rightarrow> routing_state result" where
  "arm_boundary r b subscription =
     (if bt_contains_key (rs_active_boundary_subscriptions r) b
      then activity_fail (BoundaryEventAlreadyArmed b)
      else Inr (r\<lparr>rs_active_boundary_subscriptions :=
                    bt_insert b subscription (rs_active_boundary_subscriptions r)\<rparr>))"

definition disarm_boundaries :: "routing_state \<Rightarrow> node_id \<Rightarrow> node_id list \<times> routing_state" where
  "disarm_boundaries r n =
     (let ids = map fst (filter (\<lambda>e. ab_attached_node_id (snd e) = n)
                  (rs_active_boundary_subscriptions r))
      in (ids, r\<lparr>rs_active_boundary_subscriptions :=
                   foldl (\<lambda>m b. bt_remove b m) (rs_active_boundary_subscriptions r) ids\<rparr>))"

definition cancel_activity :: "routing_state \<Rightarrow> node_id \<Rightarrow> u32 \<Rightarrow> routing_state result" where
  "cancel_activity r n cancelled_task_tokens =
     (let r = r\<lparr>rs_active_multi_instances := bt_remove n (rs_active_multi_instances r)\<rparr>;
          r = snd (disarm_boundaries r n)
      in try_fold (\<lambda>r _. complete_task r n) r [0..<unat cancelled_task_tokens])"

section \<open>Gateway joins\<close>

definition open_join :: "routing_state \<Rightarrow> node_id \<Rightarrow> nat \<Rightarrow> routing_state result" where
  "open_join r join target_count =
     and_then (ok_or (u32_try_from target_count) (RuntimeError (TokenCountOverflow join)))
       (\<lambda>expected.
     if bt_contains_key (rs_pending_joins r) join then runtime_fail (JoinAlreadyPending join)
     else Inr (r\<lparr>rs_pending_joins :=
            bt_insert join \<lparr>pj_expected_tokens = expected, pj_arrived_tokens = 0\<rparr>
              (rs_pending_joins r)\<rparr>))"

definition arrive :: "routing_state \<Rightarrow> node_id \<Rightarrow> (bool \<times> routing_state) result" where
  "arrive r join =
     and_then (ok_or (bt_get (rs_pending_joins r) join)
       (RuntimeError (UnexpectedGatewayJoin join))) (\<lambda>state.
     and_then (ok_or (checked_add (pj_arrived_tokens state) 1)
       (RuntimeError (TokenCountOverflow join))) (\<lambda>arrived.
     if pj_expected_tokens state < arrived then runtime_fail (UnexpectedGatewayJoin join)
     else Inr (arrived = pj_expected_tokens state,
            r\<lparr>rs_pending_joins :=
                bt_insert join (state\<lparr>pj_arrived_tokens := arrived\<rparr>) (rs_pending_joins r)\<rparr>)))"

definition close_join :: "routing_state \<Rightarrow> node_id \<Rightarrow> routing_state" where
  "close_join r join = r\<lparr>rs_pending_joins := bt_remove join (rs_pending_joins r)\<rparr>"

section \<open>The well-formedness invariant\<close>

text \<open>
  A multi-instance activity: every iteration below the next one was activated once and is
  either active or completed, and the active ones are bounded by the parallelism.
\<close>

definition multi_instance_ok :: "active_multi_instance \<Rightarrow> bool" where
  "multi_instance_ok a \<longleftrightarrow>
     bs_sorted (am_active_iterations a) \<and> bs_sorted (am_completed_iterations a)
     \<and> set (am_active_iterations a) \<inter> set (am_completed_iterations a) = {}
     \<and> set (am_active_iterations a) \<union> set (am_completed_iterations a)
         = {i. i < am_next_iteration a}
     \<and> am_next_iteration a \<le> am_total_instances a
     \<and> length (am_active_iterations a) \<le> unat (am_max_parallelism a)
     \<and> (am_mode a = Sequential \<longrightarrow> am_max_parallelism a \<le> 1)"

definition join_ok :: "pending_gateway_join \<Rightarrow> bool" where
  "join_ok j \<longleftrightarrow> pj_arrived_tokens j < pj_expected_tokens j"

definition routing_sorted :: "routing_state \<Rightarrow> bool" where
  "routing_sorted r \<longleftrightarrow>
     bt_sorted (rs_active_tokens r) \<and> bt_sorted (rs_pending_joins r)
     \<and> bt_sorted (rs_active_multi_instances r) \<and> bt_sorted (rs_active_boundary_subscriptions r)
     \<and> bt_sorted (rs_active_scopes r) \<and> bt_sorted (rs_scope_invocation_counts r)"

definition tokens_positive :: "routing_state \<Rightarrow> bool" where
  "tokens_positive r \<longleftrightarrow> (\<forall>e \<in> set (rs_active_tokens r). 0 < snd e)"

definition joins_ok :: "routing_state \<Rightarrow> bool" where
  "joins_ok r \<longleftrightarrow> (\<forall>e \<in> set (rs_pending_joins r). join_ok (snd e))"

definition multi_instances_ok :: "routing_state \<Rightarrow> bool" where
  "multi_instances_ok r \<longleftrightarrow> (\<forall>e \<in> set (rs_active_multi_instances r). multi_instance_ok (snd e))"

text \<open>No scope node has two active invocations.\<close>

definition scopes_unique :: "routing_state \<Rightarrow> bool" where
  "scopes_unique r \<longleftrightarrow>
     distinct (map as_scope_node_id (bt_values (rs_active_scopes r)))"

definition routing_wf :: "routing_state \<Rightarrow> bool" where
  "routing_wf r \<longleftrightarrow> routing_sorted r \<and> tokens_positive r \<and> joins_ok r \<and> multi_instances_ok r
     \<and> scopes_unique r"

text \<open>
  An arrival that does not complete the join keeps the invariant; one that does is followed
  by \<open>close_join\<close>, and the two together keep it.
\<close>

definition arrive_and_close :: "routing_state \<Rightarrow> node_id \<Rightarrow> (bool \<times> routing_state) result" where
  "arrive_and_close r join =
     and_then (arrive r join) (\<lambda>(complete, r').
       Inr (complete, if complete then close_join r' join else r'))"

lemmas routing_wf_defs = routing_wf_def routing_sorted_def tokens_positive_def joins_ok_def
  multi_instances_ok_def scopes_unique_def

lemmas bt_invariants = bt_sorted_insert bt_sorted_remove bt_sorted_retain bt_sorted_extend

lemma ball_bt_remove: "\<forall>x \<in> set m. P x \<Longrightarrow> \<forall>x \<in> set (bt_remove k m). P x"
  by (simp add: bt_remove_def)

lemma routing_wf_default: "routing_wf (routing_from default_instance_state)"
  by (simp add: routing_wf_defs routing_from_def default_instance_state_def bt_values_def)

section \<open>Every method keeps the invariant\<close>

lemma tokens_insert:
  "routing_wf r \<Longrightarrow> 0 < c \<Longrightarrow>
    routing_wf (r\<lparr>rs_active_tokens := bt_insert n c (rs_active_tokens r)\<rparr>)"
  using ball_bt_insert [of "rs_active_tokens r" "\<lambda>e. 0 < snd e" n c]
  by (simp add: routing_wf_defs bt_sorted_insert)

lemma tokens_remove:
  "routing_wf r \<Longrightarrow> routing_wf (r\<lparr>rs_active_tokens := bt_remove n (rs_active_tokens r)\<rparr>)"
  using ball_bt_remove [of "rs_active_tokens r" "\<lambda>e. 0 < snd e" n]
  by (simp add: routing_wf_defs bt_sorted_remove)

lemma activate_task_wf [invariants]:
  assumes "activate_task r n = Inr r'" and "routing_wf r"
  shows "routing_wf r'"
proof -
  from assms(1) obtain c count where count: "checked_add c (1::u32) = Some count"
    and r': "r' = r\<lparr>rs_active_tokens := bt_insert n count (rs_active_tokens r)\<rparr>"
    by (auto simp: activate_task_def and_then_Inr ok_or_Inr)
  have "count \<noteq> 0"
    using saturating_add_one_nonzero [of c] checked_add_saturating [OF count] by simp
  then have "0 < count" using word_neq_0_conv by blast
  then show ?thesis unfolding r' by (intro tokens_insert assms(2))
qed

lemma complete_task_wf [invariants]:
  assumes "complete_task r n = Inr r'" and "routing_wf r"
  shows "routing_wf r'"
proof (cases "bt_get (rs_active_tokens r) n")
  case None
  then show ?thesis using assms by (simp add: complete_task_def)
next
  case (Some c)
  show ?thesis
  proof (cases "c - 1 = 0")
    case True
    then show ?thesis using assms Some tokens_remove [OF assms(2)]
      by (auto simp: complete_task_def split: if_splits)
  next
    case False
    then have "0 < c - 1" using word_neq_0_conv by blast
    then show ?thesis using assms Some False tokens_insert [OF assms(2)]
      by (auto simp: complete_task_def split: if_splits)
  qed
qed

lemma multi_instances_insert:
  "routing_wf r \<Longrightarrow> multi_instance_ok a \<Longrightarrow>
    routing_wf (r\<lparr>rs_active_multi_instances := bt_insert n a (rs_active_multi_instances r)\<rparr>)"
  using ball_bt_insert [of "rs_active_multi_instances r" "\<lambda>e. multi_instance_ok (snd e)" n a]
  by (simp add: routing_wf_defs bt_sorted_insert)

lemma routing_start_multi_instance_wf [invariants]:
  "routing_start_multi_instance r n a = Inr r' \<Longrightarrow> routing_wf r \<Longrightarrow> multi_instance_ok a \<Longrightarrow>
    routing_wf r'"
  by (auto simp: routing_start_multi_instance_def multi_instances_insert split: if_splits)

lemma routing_wf_multi_instance:
  "routing_wf r \<Longrightarrow> bt_get (rs_active_multi_instances r) n = Some a \<Longrightarrow> multi_instance_ok a"
  using bt_get_in_set [of "rs_active_multi_instances r" n a]
  by (auto simp: routing_wf_def multi_instances_ok_def)

lemma checked_add_1:
  assumes "checked_add a (1::u32) = Some b"
  shows "{i. i < b} = insert a {i. i < a}"
proof -
  have "unat b = Suc (unat a)" using unat_checked_add [OF assms] by simp
  then have "i < b \<longleftrightarrow> i = a \<or> i < a" for i
    by (simp only: word_less_nat_alt word_unat_eq_iff less_Suc_eq disj_commute)
  then show ?thesis by blast
qed

lemma activate_next_Inr:
  assumes "activate_next_multi_instance r n = Inr (iteration, task, item, r')"
  obtains a nxt where "bt_get (rs_active_multi_instances r) n = Some a"
    and "iteration = am_next_iteration a" and "task = am_task_type a"
    and "am_next_iteration a < am_total_instances a"
    and "length (am_active_iterations a) < unat (am_max_parallelism a)"
    and "checked_add (am_next_iteration a) 1 = Some nxt"
    and "r' = r\<lparr>rs_active_multi_instances := bt_insert n
          (a\<lparr>am_next_iteration := nxt,
             am_active_iterations := bs_insert iteration (am_active_iterations a)\<rparr>)
          (rs_active_multi_instances r)\<rparr>"
  using assms
  by (auto simp: activate_next_multi_instance_def and_then_Inr ok_or_Inr Let_def not_le
      split: if_splits)

lemma multi_instance_ok_next:
  assumes ok: "multi_instance_ok a" and below: "am_next_iteration a < am_total_instances a"
    and slot: "length (am_active_iterations a) < unat (am_max_parallelism a)"
    and nxt: "checked_add (am_next_iteration a) 1 = Some nxt"
  shows "multi_instance_ok (a\<lparr>am_next_iteration := nxt,
      am_active_iterations := bs_insert (am_next_iteration a) (am_active_iterations a)\<rparr>)"
proof -
  have range: "{i. i < nxt} = insert (am_next_iteration a) {i. i < am_next_iteration a}"
    using nxt by (rule checked_add_1)
  have fresh: "am_next_iteration a \<notin> set (am_active_iterations a) \<union> set (am_completed_iterations a)"
    using ok by (auto simp: multi_instance_ok_def)
  have "nxt \<le> am_total_instances a"
    using below unat_checked_add [OF nxt] by (simp add: word_le_nat_alt word_less_nat_alt)
  then show ?thesis
    using ok fresh slot
    by (auto simp: multi_instance_ok_def range bs_sorted_insert length_bs_insert)
qed

lemma activate_next_multi_instance_wf [invariants]:
  "activate_next_multi_instance r n = Inr (iteration, task, item, r') \<Longrightarrow> routing_wf r \<Longrightarrow>
    routing_wf r'"
  by (erule activate_next_Inr)
     (simp add: multi_instances_insert multi_instance_ok_next [OF routing_wf_multi_instance])

lemma routing_complete_iteration_wf [invariants]:
  assumes "routing_complete_iteration r n iteration = Inr (done, r')" and "routing_wf r"
  shows "routing_wf r'"
proof -
  from assms(1) obtain a where a: "bt_get (rs_active_multi_instances r) n = Some a"
    and active: "iteration \<in> set (am_active_iterations a)"
    and r': "r' = r\<lparr>rs_active_multi_instances := bt_insert n
        (a\<lparr>am_active_iterations := bs_remove iteration (am_active_iterations a),
           am_completed_iterations := bs_insert iteration (am_completed_iterations a)\<rparr>)
        (rs_active_multi_instances r)\<rparr>"
    by (auto simp: routing_complete_iteration_def and_then_Inr ok_or_Inr Let_def split: if_splits)
  have "multi_instance_ok a" using assms(2) a by (rule routing_wf_multi_instance)
  then have "multi_instance_ok
      (a\<lparr>am_active_iterations := bs_remove iteration (am_active_iterations a),
         am_completed_iterations := bs_insert iteration (am_completed_iterations a)\<rparr>)"
    using active
    by (auto simp: multi_instance_ok_def bs_sorted_insert bs_sorted_remove length_bs_remove)
  then show ?thesis unfolding r' using assms(2) by (intro multi_instances_insert)
qed

lemma multi_instances_remove:
  "routing_wf r \<Longrightarrow>
    routing_wf (r\<lparr>rs_active_multi_instances := bt_remove n (rs_active_multi_instances r)\<rparr>)"
  using ball_bt_remove [of "rs_active_multi_instances r" "\<lambda>e. multi_instance_ok (snd e)" n]
  by (simp add: routing_wf_defs bt_sorted_remove)

lemma finish_multi_instance_wf [invariants]: "routing_wf r \<Longrightarrow> routing_wf (finish_multi_instance r n)"
  by (simp add: finish_multi_instance_def multi_instances_remove)

lemma arm_boundary_wf [invariants]:
  "arm_boundary r b sub = Inr r' \<Longrightarrow> routing_wf r \<Longrightarrow> routing_wf r'"
  by (auto simp: arm_boundary_def routing_wf_defs bt_sorted_insert split: if_splits)

lemma disarm_boundaries_retain:
  assumes "bt_sorted (rs_active_boundary_subscriptions r)"
  shows "disarm_boundaries r n =
    (bt_keys (bt_retain (\<lambda>_ sub. ab_attached_node_id sub = n) (rs_active_boundary_subscriptions r)),
     r\<lparr>rs_active_boundary_subscriptions :=
         bt_retain (\<lambda>_ sub. ab_attached_node_id sub \<noteq> n) (rs_active_boundary_subscriptions r)\<rparr>)"
  using bt_remove_matching [OF assms, of "\<lambda>sub. ab_attached_node_id sub = n"]
  by (simp add: disarm_boundaries_def Let_def bt_keys_def bt_retain_def)

lemma disarm_boundaries_wf [invariants]: "routing_wf r \<Longrightarrow> routing_wf (snd (disarm_boundaries r n))"
  by (simp add: disarm_boundaries_def routing_wf_defs bt.invar_del_list Let_def)

lemma cancel_activity_wf [invariants]:
  assumes "cancel_activity r n k = Inr r'" and "routing_wf r"
  shows "routing_wf r'"
  using assms(1) unfolding cancel_activity_def Let_def
  by (rule try_fold_invariant)
     (auto intro: complete_task_wf disarm_boundaries_wf multi_instances_remove assms(2))

lemma joins_insert:
  "routing_wf r \<Longrightarrow> join_ok j \<Longrightarrow>
    routing_wf (r\<lparr>rs_pending_joins := bt_insert n j (rs_pending_joins r)\<rparr>)"
  using ball_bt_insert [of "rs_pending_joins r" "\<lambda>e. join_ok (snd e)" n j]
  by (simp add: routing_wf_defs bt_sorted_insert)

lemma joins_remove:
  "routing_wf r \<Longrightarrow> routing_wf (r\<lparr>rs_pending_joins := bt_remove n (rs_pending_joins r)\<rparr>)"
  using ball_bt_remove [of "rs_pending_joins r" "\<lambda>e. join_ok (snd e)" n]
  by (simp add: routing_wf_defs bt_sorted_remove)

lemma close_join_wf [invariants]: "routing_wf r \<Longrightarrow> routing_wf (close_join r n)"
  by (simp add: close_join_def joins_remove)

lemma open_join_wf [invariants]:
  assumes "open_join r join k = Inr r'" and "0 < k" and "routing_wf r"
  shows "routing_wf r'"
proof -
  from assms(1) obtain e where e: "u32_try_from k = Some e"
    and r': "r' = r\<lparr>rs_pending_joins := bt_insert join
        \<lparr>pj_expected_tokens = e, pj_arrived_tokens = 0\<rparr> (rs_pending_joins r)\<rparr>"
    by (auto simp: open_join_def and_then_Inr ok_or_Inr split: if_splits)
  have "join_ok \<lparr>pj_expected_tokens = e, pj_arrived_tokens = 0\<rparr>"
    using unat_u32_try_from [OF e] assms(2) by (simp add: join_ok_def word_less_nat_alt)
  then show ?thesis unfolding r' using assms(3) by (intro joins_insert)
qed

lemma arrive_Inr:
  assumes "arrive r join = Inr (complete, r')"
  obtains j arrived where "bt_get (rs_pending_joins r) join = Some j"
    and "checked_add (pj_arrived_tokens j) 1 = Some arrived"
    and "arrived \<le> pj_expected_tokens j" and "complete \<longleftrightarrow> arrived = pj_expected_tokens j"
    and "r' = r\<lparr>rs_pending_joins :=
        bt_insert join (j\<lparr>pj_arrived_tokens := arrived\<rparr>) (rs_pending_joins r)\<rparr>"
  using assms by (auto simp: arrive_def and_then_Inr ok_or_Inr not_less split: if_splits)

lemma arrive_and_close_wf [invariants]:
  assumes "arrive_and_close r join = Inr (complete, r')" and "routing_wf r"
  shows "routing_wf r'"
proof -
  from assms(1) obtain r1 where arr: "arrive r join = Inr (complete, r1)"
    and r': "r' = (if complete then close_join r1 join else r1)"
    by (auto simp: arrive_and_close_def and_then_Inr)
  from arr obtain j arrived where j: "bt_get (rs_pending_joins r) join = Some j"
    and le: "arrived \<le> pj_expected_tokens j" "complete \<longleftrightarrow> arrived = pj_expected_tokens j"
    and r1: "r1 = r\<lparr>rs_pending_joins :=
        bt_insert join (j\<lparr>pj_arrived_tokens := arrived\<rparr>) (rs_pending_joins r)\<rparr>"
    by (rule arrive_Inr)
  show ?thesis
  proof (cases complete)
    case True
    have "bt_sorted (rs_pending_joins r)" using assms(2) by (simp add: routing_wf_defs)
    then show ?thesis
      using joins_remove [OF assms(2), of join] True
      by (simp add: r' r1 close_join_def bt.del_ins_same)
  next
    case False
    then have "join_ok (j\<lparr>pj_arrived_tokens := arrived\<rparr>)" using le by (simp add: join_ok_def)
    then show ?thesis using False assms(2) by (simp add: r' r1 joins_insert)
  qed
qed

lemma distinct_values_insert:
  "distinct (map f (bt_values m)) \<Longrightarrow> f v \<notin> f ` set (bt_values m) \<Longrightarrow>
    distinct (map f (bt_values (bt_insert k v m)))"
proof (induction k v m rule: bt_insert.induct)
  case (2 k v a b m)
  have "f b \<notin> f ` set (bt_values (bt_insert k v m))"
  proof
    assume "f b \<in> f ` set (bt_values (bt_insert k v m))"
    then have "f b \<in> insert (f v) (f ` set (bt_values m))"
      using values_bt_insert [of k v m] by fast
    then show False using 2(2,3) by (simp add: bt_values_def image_image)
  qed
  moreover have "distinct (map f (bt_values m))" and "f v \<notin> f ` set (bt_values m)"
    and "f b \<notin> f ` set (bt_values m)" and "f v \<noteq> f b"
    using 2(2,3) by (simp_all add: bt_values_def image_image)
  ultimately show ?case using 2(1) by (simp add: bt_values_def image_image)
qed (simp add: bt_values_def)

lemma enter_scope_Inr:
  assumes "enter_scope r scope start parent = Inr (sid, invocation, r')"
  obtains c where "c = (case bt_get (rs_scope_invocation_counts r) scope of None \<Rightarrow> 0 | Some c \<Rightarrow> c)"
    and "checked_add c 1 = Some invocation"
    and "scope \<notin> as_scope_node_id ` set (bt_values (rs_active_scopes r))"
    and "sid = scope_identity scope parent invocation"
    and "r' = r\<lparr>rs_scope_invocation_counts :=
              bt_insert scope invocation (rs_scope_invocation_counts r),
            rs_active_scopes :=
              bt_insert sid
                \<lparr>as_scope_node_id = scope, as_start_node_id = start,
                 as_parent_scope_instance_id = parent, as_invocation = invocation\<rparr>
                (rs_active_scopes r)\<rparr>"
  using assms
  by (auto simp: enter_scope_def and_then_Inr ok_or_Inr Let_def list_ex_iff split: if_splits)

lemma enter_scope_wf [invariants]:
  "enter_scope r scope start parent = Inr (sid, invocation, r') \<Longrightarrow> routing_wf r \<Longrightarrow> routing_wf r'"
  by (erule enter_scope_Inr)
     (simp add: routing_wf_defs bt_sorted_insert distinct_values_insert)

lemma distinct_values_remove:
  "distinct (map f (bt_values m)) \<Longrightarrow> distinct (map f (bt_values (bt_remove k m)))"
  by (induction m) (auto simp: bt_values_def bt_remove_def)

lemma complete_scope_wf [invariants]:
  "complete_scope r sid expected = Inr (scope, r') \<Longrightarrow> routing_wf r \<Longrightarrow> routing_wf r'"
  by (auto simp: complete_scope_def and_then_Inr ok_or_Inr routing_wf_defs bt_sorted_remove
      distinct_values_remove split: if_splits)

section \<open>Properties\<close>

text \<open>Successive arrivals at a join, with the flag each of them returns.\<close>

fun arrivals :: "routing_state \<Rightarrow> node_id \<Rightarrow> nat \<Rightarrow> (bool list \<times> routing_state) result" where
  "arrivals r join 0 = Inr ([], r)"
| "arrivals r join (Suc k) =
     and_then (arrive r join) (\<lambda>(complete, r').
     and_then (arrivals r' join k) (\<lambda>(flags, r''). Inr (complete # flags, r'')))"

lemma arrivals_pending:
  assumes "bt_get (rs_pending_joins r) join = Some j"
    and "unat (pj_expected_tokens j) = unat (pj_arrived_tokens j) + Suc k"
  shows "\<exists>r'. arrivals r join (Suc k) = Inr (replicate k False @ [True], r')
    \<and> bt_get (rs_pending_joins r') join = Some (j\<lparr>pj_arrived_tokens := pj_expected_tokens j\<rparr>)"
  using assms
proof (induction k arbitrary: r j)
  case (0 r j)
  have less: "unat (pj_expected_tokens j) < 2 ^ LENGTH(32)" by (rule unsigned_less)
  then have add: "checked_add (pj_arrived_tokens j) 1 = Some (pj_expected_tokens j)"
    using 0(2) by (simp add: checked_add_def word_unat_eq_iff unat_word_ariths)
  then show ?case using 0(1) by (simp add: arrive_def)
next
  case (Suc k r j)
  have less: "unat (pj_expected_tokens j) < 2 ^ LENGTH(32)" by (rule unsigned_less)
  obtain a where add: "checked_add (pj_arrived_tokens j) 1 = Some a"
    and a: "unat a = Suc (unat (pj_arrived_tokens j))"
    using Suc.prems(2) less by (simp add: checked_add_def unat_word_ariths)
  let ?j = "j\<lparr>pj_arrived_tokens := a\<rparr>"
  let ?r = "r\<lparr>rs_pending_joins := bt_insert join ?j (rs_pending_joins r)\<rparr>"
  have "arrive r join = Inr (False, ?r)"
    using Suc.prems add a by (auto simp: arrive_def word_less_nat_alt)
  moreover obtain r' where "arrivals ?r join (Suc k) = Inr (replicate k False @ [True], r')"
    "bt_get (rs_pending_joins r') join = Some (?j\<lparr>pj_arrived_tokens := pj_expected_tokens ?j\<rparr>)"
    using Suc.IH [of ?r ?j] Suc.prems(2) a by auto
  ultimately show ?case by (simp del: arrivals.simps(2) add: arrivals.simps(2) [of r])
qed

text \<open>
  C17. A join opened for \<open>k\<close> branches completes at the \<open>k\<close>-th arrival and at no earlier one,
  and a further arrival is rejected.
\<close>

theorem join_completes_at_expected:
  assumes "open_join r join (Suc k) = Inr r1"
  shows "\<exists>r2. arrivals r1 join (Suc k) = Inr (replicate k False @ [True], r2)
    \<and> (\<exists>e. arrive r2 join = Inl e)"
proof -
  from assms obtain e where e: "u32_try_from (Suc k) = Some e"
    and r1: "bt_get (rs_pending_joins r1) join = Some \<lparr>pj_expected_tokens = e, pj_arrived_tokens = 0\<rparr>"
    by (auto simp: open_join_def and_then_Inr ok_or_Inr split: if_splits)
  from arrivals_pending [OF r1, of k] unat_u32_try_from [OF e] obtain r2 where
    r2: "arrivals r1 join (Suc k) = Inr (replicate k False @ [True], r2)"
    and j: "bt_get (rs_pending_joins r2) join = Some \<lparr>pj_expected_tokens = e, pj_arrived_tokens = e\<rparr>"
    by auto
  have "e < a" if "checked_add e 1 = Some a" for a
    using unat_checked_add [OF that] by (simp add: word_less_nat_alt)
  then have "\<exists>err. arrive r2 join = Inl err"
    using j by (cases "checked_add e 1") (auto simp: arrive_def)
  then show ?thesis using r2 by blast
qed

theorem join_completes_at_expected_witness:
  "\<exists>r1 r2. open_join (routing_from default_instance_state) ''j'' 2 = Inr r1
    \<and> arrivals r1 ''j'' 2 = Inr ([False, True], r2)"
proof -
  have "\<exists>r1. open_join (routing_from default_instance_state) ''j'' (Suc 1) = Inr r1"
    by (simp add: open_join_def u32_try_from_def u32_max_def bt_contains_key_def routing_from_def
        default_instance_state_def)
  then obtain r1 where r1: "open_join (routing_from default_instance_state) ''j'' (Suc 1) = Inr r1" ..
  then show ?thesis
    using join_completes_at_expected [OF r1] by (auto simp: numeral_2_eq_2)
qed

text \<open>
  C18. Entering a scope numbers the invocation above every earlier one of the same scope node,
  records the number, and derives an identity that none of the earlier invocations under
  the same parent had.
\<close>

theorem scope_identity_fresh:
  assumes "enter_scope r scope start parent = Inr (sid, invocation, r')"
  shows "bt_get (rs_scope_invocation_counts r') scope = Some invocation
    \<and> unat invocation = Suc (unat (case bt_get (rs_scope_invocation_counts r) scope of
                                       None \<Rightarrow> 0 | Some c \<Rightarrow> c))
    \<and> (\<forall>earlier < invocation. scope_identity scope parent earlier \<noteq> sid)"
proof -
  from assms obtain c where
    c: "c = (case bt_get (rs_scope_invocation_counts r) scope of None \<Rightarrow> 0 | Some c \<Rightarrow> c)"
    and inv: "checked_add c 1 = Some invocation"
    and sid: "sid = scope_identity scope parent invocation"
    and counts: "rs_scope_invocation_counts r' = bt_insert scope invocation (rs_scope_invocation_counts r)"
    by (rule enter_scope_Inr) auto
  have "scope_identity scope parent i = scope_identity scope parent k \<longleftrightarrow> i = k" for i k
    by (auto simp: scope_identity_def word_unat_eq_iff split: option.splits)
  then show ?thesis using unat_checked_add [OF inv] by (auto simp: c sid counts)
qed

theorem scope_identity_fresh_witness:
  "\<exists>sid r'. enter_scope (routing_from default_instance_state) ''p'' ''s'' None = Inr (sid, 1, r')
    \<and> scope_identity ''p'' None 0 \<noteq> sid"
proof -
  have "\<not> is_blank (CHR ''p'' # x)" for x
    by (rule not_blank [of "CHR ''p''"]) (simp_all add: printable_def)
  then have "\<exists>sid r'. enter_scope (routing_from default_instance_state) ''p'' ''s'' None
      = Inr (sid, 1, r')"
    by (simp add: enter_scope_def routing_from_def default_instance_state_def bt_values_def
        checked_add_def scope_identity_def Let_def)
  then show ?thesis
    using scope_identity_fresh [of "routing_from default_instance_state" "''p''" "''s''" None _ 1]
    by (auto simp: word_less_nat_alt)
qed

end
