(* ===== verification/Evolve.thy ===== *)
theory Evolve
  imports Routing
begin

text \<open>
  Event application: \<open>evolve\<close> and \<open>rehydrate\<close> of \<open>workflow.rs\<close>, with one helper per group
  of match arms. \<open>evolve_routing\<close> is the abstract view of an event as an update of the
  routing state alone; \<open>evolve\<close> refines it (\<open>routing_from_evolve\<close>), so that what a decision
  does to its working copy can be compared with what replaying its events does.
\<close>

section \<open>Applying events\<close>

definition first_active :: "(node_id, u32) btree_map \<Rightarrow> node_id \<Rightarrow> lifecycle" where
  "first_active tokens n = Active (case bt_keys tokens of [] \<Rightarrow> n | k # _ \<Rightarrow> k)"

definition release_tokens ::
  "(node_id, u32) btree_map \<Rightarrow> node_id \<Rightarrow> u32 \<Rightarrow> (node_id, u32) btree_map" where
  "release_tokens tokens n k =
     (case bt_get tokens n of
        None \<Rightarrow> tokens
      | Some c \<Rightarrow> (let c' = saturating_sub c k in
          if c' = 0 then bt_remove n tokens else bt_insert n c' tokens))"

definition complete_active_token ::
  "(node_id, u32) btree_map \<Rightarrow> node_id \<Rightarrow> (node_id, u32) btree_map \<times> lifecycle" where
  "complete_active_token tokens n =
     (let tokens' = release_tokens tokens n 1 in (tokens', first_active tokens' n))"

definition plan_items_of :: "plan_item_id list \<Rightarrow> plan_item_id list
   \<Rightarrow> (plan_item_id, case_plan_item_state) btree_map" where
  "plan_items_of stage_ids milestone_ids =
     bt_extend (bt_extend []
         (map (\<lambda>i. (i, \<lparr>pi_kind = Stage, pi_status = ItemAvailable\<rparr>)) stage_ids))
       (map (\<lambda>i. (i, \<lparr>pi_kind = Milestone, pi_status = ItemAvailable\<rparr>)) milestone_ids)"

definition evolve_case_activated ::
  "instance_state \<Rightarrow> case_id \<Rightarrow> case_model_id \<Rightarrow> plan_item_id list \<Rightarrow> plan_item_id list
   \<Rightarrow> instance_state" where
  "evolve_case_activated s c model stage_ids milestone_ids =
     s\<lparr>is_active_cases := bt_insert c
         \<lparr>ac_model_id = model, ac_lifecycle = CaseActive, ac_satisfied_sentries = [],
          ac_plan_items = plan_items_of stage_ids milestone_ids\<rparr>
         (is_active_cases s)\<rparr>"

definition update_case ::
  "instance_state \<Rightarrow> case_id \<Rightarrow> (active_case \<Rightarrow> active_case) \<Rightarrow> instance_state" where
  "update_case s c f =
     (case bt_get (is_active_cases s) c of
        None \<Rightarrow> s
      | Some active \<Rightarrow> s\<lparr>is_active_cases := bt_insert c (f active) (is_active_cases s)\<rparr>)"

definition evolve_task_activated :: "instance_state \<Rightarrow> node_id \<Rightarrow> instance_state" where
  "evolve_task_activated s n =
     (let count = (case bt_get (is_active_tokens s) n of None \<Rightarrow> 0 | Some c \<Rightarrow> c);
          tokens = bt_insert n (saturating_add count 1) (is_active_tokens s)
      in s\<lparr>is_active_tokens := tokens, is_lifecycle := first_active tokens n\<rparr>)"

definition evolve_task_completed :: "instance_state \<Rightarrow> node_id \<Rightarrow> instance_state" where
  "evolve_task_completed s n =
     (let (tokens, lifecycle) = complete_active_token (is_active_tokens s) n
      in s\<lparr>is_active_tokens := tokens, is_lifecycle := lifecycle\<rparr>)"

definition split_join :: "node_id list \<Rightarrow> pending_gateway_join" where
  "split_join selected =
     \<lparr>pj_expected_tokens = (case u32_try_from (length selected) of None \<Rightarrow> - 1 | Some k \<Rightarrow> k),
      pj_arrived_tokens = 0\<rparr>"

definition evolve_token_arrived :: "instance_state \<Rightarrow> node_id \<Rightarrow> instance_state" where
  "evolve_token_arrived s g =
     (let s = s\<lparr>is_lifecycle := Active g\<rparr> in
      case bt_get (is_pending_gateway_joins s) g of
        None \<Rightarrow> s
      | Some j \<Rightarrow> s\<lparr>is_pending_gateway_joins := bt_insert g
          (j\<lparr>pj_arrived_tokens := saturating_add (pj_arrived_tokens j) 1\<rparr>)
          (is_pending_gateway_joins s)\<rparr>)"

definition new_multi_instance ::
  "task_type \<Rightarrow> multi_instance_mode \<Rightarrow> u32 \<Rightarrow> u32 \<Rightarrow> string option \<Rightarrow> workflow_value list
   \<Rightarrow> active_multi_instance" where
  "new_multi_instance task mode instances parallelism item_variable items =
     \<lparr>am_task_type = task, am_mode = mode, am_total_instances = instances, am_next_iteration = 0,
      am_max_parallelism = parallelism, am_item_variable = item_variable, am_items = items,
      am_active_iterations = [], am_completed_iterations = []\<rparr>"

definition update_multi_instance ::
  "(node_id, active_multi_instance) btree_map \<Rightarrow> node_id
   \<Rightarrow> (active_multi_instance \<Rightarrow> active_multi_instance)
   \<Rightarrow> (node_id, active_multi_instance) btree_map" where
  "update_multi_instance m n f =
     (case bt_get m n of None \<Rightarrow> m | Some active \<Rightarrow> bt_insert n (f active) m)"

definition iteration_activated :: "u32 \<Rightarrow> active_multi_instance \<Rightarrow> active_multi_instance" where
  "iteration_activated i active =
     active\<lparr>am_next_iteration := max (am_next_iteration active) (saturating_add i 1),
            am_active_iterations := bs_insert i (am_active_iterations active)\<rparr>"

definition iteration_completed :: "u32 \<Rightarrow> active_multi_instance \<Rightarrow> active_multi_instance" where
  "iteration_completed i active =
     active\<lparr>am_active_iterations := bs_remove i (am_active_iterations active),
            am_completed_iterations := bs_insert i (am_completed_iterations active)\<rparr>"

definition evolve_boundary_triggered ::
  "instance_state \<Rightarrow> node_id \<Rightarrow> node_id \<Rightarrow> bool \<Rightarrow> u32 \<Rightarrow> instance_state" where
  "evolve_boundary_triggered s attached target cancel cancelled_tokens =
     (let s = s\<lparr>is_lifecycle := Active target\<rparr> in
      if cancel
      then s\<lparr>is_active_multi_instances := bt_remove attached (is_active_multi_instances s),
             is_active_boundary_subscriptions :=
               bt_retain (\<lambda>_ sub. ab_attached_node_id sub \<noteq> attached)
                 (is_active_boundary_subscriptions s),
             is_active_tokens := release_tokens (is_active_tokens s) attached cancelled_tokens\<rparr>
      else s)"

definition evolve_scope_entered ::
  "instance_state \<Rightarrow> scope_instance_id \<Rightarrow> node_id \<Rightarrow> node_id \<Rightarrow> scope_instance_id option \<Rightarrow> u64
   \<Rightarrow> instance_state" where
  "evolve_scope_entered s sid scope start parent invocation =
     s\<lparr>is_scope_invocation_counts := bt_insert scope
         (max (case bt_get (is_scope_invocation_counts s) scope of None \<Rightarrow> 0 | Some c \<Rightarrow> c)
            invocation)
         (is_scope_invocation_counts s),
       is_active_scopes := bt_insert sid
         \<lparr>as_scope_node_id = scope, as_start_node_id = start,
          as_parent_scope_instance_id = parent, as_invocation = invocation\<rparr>
         (is_active_scopes s),
       is_lifecycle := Active start\<rparr>"

definition clear_routing :: "instance_state \<Rightarrow> instance_state" where
  "clear_routing s =
     s\<lparr>is_active_tokens := [], is_pending_gateway_joins := [], is_active_multi_instances := [],
       is_active_boundary_subscriptions := [], is_active_scopes := []\<rparr>"

fun apply_event :: "instance_state \<Rightarrow> domain_event \<Rightarrow> instance_state" where
  "apply_event s (CaseActivated c model stage_ids milestone_ids _) =
     evolve_case_activated s c model stage_ids milestone_ids"
| "apply_event s (CaseSentrySatisfied c sentry _) =
     update_case s c (\<lambda>a. a\<lparr>ac_satisfied_sentries := bs_insert sentry (ac_satisfied_sentries a)\<rparr>)"
| "apply_event s (CasePlanItemTransitioned c item kind status _ _) =
     update_case s c (\<lambda>a. a\<lparr>ac_plan_items :=
       bt_insert item \<lparr>pi_kind = kind, pi_status = status\<rparr> (ac_plan_items a)\<rparr>)"
| "apply_event s (CaseCompleted c _) = update_case s c (\<lambda>a. a\<lparr>ac_lifecycle := CaseDone\<rparr>)"
| "apply_event s (WorkflowStarted _ _ _ start _) = s\<lparr>is_lifecycle := Active start\<rparr>"
| "apply_event s (ServiceTaskActivated n _ _) = evolve_task_activated s n"
| "apply_event s (UserTaskActivated n _ _ _ _) = evolve_task_activated s n"
| "apply_event s (ScriptTaskActivated n _ _ _ _) = evolve_task_activated s n"
| "apply_event s (ServiceTaskCompleted n outputs _) =
     evolve_task_completed (s\<lparr>is_variables := bt_extend (is_variables s) outputs\<rparr>) n"
| "apply_event s (ScriptTaskCompleted n _) = evolve_task_completed s n"
| "apply_event s (UserTaskCompleted n decision result_variable _) =
     evolve_task_completed
       (s\<lparr>is_variables := bt_insert result_variable (VString decision) (is_variables s)\<rparr>) n"
| "apply_event s (UserTaskCancelled _ _ _) = s"
| "apply_event s (DecisionTaskEvaluated _ _ outputs _) =
     s\<lparr>is_variables := bt_extend (is_variables s) outputs\<rparr>"
| "apply_event s (GatewaySplitActivated _ join selected _) =
     s\<lparr>is_pending_gateway_joins :=
         bt_insert join (split_join selected) (is_pending_gateway_joins s)\<rparr>"
| "apply_event s (GatewayTokenArrived g _) = evolve_token_arrived s g"
| "apply_event s (GatewayJoined g _) =
     s\<lparr>is_pending_gateway_joins := bt_remove g (is_pending_gateway_joins s),
       is_lifecycle := Active g\<rparr>"
| "apply_event s (BoundaryEventArmed b attached target cancel trigger at) =
     s\<lparr>is_active_boundary_subscriptions := bt_insert b
         \<lparr>ab_attached_node_id = attached, ab_target_node_id = target,
          ab_cancel_activity = cancel, ab_trigger = trigger, ab_armed_at_epoch_ms = at\<rparr>
         (is_active_boundary_subscriptions s)\<rparr>"
| "apply_event s (BoundaryEventsDisarmed _ ids _) =
     s\<lparr>is_active_boundary_subscriptions :=
         foldl (\<lambda>m b. bt_remove b m) (is_active_boundary_subscriptions s) ids\<rparr>"
| "apply_event s (MultiInstanceStarted n task mode instances parallelism item_variable items _) =
     s\<lparr>is_active_multi_instances := bt_insert n
         (new_multi_instance task mode instances parallelism item_variable items)
         (is_active_multi_instances s), is_lifecycle := Active n\<rparr>"
| "apply_event s (MultiInstanceIterationActivated n _ i _ _) =
     s\<lparr>is_active_multi_instances :=
         update_multi_instance (is_active_multi_instances s) n (iteration_activated i),
       is_lifecycle := Active n\<rparr>"
| "apply_event s (MultiInstanceIterationCompleted n i _) =
     s\<lparr>is_active_multi_instances :=
         update_multi_instance (is_active_multi_instances s) n (iteration_completed i),
       is_lifecycle := Active n\<rparr>"
| "apply_event s (MultiInstanceCompleted n _ _ _) =
     s\<lparr>is_active_multi_instances := bt_remove n (is_active_multi_instances s),
       is_lifecycle := Active n\<rparr>"
| "apply_event s (BoundaryEventTriggered _ attached target cancel _ cancelled_tokens _) =
     evolve_boundary_triggered s attached target cancel cancelled_tokens"
| "apply_event s (ScopeEntered sid scope start parent invocation _) =
     evolve_scope_entered s sid scope start parent invocation"
| "apply_event s (ScopeCompleted sid scope _ _) =
     s\<lparr>is_active_scopes := bt_remove sid (is_active_scopes s), is_lifecycle := Active scope\<rparr>"
| "apply_event s (WorkflowBranchCompleted end_node _) = s\<lparr>is_lifecycle := Active end_node\<rparr>"
| "apply_event s (WorkflowCompleted _) = (clear_routing s)\<lparr>is_lifecycle := Completed\<rparr>"
| "apply_event s (WorkflowTerminatedForCompliance _ _ _ _ _) =
     (clear_routing s)\<lparr>is_active_cases := [], is_lifecycle := TerminatedForCompliance\<rparr>"

definition evolve :: "instance_state \<Rightarrow> domain_event \<Rightarrow> instance_state" where
  "evolve s e = apply_event (s\<lparr>is_sequence := saturating_add (is_sequence s) 1\<rparr>) e"

definition rehydrate :: "instance_state option \<Rightarrow> domain_event list \<Rightarrow> instance_state" where
  "rehydrate snapshot events =
     foldl evolve (case snapshot of None \<Rightarrow> default_instance_state | Some s \<Rightarrow> s) events"

section \<open>Events as updates of the routing state\<close>

definition with_tokens where
  "with_tokens r f = r\<lparr>rs_active_tokens := f (rs_active_tokens r)\<rparr>"

definition add_token :: "node_id \<Rightarrow> (node_id, u32) btree_map \<Rightarrow> (node_id, u32) btree_map" where
  "add_token n tokens =
     bt_insert n (saturating_add (case bt_get tokens n of None \<Rightarrow> 0 | Some c \<Rightarrow> c) 1) tokens"

definition join_arrived :: "node_id \<Rightarrow> (node_id, pending_gateway_join) btree_map
   \<Rightarrow> (node_id, pending_gateway_join) btree_map" where
  "join_arrived g joins =
     (case bt_get joins g of
        None \<Rightarrow> joins
      | Some j \<Rightarrow> bt_insert g
          (j\<lparr>pj_arrived_tokens := saturating_add (pj_arrived_tokens j) 1\<rparr>) joins)"

definition cleared :: "routing_state \<Rightarrow> routing_state" where
  "cleared r =
     r\<lparr>rs_active_tokens := [], rs_pending_joins := [], rs_active_multi_instances := [],
       rs_active_boundary_subscriptions := [], rs_active_scopes := []\<rparr>"

fun evolve_routing :: "routing_state \<Rightarrow> domain_event \<Rightarrow> routing_state" where
  "evolve_routing r (ServiceTaskActivated n _ _) = with_tokens r (add_token n)"
| "evolve_routing r (UserTaskActivated n _ _ _ _) = with_tokens r (add_token n)"
| "evolve_routing r (ScriptTaskActivated n _ _ _ _) = with_tokens r (add_token n)"
| "evolve_routing r (ServiceTaskCompleted n _ _) = with_tokens r (\<lambda>t. release_tokens t n 1)"
| "evolve_routing r (ScriptTaskCompleted n _) = with_tokens r (\<lambda>t. release_tokens t n 1)"
| "evolve_routing r (UserTaskCompleted n _ _ _) = with_tokens r (\<lambda>t. release_tokens t n 1)"
| "evolve_routing r (GatewaySplitActivated _ join selected _) =
     r\<lparr>rs_pending_joins := bt_insert join (split_join selected) (rs_pending_joins r)\<rparr>"
| "evolve_routing r (GatewayTokenArrived g _) =
     r\<lparr>rs_pending_joins := join_arrived g (rs_pending_joins r)\<rparr>"
| "evolve_routing r (GatewayJoined g _) = close_join r g"
| "evolve_routing r (BoundaryEventArmed b attached target cancel trigger at) =
     r\<lparr>rs_active_boundary_subscriptions := bt_insert b
         \<lparr>ab_attached_node_id = attached, ab_target_node_id = target,
          ab_cancel_activity = cancel, ab_trigger = trigger, ab_armed_at_epoch_ms = at\<rparr>
         (rs_active_boundary_subscriptions r)\<rparr>"
| "evolve_routing r (BoundaryEventsDisarmed _ ids _) =
     r\<lparr>rs_active_boundary_subscriptions :=
         foldl (\<lambda>m b. bt_remove b m) (rs_active_boundary_subscriptions r) ids\<rparr>"
| "evolve_routing r (MultiInstanceStarted n task mode instances parallelism item_variable items _) =
     r\<lparr>rs_active_multi_instances := bt_insert n
         (new_multi_instance task mode instances parallelism item_variable items)
         (rs_active_multi_instances r)\<rparr>"
| "evolve_routing r (MultiInstanceIterationActivated n _ i _ _) =
     r\<lparr>rs_active_multi_instances :=
         update_multi_instance (rs_active_multi_instances r) n (iteration_activated i)\<rparr>"
| "evolve_routing r (MultiInstanceIterationCompleted n i _) =
     r\<lparr>rs_active_multi_instances :=
         update_multi_instance (rs_active_multi_instances r) n (iteration_completed i)\<rparr>"
| "evolve_routing r (MultiInstanceCompleted n _ _ _) = finish_multi_instance r n"
| "evolve_routing r (BoundaryEventTriggered _ attached _ cancel _ cancelled_tokens _) =
     (if cancel
      then r\<lparr>rs_active_multi_instances := bt_remove attached (rs_active_multi_instances r),
             rs_active_boundary_subscriptions :=
               bt_retain (\<lambda>_ sub. ab_attached_node_id sub \<noteq> attached)
                 (rs_active_boundary_subscriptions r),
             rs_active_tokens := release_tokens (rs_active_tokens r) attached cancelled_tokens\<rparr>
      else r)"
| "evolve_routing r (ScopeEntered sid scope start parent invocation _) =
     r\<lparr>rs_scope_invocation_counts := bt_insert scope
         (max (case bt_get (rs_scope_invocation_counts r) scope of None \<Rightarrow> 0 | Some c \<Rightarrow> c)
            invocation)
         (rs_scope_invocation_counts r),
       rs_active_scopes := bt_insert sid
         \<lparr>as_scope_node_id = scope, as_start_node_id = start,
          as_parent_scope_instance_id = parent, as_invocation = invocation\<rparr>
         (rs_active_scopes r)\<rparr>"
| "evolve_routing r (ScopeCompleted sid _ _ _) =
     r\<lparr>rs_active_scopes := bt_remove sid (rs_active_scopes r)\<rparr>"
| "evolve_routing r (WorkflowCompleted _) = cleared r"
| "evolve_routing r (WorkflowTerminatedForCompliance _ _ _ _ _) = cleared r"
| "evolve_routing r _ = r"

section \<open>Replay\<close>

text \<open>
  The contract of an event-sourced view: a projection of the state that can be advanced by
  the events alone commutes with replay.
\<close>

locale event_projection =
  fixes step :: "'s \<Rightarrow> 'e \<Rightarrow> 's" and proj :: "'s \<Rightarrow> 'p" and pstep :: "'p \<Rightarrow> 'e \<Rightarrow> 'p"
  assumes commute: "proj (step s e) = pstep (proj s) e"
begin

lemma proj_replay: "proj (foldl step s es) = foldl pstep (proj s) es"
  by (induction es arbitrary: s) (simp_all add: commute)

lemma proj_replay_from:
  "proj s = proj t \<Longrightarrow> proj (foldl step s es) = proj (foldl step t es)"
  by (simp add: proj_replay)

end

lemmas evolve_defs = evolve_case_activated_def update_case_def evolve_task_activated_def
  evolve_task_completed_def complete_active_token_def evolve_token_arrived_def
  evolve_boundary_triggered_def evolve_scope_entered_def clear_routing_def

lemma routing_from_evolve: "routing_from (evolve s e) = evolve_routing (routing_from s) e"
  by (cases e)
     (auto simp: evolve_def evolve_defs routing_from_def with_tokens_def add_token_def
       join_arrived_def close_join_def finish_multi_instance_def cleared_def Let_def
       split: option.splits)

interpretation routing_view: event_projection evolve routing_from evolve_routing
  by unfold_locales (rule routing_from_evolve)

lemma sequence_evolve: "is_sequence (evolve s e) = saturating_add (is_sequence s) 1"
  by (cases e) (auto simp: evolve_def evolve_defs Let_def split: option.splits)

interpretation sequence_view: event_projection evolve is_sequence "\<lambda>n _. saturating_add n 1"
  by unfold_locales (rule sequence_evolve)

section \<open>Each method of the routing state is the replay of its event\<close>

lemma activate_task_event:
  "activate_task r n = Inr r' \<Longrightarrow> with_tokens r (add_token n) = r'"
  by (auto simp: activate_task_def with_tokens_def add_token_def and_then_Inr ok_or_Inr
      dest: checked_add_saturating)

lemma complete_task_event:
  "complete_task r n = Inr r' \<Longrightarrow> with_tokens r (\<lambda>t. release_tokens t n 1) = r'"
  by (auto simp: complete_task_def with_tokens_def release_tokens_def saturating_sub_def Let_def
      word_le_nat_alt unat_gt_0 Suc_le_eq split: option.splits if_splits)

lemma activate_next_event:
  assumes "activate_next_multi_instance r n = Inr (i, task, item, r')"
  shows "r\<lparr>rs_active_multi_instances :=
    update_multi_instance (rs_active_multi_instances r) n (iteration_activated i)\<rparr> = r'"
  using assms
proof (rule activate_next_Inr)
  fix a nxt
  assume a: "bt_get (rs_active_multi_instances r) n = Some a" "i = am_next_iteration a"
    and nxt: "checked_add (am_next_iteration a) 1 = Some nxt"
    and r': "r' = r\<lparr>rs_active_multi_instances := bt_insert n
          (a\<lparr>am_next_iteration := nxt,
             am_active_iterations := bs_insert i (am_active_iterations a)\<rparr>)
          (rs_active_multi_instances r)\<rparr>"
  have "am_next_iteration a \<le> nxt"
    using unat_checked_add [OF nxt] by (simp add: word_le_nat_alt)
  then show ?thesis
    using a checked_add_saturating [OF nxt]
    by (simp add: r' update_multi_instance_def iteration_activated_def max_def)
qed

lemma routing_complete_iteration_event:
  "routing_complete_iteration r n i = Inr (completed, r') \<Longrightarrow>
    r\<lparr>rs_active_multi_instances :=
      update_multi_instance (rs_active_multi_instances r) n (iteration_completed i)\<rparr> = r'"
  by (auto simp: routing_complete_iteration_def and_then_Inr ok_or_Inr Let_def
      update_multi_instance_def iteration_completed_def split: if_splits)

lemma release_none: "bt_sorted t \<Longrightarrow> \<forall>e \<in> set t. 0 < snd e \<Longrightarrow> release_tokens t n 0 = t"
  using bt_get_in_set [of t n]
  by (force simp: release_tokens_def saturating_sub_def bt.ins_lookup_same split: option.splits)

lemma cancel_activity_event:
  assumes "cancel_activity r n k = Inr r'" and "k = 0 \<or> k = 1" and "routing_wf r"
  shows "evolve_routing r (BoundaryEventTriggered b n target True its k at) = r'"
proof -
  define c where "c = snd (disarm_boundaries
    (r\<lparr>rs_active_multi_instances := bt_remove n (rs_active_multi_instances r)\<rparr>) n)"
  have sorted: "bt_sorted (rs_active_boundary_subscriptions r)" "bt_sorted (rs_active_tokens r)"
    and pos: "\<forall>e \<in> set (rs_active_tokens r). 0 < snd e"
    using assms(3) by (simp_all add: routing_wf_defs)
  have tokens: "rs_active_tokens c = rs_active_tokens r"
    by (simp add: c_def disarm_boundaries_def Let_def)
  have "with_tokens c (\<lambda>t. release_tokens t n k) = r'"
    using assms(1,2) complete_task_event [of c n r'] release_none [OF sorted(2) pos, of n]
    by (auto simp: cancel_activity_def c_def [symmetric] Let_def with_tokens_def tokens [symmetric]
        and_then_Inr)
  then show ?thesis
    using sorted by (auto simp: c_def disarm_boundaries_retain with_tokens_def)
qed

lemma open_join_event:
  "open_join r join (length selected) = Inr r' \<Longrightarrow>
    r\<lparr>rs_pending_joins := bt_insert join (split_join selected) (rs_pending_joins r)\<rparr> = r'"
  by (auto simp: open_join_def split_join_def and_then_Inr ok_or_Inr split: if_splits)

lemma arrive_event:
  "arrive r join = Inr (complete, r') \<Longrightarrow>
    r\<lparr>rs_pending_joins := join_arrived join (rs_pending_joins r)\<rparr> = r'"
  by (erule arrive_Inr) (auto simp: join_arrived_def dest: checked_add_saturating)

lemma enter_scope_event:
  assumes "enter_scope r scope start parent = Inr (sid, invocation, r')"
  shows "evolve_routing r (ScopeEntered sid scope start parent invocation at) = r'"
  using assms
proof (rule enter_scope_Inr)
  fix c :: u64
  assume c: "c = (case bt_get (rs_scope_invocation_counts r) scope of None \<Rightarrow> 0 | Some c \<Rightarrow> c)"
    and inv: "checked_add c 1 = Some invocation"
    and r': "r' = r\<lparr>rs_scope_invocation_counts :=
              bt_insert scope invocation (rs_scope_invocation_counts r),
            rs_active_scopes :=
              bt_insert sid
                \<lparr>as_scope_node_id = scope, as_start_node_id = start,
                 as_parent_scope_instance_id = parent, as_invocation = invocation\<rparr>
                (rs_active_scopes r)\<rparr>"
  have "max c invocation = invocation"
    using unat_checked_add [OF inv] by (simp add: max_def word_le_nat_alt)
  then show ?thesis by (simp add: r' c)
qed

lemma complete_scope_event:
  "complete_scope r sid expected = Inr (scope, r') \<Longrightarrow>
    r\<lparr>rs_active_scopes := bt_remove sid (rs_active_scopes r)\<rparr> = r'"
  by (auto simp: complete_scope_def and_then_Inr ok_or_Inr split: if_splits)

lemma cleared_idle: "\<not> has_outstanding_work r \<Longrightarrow> cleared r = r"
  by (simp add: has_outstanding_work_def cleared_def)

section \<open>Sequence numbers\<close>

lemma saturating_count: "unat (saturating_add n 1) = min (Suc (unat n)) (2 ^ LENGTH(64) - 1)"
  for n :: u64
  using unat_saturating_add [of n 1] by simp

lemma sequence_replay:
  "unat (foldl (\<lambda>n e. saturating_add n 1) n es) = min (unat n + length es) (2 ^ LENGTH(64) - 1)"
  for n :: u64
proof (induction es arbitrary: n)
  case Nil
  have "unat n < 2 ^ LENGTH(64)" by (rule unsigned_less)
  then show ?case by simp
next
  case (Cons e es)
  then show ?case by (simp only: foldl_Cons saturating_count list.size)
qed

end
