(* ===== verification/Activation.thy ===== *)
theory Activation
  imports Workflow_Definition Configuration Evolve
begin

text \<open>
  The automatic part of a decision: \<open>activation_events\<close> of \<open>workflow.rs\<close> and the functions
  it calls. The three \<open>&mut\<close> parameters (variables, routing state, emitted events) are the
  record \<open>activation\<close>; one definition per arm of the match over nodes returns the entries
  it pushes on the stack, top first. The loop ends because its step budget is
  \<open>4 * nodes\<close>.
\<close>

section \<open>State\<close>

record activation =
  act_variables :: variables
  act_routing :: routing_state
  act_events :: "domain_event list"

type_synonym pending = "(node_id \<times> scope_instance_id option) list"

definition emit :: "activation \<Rightarrow> routing_state \<Rightarrow> domain_event \<Rightarrow> activation" where
  "emit a r e = a\<lparr>act_routing := r, act_events := act_events a @ [e]\<rparr>"

section \<open>Boundary events\<close>

definition subscription_of :: "node_id \<Rightarrow> u64 \<Rightarrow> boundary_event_definition \<Rightarrow> active_boundary_subscription"
  where
  "subscription_of n at b =
     \<lparr>ab_attached_node_id = n, ab_target_node_id = be_target b,
      ab_cancel_activity = be_cancel_activity b, ab_trigger = be_trigger b,
      ab_armed_at_epoch_ms = at\<rparr>"

definition arm_boundary_events ::
  "workflow_definition \<Rightarrow> node_id \<Rightarrow> u64 \<Rightarrow> activation \<Rightarrow> activation result" where
  "arm_boundary_events d n at a =
     try_fold (\<lambda>a b.
       and_then (arm_boundary (act_routing a) (be_id b) (subscription_of n at b)) (\<lambda>r.
       Inr (emit a r (BoundaryEventArmed (be_id b) n (be_target b) (be_cancel_activity b)
              (be_trigger b) at))))
     a (boundary_events d n)"

definition disarm_boundary_events :: "node_id \<Rightarrow> u64 \<Rightarrow> activation \<Rightarrow> activation" where
  "disarm_boundary_events n at a =
     (let (ids, r) = disarm_boundaries (act_routing a) n in
      if ids = [] then a\<lparr>act_routing := r\<rparr>
      else emit a r (BoundaryEventsDisarmed n ids at))"

section \<open>Multi-instance activities\<close>

definition expression_variable :: "string \<Rightarrow> string" where
  "expression_variable expression =
     (let trimmed = trim expression in
      trim (case Option.bind (strip_prefix ''${'' trimmed) (strip_suffix_char CHR ''}'') of
              None \<Rightarrow> trimmed | Some v \<Rightarrow> v))"

definition resolve_cardinality :: "node_id \<Rightarrow> string \<Rightarrow> variables \<Rightarrow> u32 result" where
  "resolve_cardinality n expression variables =
     and_then (ok_or
       (case parse_i64 (trim expression) of
          Some v \<Rightarrow> Some v
        | None \<Rightarrow>
            (case bt_get variables (expression_variable expression) of
               Some (VInteger v) \<Rightarrow> Some v
             | _ \<Rightarrow> None))
       (ActivityError (InvalidMultiInstanceCardinality n expression))) (\<lambda>v.
     ok_or (u32_try_from_i64 v) (ActivityError (InvalidMultiInstanceCardinality n expression)))"

definition materialize_items ::
  "node_id \<Rightarrow> multi_instance_definition \<Rightarrow> variables \<Rightarrow> workflow_value list result" where
  "materialize_items n spec variables =
     (case mi_collection_expression spec of
        None \<Rightarrow> Inr []
      | Some expression \<Rightarrow>
          (case bt_get variables (expression_variable expression) of
             None \<Rightarrow> activity_fail (MultiInstanceInputMissing n expression)
           | Some value \<Rightarrow>
               (case value of
                  VList items \<Rightarrow>
                    if list_all is_scalar items then Inr items
                    else activity_fail
                           (MultiInstanceCollectionTypeMismatch n (value_type_name value))
                | _ \<Rightarrow> activity_fail
                         (MultiInstanceCollectionTypeMismatch n (value_type_name value)))))"

definition materialize_multi_instance ::
  "node_id \<Rightarrow> multi_instance_definition \<Rightarrow> variables \<Rightarrow> (u32 \<times> workflow_value list) result" where
  "materialize_multi_instance n spec variables =
     and_then (materialize_items n spec variables) (\<lambda>items.
     and_then (ok_or (u32_try_from (length items)) (RuntimeError (TokenCountOverflow n)))
       (\<lambda>collection_count.
     and_then (case mi_cardinality_expression spec of
         None \<Rightarrow> Inr None
       | Some expression \<Rightarrow>
           and_then (resolve_cardinality n expression variables) (\<lambda>c. Inr (Some c)))
       (\<lambda>cardinality.
     case cardinality of
       None \<Rightarrow> Inr (collection_count, items)
     | Some c \<Rightarrow>
         if mi_collection_expression spec \<noteq> None \<and> c \<noteq> collection_count
         then activity_fail (MultiInstanceCardinalityMismatch n collection_count c)
         else Inr (c, items))))"

definition multi_instance_parallelism ::
  "multi_instance_definition \<Rightarrow> resolved_config_snapshot \<Rightarrow> u32 \<Rightarrow> u32" where
  "multi_instance_parallelism spec cfg instances =
     min (case mi_mode spec of
            Sequential \<Rightarrow> 1
          | Parallel \<Rightarrow>
              (case mi_max_parallelism spec of
                 None \<Rightarrow> en_default_multi_instance_parallelism (rc_engine cfg)
               | Some p \<Rightarrow> p))
       (max instances 1)"

definition activate_iteration :: "node_id \<Rightarrow> u64 \<Rightarrow> activation \<Rightarrow> activation result" where
  "activate_iteration n at a =
     and_then (activate_next_multi_instance (act_routing a) n) (\<lambda>(iteration, task, item, r).
     Inr (emit a r (MultiInstanceIterationActivated n task iteration item at)))"

text \<open>The flag is true when the activity has no instance and is already complete.\<close>

definition start_multi_instance ::
  "node_id \<Rightarrow> task_type \<Rightarrow> multi_instance_definition \<Rightarrow> resolved_config_snapshot \<Rightarrow> u64
   \<Rightarrow> activation \<Rightarrow> (bool \<times> activation) result" where
  "start_multi_instance n task spec cfg at a =
     and_then (materialize_multi_instance n spec (act_variables a)) (\<lambda>(instances, items).
     if en_max_multi_instance_cardinality (rc_engine cfg) < instances
     then activity_fail (MultiInstanceCardinalityExceeded n instances
            (en_max_multi_instance_cardinality (rc_engine cfg)))
     else let parallelism = multi_instance_parallelism spec cfg instances in
     and_then (routing_start_multi_instance (act_routing a) n
         (new_multi_instance task (mi_mode spec) instances parallelism (mi_item_variable spec) items))
       (\<lambda>r.
     let a = emit a r (MultiInstanceStarted n task (mi_mode spec) instances parallelism
                         (mi_item_variable spec) items at) in
     if instances = 0
     then Inr (True, emit a (finish_multi_instance (act_routing a) n)
                       (MultiInstanceCompleted n False [] at))
     else and_then (try_fold (\<lambda>a _. activate_iteration n at a) a [0..<unat parallelism])
            (\<lambda>a. Inr (False, a))))"

section \<open>The arms of the match over nodes\<close>

definition activate_activity ::
  "workflow_definition \<Rightarrow> resolved_config_snapshot \<Rightarrow> u64 \<Rightarrow> node_id \<Rightarrow> scope_instance_id option
   \<Rightarrow> task_type \<Rightarrow> node_id \<Rightarrow> domain_event \<Rightarrow> activation \<Rightarrow> (pending \<times> activation) result" where
  "activate_activity d cfg at current scope task next activated a =
     (case node_multi_instance d current of
        Some spec \<Rightarrow>
          and_then (start_multi_instance current task spec cfg at a) (\<lambda>(completed, a).
          if completed then Inr ([(next, scope)], a)
          else and_then (arm_boundary_events d current at a) (\<lambda>a. Inr ([], a)))
      | None \<Rightarrow>
          and_then (activate_task (act_routing a) current) (\<lambda>r.
          and_then (arm_boundary_events d current at (emit a r activated)) (\<lambda>a.
          Inr ([], a))))"

definition activate_service_task ::
  "workflow_definition \<Rightarrow> resolved_config_snapshot \<Rightarrow> u64 \<Rightarrow> node_id \<Rightarrow> scope_instance_id option
   \<Rightarrow> task_type \<Rightarrow> node_id \<Rightarrow> activation \<Rightarrow> (pending \<times> activation) result" where
  "activate_service_task d cfg at current scope task next a =
     activate_activity d cfg at current scope task next (ServiceTaskActivated current task at) a"

definition activate_user_task ::
  "workflow_definition \<Rightarrow> resolved_config_snapshot \<Rightarrow> u64 \<Rightarrow> node_id \<Rightarrow> scope_instance_id option
   \<Rightarrow> task_type \<Rightarrow> string \<Rightarrow> string option \<Rightarrow> node_id \<Rightarrow> activation
   \<Rightarrow> (pending \<times> activation) result" where
  "activate_user_task d cfg at current scope task assignment_policy_ref form_key next a =
     activate_activity d cfg at current scope task next
       (UserTaskActivated current task assignment_policy_ref form_key at) a"

definition activate_script_task ::
  "workflow_definition \<Rightarrow> resolved_config_snapshot \<Rightarrow> u64 \<Rightarrow> node_id \<Rightarrow> scope_instance_id option
   \<Rightarrow> task_type \<Rightarrow> string \<Rightarrow> string \<Rightarrow> node_id \<Rightarrow> activation \<Rightarrow> (pending \<times> activation) result" where
  "activate_script_task d cfg at current scope task implementation version next a =
     activate_activity d cfg at current scope task next
       (ScriptTaskActivated current task implementation version at) a"

definition call_task_type :: "workflow_type \<Rightarrow> workflow_version option \<Rightarrow> string" where
  "call_task_type called version =
     (case version of
        Some v \<Rightarrow> ''call:'' @ called @ ''@'' @ v
      | None \<Rightarrow> ''call:'' @ called)"

definition activate_call_activity ::
  "workflow_definition \<Rightarrow> resolved_config_snapshot \<Rightarrow> u64 \<Rightarrow> node_id \<Rightarrow> scope_instance_id option
   \<Rightarrow> workflow_type \<Rightarrow> workflow_version option \<Rightarrow> node_id \<Rightarrow> activation
   \<Rightarrow> (pending \<times> activation) result" where
  "activate_call_activity d cfg at current scope called version next a =
     (case identifier_new ''TaskType'' (call_task_type called version) of
        Inl _ \<Rightarrow> Inl (Panic ''validated call activity produces a non-empty task type'')
      | Inr task \<Rightarrow>
          activate_activity d cfg at current scope task next
            (ServiceTaskActivated current task at) a)"

definition activate_decision_task ::
  "workflow_definition \<Rightarrow> u64 \<Rightarrow> node_id \<Rightarrow> scope_instance_id option \<Rightarrow> string \<Rightarrow> node_id
   \<Rightarrow> activation \<Rightarrow> (pending \<times> activation) result" where
  "activate_decision_task d at current scope table_id next a =
     and_then (ok_or (bt_get (wd_decision_tables d) table_id)
       (DefinitionError (MissingDecisionTable table_id))) (\<lambda>table.
     and_then (evaluate_decision_table table (act_variables a)) (\<lambda>outputs.
     Inr ([(next, scope)],
          emit (a\<lparr>act_variables := bt_extend (act_variables a) outputs\<rparr>) (act_routing a)
            (DecisionTaskEvaluated current table_id outputs at))))"

definition activate_end ::
  "workflow_definition \<Rightarrow> u64 \<Rightarrow> node_id \<Rightarrow> scope_instance_id option \<Rightarrow> activation
   \<Rightarrow> (pending \<times> activation) result" where
  "activate_end d at current scope a =
     (case owner_scope_id d current of
        Some owner \<Rightarrow>
          and_then (ok_or scope (RuntimeError (ScopeContextMissing current))) (\<lambda>sid.
          and_then (complete_scope (act_routing a) sid owner) (\<lambda>(completed_scope, r).
          let a = disarm_boundary_events owner at (emit a r (ScopeCompleted sid owner current at))
          in and_then (sub_process_exit d owner) (\<lambda>exit.
          Inr ([(exit, as_parent_scope_instance_id completed_scope)], a))))
      | None \<Rightarrow>
          if has_outstanding_work (act_routing a)
          then Inr ([], emit a (act_routing a) (WorkflowBranchCompleted current at))
          else Inr ([], emit a (act_routing a) (WorkflowCompleted at)))"

definition activate_split ::
  "u64 \<Rightarrow> node_id \<Rightarrow> scope_instance_id option \<Rightarrow> node_id list \<Rightarrow> node_id \<Rightarrow> activation
   \<Rightarrow> (pending \<times> activation) result" where
  "activate_split at current scope selected join a =
     and_then (open_join (act_routing a) join (length selected)) (\<lambda>r.
     Inr (map (\<lambda>t. (t, scope)) selected,
          emit a r (GatewaySplitActivated current join selected at)))"

definition activate_join ::
  "u64 \<Rightarrow> node_id \<Rightarrow> scope_instance_id option \<Rightarrow> node_id \<Rightarrow> activation
   \<Rightarrow> (pending \<times> activation) result" where
  "activate_join at current scope next a =
     and_then (arrive (act_routing a) current) (\<lambda>(complete, r).
     let a = emit a r (GatewayTokenArrived current at) in
     if complete
     then Inr ([(next, scope)],
               emit a (close_join (act_routing a) current) (GatewayJoined current at))
     else Inr ([], a))"

definition activate_sub_process ::
  "workflow_definition \<Rightarrow> u64 \<Rightarrow> node_id \<Rightarrow> scope_instance_id option \<Rightarrow> node_id \<Rightarrow> activation
   \<Rightarrow> (pending \<times> activation) result" where
  "activate_sub_process d at current scope start a =
     and_then (enter_scope (act_routing a) current start scope) (\<lambda>(sid, invocation, r).
     and_then (arm_boundary_events d current at
         (emit a r (ScopeEntered sid current start scope invocation at))) (\<lambda>a.
     Inr ([(start, Some sid)], a)))"

fun activate_node ::
  "workflow_definition \<Rightarrow> resolved_config_snapshot \<Rightarrow> u64 \<Rightarrow> node_id \<Rightarrow> scope_instance_id option
   \<Rightarrow> node \<Rightarrow> activation \<Rightarrow> (pending \<times> activation) result" where
  "activate_node d cfg at current scope (ServiceTask task next) a =
     activate_service_task d cfg at current scope task next a"
| "activate_node d cfg at current scope (UserTask task assignment form_key _ next) a =
     activate_user_task d cfg at current scope task assignment form_key next a"
| "activate_node d cfg at current scope (ScriptTask task implementation version next) a =
     activate_script_task d cfg at current scope task implementation version next a"
| "activate_node d cfg at current scope (CallActivity called version next) a =
     activate_call_activity d cfg at current scope called version next a"
| "activate_node d cfg at current scope (DecisionTask table_id next) a =
     activate_decision_task d at current scope table_id next a"
| "activate_node d cfg at current scope End a = activate_end d at current scope a"
| "activate_node d cfg at current scope (Start next) a =
     (if owner_scope_id d current = None \<or> scope = None
      then definition_fail (TransitionToStartNode current)
      else Inr ([(next, scope)], a))"
| "activate_node d cfg at current scope (ExclusiveGateway transitions _) a =
     and_then (select_transition current transitions (act_variables a)) (\<lambda>t.
     Inr ([(t, scope)], a))"
| "activate_node d cfg at current scope (ParallelSplit ts join) a =
     activate_split at current scope ts join a"
| "activate_node d cfg at current scope (InclusiveSplit transitions _ join) a =
     and_then (select_transitions current transitions (act_variables a)) (\<lambda>selected.
     activate_split at current scope selected join a)"
| "activate_node d cfg at current scope (ParallelJoin _ next) a =
     activate_join at current scope next a"
| "activate_node d cfg at current scope (InclusiveJoin _ next) a =
     activate_join at current scope next a"
| "activate_node d cfg at current scope (SubProcess start _ _) a =
     activate_sub_process d at current scope start a"

definition activation_step ::
  "workflow_definition \<Rightarrow> resolved_config_snapshot \<Rightarrow> u64 \<Rightarrow> node_id \<times> scope_instance_id option
   \<Rightarrow> activation \<Rightarrow> (pending \<times> activation) result" where
  "activation_step d cfg at entry a =
     and_then (definition_node d (fst entry)) (\<lambda>nd.
     activate_node d cfg at (fst entry) (snd entry) nd a)"

section \<open>The loop\<close>

text \<open>
  \<open>steps\<close> is a natural number: it saturates in the source only for definitions of at least
  \<open>2 ^ 62\<close> nodes, which no allocation can hold.
\<close>

function activation_loop ::
  "workflow_definition \<Rightarrow> resolved_config_snapshot \<Rightarrow> u64 \<Rightarrow> node_id \<Rightarrow> nat \<Rightarrow> nat \<Rightarrow> pending
   \<Rightarrow> activation \<Rightarrow> activation result" where
  "activation_loop d cfg at origin max_steps steps [] a = Inr a"
| "activation_loop d cfg at origin max_steps steps (entry # pending) a =
     (if max_steps < Suc steps then runtime_fail (AutomaticTransitionLimitExceeded origin)
      else and_then (activation_step d cfg at entry a) (\<lambda>(pushed, a').
        activation_loop d cfg at origin max_steps (Suc steps) (pushed @ pending) a'))"
  by pat_completeness auto
termination
  by (relation "measure (\<lambda>(d, cfg, at, origin, max_steps, steps, pending, a). max_steps - steps)")
     auto

definition max_steps :: "workflow_definition \<Rightarrow> nat" where
  "max_steps d = max (min (length (wd_nodes d) * 4) usize_max) 1"

definition activation_events ::
  "workflow_definition \<Rightarrow> resolved_config_snapshot \<Rightarrow> u64 \<Rightarrow> node_id \<Rightarrow> scope_instance_id option
   \<Rightarrow> activation \<Rightarrow> activation result" where
  "activation_events d cfg at n scope a =
     activation_loop d cfg at n (max_steps d) 0 [(n, scope)] a"

section \<open>Properties\<close>

text \<open>
  The activation loop always terminates, and its step budget only cuts off runs: whenever
  it does not report \<open>AutomaticTransitionLimitExceeded\<close>, any larger budget gives the same
  result.
\<close>

theorem step_budget_monotone:
  assumes "activation_loop d cfg at origin limit steps pending a
      \<noteq> runtime_fail (AutomaticTransitionLimitExceeded origin)"
    and "limit \<le> limit'"
  shows "activation_loop d cfg at origin limit' steps pending a
    = activation_loop d cfg at origin limit steps pending a"
  using assms
proof (induction d cfg at origin limit steps pending a rule: activation_loop.induct)
  case (2 d cfg at origin limit steps entry pending a)
  then have "\<not> limit < Suc steps" by auto
  then show ?case
    using 2 by (cases "activation_step d cfg at entry a") auto
qed simp

end
