(* ===== verification/Activation_Invariants.thy ===== *)
theory Activation_Invariants
  imports Activation
begin

text \<open>
  What the activation loop guarantees. \<open>advances\<close> says that an operation keeps the
  invariant of the routing state and that its working copy is the replay of the events it
  emitted. A token balance over the stack and the pending joins shows that
  \<open>WorkflowCompleted\<close> is emitted only when nothing is left to do, for arbitrary (also
  unstructured) graphs.
\<close>

section \<open>Specification predicates\<close>

definition advances :: "(domain_event \<Rightarrow> bool) \<Rightarrow> activation \<Rightarrow> activation \<Rightarrow> bool" where
  "advances P a a' \<longleftrightarrow> routing_wf (act_routing a') \<and>
     (\<exists>es. act_events a' = act_events a @ es
        \<and> act_routing a' = foldl evolve_routing (act_routing a) es \<and> list_all P es)"

fun gateway_event :: "domain_event \<Rightarrow> bool" where
  "gateway_event (GatewaySplitActivated _ _ _ _) = True"
| "gateway_event (GatewayTokenArrived _ _) = True"
| "gateway_event (GatewayJoined _ _) = True"
| "gateway_event _ = False"

fun terminal_event :: "domain_event \<Rightarrow> bool" where
  "terminal_event (WorkflowCompleted _) = True"
| "terminal_event (WorkflowTerminatedForCompliance _ _ _ _ _) = True"
| "terminal_event _ = False"

fun completion_event :: "domain_event \<Rightarrow> bool" where
  "completion_event (WorkflowCompleted _) = True"
| "completion_event _ = False"

abbreviation progress_event :: "domain_event \<Rightarrow> bool" where
  "progress_event e \<equiv> \<not> terminal_event e"

definition local_event :: "domain_event \<Rightarrow> bool" where
  "local_event e \<longleftrightarrow> \<not> gateway_event e \<and> \<not> terminal_event e"

text \<open>Arrivals the pending joins still wait for.\<close>

definition deficit :: "pending_gateway_join \<Rightarrow> nat" where
  "deficit j = unat (pj_expected_tokens j) - unat (pj_arrived_tokens j)"

definition owed :: "(node_id, pending_gateway_join) btree_map \<Rightarrow> nat" where
  "owed joins =
     sum_list (map deficit (bt_values joins))"

definition balanced :: "nat \<Rightarrow> routing_state \<Rightarrow> bool" where
  "balanced tokens r \<longleftrightarrow> tokens + length (rs_pending_joins r) \<le> owed (rs_pending_joins r) + 1"

definition splits_nonempty :: "workflow_definition \<Rightarrow> bool" where
  "splits_nonempty d \<longleftrightarrow>
     (\<forall>n ts join. bt_get (wd_nodes d) n = Some (ParallelSplit ts join) \<longrightarrow> ts \<noteq> [])"

text \<open>A terminal event is the last one, if there is one at all.\<close>

definition terminal_last :: "domain_event list \<Rightarrow> bool" where
  "terminal_last es \<longleftrightarrow> list_all progress_event (butlast es)"

text \<open>One turn of the loop: either it advances and keeps the balance, or it completes.\<close>

definition step_ok :: "activation \<Rightarrow> pending \<Rightarrow> activation \<Rightarrow> bool" where
  "step_ok a pushed a' \<longleftrightarrow> advances progress_event a a'
     \<and> length pushed + length (rs_pending_joins (act_routing a')) + owed (rs_pending_joins (act_routing a))
         \<le> owed (rs_pending_joins (act_routing a')) + 1 + length (rs_pending_joins (act_routing a))
     \<and> (pushed \<noteq> [] \<or> has_outstanding_work (act_routing a'))"

definition finishes :: "activation \<Rightarrow> pending \<Rightarrow> activation \<Rightarrow> bool" where
  "finishes a pushed a' \<longleftrightarrow> pushed = [] \<and> \<not> has_outstanding_work (act_routing a)
     \<and> (\<exists>at. a' = emit a (act_routing a) (WorkflowCompleted at))"

text \<open>What a finished activation satisfies, relative to the state it started in.\<close>

definition activation_ok :: "activation \<Rightarrow> activation \<Rightarrow> bool" where
  "activation_ok a a' \<longleftrightarrow> routing_wf (act_routing a') \<and>
     (\<exists>es. act_events a' = act_events a @ es
        \<and> act_routing a' = foldl evolve_routing (act_routing a) es \<and> terminal_last es
        \<and> (if es \<noteq> [] \<and> terminal_event (last es)
            then completion_event (last es) \<and> \<not> has_outstanding_work (act_routing a')
            else has_outstanding_work (act_routing a')))"

section \<open>Composition\<close>

lemma advances_refl: "routing_wf (act_routing a) \<Longrightarrow> advances P a a"
  by (auto simp: advances_def)

lemma advances_trans: "advances P a b \<Longrightarrow> advances P b c \<Longrightarrow> advances P a c"
  by (auto simp: advances_def)

lemma advances_mono: "advances P a b \<Longrightarrow> (\<And>e. P e \<Longrightarrow> Q e) \<Longrightarrow> advances Q a b"
  by (auto simp: advances_def list_all_iff)

lemma advances_wf: "advances P a b \<Longrightarrow> routing_wf (act_routing b)"
  by (simp add: advances_def)

lemma advances_emit:
  "routing_wf r \<Longrightarrow> evolve_routing (act_routing a) e = r \<Longrightarrow> P e \<Longrightarrow> advances P a (emit a r e)"
  unfolding advances_def emit_def by (auto intro!: exI [of _ "[e]"])

lemma advances_try_fold:
  assumes "try_fold f a xs = Inr a'" and "routing_wf (act_routing a)"
    and "\<And>b x b'. f b x = Inr b' \<Longrightarrow> routing_wf (act_routing b) \<Longrightarrow> advances P b b'"
  shows "advances P a a'"
  using assms(1)
  by (rule try_fold_invariant [where P = "advances P a"])
     (auto intro: advances_refl assms(2,3) advances_trans dest: advances_wf)

lemma emit_routing [simp]:
  "act_routing (emit a r e) = r" "act_events (emit a r e) = act_events a @ [e]"
  "act_variables (emit a r e) = act_variables a"
  by (simp_all add: emit_def)

section \<open>The helpers\<close>

lemma arm_boundary_events_advances:
  assumes "arm_boundary_events d n at a = Inr a'" and "routing_wf (act_routing a)"
  shows "advances local_event a a'"
  using assms(1) unfolding arm_boundary_events_def
proof (rule advances_try_fold [OF _ assms(2)])
  fix b x b'
  assume step: "and_then (arm_boundary (act_routing b) (be_id x) (subscription_of n at x)) (\<lambda>r.
       Inr (emit b r (BoundaryEventArmed (be_id x) n (be_target x) (be_cancel_activity x)
              (be_trigger x) at))) = Inr b'" and wf: "routing_wf (act_routing b)"
  then obtain r where r: "arm_boundary (act_routing b) (be_id x) (subscription_of n at x) = Inr r"
    and b': "b' = emit b r (BoundaryEventArmed (be_id x) n (be_target x) (be_cancel_activity x)
              (be_trigger x) at)"
    by (auto simp: and_then_Inr)
  show "advances local_event b b'"
    unfolding b' using r arm_boundary_wf [OF r wf]
    by (intro advances_emit)
       (auto simp: arm_boundary_def subscription_of_def local_event_def split: if_splits)
qed

lemma disarm_boundary_events_advances:
  assumes "routing_wf (act_routing a)"
  shows "advances local_event a (disarm_boundary_events n at a)"
proof (cases "fst (disarm_boundaries (act_routing a) n) = []")
  case True
  then have "disarm_boundary_events n at a = a"
    by (auto simp: disarm_boundary_events_def disarm_boundaries_def Let_def)
  then show ?thesis using assms by (simp add: advances_refl)
next
  case False
  then have "disarm_boundary_events n at a =
      emit a (snd (disarm_boundaries (act_routing a) n))
        (BoundaryEventsDisarmed n (fst (disarm_boundaries (act_routing a) n)) at)"
    by (auto simp: disarm_boundary_events_def split: prod.splits)
  then show ?thesis
    using disarm_boundaries_wf [OF assms, of n]
    by (auto intro!: advances_emit simp: disarm_boundaries_def Let_def local_event_def)
qed

lemma activate_iteration_advances:
  assumes "activate_iteration n at a = Inr a'" and "routing_wf (act_routing a)"
  shows "advances local_event a a'"
  using assms
  by (auto simp: activate_iteration_def and_then_Inr local_event_def
      intro!: advances_emit activate_next_event dest: activate_next_multi_instance_wf)

lemma multi_instance_ok_new:
  "(mode = Sequential \<longrightarrow> p \<le> 1) \<Longrightarrow>
    multi_instance_ok (new_multi_instance task mode instances p item_variable items)"
  by (simp add: multi_instance_ok_def new_multi_instance_def)

lemma parallelism_sequential:
  "mi_mode spec = Sequential \<Longrightarrow> multi_instance_parallelism spec cfg instances \<le> 1"
  by (simp add: multi_instance_parallelism_def)

lemma start_multi_instance_Inr:
  assumes "start_multi_instance n task spec cfg at a = Inr (completed, a')"
  obtains instances items p r a1 where
    "materialize_multi_instance n spec (act_variables a) = Inr (instances, items)"
    and "instances \<le> en_max_multi_instance_cardinality (rc_engine cfg)"
    and "p = multi_instance_parallelism spec cfg instances"
    and "routing_start_multi_instance (act_routing a) n
         (new_multi_instance task (mi_mode spec) instances p (mi_item_variable spec) items) = Inr r"
    and "a1 = emit a r (MultiInstanceStarted n task (mi_mode spec) instances p
                         (mi_item_variable spec) items at)"
    and "completed \<longleftrightarrow> instances = 0"
    and "completed \<Longrightarrow> a' = emit a1 (finish_multi_instance r n) (MultiInstanceCompleted n False [] at)"
    and "\<not> completed \<Longrightarrow>
         try_fold (\<lambda>a _. activate_iteration n at a) a1 [0..<unat p] = Inr a'"
  using assms
  by (auto simp: start_multi_instance_def and_then_Inr Let_def not_less split: if_splits)

lemma start_multi_instance_advances:
  assumes "start_multi_instance n task spec cfg at a = Inr (completed, a')"
    and wf: "routing_wf (act_routing a)"
  shows "advances local_event a a'"
  using assms(1)
proof (rule start_multi_instance_Inr)
  fix instances items p r a1
  assume p: "p = multi_instance_parallelism spec cfg instances"
    and r: "routing_start_multi_instance (act_routing a) n
         (new_multi_instance task (mi_mode spec) instances p (mi_item_variable spec) items) = Inr r"
    and a1: "a1 = emit a r (MultiInstanceStarted n task (mi_mode spec) instances p
                         (mi_item_variable spec) items at)"
    and fin: "completed \<Longrightarrow>
         a' = emit a1 (finish_multi_instance r n) (MultiInstanceCompleted n False [] at)"
    and run: "\<not> completed \<Longrightarrow>
         try_fold (\<lambda>a _. activate_iteration n at a) a1 [0..<unat p] = Inr a'"
  have wf1: "routing_wf r"
    using r wf by (rule routing_start_multi_instance_wf)
      (simp add: multi_instance_ok_new parallelism_sequential p)
  then have first: "advances local_event a a1"
    using r unfolding a1
    by (intro advances_emit)
       (auto simp: routing_start_multi_instance_def local_event_def split: if_splits)
  moreover have "advances local_event a1 a'"
  proof (cases completed)
    case True
    then show ?thesis using wf1 unfolding fin [OF True] a1
      by (intro advances_emit) (auto simp: finish_multi_instance_wf local_event_def)
  next
    case False
    show ?thesis
      using run [OF False] advances_wf [OF first]
      by (rule advances_try_fold) (rule activate_iteration_advances)
  qed
  ultimately show ?thesis by (rule advances_trans)
qed

section \<open>The token balance\<close>

lemma mset_bt_insert: "bt_sorted m \<Longrightarrow> mset (bt_insert k v m) = add_mset (k, v) (mset (bt_remove k m))"
proof (induction m)
  case (Cons e m)
  obtain a b where e: "e = (a, b)" by (cases e)
  have "bt_remove k m = m" if "k < a \<or> k = a"
    using Cons.prems that by (force simp: e bt_remove_def filter_id_conv bt_keys_def)
  then show ?case using Cons by (auto simp: e bt_remove_def simp del: mset_filter)
qed (simp add: bt_remove_def)

lemma mset_bt_get:
  assumes "bt_sorted m" and "bt_get m k = Some v"
  shows "mset m = add_mset (k, v) (mset (bt_remove k m))"
  using mset_bt_insert [OF assms(1), of k v] bt.ins_lookup_same [OF assms] by simp

lemma owed_mset: "owed m = (\<Sum>e\<in>#mset m. deficit (snd e))"
  by (induction m) (simp_all add: owed_def bt_values_def)

lemma owed_length_new:
  assumes "mset m' = add_mset e (mset m)"
  shows "owed m' = owed m + deficit (snd e)" and "length m' = Suc (length m)"
proof -
  show "owed m' = owed m + deficit (snd e)" using assms by (simp add: owed_mset)
  have "size (mset m') = size (add_mset e (mset m))" by (simp only: assms)
  then show "length m' = Suc (length m)" by simp
qed

lemma owed_new:
  assumes "bt_sorted m" and "bt_get m k = None"
  shows "owed (bt_insert k j m) = owed m + deficit j" and "length (bt_insert k j m) = Suc (length m)"
  using owed_length_new [OF mset_bt_insert [OF assms(1), of k j]] bt.del_absent [OF assms] by simp_all

lemma owed_removed:
  assumes "bt_sorted m" and "bt_get m k = Some j"
  shows "owed (bt_remove k m) + deficit j = owed m" and "Suc (length (bt_remove k m)) = length m"
  using owed_length_new [OF mset_bt_get [OF assms]] by simp_all

lemma owed_update:
  assumes "bt_sorted m" and "bt_get m k = Some j"
  shows "owed (bt_insert k j' m) + deficit j = owed m + deficit j'"
    and "length (bt_insert k j' m) = length m"
  using owed_length_new [OF mset_bt_insert [OF assms(1), of k j']] owed_removed [OF assms] by simp_all

lemma owed_positive: "\<forall>e \<in> set m. join_ok (snd e) \<Longrightarrow> length m \<le> owed m"
  by (induction m) (auto simp: owed_def bt_values_def join_ok_def deficit_def word_less_nat_alt)

lemma balanced_start: "routing_wf r \<Longrightarrow> balanced 1 r"
  by (simp add: balanced_def routing_wf_defs owed_positive)

section \<open>One turn of the loop\<close>

lemma local_event_joins:
  "local_event e \<Longrightarrow> rs_pending_joins (evolve_routing r e) = rs_pending_joins r"
  by (cases e) (simp_all add: local_event_def with_tokens_def finish_multi_instance_def)

lemma advances_local_joins:
  assumes "advances local_event a a'"
  shows "rs_pending_joins (act_routing a') = rs_pending_joins (act_routing a)"
proof -
  have "list_all local_event es \<Longrightarrow>
      rs_pending_joins (foldl evolve_routing r es) = rs_pending_joins r" for es r
    by (induction es arbitrary: r) (simp_all add: local_event_joins)
  then show ?thesis using assms by (auto simp: advances_def)
qed

lemma step_ok_local:
  "advances local_event a a' \<Longrightarrow> length pushed \<le> 1 \<Longrightarrow>
    pushed \<noteq> [] \<or> has_outstanding_work (act_routing a') \<Longrightarrow> step_ok a pushed a'"
  using advances_local_joins [of a a']
  by (auto simp: step_ok_def local_event_def elim: advances_mono)

lemma arm_boundary_events_outstanding:
  assumes "arm_boundary_events d n at a = Inr a'" and "has_outstanding_work (act_routing a)"
  shows "has_outstanding_work (act_routing a')"
  using assms(1) unfolding arm_boundary_events_def
  by (rule try_fold_invariant [where P = "\<lambda>a. has_outstanding_work (act_routing a)"])
     (use assms(2) in \<open>auto simp: and_then_Inr arm_boundary_def has_outstanding_work_def
        split: if_splits\<close>)

lemma start_multi_instance_outstanding:
  assumes "start_multi_instance n task spec cfg at a = Inr (False, a')"
  shows "has_outstanding_work (act_routing a')"
  using assms
proof (rule start_multi_instance_Inr)
  fix instances items p r a1
  assume r: "routing_start_multi_instance (act_routing a) n
         (new_multi_instance task (mi_mode spec) instances p (mi_item_variable spec) items) = Inr r"
    and a1: "a1 = emit a r (MultiInstanceStarted n task (mi_mode spec) instances p
                         (mi_item_variable spec) items at)"
    and run: "\<not> False \<Longrightarrow>
         try_fold (\<lambda>a _. activate_iteration n at a) a1 [0..<unat p] = Inr a'"
  have "rs_active_multi_instances (act_routing a1) \<noteq> []"
    using r by (auto simp: a1 routing_start_multi_instance_def split: if_splits)
  then have "rs_active_multi_instances (act_routing a') \<noteq> []"
    using run by - (rule try_fold_invariant
      [where P = "\<lambda>a. rs_active_multi_instances (act_routing a) \<noteq> []"],
      auto simp: activate_iteration_def and_then_Inr elim!: activate_next_Inr)
  then show ?thesis by (simp add: has_outstanding_work_def)
qed

lemma activate_activity_ok:
  assumes step: "activate_activity d cfg at n scope task next activated a = Inr (pushed, a')"
    and wf: "routing_wf (act_routing a)"
    and activated: "evolve_routing (act_routing a) activated = with_tokens (act_routing a) (add_token n)"
      "local_event activated"
  shows "step_ok a pushed a'"
proof (cases "node_multi_instance d n")
  case None
  from step None obtain r where r: "activate_task (act_routing a) n = Inr r"
    and a': "arm_boundary_events d n at (emit a r activated) = Inr a'"
    by (auto simp: activate_activity_def and_then_Inr)
  have wf1: "routing_wf r" using r wf by (rule activate_task_wf)
  have "advances local_event a (emit a r activated)"
    using wf1 activated activate_task_event [OF r] by (intro advances_emit) simp_all
  then have "advances local_event a a'"
    by (rule advances_trans) (rule arm_boundary_events_advances [OF a'], simp add: wf1)
  moreover have "has_outstanding_work (act_routing (emit a r activated))"
    using r by (auto simp: activate_task_def and_then_Inr has_outstanding_work_def)
  ultimately show ?thesis
    using step None arm_boundary_events_outstanding [OF a']
    by (intro step_ok_local) (auto simp: activate_activity_def and_then_Inr)
next
  case (Some spec)
  from step Some obtain completed b where
    b: "start_multi_instance n task spec cfg at a = Inr (completed, b)"
    and cont: "if completed then pushed = [(next, scope)] \<and> a' = b
      else pushed = [] \<and> arm_boundary_events d n at b = Inr a'"
    by (auto simp: activate_activity_def and_then_Inr split: if_splits)
  have adv: "advances local_event a b" using b wf by (rule start_multi_instance_advances)
  show ?thesis
  proof (cases completed)
    case True
    then show ?thesis using cont adv by (simp add: step_ok_local)
  next
    case False
    then have "advances local_event b a'" "has_outstanding_work (act_routing a')"
      using cont b advances_wf [OF adv]
      by (auto intro: arm_boundary_events_advances arm_boundary_events_outstanding
          start_multi_instance_outstanding)
    then show ?thesis using cont adv False by (auto intro: step_ok_local advances_trans)
  qed
qed

lemma activate_end_ok:
  assumes step: "activate_end d at n scope a = Inr (pushed, a')" and wf: "routing_wf (act_routing a)"
  shows "step_ok a pushed a' \<or> finishes a pushed a'"
proof (cases "owner_scope_id d n")
  case None
  show ?thesis
  proof (cases "has_outstanding_work (act_routing a)")
    case True
    then have a': "pushed = []" "a' = emit a (act_routing a) (WorkflowBranchCompleted n at)"
      using step None by (simp_all add: activate_end_def)
    have "advances local_event a a'"
      unfolding a' by (rule advances_emit) (simp_all add: wf local_event_def)
    then show ?thesis using True a' by (simp add: step_ok_local)
  next
    case False
    then show ?thesis using step None by (auto simp: activate_end_def finishes_def)
  qed
next
  case (Some owner)
  from step Some obtain sid completed r exit where
    r: "complete_scope (act_routing a) sid owner = Inr (completed, r)"
    and a': "a' = disarm_boundary_events owner at (emit a r (ScopeCompleted sid owner n at))"
    and pushed: "pushed = [(exit, as_parent_scope_instance_id completed)]"
    by (auto simp: activate_end_def and_then_Inr ok_or_Inr Let_def)
  have wf1: "routing_wf r" using r wf by (rule complete_scope_wf)
  then have "advances local_event a (emit a r (ScopeCompleted sid owner n at))"
    using complete_scope_event [OF r] by (intro advances_emit) (simp_all add: local_event_def)
  then have "advances local_event a a'"
    unfolding a' by (rule advances_trans) (simp add: disarm_boundary_events_advances wf1)
  then show ?thesis by (simp add: step_ok_local pushed)
qed

lemma activate_split_ok:
  assumes step: "activate_split at n scope selected join a = Inr (pushed, a')"
    and wf: "routing_wf (act_routing a)" and "selected \<noteq> []"
  shows "step_ok a pushed a'"
proof -
  from step obtain r where r: "open_join (act_routing a) join (length selected) = Inr r"
    and a': "a' = emit a r (GatewaySplitActivated n join selected at)"
    and pushed: "pushed = map (\<lambda>t. (t, scope)) selected"
    by (auto simp: activate_split_def and_then_Inr)
  have "routing_wf r" using r _ wf by (rule open_join_wf) (simp add: assms(3))
  then have adv: "advances progress_event a a'"
    unfolding a' using open_join_event [OF r] by (intro advances_emit) simp_all
  from r obtain k where k: "u32_try_from (length selected) = Some k"
    and absent: "bt_get (rs_pending_joins (act_routing a)) join = None"
    and joins: "rs_pending_joins r = bt_insert join
        \<lparr>pj_expected_tokens = k, pj_arrived_tokens = 0\<rparr> (rs_pending_joins (act_routing a))"
    by (auto simp: open_join_def and_then_Inr ok_or_Inr bt_contains_key_def split: if_splits)
  have "bt_sorted (rs_pending_joins (act_routing a))" using wf by (simp add: routing_wf_defs)
  then show ?thesis
    using adv absent unat_u32_try_from [OF k] assms(3)
    by (simp add: step_ok_def a' pushed joins owed_new deficit_def)
qed

lemma activate_join_ok:
  assumes step: "activate_join at n scope next a = Inr (pushed, a')"
    and wf: "routing_wf (act_routing a)"
  shows "step_ok a pushed a'"
proof -
  let ?m = "rs_pending_joins (act_routing a)"
  from step obtain complete r where arr: "arrive (act_routing a) n = Inr (complete, r)"
    and res: "if complete
       then pushed = [(next, scope)] \<and> a' = emit (emit a r (GatewayTokenArrived n at))
              (close_join r n) (GatewayJoined n at)
       else pushed = [] \<and> a' = emit a r (GatewayTokenArrived n at)"
    by (auto simp: activate_join_def and_then_Inr Let_def split: if_splits)
  define r' where "r' = (if complete then close_join r n else r)"
  have a': "act_routing a' = r'" using res by (simp add: r'_def split: if_splits)
  have "arrive_and_close (act_routing a) n = Inr (complete, r')"
    using arr by (simp add: arrive_and_close_def r'_def)
  then have wf': "routing_wf r'" using wf by (rule arrive_and_close_wf)
  have adv: "advances progress_event a a'"
    unfolding advances_def a'
  proof (intro conjI wf')
    show "\<exists>es. act_events a' = act_events a @ es \<and> r' = foldl evolve_routing (act_routing a) es
        \<and> list_all progress_event es"
      using res arrive_event [OF arr]
      by (intro exI [of _ "if complete then [GatewayTokenArrived n at, GatewayJoined n at]
            else [GatewayTokenArrived n at]"]) (auto simp: r'_def)
  qed
  from arr obtain j arrived where j: "bt_get ?m n = Some j"
    and arrived: "checked_add (pj_arrived_tokens j) 1 = Some arrived"
    and le: "arrived \<le> pj_expected_tokens j" "complete \<longleftrightarrow> arrived = pj_expected_tokens j"
    and r: "r = (act_routing a)\<lparr>rs_pending_joins :=
        bt_insert n (j\<lparr>pj_arrived_tokens := arrived\<rparr>) ?m\<rparr>"
    by (rule arrive_Inr)
  have sorted: "bt_sorted ?m" using wf by (simp add: routing_wf_defs)
  have less: "deficit j = Suc (deficit (j\<lparr>pj_arrived_tokens := arrived\<rparr>))"
    using unat_checked_add [OF arrived] le(1) by (simp add: deficit_def word_le_nat_alt)
  show ?thesis
  proof (cases complete)
    case True
    then have "deficit (j\<lparr>pj_arrived_tokens := arrived\<rparr>) = 0" using le by (simp add: deficit_def)
    then show ?thesis
      using adv True res less owed_removed [OF sorted j] bt.del_ins_same [OF sorted]
      by (simp add: step_ok_def a' r'_def r close_join_def)
  next
    case False
    then show ?thesis
      using adv res less owed_update [OF sorted j, of "j\<lparr>pj_arrived_tokens := arrived\<rparr>"]
      by (auto simp: step_ok_def a' r'_def r has_outstanding_work_def)
  qed
qed

lemma activate_sub_process_ok:
  assumes step: "activate_sub_process d at n scope start a = Inr (pushed, a')"
    and wf: "routing_wf (act_routing a)"
  shows "step_ok a pushed a'"
proof -
  from step obtain sid invocation r where
    r: "enter_scope (act_routing a) n start scope = Inr (sid, invocation, r)"
    and a': "arm_boundary_events d n at (emit a r (ScopeEntered sid n start scope invocation at)) = Inr a'"
    and pushed: "pushed = [(start, Some sid)]"
    by (auto simp: activate_sub_process_def and_then_Inr)
  have wf1: "routing_wf r" using r wf by (rule enter_scope_wf)
  then have "advances local_event a (emit a r (ScopeEntered sid n start scope invocation at))"
    using enter_scope_event [OF r] by (intro advances_emit) (simp_all add: local_event_def)
  then have "advances local_event a a'"
    by (rule advances_trans) (rule arm_boundary_events_advances [OF a'], simp add: wf1)
  then show ?thesis by (simp add: step_ok_local pushed)
qed

lemma activate_decision_task_ok:
  assumes step: "activate_decision_task d at n scope table_id next a = Inr (pushed, a')"
    and wf: "routing_wf (act_routing a)"
  shows "step_ok a pushed a'"
  using step wf
  by (auto simp: activate_decision_task_def and_then_Inr ok_or_Inr advances_def emit_def
      local_event_def intro!: step_ok_local)

lemma activation_step_ok:
  assumes step: "activation_step d cfg at entry a = Inr (pushed, a')"
    and wf: "routing_wf (act_routing a)" and splits: "splits_nonempty d"
  shows "step_ok a pushed a' \<or> finishes a pushed a'"
proof -
  from step obtain nd where nd: "bt_get (wd_nodes d) (fst entry) = Some nd"
    and node: "activate_node d cfg at (fst entry) (snd entry) nd a = Inr (pushed, a')"
    by (auto simp: activation_step_def definition_node_def and_then_Inr ok_or_Inr)
  have here: "advances local_event a a" using wf by (rule advances_refl)
  note activity = activate_activity_ok [OF _ wf]
  show ?thesis
  proof (cases nd)
    case (Start nxt)
    then have "pushed = [(nxt, snd entry)]" "a' = a" using node by (auto split: if_splits)
    then show ?thesis using here by (simp add: step_ok_local)
  next
    case (ServiceTask task nxt)
    then have "step_ok a pushed a'" using node
      by (simp add: activate_service_task_def) (erule activity; simp add: local_event_def)
    then show ?thesis ..
  next
    case (UserTask task assignment form_key result_variable nxt)
    then have "step_ok a pushed a'" using node
      by (simp add: activate_user_task_def) (erule activity; simp add: local_event_def)
    then show ?thesis ..
  next
    case (ScriptTask task implementation version nxt)
    then have "step_ok a pushed a'" using node
      by (simp add: activate_script_task_def) (erule activity; simp add: local_event_def)
    then show ?thesis ..
  next
    case (CallActivity called version nxt)
    then obtain task where "activate_activity d cfg at (fst entry) (snd entry) task nxt
        (ServiceTaskActivated (fst entry) task at) a = Inr (pushed, a')"
      using node by (auto simp: activate_call_activity_def split: sum.splits)
    then have "step_ok a pushed a'" by (elim activity) (simp_all add: local_event_def)
    then show ?thesis ..
  next
    case (ExclusiveGateway transitions coverage)
    then obtain t where "pushed = [(t, snd entry)]" "a' = a" using node by (auto simp: and_then_Inr)
    then show ?thesis using here by (simp add: step_ok_local)
  next
    case (ParallelSplit ts join)
    then have "ts \<noteq> []" using splits nd by (auto simp: splits_nonempty_def)
    then show ?thesis using node ParallelSplit wf activate_split_ok by simp
  next
    case (InclusiveSplit transitions coverage join)
    then show ?thesis using node wf activate_split_ok
      by (auto simp: and_then_Inr select_transitions_Inr)
  qed (use node wf activate_decision_task_ok activate_end_ok activate_join_ok
        activate_sub_process_ok in simp_all)
qed

section \<open>The loop\<close>

lemma has_outstanding_joins: "\<not> has_outstanding_work r \<Longrightarrow> rs_pending_joins r = []"
  by (simp add: has_outstanding_work_def)

lemma finishes_empty:
  "finishes a pushed a' \<Longrightarrow> balanced (Suc (length pending)) (act_routing a) \<Longrightarrow> pending = []"
  by (auto simp: finishes_def balanced_def has_outstanding_joins owed_def bt_values_def)

lemma activation_ok_step:
  assumes "advances progress_event a b" and "activation_ok b c"
  shows "activation_ok a c"
proof -
  from assms(1) obtain es1 where es1: "act_events b = act_events a @ es1"
    "act_routing b = foldl evolve_routing (act_routing a) es1" "list_all progress_event es1"
    by (auto simp: advances_def)
  from assms(2) obtain es2 where es2: "act_events c = act_events b @ es2"
    "act_routing c = foldl evolve_routing (act_routing b) es2" "terminal_last es2"
    "if es2 \<noteq> [] \<and> terminal_event (last es2)
     then completion_event (last es2) \<and> \<not> has_outstanding_work (act_routing c)
     else has_outstanding_work (act_routing c)"
    by (auto simp: activation_ok_def)
  have "list_all progress_event (butlast es1)"
    using es1(3) by (auto simp: list_all_iff dest: in_set_butlastD)
  then have "terminal_last (es1 @ es2)"
    using es1(3) es2(3) by (auto simp: terminal_last_def butlast_append)
  moreover have "es1 @ es2 \<noteq> [] \<and> terminal_event (last (es1 @ es2)) \<longleftrightarrow>
      es2 \<noteq> [] \<and> terminal_event (last es2)"
    using es1(3) by (cases "es2 = []"; cases "es1 = []") (auto simp: list_all_iff)
  ultimately show ?thesis
    using assms(2) es1 es2 unfolding activation_ok_def
    by (intro conjI exI [of _ "es1 @ es2"]) (auto split: if_splits)
qed

lemma advances_activation_ok:
  "advances progress_event a b \<Longrightarrow> has_outstanding_work (act_routing b) \<Longrightarrow> activation_ok a b"
  by (rule activation_ok_step [of a b b])
     (auto simp: activation_ok_def terminal_last_def dest: advances_wf)

lemma activation_loop_ok:
  assumes "activation_loop d cfg at origin limit steps pending a = Inr a'"
    and "routing_wf (act_routing a)" and "splits_nonempty d"
    and "balanced (length pending) (act_routing a)"
    and "pending \<noteq> [] \<or> has_outstanding_work (act_routing a)"
  shows "activation_ok a a'"
  using assms
proof (induction d cfg at origin limit steps pending a rule: activation_loop.induct)
  case (1 d cfg at origin limit steps a)
  then show ?case by (auto simp: activation_ok_def terminal_last_def)
next
  case (2 d cfg at origin limit steps entry pending a)
  from "2.prems"(1) obtain pushed b where
    step: "activation_step d cfg at entry a = Inr (pushed, b)" and limit: "\<not> limit < Suc steps"
    and rest: "activation_loop d cfg at origin limit (Suc steps) (pushed @ pending) b = Inr a'"
    by (auto simp: and_then_Inr split: if_splits)
  from activation_step_ok [OF step "2.prems"(2,3)] show ?case
  proof
    assume ok: "step_ok a pushed b"
    then have adv: "advances progress_event a b" by (simp add: step_ok_def)
    have "balanced (length (pushed @ pending)) (act_routing b)"
      using ok "2.prems"(4) by (simp add: step_ok_def balanced_def)
    moreover have "pushed @ pending \<noteq> [] \<or> has_outstanding_work (act_routing b)"
      using ok by (auto simp: step_ok_def)
    ultimately have "activation_ok b a'"
      using "2.IH" [OF limit step refl rest advances_wf [OF adv] "2.prems"(3)] by blast
    then show ?thesis using adv by (rule activation_ok_step [rotated])
  next
    assume fin: "finishes a pushed b"
    then have "pending = []" using "2.prems"(4) by (simp add: finishes_empty)
    then have "a' = b" using rest fin by (simp add: finishes_def)
    then show ?thesis
      using fin "2.prems"(2) by (auto simp: finishes_def activation_ok_def terminal_last_def
        cleared_idle intro!: exI [of _ "[WorkflowCompleted _]"])
  qed
qed

lemma activation_events_ok:
  assumes "activation_events d cfg at n scope a = Inr a'" and "routing_wf (act_routing a)"
    and "splits_nonempty d"
  shows "activation_ok a a'"
  using assms unfolding activation_events_def
  by (rule activation_loop_ok) (use balanced_start [OF assms(2)] in simp_all)

lemma valid_definition_splits: "valid_definition d \<Longrightarrow> splits_nonempty d"
  by (fastforce simp: valid_definition_def nodes_valid_def splits_nonempty_def and_then_Inr
      validate_parallel_split_Inr dest!: bt_get_in_set)

section \<open>Absence of panics\<close>

lemma no_panic_routing [simp]:
  "no_panic (activate_task r n)"
  "no_panic (routing_start_multi_instance r n active)"
  "no_panic (activate_next_multi_instance r n)"
  "no_panic (routing_complete_iteration r n i)"
  "no_panic (arm_boundary r b sub)"
  "no_panic (open_join r join k)"
  "no_panic (arrive r join)"
  "no_panic (enter_scope r scope start parent)"
  "no_panic (complete_scope r sid expected)"
  by (auto simp: activate_task_def routing_start_multi_instance_def activate_next_multi_instance_def
      routing_complete_iteration_def arm_boundary_def open_join_def arrive_def enter_scope_def
      complete_scope_def Let_def)

lemma no_panic_materialize [simp]: "no_panic (materialize_multi_instance n spec vars)"
  by (auto simp: materialize_multi_instance_def materialize_items_def resolve_cardinality_def
      split: option.splits workflow_value.splits)

lemma no_panic_arm_boundary_events [simp]: "no_panic (arm_boundary_events d n at a)"
  by (auto simp: arm_boundary_events_def intro!: no_panic_try_fold)

lemma no_panic_start_multi_instance [simp]: "no_panic (start_multi_instance n task spec cfg at a)"
  by (auto simp: start_multi_instance_def activate_iteration_def Let_def intro!: no_panic_try_fold)

lemma no_panic_activate_activity [simp]:
  "no_panic (activate_activity d cfg at n scope task next activated a)"
  by (auto simp: activate_activity_def split: option.splits)

lemma call_task_type_not_blank: "\<not> is_blank (call_task_type called version)"
  by (rule not_blank [of "CHR '':''"]) (simp_all add: call_task_type_def printable_def split: option.splits)

lemma no_panic_activate_node [simp]: "no_panic (activate_node d cfg at n scope nd a)"
  by (cases nd)
     (auto simp: activate_service_task_def activate_user_task_def activate_script_task_def
       activate_call_activity_def identifier_new_def call_task_type_not_blank
       activate_decision_task_def activate_end_def activate_split_def activate_join_def
       activate_sub_process_def sub_process_exit_def definition_node_def Let_def
       split: option.splits node.splits)

lemma no_panic_activation_loop [simp]:
  "no_panic (activation_loop d cfg at origin limit steps pending a)"
  by (induction d cfg at origin limit steps pending a rule: activation_loop.induct)
     (auto simp: activation_step_def definition_node_def)

end
