(* ===== verification/Cases.thy ===== *)
theory Cases
  imports Workflow_Definition Evolve
begin

text \<open>
  The case runtime (CMMN): \<open>activate_case\<close> and \<open>evaluate_case_sentries\<close> of \<open>workflow.rs\<close>.
  Loops over sentries, stages and milestones are \<open>try_fold\<close>; their state is the pair of
  the local map or set and the events emitted so far. The working copy \<open>projected\<close> is
  shown to be what replaying the events yields, every plan item moves exactly as its entry
  and exit sentries say, and a case completes exactly when all its items are completed.
\<close>

section \<open>Operations\<close>

definition state_variables_with_context :: "instance_state \<Rightarrow> variables \<Rightarrow> variables" where
  "state_variables_with_context s context_variables =
     bt_extend (is_variables s) context_variables"

definition activate_case ::
  "workflow_definition \<Rightarrow> instance_state \<Rightarrow> case_id \<Rightarrow> case_model_id \<Rightarrow> u64
   \<Rightarrow> domain_event list result" where
  "activate_case d s c model_id at =
     (if bt_contains_key (is_active_cases s) c then case_fail (CaseAlreadyActivated c)
      else and_then (case_model d model_id) (\<lambda>model.
        Inr (CaseActivated c model_id (map cs_id (cd_stages model))
               (map cm_id (cd_milestones model)) at
             # map (\<lambda>stage. CasePlanItemTransitioned c (cs_id stage) Stage ItemActive [] at)
                 (filter (\<lambda>stage. cs_entry_sentry_ids stage = []) (cd_stages model)))))"

definition any_sentry_satisfied :: "sentry_id list \<Rightarrow> sentry_id btree_set \<Rightarrow> bool" where
  "any_sentry_satisfied ids satisfied \<longleftrightarrow> list_ex (\<lambda>i. i \<in> set satisfied) ids"

type_synonym plan_items = "(plan_item_id, case_plan_item_state) btree_map"

definition push_case_transition ::
  "case_id \<Rightarrow> plan_item_id \<Rightarrow> case_plan_item_kind \<Rightarrow> case_plan_item_status \<Rightarrow> sentry_id list
   \<Rightarrow> sentry_id btree_set \<Rightarrow> u64 \<Rightarrow> plan_items \<times> domain_event list
   \<Rightarrow> plan_items \<times> domain_event list" where
  "push_case_transition c item kind status governing satisfied at p =
     (bt_insert item \<lparr>pi_kind = kind, pi_status = status\<rparr> (fst p),
      snd p @ [CasePlanItemTransitioned c item kind status
                 (filter (\<lambda>i. i \<in> set satisfied) governing) at])"

definition evaluate_sentry ::
  "case_id \<Rightarrow> variables \<Rightarrow> u64 \<Rightarrow> sentry_id btree_set \<times> domain_event list \<Rightarrow> case_sentry_definition
   \<Rightarrow> (sentry_id btree_set \<times> domain_event list) result" where
  "evaluate_sentry c vars at p sentry =
     (if sentry_id_of sentry \<in> set (fst p) then Inr p
      else and_then (expression_evaluate (sentry_condition sentry) vars) (\<lambda>holds.
        if holds
        then Inr (bs_insert (sentry_id_of sentry) (fst p),
                  snd p @ [CaseSentrySatisfied c (sentry_id_of sentry) at])
        else Inr p))"

definition item_status :: "plan_items \<Rightarrow> plan_item_id \<Rightarrow> case_plan_item_status option" where
  "item_status items i = map_option pi_status (bt_get items i)"

definition advance_stage ::
  "case_id \<Rightarrow> sentry_id btree_set \<Rightarrow> u64 \<Rightarrow> plan_items \<times> domain_event list \<Rightarrow> case_stage_definition
   \<Rightarrow> (plan_items \<times> domain_event list) result" where
  "advance_stage c satisfied at p stage =
     and_then (ok_or (item_status (fst p) (cs_id stage))
       (CaseError (UnknownCasePlanItem (cs_id stage)))) (\<lambda>current.
     let p = (if current = ItemAvailable
                 \<and> any_sentry_satisfied (cs_entry_sentry_ids stage) satisfied
              then push_case_transition c (cs_id stage) Stage ItemActive
                     (cs_entry_sentry_ids stage) satisfied at p
              else p)
     in Inr (if item_status (fst p) (cs_id stage) = Some ItemActive
                \<and> cs_exit_sentry_ids stage \<noteq> []
                \<and> any_sentry_satisfied (cs_exit_sentry_ids stage) satisfied
             then push_case_transition c (cs_id stage) Stage ItemCompleted
                    (cs_exit_sentry_ids stage) satisfied at p
             else p))"

definition advance_milestone ::
  "case_id \<Rightarrow> sentry_id btree_set \<Rightarrow> u64 \<Rightarrow> plan_items \<times> domain_event list
   \<Rightarrow> case_milestone_definition \<Rightarrow> (plan_items \<times> domain_event list) result" where
  "advance_milestone c satisfied at p milestone =
     and_then (ok_or (item_status (fst p) (cm_id milestone))
       (CaseError (UnknownCasePlanItem (cm_id milestone)))) (\<lambda>current.
     Inr (if current = ItemAvailable \<and> cm_entry_sentry_ids milestone \<noteq> []
             \<and> any_sentry_satisfied (cm_entry_sentry_ids milestone) satisfied
          then push_case_transition c (cm_id milestone) Milestone ItemCompleted
                 (cm_entry_sentry_ids milestone) satisfied at p
          else p))"

definition all_completed :: "plan_items \<Rightarrow> bool" where
  "all_completed items \<longleftrightarrow>
     items \<noteq> [] \<and> list_all (\<lambda>item. pi_status item = ItemCompleted) (bt_values items)"

definition evaluate_case_sentries ::
  "workflow_definition \<Rightarrow> instance_state \<Rightarrow> case_id \<Rightarrow> variables \<Rightarrow> u64
   \<Rightarrow> domain_event list result" where
  "evaluate_case_sentries d s c facts at =
     and_then (ok_or (bt_get (is_active_cases s) c) (CaseError (CaseNotActive c))) (\<lambda>active.
     if ac_lifecycle active = CaseDone then case_fail (CaseAlreadyCompleted c)
     else and_then (case_model d (ac_model_id active)) (\<lambda>model.
     let vars = state_variables_with_context s facts in
     and_then (try_fold (evaluate_sentry c vars at) (ac_satisfied_sentries active, [])
         (cd_sentries model)) (\<lambda>(satisfied, events).
     if events = [] then case_fail (NoCaseSentrySatisfied c)
     else and_then (try_fold (advance_stage c satisfied at) (ac_plan_items active, events)
         (cd_stages model)) (\<lambda>p.
     and_then (try_fold (advance_milestone c satisfied at) p (cd_milestones model))
       (\<lambda>(projected, events).
     Inr (if all_completed projected then events @ [CaseCompleted c at] else events))))))"

section \<open>One case as a view of the event stream\<close>

fun case_event :: "case_id \<Rightarrow> active_case option \<Rightarrow> domain_event \<Rightarrow> active_case option" where
  "case_event c v (CaseActivated c' model stage_ids milestone_ids _) =
     (if c' = c then Some \<lparr>ac_model_id = model, ac_lifecycle = CaseActive,
         ac_satisfied_sentries = [], ac_plan_items = plan_items_of stage_ids milestone_ids\<rparr>
      else v)"
| "case_event c v (CaseSentrySatisfied c' sentry _) =
     (if c' = c then map_option (\<lambda>a. a\<lparr>ac_satisfied_sentries :=
        bs_insert sentry (ac_satisfied_sentries a)\<rparr>) v else v)"
| "case_event c v (CasePlanItemTransitioned c' item kind status _ _) =
     (if c' = c then map_option (\<lambda>a. a\<lparr>ac_plan_items :=
        bt_insert item \<lparr>pi_kind = kind, pi_status = status\<rparr> (ac_plan_items a)\<rparr>) v else v)"
| "case_event c v (CaseCompleted c' _) =
     (if c' = c then map_option (\<lambda>a. a\<lparr>ac_lifecycle := CaseDone\<rparr>) v else v)"
| "case_event c v (WorkflowTerminatedForCompliance _ _ _ _ _) = None"
| "case_event c v _ = v"

definition active_case_of :: "case_id \<Rightarrow> instance_state \<Rightarrow> active_case option" where
  "active_case_of c s = bt_get (is_active_cases s) c"

definition case_advances ::
  "case_id \<Rightarrow> plan_items \<times> domain_event list \<Rightarrow> plan_items \<times> domain_event list \<Rightarrow> bool" where
  "case_advances c p p' \<longleftrightarrow>
     (\<exists>es. snd p' = snd p @ es \<and>
        (\<forall>a. ac_plan_items a = fst p \<longrightarrow>
           foldl (case_event c) (Some a) es = Some (a\<lparr>ac_plan_items := fst p'\<rparr>)))"

text \<open>
  What one evaluation does to a plan item, given the sentries satisfied so far: a stage that is
  available enters on an entry sentry, a stage that is active (or just entered) completes on
  an exit sentry, and a milestone that is available is reached on an entry sentry.
\<close>

definition some_holds :: "sentry_id btree_set \<Rightarrow> sentry_id list \<Rightarrow> bool" where
  "some_holds satisfied ids \<longleftrightarrow> set ids \<inter> set satisfied \<noteq> {}"

definition stage_moved ::
  "sentry_id btree_set \<Rightarrow> case_stage_definition \<Rightarrow> case_plan_item_status option
   \<Rightarrow> case_plan_item_status option \<Rightarrow> bool" where
  "stage_moved satisfied stage st st' \<longleftrightarrow> st \<noteq> None
     \<and> (st' = Some ItemAvailable \<longleftrightarrow>
          st = Some ItemAvailable \<and> \<not> some_holds satisfied (cs_entry_sentry_ids stage))
     \<and> (st' = Some ItemActive \<longleftrightarrow>
          (st = Some ItemActive \<or> st = Some ItemAvailable \<and> some_holds satisfied (cs_entry_sentry_ids stage))
          \<and> \<not> some_holds satisfied (cs_exit_sentry_ids stage))
     \<and> (st' = Some ItemCompleted \<longleftrightarrow> st = Some ItemCompleted \<or>
          (st = Some ItemActive \<or> st = Some ItemAvailable \<and> some_holds satisfied (cs_entry_sentry_ids stage))
          \<and> some_holds satisfied (cs_exit_sentry_ids stage))"

definition milestone_moved ::
  "sentry_id btree_set \<Rightarrow> case_milestone_definition \<Rightarrow> case_plan_item_status option
   \<Rightarrow> case_plan_item_status option \<Rightarrow> bool" where
  "milestone_moved satisfied milestone st st' \<longleftrightarrow> st \<noteq> None
     \<and> (st' = Some ItemAvailable \<longleftrightarrow>
          st = Some ItemAvailable \<and> \<not> some_holds satisfied (cm_entry_sentry_ids milestone))
     \<and> (st' = Some ItemActive \<longleftrightarrow> st = Some ItemActive)
     \<and> (st' = Some ItemCompleted \<longleftrightarrow> st = Some ItemCompleted \<or>
          st = Some ItemAvailable \<and> some_holds satisfied (cm_entry_sentry_ids milestone))"

text \<open>
  The state after the events: the sentries that hold are recorded, every item of the model has
  moved as they say, other items are untouched, and the case is done exactly when all its
  items are completed.
\<close>

definition case_evaluated ::
  "case_definition \<Rightarrow> variables \<Rightarrow> active_case \<Rightarrow> active_case \<Rightarrow> bool" where
  "case_evaluated model vars active active' \<longleftrightarrow>
     ac_model_id active' = ac_model_id active
     \<and> set (ac_satisfied_sentries active') = set (ac_satisfied_sentries active) \<union>
         sentry_id_of ` {sentry \<in> set (cd_sentries model).
           expression_evaluate (sentry_condition sentry) vars = Inr True}
     \<and> set (ac_satisfied_sentries active') \<noteq> set (ac_satisfied_sentries active)
     \<and> (\<forall>stage \<in> set (cd_stages model). stage_moved (ac_satisfied_sentries active') stage
          (item_status (ac_plan_items active) (cs_id stage)) (item_status (ac_plan_items active') (cs_id stage)))
     \<and> (\<forall>milestone \<in> set (cd_milestones model). milestone_moved (ac_satisfied_sentries active') milestone
          (item_status (ac_plan_items active) (cm_id milestone))
          (item_status (ac_plan_items active') (cm_id milestone)))
     \<and> (\<forall>i. i \<notin> cs_id ` set (cd_stages model) \<union> cm_id ` set (cd_milestones model) \<longrightarrow>
          bt_get (ac_plan_items active') i = bt_get (ac_plan_items active) i)
     \<and> (ac_lifecycle active' = CaseDone \<longleftrightarrow> all_completed (ac_plan_items active'))"

text \<open>Case events leave the workflow part of the instance alone.\<close>

fun is_case_event :: "domain_event \<Rightarrow> bool" where
  "is_case_event (CaseActivated _ _ _ _ _) = True"
| "is_case_event (CaseSentrySatisfied _ _ _) = True"
| "is_case_event (CasePlanItemTransitioned _ _ _ _ _ _) = True"
| "is_case_event (CaseCompleted _ _) = True"
| "is_case_event _ = False"

lemma active_case_evolve: "active_case_of c (evolve s e) = case_event c (active_case_of c s) e"
  by (cases e)
     (auto simp: active_case_of_def evolve_def evolve_defs Let_def split: option.splits)

interpretation case_view: event_projection evolve "active_case_of c" "case_event c" for c
  by unfold_locales (rule active_case_evolve)

section \<open>The loops advance the case\<close>

lemma case_advances_refl: "case_advances c p p"
  by (simp add: case_advances_def)

lemma case_advances_trans:
  assumes "case_advances c p q" and "case_advances c q r"
  shows "case_advances c p r"
proof -
  from assms(1) obtain es where es: "snd q = snd p @ es" "\<And>a. ac_plan_items a = fst p \<Longrightarrow>
      foldl (case_event c) (Some a) es = Some (a\<lparr>ac_plan_items := fst q\<rparr>)"
    by (auto simp: case_advances_def)
  from assms(2) obtain fs where fs: "snd r = snd q @ fs" "\<And>a. ac_plan_items a = fst q \<Longrightarrow>
      foldl (case_event c) (Some a) fs = Some (a\<lparr>ac_plan_items := fst r\<rparr>)"
    by (auto simp: case_advances_def)
  show ?thesis
    unfolding case_advances_def by (intro exI [of _ "es @ fs"]) (simp add: es fs)
qed

lemma push_case_transition_advances:
  "case_advances c p (push_case_transition c i kind status governing satisfied at p)"
  by (simp add: case_advances_def push_case_transition_def)

lemma advance_stage_advances:
  "advance_stage c satisfied at p stage = Inr p' \<Longrightarrow> case_advances c p p'"
  by (auto simp: advance_stage_def and_then_Inr Let_def case_advances_refl push_case_transition_advances
      split: if_splits
      intro: case_advances_trans [OF push_case_transition_advances push_case_transition_advances])

lemma advance_milestone_advances:
  "advance_milestone c satisfied at p milestone = Inr p' \<Longrightarrow> case_advances c p p'"
  by (auto simp: advance_milestone_def and_then_Inr case_advances_refl push_case_transition_advances
      split: if_splits)

lemma any_sentry_satisfied_iff: "any_sentry_satisfied ids satisfied \<longleftrightarrow> some_holds satisfied ids"
  by (auto simp: any_sentry_satisfied_def some_holds_def list_ex_iff)

lemma some_holds_Nil [simp]: "\<not> some_holds satisfied []"
  by (simp add: some_holds_def)

lemma push_case_transition_get:
  "bt_get (fst (push_case_transition c item kind status governing satisfied at p)) i =
    (if i = item then Some \<lparr>pi_kind = kind, pi_status = status\<rparr> else bt_get (fst p) i)"
  by (simp add: push_case_transition_def)

lemma advance_stage_moves:
  assumes "advance_stage c satisfied at p stage = Inr p'"
  shows "stage_moved satisfied stage (item_status (fst p) (cs_id stage)) (item_status (fst p') (cs_id stage))
    \<and> (\<forall>i. i \<noteq> cs_id stage \<longrightarrow> bt_get (fst p') i = bt_get (fst p) i)"
proof -
  obtain st where st: "item_status (fst p) (cs_id stage) = Some st"
    using assms by (auto simp: advance_stage_def and_then_Inr ok_or_Inr)
  then show ?thesis
    using assms
    by (cases st)
       (auto simp: advance_stage_def stage_moved_def item_status_def push_case_transition_get
         any_sentry_satisfied_iff Let_def split: if_splits)
qed

lemma advance_milestone_moves:
  assumes "advance_milestone c satisfied at p milestone = Inr p'"
  shows "milestone_moved satisfied milestone (item_status (fst p) (cm_id milestone))
      (item_status (fst p') (cm_id milestone))
    \<and> (\<forall>i. i \<noteq> cm_id milestone \<longrightarrow> bt_get (fst p') i = bt_get (fst p) i)"
proof -
  obtain st where st: "item_status (fst p) (cm_id milestone) = Some st"
    using assms by (auto simp: advance_milestone_def and_then_Inr ok_or_Inr)
  then show ?thesis
    using assms
    by (cases st)
       (auto simp: advance_milestone_def milestone_moved_def item_status_def push_case_transition_get
         any_sentry_satisfied_iff split: if_splits)
qed

text \<open>A loop over items with distinct identifiers moves each of them once.\<close>

lemma try_fold_items:
  assumes "try_fold f p xs = Inr p'" and "distinct (map key xs)"
    and "\<And>q x q'. f q x = Inr q' \<Longrightarrow>
      R x (item_status (fst q) (key x)) (item_status (fst q') (key x))
      \<and> (\<forall>i. i \<noteq> key x \<longrightarrow> bt_get (fst q') i = bt_get (fst q) i)"
  shows "(\<forall>x \<in> set xs. R x (item_status (fst p) (key x)) (item_status (fst p') (key x)))
    \<and> (\<forall>i. i \<notin> key ` set xs \<longrightarrow> bt_get (fst p') i = bt_get (fst p) i)"
  using assms(1,2)
proof (induction xs arbitrary: p)
  case (Cons x xs)
  from Cons.prems(1) obtain q where q: "f p x = Inr q" and rest: "try_fold f q xs = Inr p'"
    unfolding try_fold.simps and_then_Inr by blast
  note head = assms(3) [OF q]
  note tail = Cons.IH [OF rest]
  have distinct: "distinct (map key xs)" "key x \<notin> key ` set xs" using Cons.prems(2) by auto
  have "item_status (fst p') (key x) = item_status (fst q) (key x)"
    using tail distinct by (simp add: item_status_def)
  moreover have "item_status (fst q) (key y) = item_status (fst p) (key y)" if "y \<in> set xs" for y
  proof -
    have "key y \<noteq> key x" using imageI [OF that, of key] distinct(2) by metis
    then show ?thesis using head by (simp add: item_status_def)
  qed
  ultimately show ?case using head tail distinct by auto
qed simp

lemma check_plan_items_distinct:
  assumes "try_fold (check_plan_item model sentry_ids) known items = Inr known'"
  shows "distinct (map fst items) \<and> fst ` set items \<inter> set known = {}
    \<and> set known' = set known \<union> fst ` set items"
  using assms
proof (induction items arbitrary: known)
  case (Cons item items)
  from Cons.prems obtain seen where item: "check_plan_item model sentry_ids known item = Inr seen"
    and rest: "try_fold (check_plan_item model sentry_ids) seen items = Inr known'"
    by (auto simp: and_then_Inr)
  from item have new: "fst item \<notin> set known" and "seen = bs_insert (fst item) known"
    by (auto simp: check_plan_item_def and_then_Inr split: if_splits)
  with rest have rest: "try_fold (check_plan_item model sentry_ids) (bs_insert (fst item) known) items = Inr known'"
    by simp
  from Cons.IH [OF rest] new show ?case by auto
qed simp

lemma validate_case_definition_distinct:
  assumes "validate_case_definition model = Inr ()"
  shows "distinct (map cs_id (cd_stages model)) \<and> distinct (map cm_id (cd_milestones model))
    \<and> cs_id ` set (cd_stages model) \<inter> cm_id ` set (cd_milestones model) = {}"
proof -
  let ?s = "map (\<lambda>stage. (cs_id stage, cs_entry_sentry_ids stage @ cs_exit_sentry_ids stage)) (cd_stages model)"
  let ?m = "map (\<lambda>milestone. (cm_id milestone, cm_entry_sentry_ids milestone)) (cd_milestones model)"
  let ?ids = "bs_collect (map sentry_id_of (cd_sentries model))"
  obtain known known' where "try_fold (check_plan_item model ?ids) [] ?s = Inr known"
      "try_fold (check_plan_item model ?ids) known ?m = Inr known'"
    using assms by (auto simp: validate_case_definition_def and_then_Inr Let_def split: if_splits)
  from this [THEN check_plan_items_distinct] show ?thesis
    by (auto simp: comp_def image_image)
qed

lemma plan_items_moved:
  assumes "validate_case_definition model = Inr ()"
    and stages: "try_fold (advance_stage c satisfied at) (items, es1) (cd_stages model) = Inr p"
    and milestones: "try_fold (advance_milestone c satisfied at) p (cd_milestones model) = Inr (items', es2)"
  shows "(\<forall>stage \<in> set (cd_stages model). stage_moved satisfied stage
          (item_status items (cs_id stage)) (item_status items' (cs_id stage)))
     \<and> (\<forall>milestone \<in> set (cd_milestones model). milestone_moved satisfied milestone
          (item_status items (cm_id milestone)) (item_status items' (cm_id milestone)))
     \<and> (\<forall>i. i \<notin> cs_id ` set (cd_stages model) \<union> cm_id ` set (cd_milestones model) \<longrightarrow>
          bt_get items' i = bt_get items i)"
proof -
  note distinct = validate_case_definition_distinct [OF assms(1)]
  have s: "(\<forall>stage \<in> set (cd_stages model). stage_moved satisfied stage
        (item_status items (cs_id stage)) (item_status (fst p) (cs_id stage)))
      \<and> (\<forall>i. i \<notin> cs_id ` set (cd_stages model) \<longrightarrow> bt_get (fst p) i = bt_get items i)"
    using try_fold_items [OF stages, of cs_id "stage_moved satisfied"] distinct advance_stage_moves by simp
  have m: "(\<forall>milestone \<in> set (cd_milestones model). milestone_moved satisfied milestone
        (item_status (fst p) (cm_id milestone)) (item_status items' (cm_id milestone)))
      \<and> (\<forall>i. i \<notin> cm_id ` set (cd_milestones model) \<longrightarrow> bt_get items' i = bt_get (fst p) i)"
    using try_fold_items [OF milestones, of cm_id "milestone_moved satisfied"] distinct advance_milestone_moves
    by simp
  have "item_status items' (cs_id stage) = item_status (fst p) (cs_id stage)" if "stage \<in> set (cd_stages model)" for stage
  proof -
    have "cs_id stage \<notin> cm_id ` set (cd_milestones model)" using distinct imageI [OF that, of cs_id] by blast
    then show ?thesis using m by (simp add: item_status_def)
  qed
  moreover have "item_status (fst p) (cm_id milestone) = item_status items (cm_id milestone)"
    if "milestone \<in> set (cd_milestones model)" for milestone
  proof -
    have "cm_id milestone \<notin> cs_id ` set (cd_stages model)" using distinct imageI [OF that, of cm_id] by blast
    then show ?thesis using s by (simp add: item_status_def)
  qed
  ultimately show ?thesis using s m by simp
qed

lemma case_advances_try_fold:
  assumes "try_fold f p xs = Inr p'" and "\<And>q x q'. f q x = Inr q' \<Longrightarrow> case_advances c q q'"
  shows "case_advances c p p'"
  using assms(1)
  by (rule try_fold_invariant [where P = "case_advances c p"])
     (auto intro: case_advances_refl case_advances_trans assms(2))

lemma evaluate_sentry_Inr:
  assumes "evaluate_sentry c vars at (satisfied, es) sentry = Inr q"
  obtains (skip) "sentry_id_of sentry \<in> set satisfied" and "q = (satisfied, es)"
    | (no) "expression_evaluate (sentry_condition sentry) vars = Inr False" and "q = (satisfied, es)"
    | (yes) "sentry_id_of sentry \<notin> set satisfied"
        and "expression_evaluate (sentry_condition sentry) vars = Inr True"
        and "q = (bs_insert (sentry_id_of sentry) satisfied,
                  es @ [CaseSentrySatisfied c (sentry_id_of sentry) at])"
  using assms by (auto simp: evaluate_sentry_def and_then_Inr split: if_splits)

lemma sentry_loop_set:
  assumes "try_fold (evaluate_sentry c vars at) (satisfied, es) sentries = Inr (satisfied', es')"
  shows "set satisfied' = set satisfied \<union> sentry_id_of ` {sentry \<in> set sentries.
    expression_evaluate (sentry_condition sentry) vars = Inr True}"
  using assms
proof (induction sentries arbitrary: satisfied es)
  case (Cons sentry sentries)
  then obtain q where q: "evaluate_sentry c vars at (satisfied, es) sentry = Inr q"
    and rest: "try_fold (evaluate_sentry c vars at) q sentries = Inr (satisfied', es')"
    by (auto simp: and_then_Inr)
  from q show ?case
    by (cases rule: evaluate_sentry_Inr) (use Cons.IH rest in auto)
qed simp

lemma sentry_loop_events:
  assumes "try_fold (evaluate_sentry c vars at) (satisfied, es) sentries = Inr (satisfied', es')"
  shows "\<exists>fs. es' = es @ fs \<and> (fs = [] \<longleftrightarrow> set satisfied' = set satisfied)
    \<and> (\<forall>a. ac_satisfied_sentries a = satisfied \<longrightarrow>
         foldl (case_event c) (Some a) fs = Some (a\<lparr>ac_satisfied_sentries := satisfied'\<rparr>))"
  using assms
proof (induction sentries arbitrary: satisfied es)
  case (Cons sentry sentries)
  then obtain q where q: "evaluate_sentry c vars at (satisfied, es) sentry = Inr q"
    and rest: "try_fold (evaluate_sentry c vars at) q sentries = Inr (satisfied', es')"
    by (auto simp: and_then_Inr)
  from q show ?case
  proof (cases rule: evaluate_sentry_Inr)
    case yes
    let ?new = "bs_insert (sentry_id_of sentry) satisfied"
    from Cons.IH [OF rest [unfolded yes(3)]] obtain fs where
      fs: "es' = (es @ [CaseSentrySatisfied c (sentry_id_of sentry) at]) @ fs"
      "\<And>a. ac_satisfied_sentries a = ?new \<Longrightarrow>
         foldl (case_event c) (Some a) fs = Some (a\<lparr>ac_satisfied_sentries := satisfied'\<rparr>)"
      by blast
    have "sentry_id_of sentry \<in> set satisfied'"
      using sentry_loop_set [OF rest [unfolded yes(3)]] by simp
    then show ?thesis
      using yes(1) fs
      by (intro exI [of _ "CaseSentrySatisfied c (sentry_id_of sentry) at # fs"]) auto
  qed (use Cons.IH rest in simp_all)
qed simp

section \<open>Evaluation of the sentries of a case\<close>

lemma evaluate_case_sentries_Inr:
  assumes "evaluate_case_sentries d s c facts at = Inr es"
  obtains active model satisfied es1 p projected es2 where
    "active_case_of c s = Some active" and "ac_lifecycle active \<noteq> CaseDone"
    and "case_model d (ac_model_id active) = Inr model"
    and "try_fold (evaluate_sentry c (state_variables_with_context s facts) at)
           (ac_satisfied_sentries active, []) (cd_sentries model) = Inr (satisfied, es1)"
    and "es1 \<noteq> []"
    and "try_fold (advance_stage c satisfied at) (ac_plan_items active, es1) (cd_stages model) = Inr p"
    and "try_fold (advance_milestone c satisfied at) p (cd_milestones model) = Inr (projected, es2)"
    and "es = (if all_completed projected then es2 @ [CaseCompleted c at] else es2)"
proof -
  from assms obtain active model satisfied es1 p projected es2 where
    "active_case_of c s = Some active \<and> ac_lifecycle active \<noteq> CaseDone
     \<and> case_model d (ac_model_id active) = Inr model
     \<and> try_fold (evaluate_sentry c (state_variables_with_context s facts) at)
           (ac_satisfied_sentries active, []) (cd_sentries model) = Inr (satisfied, es1)
     \<and> es1 \<noteq> []
     \<and> try_fold (advance_stage c satisfied at) (ac_plan_items active, es1) (cd_stages model) = Inr p
     \<and> try_fold (advance_milestone c satisfied at) p (cd_milestones model) = Inr (projected, es2)
     \<and> es = (if all_completed projected then es2 @ [CaseCompleted c at] else es2)"
    unfolding evaluate_case_sentries_def active_case_of_def and_then_Inr ok_or_Inr Let_def if_Inl_Inr
    by (auto simp: and_then_Inr if_Inl_Inr simp del: split_paired_Ex)
  then show ?thesis using that by blast
qed

lemma evaluate_case_sentries_replay:
  assumes "evaluate_case_sentries d s c facts at = Inr es" and "tables_valid d"
  obtains active model active' where "active_case_of c s = Some active"
    and "case_model d (ac_model_id active) = Inr model"
    and "active_case_of c (foldl evolve s es) = Some active'"
    and "case_evaluated model (state_variables_with_context s facts) active active'"
  using assms(1)
proof (rule evaluate_case_sentries_Inr)
  fix active model satisfied es1 p projected es2
  assume active: "active_case_of c s = Some active" "ac_lifecycle active \<noteq> CaseDone"
    and model: "case_model d (ac_model_id active) = Inr model"
    and sentries: "try_fold (evaluate_sentry c (state_variables_with_context s facts) at)
           (ac_satisfied_sentries active, []) (cd_sentries model) = Inr (satisfied, es1)"
      "es1 \<noteq> []"
    and stages: "try_fold (advance_stage c satisfied at) (ac_plan_items active, es1) (cd_stages model)
       = Inr p"
    and milestones: "try_fold (advance_milestone c satisfied at) p (cd_milestones model)
       = Inr (projected, es2)"
    and es: "es = (if all_completed projected then es2 @ [CaseCompleted c at] else es2)"
  have "case_advances c (ac_plan_items active, es1) (projected, es2)"
    using stages milestones
    by (meson advance_milestone_advances advance_stage_advances case_advances_trans
        case_advances_try_fold)
  then obtain fs where es2: "es2 = es1 @ fs" and fs: "\<And>a. ac_plan_items a = ac_plan_items active \<Longrightarrow>
        foldl (case_event c) (Some a) fs = Some (a\<lparr>ac_plan_items := projected\<rparr>)"
    by (auto simp: case_advances_def)
  let ?mid = "active\<lparr>ac_satisfied_sentries := satisfied\<rparr>"
  have es1: "foldl (case_event c) (Some active) es1 = Some ?mid"
      "set satisfied \<noteq> set (ac_satisfied_sentries active)"
    using sentry_loop_events [OF sentries(1)] sentries(2) by auto
  define active' where "active' = (if all_completed projected
    then ?mid\<lparr>ac_plan_items := projected, ac_lifecycle := CaseDone\<rparr>
    else ?mid\<lparr>ac_plan_items := projected\<rparr>)"
  have "active_case_of c (foldl evolve s es) = Some active'"
    using active es1(1) fs [of ?mid]
    by (simp add: case_view.proj_replay es es2 active'_def)
  moreover have "bt_get (wd_case_models d) (ac_model_id active) = Some model"
    using model by (simp add: case_model_def ok_or_Inr)
  then have "validate_case_definition model = Inr ()"
    using assms(2) bt_get_in_set by (fastforce simp: tables_valid_def)
  note moved = plan_items_moved [OF this stages milestones]
  have "case_evaluated model (state_variables_with_context s facts) active active'"
    using sentry_loop_set [OF sentries(1)] es1(2) moved active(2)
    by (simp add: case_evaluated_def active'_def)
  ultimately show ?thesis using that active(1) model by blast
qed

section \<open>Properties\<close>

text \<open>
  C21. Evaluating the sentries of a case, for a definition the constructor accepts. Exactly the
  sentries that hold are recorded, at least one of them new. A stage that is available
  enters exactly when an entry sentry is satisfied, a stage that is active or has just
  entered completes exactly when an exit sentry is, a milestone that is available is
  reached exactly when an entry sentry is, and nothing else changes. The case completes
  exactly when all its items are completed. This is the state that replaying the events gives.
\<close>

theorem sentry_evaluation_advances:
  assumes "new_with_execution_contracts tenant wtype wversion start nodes tables contracts = Inr d"
    and "evaluate_case_sentries d s c facts at = Inr es"
  shows "\<exists>active model active'. active_case_of c s = Some active
    \<and> case_model d (ac_model_id active) = Inr model
    \<and> active_case_of c (foldl evolve s es) = Some active'
    \<and> case_evaluated model (state_variables_with_context s facts) active active'"
proof -
  have "tables_valid d"
    using new_with_execution_contracts_valid [OF assms(1)] by (simp add: valid_definition_def)
  with assms(2) show ?thesis by (rule evaluate_case_sentries_replay) blast
qed

definition ex_case_model :: case_definition where
  "ex_case_model =
     \<lparr>cd_id = ''m'', cd_name = ''claim'',
      cd_stages = [\<lparr>cs_id = ''a'', cs_name = ''assess'', cs_entry_sentry_ids = [],
        cs_exit_sentry_ids = [''q'']\<rparr>],
      cd_milestones = [\<lparr>cm_id = ''b'', cm_name = ''paid'', cm_entry_sentry_ids = [''q'']\<rparr>],
      cd_sentries = [\<lparr>sentry_id_of = ''q'', sentry_condition =
        Comparison \<lparr>ge_variable = ''done'', ge_operator = Equal, ge_literal = VBoolean True\<rparr>\<rparr>]\<rparr>"

definition ex_case_definition :: workflow_definition where
  "ex_case_definition =
     \<lparr>wd_tenant_id = ''t'', wd_workflow_type = ''o'', wd_workflow_version = ''1'',
      wd_start_node = ''s'', wd_nodes = [(''s'', Start ''z''), (''z'', End)], wd_decision_tables = [],
      wd_boundary_events = [], wd_node_metadata = [], wd_properties = [],
      wd_case_models = [(''m'', ex_case_model)]\<rparr>"

definition ex_case_state :: instance_state where
  "ex_case_state = default_instance_state\<lparr>is_active_cases :=
     [(''c'', \<lparr>ac_model_id = ''m'', ac_lifecycle = CaseActive, ac_satisfied_sentries = [],
        ac_plan_items = [(''a'', \<lparr>pi_kind = Stage, pi_status = ItemActive\<rparr>),
          (''b'', \<lparr>pi_kind = Milestone, pi_status = ItemAvailable\<rparr>)]\<rparr>)]\<rparr>"

lemma ex_case_evaluation:
  "evaluate_case_sentries ex_case_definition ex_case_state ''c'' [(''done'', VBoolean True)] 5 =
    Inr [CaseSentrySatisfied ''c'' ''q'' 5,
      CasePlanItemTransitioned ''c'' ''a'' Stage ItemCompleted [''q''] 5,
      CasePlanItemTransitioned ''c'' ''b'' Milestone ItemCompleted [''q''] 5, CaseCompleted ''c'' 5]"
  by (simp add: evaluate_case_sentries_def ex_case_state_def ex_case_definition_def ex_case_model_def
      default_instance_state_def bt_get_Cons case_model_def state_variables_with_context_def
      bt_extend_def evaluate_sentry_def guard_evaluate_def ord_cmp_def advance_stage_def
      advance_milestone_def item_status_def any_sentry_satisfied_def push_case_transition_def
      all_completed_def bt_values_def Let_def)

lemma ex_case_accepted:
  "new_with_execution_contracts ''t'' ''o'' ''1'' ''s'' [(''s'', Start ''z''), (''z'', End)] []
     (no_contracts\<lparr>ec_case_models := [ex_case_model]\<rparr>) = Inr ex_case_definition"
  by (simp add: new_with_execution_contracts_def no_contracts_def index_nodes_def index_tables_def
      insert_new_def bt_contains_key_def bt_get_Cons check_node_def check_target_def bs_collect_def
      validate_scope_ownership_def index_case_models_def validate_reachability_def successors_def
      boundary_events_def bt_keys_def validate_extension_properties_def bt_extend_def
      validate_case_definition_def check_plan_item_def check_sentries_def ex_case_definition_def ex_case_model_def)

theorem sentry_evaluation_advances_witness:
  "\<exists>active'. active_case_of ''c'' (foldl evolve ex_case_state
      [CaseSentrySatisfied ''c'' ''q'' 5, CasePlanItemTransitioned ''c'' ''a'' Stage ItemCompleted [''q''] 5,
       CasePlanItemTransitioned ''c'' ''b'' Milestone ItemCompleted [''q''] 5, CaseCompleted ''c'' 5]) = Some active'
    \<and> stage_moved (ac_satisfied_sentries active')
        \<lparr>cs_id = ''a'', cs_name = ''assess'', cs_entry_sentry_ids = [], cs_exit_sentry_ids = [''q'']\<rparr>
        (Some ItemActive) (item_status (ac_plan_items active') ''a'')"
  using sentry_evaluation_advances [OF ex_case_accepted ex_case_evaluation]
  by (auto simp: case_evaluated_def case_model_def ex_case_definition_def ex_case_model_def bt_get_Cons
      ex_case_state_def active_case_of_def item_status_def)

end
