(* ===== verification/Decide.thy ===== *)
theory Decide
  imports Activation_Invariants Cases
begin

text \<open>
  The decision function of \<open>workflow.rs\<close>: \<open>decide\<close>, \<open>complete_multi_instance_iteration\<close>,
  \<open>evaluate_multi_instance_completion\<close> and \<open>trigger_boundary_event\<close>. One definition per arm of
  the match; the guards of the match on the lifecycle are \<open>when_active\<close>. The lemmas show
  what every successful decision does to the instance when its events are applied, and
  that no decision panics.
\<close>

section \<open>Operations\<close>

record decision_context =
  dc_configuration :: resolved_config_snapshot
  dc_variables :: variables

definition routed ::
  "workflow_definition \<Rightarrow> resolved_config_snapshot \<Rightarrow> u64 \<Rightarrow> node_id \<Rightarrow> scope_instance_id option
   \<Rightarrow> activation \<Rightarrow> domain_event list result" where
  "routed d cfg at next scope a =
     and_then (activation_events d cfg at next scope a) (\<lambda>a. Inr (act_events a))"

definition start_workflow ::
  "workflow_definition \<Rightarrow> instance_state \<Rightarrow> tenant_id \<Rightarrow> decision_context \<Rightarrow> u64
   \<Rightarrow> domain_event list result" where
  "start_workflow d s tenant ctx at =
     (if tenant \<noteq> wd_tenant_id d then runtime_fail (TenantMismatch (wd_tenant_id d) tenant)
      else and_then (definition_node d (wd_start_node d)) (\<lambda>nd.
        case nd of
          Start next \<Rightarrow>
            routed d (dc_configuration ctx) at next None
              \<lparr>act_variables = state_variables_with_context s (dc_variables ctx),
               act_routing = routing_from s,
               act_events = [WorkflowStarted tenant (wd_workflow_type d) (wd_workflow_version d)
                               (wd_start_node d) at]\<rparr>
        | _ \<Rightarrow> definition_fail (InvalidStartNode (wd_start_node d))))"

text \<open>The common part of the three task completions.\<close>

definition complete_and_route ::
  "workflow_definition \<Rightarrow> instance_state \<Rightarrow> node_id \<Rightarrow> node_id \<Rightarrow> domain_event \<Rightarrow> variables
   \<Rightarrow> resolved_config_snapshot \<Rightarrow> u64 \<Rightarrow> domain_event list result" where
  "complete_and_route d s n next completed vars cfg at =
     and_then (complete_task (routing_from s) n) (\<lambda>r.
     let a = disarm_boundary_events n at
               \<lparr>act_variables = vars, act_routing = r, act_events = [completed]\<rparr> in
     and_then (active_scope_for_node d s n) (\<lambda>scope.
     routed d cfg at next scope a))"

definition complete_service_task ::
  "workflow_definition \<Rightarrow> instance_state \<Rightarrow> node_id \<Rightarrow> variables \<Rightarrow> decision_context \<Rightarrow> u64
   \<Rightarrow> domain_event list result" where
  "complete_service_task d s n outputs ctx at =
     and_then (definition_node d n) (\<lambda>nd.
     and_then (case nd of
         ServiceTask _ next \<Rightarrow> Inr next
       | CallActivity _ _ next \<Rightarrow> Inr next
       | _ \<Rightarrow> activity_fail (NodeIsNotServiceTask n)) (\<lambda>next.
     complete_and_route d s n next (ServiceTaskCompleted n outputs at)
       (state_variables_with_context s (dc_variables ctx)) (dc_configuration ctx) at))"

definition complete_user_task ::
  "workflow_definition \<Rightarrow> instance_state \<Rightarrow> node_id \<Rightarrow> string \<Rightarrow> decision_context \<Rightarrow> u64
   \<Rightarrow> domain_event list result" where
  "complete_user_task d s n decision ctx at =
     and_then (definition_node d n) (\<lambda>nd.
     case nd of
       UserTask _ _ _ result_variable next \<Rightarrow>
         if is_blank decision then activity_fail (InvalidUserTaskDecision n)
         else complete_and_route d s n next (UserTaskCompleted n decision result_variable at)
                (bt_insert result_variable (VString decision)
                  (state_variables_with_context s (dc_variables ctx)))
                (dc_configuration ctx) at
     | _ \<Rightarrow> activity_fail (NodeIsNotUserTask n))"

definition complete_script_task ::
  "workflow_definition \<Rightarrow> instance_state \<Rightarrow> node_id \<Rightarrow> decision_context \<Rightarrow> u64
   \<Rightarrow> domain_event list result" where
  "complete_script_task d s n ctx at =
     and_then (definition_node d n) (\<lambda>nd.
     case nd of
       ScriptTask _ _ _ next \<Rightarrow>
         complete_and_route d s n next (ScriptTaskCompleted n at)
           (state_variables_with_context s (dc_variables ctx)) (dc_configuration ctx) at
     | _ \<Rightarrow> activity_fail (NodeIsNotScriptTask n))"

definition completion_variables :: "active_multi_instance \<Rightarrow> variables \<Rightarrow> variables" where
  "completion_variables active vars =
     bt_insert ''nrOfTerminatedInstances'' (VInteger 0)
      (bt_insert ''nrOfCompletedInstances'' (VInteger (int (length (am_completed_iterations active))))
       (bt_insert ''nrOfActiveInstances'' (VInteger (int (length (am_active_iterations active))))
        (bt_insert ''nrOfInstances'' (VInteger (uint (am_total_instances active))) vars)))"

definition evaluate_multi_instance_completion ::
  "node_id \<Rightarrow> multi_instance_definition \<Rightarrow> routing_state \<Rightarrow> instance_state \<Rightarrow> variables
   \<Rightarrow> bool result" where
  "evaluate_multi_instance_completion n spec r s context_variables =
     (case mi_completion_condition spec of
        None \<Rightarrow> Inr False
      | Some condition \<Rightarrow>
          and_then (ok_or (bt_get (rs_active_multi_instances r) n)
            (ActivityError (MultiInstanceNotActive n))) (\<lambda>active.
          if \<not> is_i64 (int (length (am_active_iterations active)))
             \<or> \<not> is_i64 (int (length (am_completed_iterations active)))
          then runtime_fail (TokenCountOverflow n)
          else expression_evaluate condition
                 (completion_variables active (state_variables_with_context s context_variables))))"

definition multi_instance_next :: "workflow_definition \<Rightarrow> node_id \<Rightarrow> node_id result" where
  "multi_instance_next d n =
     and_then (definition_node d n) (\<lambda>nd.
     case nd of
       ServiceTask _ next \<Rightarrow> Inr next
     | UserTask _ _ _ _ next \<Rightarrow> Inr next
     | ScriptTask _ _ _ next \<Rightarrow> Inr next
     | CallActivity _ _ next \<Rightarrow> Inr next
     | _ \<Rightarrow> activity_fail (NodeIsNotMultiInstanceActivity n))"

text \<open>
  The last iteration, or one that meets the completion condition, finishes the activity;
  any other frees its slot for the next iteration.
\<close>

definition finish_and_route ::
  "workflow_definition \<Rightarrow> instance_state \<Rightarrow> node_id \<Rightarrow> node_id \<Rightarrow> bool \<Rightarrow> decision_context \<Rightarrow> u64
   \<Rightarrow> activation \<Rightarrow> domain_event list result" where
  "finish_and_route d s n next condition_satisfied ctx at a =
     (let cancelled = (if condition_satisfied
            then (case bt_get (rs_active_multi_instances (act_routing a)) n of
                    None \<Rightarrow> [] | Some active \<Rightarrow> am_active_iterations active)
            else []);
          a = emit a (finish_multi_instance (act_routing a) n)
                (MultiInstanceCompleted n condition_satisfied cancelled at);
          a = disarm_boundary_events n at a
      in and_then (active_scope_for_node d s n) (\<lambda>scope.
         routed d (dc_configuration ctx) at next scope
           (a\<lparr>act_variables := state_variables_with_context s (dc_variables ctx)\<rparr>)))"

definition refill_slot :: "node_id \<Rightarrow> u64 \<Rightarrow> activation \<Rightarrow> domain_event list result" where
  "refill_slot n at a =
     and_then (ok_or (bt_get (rs_active_multi_instances (act_routing a)) n)
       (ActivityError (MultiInstanceNotActive n))) (\<lambda>active.
     if am_next_iteration active < am_total_instances active
     then and_then (activate_iteration n at a) (\<lambda>a. Inr (act_events a))
     else Inr (act_events a))"

definition complete_multi_instance_iteration ::
  "workflow_definition \<Rightarrow> instance_state \<Rightarrow> node_id \<Rightarrow> u32 \<Rightarrow> decision_context \<Rightarrow> u64
   \<Rightarrow> domain_event list result" where
  "complete_multi_instance_iteration d s n i ctx at =
     and_then (multi_instance_next d n) (\<lambda>next.
     and_then (ok_or (bt_get (is_active_multi_instances s) n)
       (ActivityError (MultiInstanceNotActive n))) (\<lambda>active.
     if i \<notin> set (am_active_iterations active)
     then activity_fail (MultiInstanceIterationNotActive n i)
     else and_then (routing_complete_iteration (routing_from s) n i) (\<lambda>(completed, r).
     let a = \<lparr>act_variables = is_variables s, act_routing = r,
              act_events = [MultiInstanceIterationCompleted n i at]\<rparr> in
     and_then (ok_or (node_multi_instance d n)
       (ActivityError (MultiInstanceNotActive n))) (\<lambda>spec.
     and_then (if completed then Inr False
         else evaluate_multi_instance_completion n spec r s (dc_variables ctx))
       (\<lambda>condition_satisfied.
     if completed \<or> condition_satisfied
     then finish_and_route d s n next condition_satisfied ctx at a
     else refill_slot n at a)))))"

definition boundary_cancellation ::
  "workflow_definition \<Rightarrow> node_id \<Rightarrow> boundary_event_definition \<Rightarrow> u64 \<Rightarrow> domain_event list result" where
  "boundary_cancellation d owner boundary at =
     (if be_cancel_activity boundary
      then and_then (definition_node d owner) (\<lambda>nd.
        Inr (case nd of
               UserTask _ _ _ _ _ \<Rightarrow> [UserTaskCancelled owner (''boundary:'' @ be_id boundary) at]
             | _ \<Rightarrow> []))
      else Inr [])"

definition boundary_matches ::
  "boundary_event_definition \<Rightarrow> active_boundary_subscription \<Rightarrow> bool" where
  "boundary_matches boundary subscription \<longleftrightarrow>
     be_target boundary = ab_target_node_id subscription
     \<and> be_cancel_activity boundary = ab_cancel_activity subscription
     \<and> be_trigger boundary = ab_trigger subscription"

definition fire_boundary ::
  "workflow_definition \<Rightarrow> instance_state \<Rightarrow> node_id \<Rightarrow> boundary_event_definition \<Rightarrow> u32
   \<Rightarrow> active_multi_instance option \<Rightarrow> decision_context \<Rightarrow> u64 \<Rightarrow> domain_event list result" where
  "fire_boundary d s owner boundary normal_tokens multi_instance ctx at =
     (let cancelled_iterations = (if be_cancel_activity boundary
            then (case multi_instance of None \<Rightarrow> [] | Some active \<Rightarrow> am_active_iterations active)
            else []);
          cancelled_tokens = of_bool (be_cancel_activity boundary \<and> 0 < normal_tokens);
          triggered = BoundaryEventTriggered (be_id boundary) owner (be_target boundary)
            (be_cancel_activity boundary) cancelled_iterations cancelled_tokens at
      in and_then (boundary_cancellation d owner boundary at) (\<lambda>cancellation.
         and_then (if be_cancel_activity boundary
             then cancel_activity (routing_from s) owner cancelled_tokens
             else Inr (routing_from s)) (\<lambda>r.
         and_then (active_scope_for_node d s owner) (\<lambda>scope.
         routed d (dc_configuration ctx) at (be_target boundary) scope
           \<lparr>act_variables = state_variables_with_context s (dc_variables ctx),
            act_routing = r, act_events = triggered # cancellation\<rparr>))))"

definition trigger_boundary_event ::
  "workflow_definition \<Rightarrow> instance_state \<Rightarrow> node_id \<Rightarrow> decision_context \<Rightarrow> u64
   \<Rightarrow> domain_event list result" where
  "trigger_boundary_event d s b ctx at =
     and_then (ok_or (bt_get (is_active_boundary_subscriptions s) b)
       (ActivityError (BoundaryEventNotArmed b))) (\<lambda>subscription.
     let owner = ab_attached_node_id subscription in
     and_then (ok_or (map_option snd (boundary_event d b))
       (ActivityError (UnknownBoundaryEvent b))) (\<lambda>boundary.
     if \<not> boundary_matches boundary subscription
     then activity_fail (BoundarySubscriptionDefinitionMismatch b)
     else let normal_tokens =
            (case bt_get (is_active_tokens s) owner of None \<Rightarrow> 0 | Some c \<Rightarrow> c);
          multi_instance = bt_get (is_active_multi_instances s) owner;
          active_scope = find (\<lambda>scope. as_scope_node_id scope = owner) (bt_values (is_active_scopes s))
     in if normal_tokens = 0 \<and> multi_instance = None \<and> active_scope = None
        then activity_fail (BoundaryOwnerNotActive owner)
        else if be_cancel_activity boundary \<and> active_scope \<noteq> None
        then activity_fail (InterruptingScopeBoundaryUnsupported owner)
        else fire_boundary d s owner boundary normal_tokens multi_instance ctx at))"

definition when_active :: "instance_state \<Rightarrow> 'a result \<Rightarrow> 'a result" where
  "when_active s r =
     (case is_lifecycle s of
        Initial \<Rightarrow> runtime_fail NotStarted
      | Active _ \<Rightarrow> r
      | Completed \<Rightarrow> runtime_fail AlreadyCompleted
      | TerminatedForCompliance \<Rightarrow> runtime_fail InstanceTerminatedForCompliance)"

definition when_task_active :: "instance_state \<Rightarrow> node_id \<Rightarrow> 'a result \<Rightarrow> 'a result" where
  "when_task_active s n r =
     when_active s
       (if 0 < (case bt_get (is_active_tokens s) n of None \<Rightarrow> 0 | Some c \<Rightarrow> c) then r
        else activity_fail (TaskNotActive n))"

fun decide_events ::
  "workflow_definition \<Rightarrow> instance_state \<Rightarrow> command \<Rightarrow> decision_context
   \<Rightarrow> domain_event list result" where
  "decide_events d s (ActivateCase c model at) ctx = activate_case d s c model at"
| "decide_events d s (EvaluateCaseSentries c at) ctx =
     evaluate_case_sentries d s c (dc_variables ctx) at"
| "decide_events d s (StartWorkflow tenant at) ctx =
     (if is_lifecycle s = Initial then start_workflow d s tenant ctx at
      else runtime_fail AlreadyStarted)"
| "decide_events d s (CompleteServiceTask n outputs at) ctx =
     when_task_active s n (complete_service_task d s n outputs ctx at)"
| "decide_events d s (CompleteUserTask n decision at) ctx =
     when_task_active s n (complete_user_task d s n decision ctx at)"
| "decide_events d s (CompleteScriptTask n at) ctx =
     when_task_active s n (complete_script_task d s n ctx at)"
| "decide_events d s (CompleteMultiInstanceIteration n i at) ctx =
     when_active s (complete_multi_instance_iteration d s n i ctx at)"
| "decide_events d s (TriggerBoundaryEvent b at) ctx =
     when_active s (trigger_boundary_event d s b ctx at)"

definition decide ::
  "workflow_definition \<Rightarrow> instance_state \<Rightarrow> command \<Rightarrow> decision_context
   \<Rightarrow> domain_event list result" where
  "decide d s command ctx =
     and_then (decide_events d s command ctx) (\<lambda>events.
     let limit = en_max_events_per_decision (rc_engine (dc_configuration ctx)) in
     and_then (ok_or (u32_try_from (length events))
       (RuntimeError (DecisionLimitExceeded (- 1) limit))) (\<lambda>event_count.
     if limit < event_count then runtime_fail (DecisionLimitExceeded event_count limit)
     else Inr events))"

section \<open>Specification of a decision\<close>

text \<open>
  The events of a workflow decision, applied to the routing state they were decided on:
  the invariant holds, only the last event may end the workflow, and it does so exactly
  when no work is left.
\<close>

definition decision_ok :: "instance_state \<Rightarrow> domain_event list \<Rightarrow> bool" where
  "decision_ok s es \<longleftrightarrow> es \<noteq> [] \<and> terminal_last es \<and>
     (let r = foldl evolve_routing (routing_from s) es in
      routing_wf r \<and> (if terminal_event (last es) then completion_event (last es)
        \<and> \<not> has_outstanding_work r else has_outstanding_work r))"

fun is_case_command :: "command \<Rightarrow> bool" where
  "is_case_command (ActivateCase _ _ _) = True"
| "is_case_command (EvaluateCaseSentries _ _) = True"
| "is_case_command _ = False"

fun is_active :: "lifecycle \<Rightarrow> bool" where
  "is_active (Active _) = True"
| "is_active _ = False"

text \<open>The invariant of an instance: it has work to do exactly while it is active.\<close>

definition instance_ok :: "instance_state \<Rightarrow> bool" where
  "instance_ok s \<longleftrightarrow> routing_wf (routing_from s)
     \<and> (is_active (is_lifecycle s) \<longleftrightarrow> has_outstanding_work (routing_from s))"

text \<open>
  The states of an instance: decisions of the engine on one definition, and the
  compliance fence, which appends its event without a decision.
\<close>

inductive reachable_instance :: "workflow_definition \<Rightarrow> instance_state \<Rightarrow> bool" for d where
  initial: "reachable_instance d default_instance_state"
| decided: "reachable_instance d s \<Longrightarrow> decide d s command ctx = Inr es \<Longrightarrow>
    reachable_instance d (foldl evolve s es)"
| fenced: "reachable_instance d s \<Longrightarrow>
    reachable_instance d (evolve s (WorkflowTerminatedForCompliance reason digest actor version at))"

inductive_cases reachable_instanceE: "reachable_instance d s"

section \<open>Workflow decisions\<close>

definition at_start :: "instance_state \<Rightarrow> variables \<Rightarrow> activation" where
  "at_start s vars = \<lparr>act_variables = vars, act_routing = routing_from s, act_events = []\<rparr>"

lemma decision_ok_activation:
  "activation_ok (at_start s vars) a \<Longrightarrow> act_events a \<noteq> [] \<Longrightarrow> decision_ok s (act_events a)"
  by (auto simp: activation_ok_def at_start_def decision_ok_def Let_def)

lemma activation_ok_events: "activation_ok a b \<Longrightarrow> act_events a \<noteq> [] \<Longrightarrow> act_events b \<noteq> []"
  by (auto simp: activation_ok_def)

lemma routed_ok:
  assumes "routed d cfg at next scope a = Inr es" and "advances progress_event (at_start s vars) a"
    and "act_events a \<noteq> []" and "splits_nonempty d"
  shows "decision_ok s es"
proof -
  from assms(1) obtain b where b: "activation_events d cfg at next scope a = Inr b" "es = act_events b"
    by (auto simp: routed_def and_then_Inr)
  have "activation_ok a b" using b(1) advances_wf [OF assms(2)] assms(4) by (rule activation_events_ok)
  then show ?thesis
    unfolding b(2) using assms(2,3) decision_ok_activation activation_ok_step activation_ok_events
    by blast
qed

lemma advances_local: "advances local_event a b \<Longrightarrow> advances progress_event a b"
  by (erule advances_mono) (simp add: local_event_def)

lemma complete_prefix_advances:
  assumes r: "complete_task (routing_from s) n = Inr r" and wf: "routing_wf (routing_from s)"
    and completed: "\<And>r. evolve_routing r completed = with_tokens r (\<lambda>t. release_tokens t n 1)"
      "progress_event completed"
  shows "advances progress_event (at_start s vars)
    (disarm_boundary_events n at (emit (at_start s vars) r completed))"
proof -
  have wf1: "routing_wf r" using r wf by (rule complete_task_wf)
  have "advances progress_event (at_start s vars) (emit (at_start s vars) r completed)"
    using wf1 completed complete_task_event [OF r]
    by (intro advances_emit) (simp_all add: at_start_def)
  then show ?thesis
    by (rule advances_trans) (intro advances_local disarm_boundary_events_advances, simp add: wf1)
qed

lemma complete_and_route_Inr:
  assumes "complete_and_route d s n next completed vars cfg at = Inr es"
  obtains r scope where "complete_task (routing_from s) n = Inr r"
    and "routed d cfg at next scope
      (disarm_boundary_events n at (emit (at_start s vars) r completed)) = Inr es"
  using assms
  by (auto simp: complete_and_route_def and_then_Inr Let_def emit_def at_start_def)

lemma complete_and_route_ok:
  assumes "complete_and_route d s n next completed vars cfg at = Inr es"
    and wf: "routing_wf (routing_from s)" and "splits_nonempty d"
    and completed: "\<And>r. evolve_routing r completed = with_tokens r (\<lambda>t. release_tokens t n 1)"
      "progress_event completed"
  shows "decision_ok s es"
  using assms(1)
proof (rule complete_and_route_Inr)
  fix r scope
  assume r: "complete_task (routing_from s) n = Inr r" and route: "routed d cfg at next scope
      (disarm_boundary_events n at (emit (at_start s vars) r completed)) = Inr es"
  show ?thesis
    by (rule routed_ok [OF route complete_prefix_advances [OF r wf completed] _ assms(3)])
       (simp add: disarm_boundary_events_def split: prod.splits)
qed

lemma start_workflow_Inr:
  assumes "start_workflow d s tenant ctx at = Inr es"
  obtains nxt where "tenant = wd_tenant_id d"
    and "routed d (dc_configuration ctx) at nxt None
      (emit (at_start s (state_variables_with_context s (dc_variables ctx))) (routing_from s)
        (WorkflowStarted tenant (wd_workflow_type d) (wd_workflow_version d) (wd_start_node d) at))
      = Inr es"
proof -
  from assms obtain nd where "definition_node d (wd_start_node d) = Inr nd"
    by (auto simp: start_workflow_def and_then_Inr split: if_split_asm)
  then show ?thesis using assms that
    by (cases nd) (auto simp: start_workflow_def emit_def at_start_def split: if_split_asm)
qed

lemma start_workflow_advances:
  "routing_wf (routing_from s) \<Longrightarrow> advances progress_event (at_start s vars)
    (emit (at_start s vars) (routing_from s) (WorkflowStarted tenant w v n at))"
  by (rule advances_emit) (simp_all add: at_start_def)

lemma start_workflow_ok:
  assumes "start_workflow d s tenant ctx at = Inr es" and "routing_wf (routing_from s)"
    and "splits_nonempty d"
  shows "decision_ok s es"
  using assms(1)
  by (rule start_workflow_Inr)
     (erule routed_ok [OF _ start_workflow_advances], simp_all add: assms(2,3))

lemma finish_and_route_Inr:
  assumes "finish_and_route d s n next satisfied ctx at a = Inr es"
  obtains cancelled scope where "routed d (dc_configuration ctx) at next scope
      ((disarm_boundary_events n at (emit a (finish_multi_instance (act_routing a) n)
          (MultiInstanceCompleted n satisfied cancelled at)))
        \<lparr>act_variables := state_variables_with_context s (dc_variables ctx)\<rparr>) = Inr es"
  using assms by (auto simp: finish_and_route_def and_then_Inr Let_def)

lemma finish_prefix_advances:
  assumes adv: "advances progress_event (at_start s vars) a"
  shows "advances progress_event (at_start s vars)
    ((disarm_boundary_events n at (emit a (finish_multi_instance (act_routing a) n)
        (MultiInstanceCompleted n satisfied cancelled at)))\<lparr>act_variables := vars'\<rparr>)"
proof -
  let ?c = "emit a (finish_multi_instance (act_routing a) n)
    (MultiInstanceCompleted n satisfied cancelled at)"
  have wf: "routing_wf (finish_multi_instance (act_routing a) n)"
    using advances_wf [OF adv] by (rule finish_multi_instance_wf)
  then have "advances progress_event a ?c" by (intro advances_emit) simp_all
  moreover have "advances progress_event ?c (disarm_boundary_events n at ?c)"
    by (intro advances_local disarm_boundary_events_advances) (simp add: wf)
  ultimately have "advances progress_event (at_start s vars) (disarm_boundary_events n at ?c)"
    using adv by (blast intro: advances_trans)
  then show ?thesis by (simp add: advances_def)
qed

lemma finish_and_route_ok:
  assumes "finish_and_route d s n next satisfied ctx at a = Inr es"
    and adv: "advances progress_event (at_start s vars) a" and "splits_nonempty d"
  shows "decision_ok s es"
  using assms(1)
proof (rule finish_and_route_Inr)
  fix cancelled scope
  assume route: "routed d (dc_configuration ctx) at next scope
      ((disarm_boundary_events n at (emit a (finish_multi_instance (act_routing a) n)
          (MultiInstanceCompleted n satisfied cancelled at)))
        \<lparr>act_variables := state_variables_with_context s (dc_variables ctx)\<rparr>) = Inr es"
  show ?thesis
    by (rule routed_ok [OF route finish_prefix_advances [OF adv] _ assms(3)])
       (simp add: disarm_boundary_events_def split: prod.splits)
qed

lemma refill_slot_ok:
  assumes "refill_slot n at a = Inr es" and adv: "advances progress_event (at_start s vars) a"
    and "act_events a \<noteq> []"
  shows "decision_ok s es"
proof -
  from assms(1) obtain active where
    active: "bt_get (rs_active_multi_instances (act_routing a)) n = Some active"
    and res: "es = act_events a \<or> (\<exists>b. activate_iteration n at a = Inr b \<and> es = act_events b)"
    by (auto simp: refill_slot_def and_then_Inr ok_or_Inr split: if_splits)
  have busy: "has_outstanding_work (act_routing a)"
    using active by (auto simp: has_outstanding_work_def)
  from res show ?thesis
  proof
    assume "es = act_events a"
    then show ?thesis
      using assms(3) advances_activation_ok [OF adv busy] decision_ok_activation by blast
  next
    assume "\<exists>b. activate_iteration n at a = Inr b \<and> es = act_events b"
    then obtain b where b: "activate_iteration n at a = Inr b" "es = act_events b" by blast
    have "advances progress_event a b"
      using activate_iteration_advances [OF b(1) advances_wf [OF adv]] by (rule advances_local)
    moreover have "has_outstanding_work (act_routing b)" "act_events b \<noteq> []"
      using b(1) by (auto simp: activate_iteration_def and_then_Inr has_outstanding_work_def
          elim!: activate_next_Inr)
    ultimately show ?thesis
      unfolding b(2) using adv advances_activation_ok advances_trans decision_ok_activation by blast
  qed
qed

lemma complete_multi_instance_iteration_Inr:
  assumes "complete_multi_instance_iteration d s n i ctx at = Inr es"
  obtains nxt completed r satisfied where
    "routing_complete_iteration (routing_from s) n i = Inr (completed, r)"
    and "finish_and_route d s n nxt satisfied ctx at
        (emit (at_start s (is_variables s)) r (MultiInstanceIterationCompleted n i at)) = Inr es \<or>
      refill_slot n at
        (emit (at_start s (is_variables s)) r (MultiInstanceIterationCompleted n i at)) = Inr es"
  using assms
  by (auto simp: complete_multi_instance_iteration_def and_then_Inr ok_or_Inr Let_def emit_def
      at_start_def split: if_splits)

lemma iteration_prefix_advances:
  assumes r: "routing_complete_iteration (routing_from s) n i = Inr (completed, r)"
    and wf: "routing_wf (routing_from s)"
  shows "advances progress_event (at_start s vars)
    (emit (at_start s vars) r (MultiInstanceIterationCompleted n i at))"
  using routing_complete_iteration_wf [OF r wf] routing_complete_iteration_event [OF r]
  by (intro advances_emit) (simp_all add: at_start_def)

lemma complete_multi_instance_iteration_ok:
  assumes "complete_multi_instance_iteration d s n i ctx at = Inr es"
    and wf: "routing_wf (routing_from s)" and "splits_nonempty d"
  shows "decision_ok s es"
  using assms(1)
proof (rule complete_multi_instance_iteration_Inr)
  fix nxt completed r satisfied
  let ?a = "emit (at_start s (is_variables s)) r (MultiInstanceIterationCompleted n i at)"
  assume r: "routing_complete_iteration (routing_from s) n i = Inr (completed, r)"
    and res: "finish_and_route d s n nxt satisfied ctx at ?a = Inr es \<or> refill_slot n at ?a = Inr es"
  note adv = iteration_prefix_advances [OF r wf]
  from res show ?thesis
  proof
    assume "finish_and_route d s n nxt satisfied ctx at ?a = Inr es"
    then show ?thesis using adv assms(3) by (rule finish_and_route_ok)
  next
    assume "refill_slot n at ?a = Inr es"
    then show ?thesis using adv by (rule refill_slot_ok) simp
  qed
qed

lemma boundary_cancellation_Inr:
  assumes "boundary_cancellation d owner boundary at = Inr es"
  shows "es = [] \<or> es = [UserTaskCancelled owner (''boundary:'' @ be_id boundary) at]"
proof (cases "be_cancel_activity boundary")
  case True
  then obtain nd where "es = (case nd of
      UserTask _ _ _ _ _ \<Rightarrow> [UserTaskCancelled owner (''boundary:'' @ be_id boundary) at] | _ \<Rightarrow> [])"
    using assms by (auto simp: boundary_cancellation_def and_then_Inr)
  then show ?thesis by (cases nd) simp_all
qed (use assms in \<open>simp add: boundary_cancellation_def\<close>)

lemma fire_boundary_Inr:
  assumes "fire_boundary d s owner boundary tokens mi ctx at = Inr es"
  obtains its k cancellation r scope where
    "k = (of_bool (be_cancel_activity boundary \<and> 0 < tokens) :: u32)"
    and "boundary_cancellation d owner boundary at = Inr cancellation"
    and "(if be_cancel_activity boundary then cancel_activity (routing_from s) owner k
          else Inr (routing_from s)) = Inr r"
    and "routed d (dc_configuration ctx) at (be_target boundary) scope
        \<lparr>act_variables = state_variables_with_context s (dc_variables ctx), act_routing = r,
         act_events = BoundaryEventTriggered (be_id boundary) owner (be_target boundary)
             (be_cancel_activity boundary) its k at # cancellation\<rparr> = Inr es"
  using assms unfolding fire_boundary_def Let_def and_then_Inr
  by (elim exE conjE) (rule that [OF refl])

lemma fire_prefix_advances:
  assumes k: "k = (of_bool (be_cancel_activity boundary \<and> 0 < tokens) :: u32)"
    and canc: "boundary_cancellation d owner boundary at = Inr cancellation"
    and r: "(if be_cancel_activity boundary then cancel_activity (routing_from s) owner k
          else Inr (routing_from s)) = Inr r"
    and wf: "routing_wf (routing_from s)"
  shows "advances progress_event (at_start s vars)
    \<lparr>act_variables = vars, act_routing = r, act_events =
       BoundaryEventTriggered (be_id boundary) owner (be_target boundary)
         (be_cancel_activity boundary) its k at # cancellation\<rparr>"
proof -
  let ?triggered = "BoundaryEventTriggered (be_id boundary) owner (be_target boundary)
     (be_cancel_activity boundary) its k at"
  have quiet: "foldl evolve_routing x cancellation = x" "list_all progress_event cancellation" for x
    using boundary_cancellation_Inr [OF canc] by auto
  have "k = 0 \<or> k = 1" by (simp add: k)
  then have "evolve_routing (routing_from s) ?triggered = r \<and> routing_wf r"
  proof (cases "be_cancel_activity boundary")
    case True
    then have canc: "cancel_activity (routing_from s) owner k = Inr r" using r by simp
    show ?thesis
      by (simp only: True cancel_activity_event [OF canc \<open>k = 0 \<or> k = 1\<close> wf]
          cancel_activity_wf [OF canc wf])
  next
    case False
    then show ?thesis using r wf by simp
  qed
  then show ?thesis
    unfolding advances_def using quiet
    by (intro conjI exI [of _ "?triggered # cancellation"]) (simp_all add: at_start_def)
qed

lemma fire_boundary_ok:
  assumes "fire_boundary d s owner boundary tokens mi ctx at = Inr es"
    and wf: "routing_wf (routing_from s)" and "splits_nonempty d"
  shows "decision_ok s es"
  using assms(1)
proof (rule fire_boundary_Inr)
  fix its k cancellation r scope
  assume k: "k = (of_bool (be_cancel_activity boundary \<and> 0 < tokens) :: u32)"
    and canc: "boundary_cancellation d owner boundary at = Inr cancellation"
    and r: "(if be_cancel_activity boundary then cancel_activity (routing_from s) owner k
          else Inr (routing_from s)) = Inr r"
    and route: "routed d (dc_configuration ctx) at (be_target boundary) scope
        \<lparr>act_variables = state_variables_with_context s (dc_variables ctx), act_routing = r,
         act_events = BoundaryEventTriggered (be_id boundary) owner (be_target boundary)
             (be_cancel_activity boundary) its k at # cancellation\<rparr> = Inr es"
  show ?thesis
    by (rule routed_ok [OF route fire_prefix_advances [OF k canc r wf]]) (simp_all add: assms(3))
qed

text \<open>A completed task is one of three kinds of node.\<close>

lemma complete_user_task_Inr:
  assumes "complete_user_task d s n decision ctx at = Inr es"
  obtains result_variable nxt vars where
    "complete_and_route d s n nxt (UserTaskCompleted n decision result_variable at) vars
       (dc_configuration ctx) at = Inr es"
proof -
  from assms obtain nd where "definition_node d n = Inr nd"
    by (auto simp: complete_user_task_def and_then_Inr)
  then show ?thesis using assms that
    by (cases nd) (auto simp: complete_user_task_def split: if_split_asm)
qed

lemma complete_script_task_Inr:
  assumes "complete_script_task d s n ctx at = Inr es"
  obtains nxt vars where
    "complete_and_route d s n nxt (ScriptTaskCompleted n at) vars (dc_configuration ctx) at = Inr es"
proof -
  from assms obtain nd where "definition_node d n = Inr nd"
    by (auto simp: complete_script_task_def and_then_Inr)
  then show ?thesis using assms that by (cases nd) (auto simp: complete_script_task_def)
qed

lemma when_active_Inr: "when_active s r = Inr x \<longleftrightarrow> is_active (is_lifecycle s) \<and> r = Inr x"
  by (cases "is_lifecycle s") (simp_all add: when_active_def)

lemma when_task_active_Inr:
  "when_task_active s n r = Inr x \<longleftrightarrow> is_active (is_lifecycle s) \<and> r = Inr x
    \<and> 0 < (case bt_get (is_active_tokens s) n of None \<Rightarrow> 0 | Some c \<Rightarrow> c)"
  by (auto simp: when_task_active_def when_active_Inr)

lemma decide_events_ok:
  assumes "decide_events d s command ctx = Inr es" and "\<not> is_case_command command"
    and "routing_wf (routing_from s)" and "splits_nonempty d"
  shows "decision_ok s es"
proof (cases command)
  case (StartWorkflow tenant at)
  then show ?thesis using assms start_workflow_ok by (simp split: if_splits)
next
  case (CompleteServiceTask n outputs at)
  then show ?thesis using assms
    by (auto simp: when_task_active_Inr complete_service_task_def and_then_Inr
        elim!: complete_and_route_ok)
next
  case (CompleteUserTask n decision at)
  then show ?thesis using assms
    by (auto simp: when_task_active_Inr elim!: complete_user_task_Inr complete_and_route_ok)
next
  case (CompleteScriptTask n at)
  then show ?thesis using assms
    by (auto simp: when_task_active_Inr elim!: complete_script_task_Inr complete_and_route_ok)
next
  case (CompleteMultiInstanceIteration n i at)
  then show ?thesis using assms by (auto simp: when_active_Inr elim: complete_multi_instance_iteration_ok)
next
  case (TriggerBoundaryEvent b at)
  then show ?thesis using assms
    by (auto simp: when_active_Inr trigger_boundary_event_def and_then_Inr ok_or_Inr Let_def
        elim!: fire_boundary_ok split: if_splits)
qed (use assms in simp_all)

section \<open>Case decisions\<close>

lemma case_events_fold:
  assumes "try_fold f p xs = Inr p'" and "list_all is_case_event (snd p)"
    and "\<And>q x q'. f q x = Inr q' \<Longrightarrow> list_all is_case_event (snd q) \<Longrightarrow>
      list_all is_case_event (snd q')"
  shows "list_all is_case_event (snd p')"
  using assms(1)
  by (rule try_fold_invariant [where P = "\<lambda>p. list_all is_case_event (snd p)"])
     (use assms(2,3) in blast)+

lemma evaluate_sentry_events:
  "evaluate_sentry c vars at q sentry = Inr q' \<Longrightarrow> list_all is_case_event (snd q) \<Longrightarrow>
    list_all is_case_event (snd q')"
  by (auto simp: evaluate_sentry_def and_then_Inr split: if_split_asm)

lemma push_case_transition_events:
  "list_all is_case_event (snd q) \<Longrightarrow>
    list_all is_case_event (snd (push_case_transition c i kind status governing sat at q))"
  by (simp add: push_case_transition_def)

lemma advance_stage_events:
  "advance_stage c sat at q stage = Inr q' \<Longrightarrow> list_all is_case_event (snd q) \<Longrightarrow>
    list_all is_case_event (snd q')"
  by (auto simp: advance_stage_def and_then_Inr Let_def push_case_transition_events)

lemma advance_milestone_events:
  "advance_milestone c sat at q milestone = Inr q' \<Longrightarrow> list_all is_case_event (snd q) \<Longrightarrow>
    list_all is_case_event (snd q')"
  by (auto simp: advance_milestone_def and_then_Inr push_case_transition_events)

lemma activate_case_events: "activate_case d s c model at = Inr es \<Longrightarrow> list_all is_case_event es"
  by (auto simp: activate_case_def and_then_Inr list_all_iff split: if_split_asm)

lemma evaluate_case_sentries_events:
  assumes "evaluate_case_sentries d s c facts at = Inr es"
  shows "list_all is_case_event es"
  using assms
proof (rule evaluate_case_sentries_Inr)
  fix active model satisfied es1 p projected es2
  assume sentries: "try_fold (evaluate_sentry c (state_variables_with_context s facts) at)
           (ac_satisfied_sentries active, []) (cd_sentries model) = Inr (satisfied, es1)"
    and stages: "try_fold (advance_stage c satisfied at) (ac_plan_items active, es1)
           (cd_stages model) = Inr p"
    and milestones: "try_fold (advance_milestone c satisfied at) p (cd_milestones model)
           = Inr (projected, es2)"
    and es: "es = (if all_completed projected then es2 @ [CaseCompleted c at] else es2)"
  have "list_all is_case_event (snd (satisfied, es1))"
    by (rule case_events_fold [OF sentries _ evaluate_sentry_events]) simp_all
  then have "list_all is_case_event (snd p)"
    by (intro case_events_fold [OF stages _ advance_stage_events]) simp_all
  then have "list_all is_case_event (snd (projected, es2))"
    by (rule case_events_fold [OF milestones _ advance_milestone_events])
  then show ?thesis by (simp add: es)
qed

lemma decide_events_case:
  "decide_events d s command ctx = Inr es \<Longrightarrow> is_case_command command \<Longrightarrow> list_all is_case_event es"
  by (cases command) (auto dest: activate_case_events evaluate_case_sentries_events)

lemma case_event_routing: "is_case_event e \<Longrightarrow> evolve_routing r e = r"
  by (cases e) simp_all

lemma case_event_lifecycle: "is_case_event e \<Longrightarrow> is_lifecycle (evolve s e) = is_lifecycle s"
  by (cases e) (simp_all add: evolve_def evolve_case_activated_def update_case_def split: option.split)

lemma case_events_keep:
  "list_all is_case_event es \<Longrightarrow> routing_from (foldl evolve s es) = routing_from s"
  "list_all is_case_event es \<Longrightarrow> is_lifecycle (foldl evolve s es) = is_lifecycle s"
  by (induction es arbitrary: s)
     (simp_all add: routing_from_evolve case_event_routing case_event_lifecycle)

section \<open>The lifecycle follows the events\<close>

lemma progress_keeps_active:
  "progress_event e \<Longrightarrow> is_active (is_lifecycle s) \<Longrightarrow> is_active (is_lifecycle (evolve s e))"
  by (cases e)
     (auto simp: evolve_def evolve_defs first_active_def Let_def split: option.splits)

lemma progress_events_active:
  "list_all progress_event es \<Longrightarrow> is_active (is_lifecycle s) \<Longrightarrow>
    is_active (is_lifecycle (foldl evolve s es))"
  by (induction es arbitrary: s) (simp_all add: progress_keeps_active)

lemma completion_completes:
  "completion_event e \<Longrightarrow> is_lifecycle (evolve s e) = Completed"
  by (cases e) (simp_all add: evolve_def clear_routing_def)

lemma terminal_last_progress:
  assumes "terminal_last es" and "es \<noteq> []" and "progress_event (last es)"
  shows "list_all progress_event es"
proof -
  have "list_all progress_event (butlast es @ [last es])"
    using assms(1,3) by (simp add: terminal_last_def)
  then show ?thesis using assms(2) by simp
qed

lemma started_active: "is_active (is_lifecycle (evolve s (WorkflowStarted t w v n at)))"
  by (simp add: evolve_def)

lemma decision_lifecycle:
  assumes "decision_ok s es"
    and "is_active (is_lifecycle s) \<or> (\<exists>t w v n at. hd es = WorkflowStarted t w v n at)"
  shows "if has_outstanding_work (routing_from (foldl evolve s es))
    then is_active (is_lifecycle (foldl evolve s es))
    else is_lifecycle (foldl evolve s es) = Completed"
proof (cases "terminal_event (last es)")
  case True
  then have "completion_event (last es)" "es \<noteq> []"
    and idle: "\<not> has_outstanding_work (routing_from (foldl evolve s es))"
    using assms(1) by (auto simp: decision_ok_def Let_def routing_view.proj_replay)
  then have "is_lifecycle (foldl evolve s (butlast es @ [last es])) = Completed"
    by (simp add: completion_completes del: append_butlast_last_id)
  then show ?thesis using idle \<open>es \<noteq> []\<close> by simp
next
  case False
  then have all: "list_all progress_event es"
    and busy: "has_outstanding_work (routing_from (foldl evolve s es))" and ne: "es \<noteq> []"
    using assms(1) terminal_last_progress [of es]
    by (auto simp: decision_ok_def Let_def routing_view.proj_replay)
  from ne obtain e rest where es: "es = e # rest" by (cases es) auto
  have "is_active (is_lifecycle (evolve s e))"
    using assms(2) all by (auto simp: es progress_keeps_active started_active)
  then show ?thesis using all busy by (simp add: es progress_events_active)
qed

section \<open>The invariant of an instance\<close>

lemma start_workflow_first:
  assumes "start_workflow d s tenant ctx at = Inr es" and "routing_wf (routing_from s)"
    and "splits_nonempty d"
  shows "hd es = WorkflowStarted tenant (wd_workflow_type d) (wd_workflow_version d) (wd_start_node d) at"
  using assms(1)
proof (rule start_workflow_Inr)
  fix nxt
  let ?a = "emit (at_start s (state_variables_with_context s (dc_variables ctx))) (routing_from s)
    (WorkflowStarted tenant (wd_workflow_type d) (wd_workflow_version d) (wd_start_node d) at)"
  assume "routed d (dc_configuration ctx) at nxt None ?a = Inr es"
  then obtain b where b: "activation_events d (dc_configuration ctx) at nxt None ?a = Inr b"
    and es: "es = act_events b"
    by (auto simp: routed_def and_then_Inr)
  have "activation_ok ?a b" using b by (rule activation_events_ok) (simp_all add: assms)
  then show ?thesis by (auto simp: es activation_ok_def at_start_def)
qed

lemma decide_Inr:
  "decide d s command ctx = Inr es \<longleftrightarrow> decide_events d s command ctx = Inr es
    \<and> length es \<le> unat (en_max_events_per_decision (rc_engine (dc_configuration ctx)))"
proof -
  have "unat w \<le> u32_max" for w :: u32
  proof -
    have "unat w < 2 ^ LENGTH(32)" by (rule unsigned_less)
    then show ?thesis by (simp add: u32_max_def)
  qed
  then have limit: "(\<exists>k. u32_try_from (length es) = Some k \<and> \<not> limit < k) \<longleftrightarrow> length es \<le> unat limit"
    for limit :: u32
    by (auto simp: u32_try_from_Some not_less word_le_nat_alt u32_max_def unat_of_nat
        dest: order_trans)
  have "decide d s command ctx = Inr es \<longleftrightarrow> decide_events d s command ctx = Inr es \<and>
      (\<exists>k. u32_try_from (length es) = Some k
        \<and> \<not> en_max_events_per_decision (rc_engine (dc_configuration ctx)) < k)"
    by (auto simp: decide_def and_then_Inr ok_or_Inr Let_def)
  then show ?thesis by (simp only: limit)
qed

lemma decide_workflow_active:
  assumes "decide_events d s command ctx = Inr es" and "\<not> is_case_command command"
    and "routing_wf (routing_from s)" and "splits_nonempty d"
  shows "is_active (is_lifecycle s) \<or> (\<exists>t w v n at. hd es = WorkflowStarted t w v n at)"
  using assms
  by (cases command)
     (auto simp: when_active_Inr when_task_active_Inr dest: start_workflow_first split: if_split_asm)

lemma decide_instance_ok:
  assumes "decide d s command ctx = Inr es" and "instance_ok s" and "splits_nonempty d"
  shows "instance_ok (foldl evolve s es)"
proof -
  have es: "decide_events d s command ctx = Inr es" using assms(1) by (simp add: decide_Inr)
  have wf: "routing_wf (routing_from s)" using assms(2) by (simp add: instance_ok_def)
  show ?thesis
  proof (cases "is_case_command command")
    case True
    then show ?thesis
      using decide_events_case [OF es] assms(2) by (simp add: instance_ok_def case_events_keep)
  next
    case False
    have ok: "decision_ok s es" using es False wf assms(3) by (rule decide_events_ok)
    then have "routing_wf (routing_from (foldl evolve s es))"
      by (simp add: decision_ok_def Let_def routing_view.proj_replay)
    then show ?thesis
      using decision_lifecycle [OF ok decide_workflow_active [OF es False wf assms(3)]]
      by (auto simp: instance_ok_def split: if_split_asm)
  qed
qed

lemma instance_ok_initial: "instance_ok default_instance_state"
  using routing_wf_default
  by (simp add: instance_ok_def has_outstanding_work_def routing_from_def default_instance_state_def)

lemma instance_ok_fenced:
  assumes "instance_ok s"
  shows "instance_ok (evolve s (WorkflowTerminatedForCompliance reason digest actor version at))"
proof -
  have "bt_sorted (is_scope_invocation_counts s)"
    using assms by (simp add: instance_ok_def routing_wf_defs routing_from_def)
  then show ?thesis
    by (simp add: instance_ok_def routing_wf_defs routing_from_def evolve_def clear_routing_def
        has_outstanding_work_def bt_values_def)
qed

lemma reachable_instance_ok:
  assumes "reachable_instance d s" and "splits_nonempty d"
  shows "instance_ok s"
  using assms
  by (induction rule: reachable_instance.induct)
     (auto intro: instance_ok_initial decide_instance_ok instance_ok_fenced)

section \<open>Absence of panics\<close>

lemma no_panic_routed [simp]: "no_panic (routed d cfg at next scope a)"
  unfolding routed_def activation_events_def
  by (rule no_panic_and_then) (rule no_panic_activation_loop, simp)

lemma no_panic_active_scope [simp]: "no_panic (active_scope_for_node d s n)"
  by (auto simp: active_scope_for_node_def split: option.split list.split)

lemma no_panic_complete_task:
  assumes "routing_wf r"
  shows "no_panic (complete_task r n)"
proof (cases "bt_get (rs_active_tokens r) n")
  case (Some c)
  then have "(n, c) \<in> set (rs_active_tokens r)" by (rule bt_get_in_set)
  then have "c \<noteq> 0" using assms by (auto simp: routing_wf_defs)
  then show ?thesis using Some by (simp add: complete_task_def)
qed (simp add: complete_task_def)

lemma no_panic_cancel_activity:
  assumes "routing_wf r"
  shows "no_panic (cancel_activity r n k)"
proof -
  have "no_panic (try_fold (\<lambda>r _. complete_task r n) r xs)" if "routing_wf r" for r and xs :: "nat list"
    using that
  proof (induction xs arbitrary: r)
    case (Cons x xs)
    then show ?case by (auto simp: no_panic_complete_task dest: complete_task_wf)
  qed simp
  then show ?thesis
    using assms by (simp add: cancel_activity_def Let_def disarm_boundaries_wf multi_instances_remove)
qed

lemma no_panic_complete_and_route:
  "routing_wf (routing_from s) \<Longrightarrow> no_panic (complete_and_route d s n next completed vars cfg at)"
  by (auto simp: complete_and_route_def Let_def no_panic_complete_task)

lemma no_panic_node [simp]: "no_panic (definition_node d n)"
  by (simp add: definition_node_def)

lemma no_panic_cases [simp]:
  "no_panic (activate_case d s c model at)"
  "no_panic (evaluate_case_sentries d s c facts at)"
  by (auto simp: activate_case_def case_model_def evaluate_case_sentries_def evaluate_sentry_def
      advance_stage_def advance_milestone_def Let_def intro!: no_panic_try_fold)

lemma no_panic_multi_instance [simp]:
  "no_panic (complete_multi_instance_iteration d s n i ctx at)"
  by (auto simp: complete_multi_instance_iteration_def multi_instance_next_def finish_and_route_def
      refill_slot_def activate_iteration_def evaluate_multi_instance_completion_def Let_def
      split: node.split option.split)

lemma no_panic_boundary:
  "routing_wf (routing_from s) \<Longrightarrow> no_panic (trigger_boundary_event d s b ctx at)"
  by (auto simp: trigger_boundary_event_def fire_boundary_def boundary_cancellation_def Let_def
      no_panic_cancel_activity)

lemma no_panic_when_active: "no_panic r \<Longrightarrow> no_panic (when_active s r)"
  by (simp add: when_active_def split: lifecycle.split)

lemma no_panic_when_task_active: "no_panic r \<Longrightarrow> no_panic (when_task_active s n r)"
  by (simp add: when_task_active_def no_panic_when_active)

lemma no_panic_tasks:
  assumes "routing_wf (routing_from s)"
  shows "no_panic (complete_service_task d s n outputs ctx at)"
    and "no_panic (complete_user_task d s n decision ctx at)"
    and "no_panic (complete_script_task d s n ctx at)"
    and "no_panic (start_workflow d s tenant ctx at)"
  using no_panic_complete_and_route [OF assms]
  by (auto simp: complete_service_task_def complete_user_task_def complete_script_task_def
      start_workflow_def split: node.split)

lemma no_panic_decide:
  assumes "routing_wf (routing_from s)"
  shows "no_panic (decide d s command ctx)"
proof -
  have "no_panic (decide_events d s command ctx)"
    using no_panic_tasks [OF assms] no_panic_boundary [OF assms]
    by (cases command) (simp_all add: no_panic_when_active no_panic_when_task_active)
  then show ?thesis by (auto simp: decide_def Let_def)
qed

section \<open>Progress of multi-instance activities\<close>

lemma card_below: "card {j. j < w} = unat w" for w :: u32
proof -
  have "bij_betw unat {j. j < w} {..<unat w}"
  proof (rule bij_betw_imageI)
    show "unat ` {j. j < w} = {..<unat w}"
    proof safe
      fix k assume "k < unat w"
      moreover have "unat w < 2 ^ LENGTH(32)" by (rule unsigned_less)
      ultimately have "unat (of_nat k :: u32) = k" by (simp add: unat_of_nat)
      with \<open>k < unat w\<close> show "k \<in> unat ` {j. j < w}"
        by (intro image_eqI [of _ _ "of_nat k"]) (simp_all add: word_less_nat_alt)
    qed (simp add: word_less_nat_alt)
  qed (simp add: inj_on_def word_unat_eq_iff)
  then show ?thesis using bij_betw_same_card by fastforce
qed

lemma iteration_counts:
  assumes "multi_instance_ok active"
  shows "length (am_completed_iterations active) + length (am_active_iterations active)
      = unat (am_next_iteration active)"
proof -
  let ?a = "am_active_iterations active" and ?c = "am_completed_iterations active"
  have ok: "bs_sorted ?a" "bs_sorted ?c" "set ?a \<inter> set ?c = {}"
    "set ?a \<union> set ?c = {j. j < am_next_iteration active}"
    using assms by (auto simp: multi_instance_ok_def)
  have "card (set ?a \<union> set ?c) = card (set ?a) + card (set ?c)"
    using ok(3) by (intro card_Un_disjoint) simp_all
  then show ?thesis
    using length_bs_sorted [OF ok(1)] length_bs_sorted [OF ok(2)] ok(4) by (simp add: card_below)
qed

lemma refill_slot_progress:
  assumes active: "bt_get (is_active_multi_instances s) n = Some active"
    and ok: "multi_instance_ok active" and i: "i \<in> set (am_active_iterations active)"
    and left: "am_next_iteration active < am_total_instances active"
  defines "active' \<equiv> iteration_completed i active"
  defines "r \<equiv> (routing_from s)\<lparr>rs_active_multi_instances :=
      bt_insert n active' (is_active_multi_instances s)\<rparr>"
  shows "routing_complete_iteration (routing_from s) n i = Inr (False, r)"
    and "\<exists>item r'. activate_next_multi_instance r n
      = Inr (am_next_iteration active, am_task_type active, item, r')"
proof -
  have "bs_sorted (am_completed_iterations active)" "i \<notin> set (am_completed_iterations active)"
    "bs_sorted (am_active_iterations active)"
    using ok i by (auto simp: multi_instance_ok_def)
  then have lens: "length (am_completed_iterations active') = Suc (length (am_completed_iterations active))"
    "length (am_active_iterations active') = length (am_active_iterations active) - 1"
    using i by (simp_all add: active'_def iteration_completed_def length_bs_insert length_bs_remove)
  have pos: "0 < length (am_active_iterations active)" using i by (auto simp: length_pos_if_in_set)
  have lt: "unat (am_next_iteration active) < unat (am_total_instances active)"
    using left by (simp add: word_less_nat_alt)
  have "length (am_completed_iterations active') \<noteq> unat (am_total_instances active)"
    using iteration_counts [OF ok] lens pos lt by linarith
  then show "routing_complete_iteration (routing_from s) n i = Inr (False, r)"
    using active i by (simp add: routing_complete_iteration_def routing_from_def r_def active'_def
        iteration_completed_def Let_def)
  have "unat (am_total_instances active) < 2 ^ LENGTH(32)" by (rule unsigned_less)
  then obtain nxt where "checked_add (am_next_iteration active) 1 = Some nxt"
    using lt by (simp add: checked_add_def)
  moreover have "length (am_active_iterations active') < unat (am_max_parallelism active)"
  proof -
    have "length (am_active_iterations active) \<le> unat (am_max_parallelism active)"
      using ok by (simp add: multi_instance_ok_def)
    then show ?thesis using lens(2) pos by linarith
  qed
  ultimately show "\<exists>item r'. activate_next_multi_instance r n
      = Inr (am_next_iteration active, am_task_type active, item, r')"
    using left lens(2)
    by (auto simp: activate_next_multi_instance_def r_def active'_def iteration_completed_def Let_def)
qed

text \<open>The completion condition, if there is one, evaluates to false.\<close>

definition condition_unmet ::
  "multi_instance_definition \<Rightarrow> active_multi_instance \<Rightarrow> variables \<Rightarrow> bool" where
  "condition_unmet spec active vars \<longleftrightarrow>
     (case mi_completion_condition spec of
        None \<Rightarrow> True
      | Some condition \<Rightarrow> expression_evaluate condition (completion_variables active vars) = Inr False)"

lemma evaluate_completion_unmet:
  assumes "bt_get (rs_active_multi_instances r) n = Some active"
    and "length (am_active_iterations active) + length (am_completed_iterations active) \<le> u32_max"
    and "condition_unmet spec active (state_variables_with_context s vars)"
  shows "evaluate_multi_instance_completion n spec r s vars = Inr False"
proof -
  have "is_i64 (int (length (am_active_iterations active)))" "is_i64 (int (length (am_completed_iterations active)))"
    using assms(2) by (auto simp: is_i64_def i64_min_def i64_max_def u32_max_def)
  then show ?thesis
    using assms(1,3)
    by (simp add: evaluate_multi_instance_completion_def condition_unmet_def split: option.splits)
qed

text \<open>
  The event limit: the events of a command pass it when their number is within the configured
  bound; otherwise the number, capped at the largest 32-bit value, is reported against it.
\<close>

lemma decide_within_limit:
  assumes "decide_events d s command ctx = Inr es"
  shows "decide d s command ctx =
    (let limit = en_max_events_per_decision (rc_engine (dc_configuration ctx)) in
     if length es \<le> unat limit then Inr es
     else runtime_fail (DecisionLimitExceeded (of_nat (min (length es) u32_max)) limit))"
proof -
  let ?limit = "en_max_events_per_decision (rc_engine (dc_configuration ctx))"
  have max: "unat ?limit \<le> u32_max" by (rule unat_u32_max)
  show ?thesis
  proof (cases "length es \<le> u32_max")
    case True
    then have "unat (of_nat (length es) :: u32) = length es"
      by (simp add: u32_max_def unat_of_nat)
    then show ?thesis
      using assms True by (simp add: decide_def u32_try_from_def word_less_nat_alt Let_def not_le)
  next
    case False
    have "(of_nat u32_max :: u32) = - 1" by (simp add: u32_max_def)
    then show ?thesis using assms False max by (simp add: decide_def u32_try_from_def Let_def)
  qed
qed

text \<open>
  C19. In a well-formed instance, completing an active iteration while iterations remain hands
  the freed slot to the next one, when the activity has no completion condition or the
  condition is false after this completion: the decision is the completion and the
  activation of the next iteration, never \<open>MultiInstanceActivationLimit\<close> or an overflow.
  Only a configured limit of fewer than two events per decision refuses it.
\<close>

theorem iteration_refills_slot:
  assumes "instance_ok s" and "is_active (is_lifecycle s)"
    and "multi_instance_next d n = Inr next_node"
    and "node_multi_instance d n = Some spec"
    and "bt_get (is_active_multi_instances s) n = Some active"
    and "i \<in> set (am_active_iterations active)"
    and "am_next_iteration active < am_total_instances active"
    and "condition_unmet spec (iteration_completed i active) (state_variables_with_context s (dc_variables ctx))"
  shows "\<exists>item. decide d s (CompleteMultiInstanceIteration n i at) ctx =
    (if 2 \<le> en_max_events_per_decision (rc_engine (dc_configuration ctx))
     then Inr [MultiInstanceIterationCompleted n i at,
       MultiInstanceIterationActivated n (am_task_type active) (am_next_iteration active) item at]
     else runtime_fail (DecisionLimitExceeded 2 (en_max_events_per_decision (rc_engine (dc_configuration ctx)))))"
proof -
  have ok: "multi_instance_ok active"
    using routing_wf_multi_instance [of "routing_from s" n active] assms(1,5)
    by (simp add: instance_ok_def routing_from_def)
  note progress = refill_slot_progress [OF assms(5) ok assms(6,7)]
  let ?r = "(routing_from s)\<lparr>rs_active_multi_instances :=
        bt_insert n (iteration_completed i active) (is_active_multi_instances s)\<rparr>"
  from progress obtain item r' where "activate_next_multi_instance ?r n
      = Inr (am_next_iteration active, am_task_type active, item, r')" by blast
  moreover have "evaluate_multi_instance_completion n spec ?r s (dc_variables ctx) = Inr False"
  proof (rule evaluate_completion_unmet [OF _ _ assms(8)])
    have sorted: "bs_sorted (am_completed_iterations active)" "i \<notin> set (am_completed_iterations active)"
      "bs_sorted (am_active_iterations active)"
      using ok assms(6) by (auto simp: multi_instance_ok_def)
    have "unat (am_next_iteration active) \<le> u32_max" by (rule unat_u32_max)
    moreover have "0 < length (am_active_iterations active)" using assms(6) by (auto simp: length_pos_if_in_set)
    moreover have "length (am_active_iterations (iteration_completed i active)) = length (am_active_iterations active) - 1"
        "length (am_completed_iterations (iteration_completed i active)) = Suc (length (am_completed_iterations active))"
      using assms(6) sorted by (simp_all add: iteration_completed_def length_bs_insert length_bs_remove)
    ultimately show "length (am_active_iterations (iteration_completed i active))
        + length (am_completed_iterations (iteration_completed i active)) \<le> u32_max"
      using iteration_counts [OF ok] by linarith
  qed simp
  ultimately have "decide_events d s (CompleteMultiInstanceIteration n i at) ctx =
      Inr [MultiInstanceIterationCompleted n i at,
        MultiInstanceIterationActivated n (am_task_type active) (am_next_iteration active) item at]"
    using assms(2-7) progress(1)
    by (auto simp: when_active_def complete_multi_instance_iteration_def refill_slot_def
        activate_iteration_def emit_def iteration_completed_def split: lifecycle.split)
  from decide_within_limit [OF this] show ?thesis
    by (intro exI [of _ item]) (simp add: word_le_nat_alt u32_max_def Let_def)
qed

end
