(* ===== verification/Examples.thy ===== *)
theory Examples
  imports Decide
begin

text \<open>
  A concrete engine configuration and a concrete order workflow: a parallel split into a
  service task and a user task, their join, and the end. The theorems are applied to them.
\<close>

definition ex_retry :: retry_policy where
  "ex_retry = \<lparr>rp_max_attempts = 3, rp_initial_backoff_ms = 10, rp_max_backoff_ms = 100,
     rp_multiplier_millis = 2000\<rparr>"

definition ex_engine :: engine_policy where
  "ex_engine =
     \<lparr>en_snapshot_interval_events = 10, en_max_events_per_decision = 20,
      en_max_multi_instance_cardinality = 8, en_default_multi_instance_parallelism = 2,
      en_boundary_runtime =
        \<lparr>br_projection_batch_size = 1, br_dispatch_batch_size = 1, br_max_dispatch_attempts = 1,
         br_retry_delay_ms = 1, br_lease_duration_ms = 1, br_max_timer_horizon_ms = 1,
         br_max_expression_bytes = 1, br_worker_id = ''w'', br_max_signal_id_bytes = 1,
         br_max_reference_bytes = 1, br_max_subscriptions_per_instance = 1\<rparr>,
      en_command_timeout_ms = 1000, en_optimistic_conflict_retry = ex_retry,
      en_local_wasm =
        \<lparr>lw_max_module_bytes = 1, lw_max_input_bytes = 1, lw_max_output_bytes = 1,
         lw_max_memory_bytes = 1, lw_max_wasm_stack_bytes = 1, lw_max_table_elements = 1,
         lw_max_instances = 1, lw_max_tables = 1, lw_max_memories = 1, lw_fuel = 1\<rparr>,
      en_event_payload_key_scope = ''p'', en_authorization_audit_key_scope = ''q'',
      en_workers =
        \<lparr>ew_poll_interval_ms = 1, ew_outbox_batch_size = 1, ew_outbox_retry = ex_retry,
         ew_local_task_batch_size = 1, ew_local_task_retry = ex_retry,
         ew_remote =
           \<lparr>rw_dispatch_batch_size = 1, rw_max_workers = 1, rw_max_credit_per_worker = 1,
            rw_max_capabilities_per_worker = 1, rw_lease_duration_ms = 2,
            rw_heartbeat_timeout_ms = 1, rw_max_identifier_bytes = 1,
            rw_max_protocol_version_bytes = 1, rw_stream_channel_capacity = 1,
            rw_max_input_bytes = 1, rw_max_output_bytes = 1, rw_max_attempts = 1,
            rw_retry_delay_ms = 1\<rparr>\<rparr>\<rparr>"

definition ex_config :: resolved_config_snapshot where
  "ex_config =
     \<lparr>rc_config_id = ''c'', rc_config_version = ''v'', rc_policy_version = ''p'',
      rc_schema_version = 1, rc_resolved_scopes = [\<lparr>sc_kind = Platform, sc_reference = ''x''\<rparr>],
      rc_content_hash = [], rc_engine = ex_engine\<rparr>"

definition ex_context :: decision_context where
  "ex_context = \<lparr>dc_configuration = ex_config, dc_variables = []\<rparr>"

definition ex_nodes :: "(node_id \<times> node) list" where
  "ex_nodes =
     [(''s'', Start ''f''), (''f'', ParallelSplit [''a'', ''b''] ''j''),
      (''a'', ServiceTask ''ship'' ''j''), (''b'', UserTask ''approve'' ''p'' None ''ok'' ''j''),
      (''j'', ParallelJoin ''f'' ''z''), (''z'', End)]"

definition ex_definition :: workflow_definition where
  "ex_definition =
     \<lparr>wd_tenant_id = ''t'', wd_workflow_type = ''o'', wd_workflow_version = ''1'',
      wd_start_node = ''s'', wd_nodes = bt_extend [] ex_nodes, wd_decision_tables = [],
      wd_boundary_events = [], wd_node_metadata = [], wd_properties = [], wd_case_models = []\<rparr>"

definition ex_started :: instance_state where
  "ex_started = foldl evolve default_instance_state
     [WorkflowStarted ''t'' ''o'' ''1'' ''s'' 7, GatewaySplitActivated ''f'' ''j'' [''a'', ''b''] 7,
      ServiceTaskActivated ''a'' ''ship'' 7, UserTaskActivated ''b'' ''approve'' ''p'' None 7]"

definition ex_waiting :: instance_state where
  "ex_waiting = foldl evolve ex_started [ServiceTaskCompleted ''a'' [] 8, GatewayTokenArrived ''j'' 8]"

lemmas definition_defs = workflow_definition_new_def new_with_decisions_def new_with_execution_contracts_def
  no_contracts_def index_nodes_def index_tables_def insert_new_def bt_contains_key_def
  bt_get_Cons check_node_def check_target_def validate_parallel_split_def reciprocal_pair_def
  bs_collect_def validate_scope_ownership_def index_case_models_def validate_reachability_def
  successors_def boundary_events_def bt_keys_def validate_extension_properties_def
  bt_extend_def

lemmas runtime_defs = decide_def start_workflow_def definition_node_def routed_def activation_events_def
  max_steps_def usize_max_def activation_step_def activate_split_def activate_join_def
  activate_service_task_def activate_user_task_def activate_activity_def
  node_multi_instance_def arm_boundary_events_def boundary_events_def activate_task_def
  open_join_def arrive_def close_join_def emit_def bt_get_Cons routing_from_def
  state_variables_with_context_def bt_extend_def bt_contains_key_def u32_try_from_def
  u32_max_def checked_add_def default_instance_state_def Let_def activate_end_def
  owner_scope_id_def has_outstanding_work_def

lemmas ex_defs = ex_nodes_def ex_definition_def ex_context_def ex_config_def ex_engine_def

lemma ex_accepted:
  "new_with_execution_contracts ''t'' ''o'' ''1'' ''s'' ex_nodes [] no_contracts = Inr ex_definition"
  by (simp add: definition_defs ex_nodes_def ex_definition_def)

lemma ex_decide_start:
  "decide ex_definition default_instance_state (StartWorkflow ''t'' 7) ex_context =
    Inr [WorkflowStarted ''t'' ''o'' ''1'' ''s'' 7, GatewaySplitActivated ''f'' ''j'' [''a'', ''b''] 7,
      ServiceTaskActivated ''a'' ''ship'' 7, UserTaskActivated ''b'' ''approve'' ''p'' None 7]"
  by (simp add: runtime_defs ex_defs)

lemma ex_started_state:
  "ex_started = \<lparr>is_lifecycle = Active ''a'', is_sequence = 4, is_variables = [],
     is_active_tokens = [(''a'', 1), (''b'', 1)],
     is_pending_gateway_joins = [(''j'', \<lparr>pj_expected_tokens = 2, pj_arrived_tokens = 0\<rparr>)],
     is_active_multi_instances = [], is_active_boundary_subscriptions = [], is_active_scopes = [],
     is_scope_invocation_counts = [], is_active_cases = []\<rparr>"
  by (simp add: ex_started_def evolve_def evolve_defs default_instance_state_def split_join_def
      first_active_def bt_keys_def bt_get_Cons u32_try_from_def u32_max_def saturating_add_def Let_def)

lemma ex_reachable: "reachable_instance ex_definition ex_started"
  unfolding ex_started_def by (rule reachable_instance.decided [OF reachable_instance.initial ex_decide_start])

lemmas completion_defs = when_task_active_def when_active_def complete_service_task_def
  complete_user_task_def complete_and_route_def complete_task_def disarm_boundary_events_def
  disarm_boundaries_def active_scope_for_node_def

lemmas replay_defs = evolve_def evolve_defs split_join_def first_active_def release_tokens_def
  bt_keys_def bt_remove_def bt_get_Cons saturating_add_def saturating_sub_def Let_def

lemma ex_decide_service:
  "decide ex_definition ex_started (CompleteServiceTask ''a'' [] 8) ex_context =
    Inr [ServiceTaskCompleted ''a'' [] 8, GatewayTokenArrived ''j'' 8]"
  by (simp add: ex_started_state runtime_defs completion_defs ex_defs)

lemma ex_waiting_state:
  "ex_waiting = \<lparr>is_lifecycle = Active ''j'', is_sequence = 6, is_variables = [],
     is_active_tokens = [(''b'', 1)],
     is_pending_gateway_joins = [(''j'', \<lparr>pj_expected_tokens = 2, pj_arrived_tokens = 1\<rparr>)],
     is_active_multi_instances = [], is_active_boundary_subscriptions = [], is_active_scopes = [],
     is_scope_invocation_counts = [], is_active_cases = []\<rparr>"
  by (simp add: ex_waiting_def ex_started_state replay_defs bt_extend_def)

lemma ex_waiting_reachable: "reachable_instance ex_definition ex_waiting"
  unfolding ex_waiting_def by (rule reachable_instance.decided [OF ex_reachable ex_decide_service])

lemma ex_decide_user:
  "decide ex_definition ex_waiting (CompleteUserTask ''b'' ''yes'' 9) ex_context =
    Inr [UserTaskCompleted ''b'' ''yes'' ''ok'' 9, GatewayTokenArrived ''j'' 9, GatewayJoined ''j'' 9,
      WorkflowCompleted 9]"
proof -
  have "\<not> is_blank ''yes''" by (rule not_blank [of "CHR ''y''"]) (simp_all add: printable_def)
  then show ?thesis
    by (simp add: ex_waiting_state runtime_defs completion_defs ex_defs bt_remove_def)
qed

section \<open>A multi-instance activity\<close>

definition ex_mi_spec :: multi_instance_definition where
  "ex_mi_spec =
     \<lparr>mi_mode = Parallel, mi_collection_expression = None, mi_item_variable = None,
      mi_cardinality_expression = Some ''3'', mi_max_parallelism = Some 2,
      mi_completion_condition = None\<rparr>"

definition ex_mi_definition :: workflow_definition where
  "ex_mi_definition =
     \<lparr>wd_tenant_id = ''t'', wd_workflow_type = ''o'', wd_workflow_version = ''1'',
      wd_start_node = ''s'',
      wd_nodes = [(''m'', ServiceTask ''scan'' ''z''), (''s'', Start ''m''), (''z'', End)],
      wd_decision_tables = [], wd_boundary_events = [],
      wd_node_metadata = [(''m'', \<lparr>nm_multi_instance = Some ex_mi_spec, nm_properties = [],
        nm_owner_scope_id = None\<rparr>)],
      wd_properties = [], wd_case_models = []\<rparr>"

definition ex_mi_active :: active_multi_instance where
  "ex_mi_active =
     \<lparr>am_task_type = ''scan'', am_mode = Parallel, am_total_instances = 3, am_next_iteration = 2,
      am_max_parallelism = 2, am_item_variable = None, am_items = [],
      am_active_iterations = [0, 1], am_completed_iterations = []\<rparr>"

definition ex_mi_started :: instance_state where
  "ex_mi_started = foldl evolve default_instance_state
     [WorkflowStarted ''t'' ''o'' ''1'' ''s'' 7,
      MultiInstanceStarted ''m'' ''scan'' Parallel 3 2 None [] 7,
      MultiInstanceIterationActivated ''m'' ''scan'' 0 None 7,
      MultiInstanceIterationActivated ''m'' ''scan'' 1 None 7]"

lemma ex_mi_splits: "splits_nonempty ex_mi_definition"
  by (simp add: splits_nonempty_def ex_mi_definition_def bt_get_Cons)

lemma ex_mi_decide:
  "decide ex_mi_definition default_instance_state (StartWorkflow ''t'' 7) ex_context =
    Inr [WorkflowStarted ''t'' ''o'' ''1'' ''s'' 7,
      MultiInstanceStarted ''m'' ''scan'' Parallel 3 2 None [] 7,
      MultiInstanceIterationActivated ''m'' ''scan'' 0 None 7,
      MultiInstanceIterationActivated ''m'' ''scan'' 1 None 7]"
proof -
  have "trim ''3'' = ''3''" and "parse_i64 ''3'' = Some 3" and "[0..<2] = [0, Suc 0]"
    by code_simp+
  moreover have "\<not> (3::u32) \<le> 1" by (simp add: word_le_nat_alt)
  ultimately show ?thesis
    by (simp add: runtime_defs ex_defs ex_mi_definition_def ex_mi_spec_def start_multi_instance_def
        materialize_multi_instance_def materialize_items_def resolve_cardinality_def
        u32_try_from_i64_def multi_instance_parallelism_def routing_start_multi_instance_def
        new_multi_instance_def activate_iteration_def activate_next_multi_instance_def)
qed

lemma ex_mi_reachable: "reachable_instance ex_mi_definition ex_mi_started"
  unfolding ex_mi_started_def
  by (rule reachable_instance.decided [OF reachable_instance.initial ex_mi_decide])

lemma ex_mi_started_state:
  "is_active (is_lifecycle ex_mi_started)"
  "is_active_multi_instances ex_mi_started = [(''m'', ex_mi_active)]"
  by (simp_all add: ex_mi_started_def ex_mi_active_def default_instance_state_def replay_defs
      new_multi_instance_def update_multi_instance_def iteration_activated_def)

end
