(* ===== verification/Ports.thy ===== *)
theory Ports
  imports Decide
begin

text \<open>
  The ports of the engine (\<open>apps/rust/bpmp-engine/src/ports.rs\<close>) and the records that cross
  them (\<open>application.rs\<close>). A trait is a record of its methods over a store state: \<open>&self\<close>
  methods that only read return their result, \<open>commit\<close> also returns the new state. The
  locale \<open>workflow_store\<close> is the documented contract of \<open>WorkflowStorePort\<close> over an
  abstract view: append-only streams, the latest snapshot and the recorded results.
\<close>

section \<open>Records\<close>

type_synonym instance_id = string
type_synonym command_id = string
type_synonym idempotency_key = string
type_synonym correlation_id = string
type_synonym actor_id = string
type_synonym key_scope = string
type_synonym policy_version = string
type_synonym config_version = string

datatype actor_proof_kind = OriginalJwt | SignedInternalContext

record authorized_command =
  ac_tenant_id :: tenant_id
  ac_instance_id :: instance_id
  ac_command_id :: command_id
  ac_idempotency_key :: idempotency_key
  ac_correlation_id :: correlation_id
  ac_evaluated_at_epoch_ms :: u64
  ac_actor_proof :: "u8 list"
  ac_actor_proof_kind :: actor_proof_kind
  ac_workload_proof :: "u8 list"
  ac_encryption_key_scope :: key_scope
  ac_variables :: variables
  ac_command :: command

record authorization_audit =
  aa_decision_id :: string
  aa_tenant_id :: tenant_id
  aa_actor_id :: actor_id
  aa_workload_id :: string
  aa_roles :: "string list"
  aa_action :: string
  aa_workflow_type :: workflow_type
  aa_workflow_version :: workflow_version
  aa_instance_id :: instance_id
  aa_active_node_id :: string
  aa_policy_version :: policy_version
  aa_config_version :: config_version
  aa_bundle_sequence :: u64
  aa_revoke_epoch :: u64
  aa_occurred_at_epoch_ms :: u64
  aa_command_id :: command_id
  aa_correlation_id :: correlation_id
  aa_matched_grant_ids :: "string list"
  aa_encryption_key_scope :: key_scope

record event_metadata =
  em_event_id :: string
  em_tenant_id :: tenant_id
  em_instance_id :: instance_id
  em_sequence :: u64
  em_schema_version :: u32
  em_correlation_id :: correlation_id
  em_causation_command_id :: command_id
  em_occurred_at_epoch_ms :: u64
  em_config_version :: config_version
  em_policy_version :: policy_version
  em_actor_id :: actor_id
  em_encryption_key_scope :: key_scope
  em_workflow_type :: workflow_type
  em_workflow_version :: workflow_version

record event_envelope =
  ee_metadata :: event_metadata
  ee_event :: domain_event

record snapshot_envelope =
  sn_tenant_id :: tenant_id
  sn_instance_id :: instance_id
  sn_workflow_type :: workflow_type
  sn_workflow_version :: workflow_version
  sn_state :: instance_state
  sn_config_version :: config_version
  sn_policy_version :: policy_version
  sn_encryption_key_scope :: key_scope

record committed_result =
  cm_version :: u64
  cm_event_ids :: "string list"
  cm_config_version :: config_version
  cm_policy_version :: policy_version

record authorization_request =
  ar_tenant_id :: tenant_id
  ar_command_id :: command_id
  ar_evaluated_at_epoch_ms :: u64
  ar_actor_proof :: "u8 list"
  ar_actor_proof_kind :: actor_proof_kind
  ar_workload_proof :: "u8 list"
  ar_workflow_type :: workflow_type
  ar_workflow_version :: workflow_version
  ar_active_node_id :: string
  ar_action :: string

record authorized_principal =
  ap_actor_id :: actor_id
  ap_roles :: "string list"
  ap_workload_id :: string
  ap_policy_version :: policy_version
  ap_bundle_sequence :: u64
  ap_revoke_epoch :: u64
  ap_matched_grant_ids :: "string list"

datatype authorization_error =
    InvalidActorProof string
  | InvalidWorkloadProof string
  | ScopeMismatch
  | ActorProofOutsideValidity
  | WorkloadProofOutsideValidity
  | WorkloadAudienceMismatch
  | Denied string
  | AuthorizationUnavailable string
  | InvalidVerifiedIdentity

record configuration_lookup =
  cl_tenant_id :: tenant_id
  cl_workflow_type :: workflow_type
  cl_workflow_version :: workflow_version

record loaded_instance =
  li_snapshot :: "snapshot_envelope option"
  li_events :: "event_envelope list"
  li_version :: u64

record commit_request =
  cr_tenant_id :: tenant_id
  cr_instance_id :: instance_id
  cr_actor_id :: actor_id
  cr_idempotency_key :: idempotency_key
  cr_command_id :: command_id
  cr_expected_version :: u64
  cr_events :: "event_envelope list"
  cr_snapshot :: "snapshot_envelope option"
  cr_authorization_audit :: authorization_audit
  cr_result :: committed_result

datatype commit_outcome =
    Committed committed_result
  | Duplicate committed_result

datatype store_error =
    NotLeader "u64 option" "string option"
  | VersionConflict u64 u64
  | IdempotencyConflict
  | NonContiguousSequence
  | DuplicateEvent
  | InvalidSnapshot
  | InvalidAuthorizationAudit
  | InvalidGovernanceTransition string
  | StoreDataUnavailable string string u64
  | CryptoUnavailable
  | CorruptData string
  | ReplayLimitExceeded nat
  | StoreUnavailable string

section \<open>Operations\<close>

definition foreign_to_audit :: "authorization_audit \<Rightarrow> event_envelope \<Rightarrow> bool" where
  "foreign_to_audit audit e \<longleftrightarrow>
     em_tenant_id (ee_metadata e) \<noteq> aa_tenant_id audit
     \<or> em_actor_id (ee_metadata e) \<noteq> aa_actor_id audit
     \<or> em_causation_command_id (ee_metadata e) \<noteq> aa_command_id audit
     \<or> em_correlation_id (ee_metadata e) \<noteq> aa_correlation_id audit
     \<or> em_policy_version (ee_metadata e) \<noteq> aa_policy_version audit
     \<or> em_config_version (ee_metadata e) \<noteq> aa_config_version audit"

definition validate_authorization_audit :: "commit_request \<Rightarrow> store_error + unit" where
  "validate_authorization_audit r =
     (let audit = cr_authorization_audit r in
      if aa_tenant_id audit \<noteq> cr_tenant_id r
         \<or> aa_actor_id audit \<noteq> cr_actor_id r
         \<or> aa_command_id audit \<noteq> cr_command_id r
         \<or> aa_policy_version audit \<noteq> cm_policy_version (cr_result r)
         \<or> aa_config_version audit \<noteq> cm_config_version (cr_result r)
         \<or> aa_decision_id audit = []
         \<or> aa_workload_id audit = []
         \<or> aa_action audit = []
         \<or> aa_matched_grant_ids audit = []
         \<or> list_ex (foreign_to_audit audit) (cr_events r)
      then Inl InvalidAuthorizationAudit
      else Inr ())"

record 's workflow_store_port =
  ws_lookup_idempotency ::
    "'s \<Rightarrow> tenant_id \<Rightarrow> actor_id \<Rightarrow> idempotency_key \<Rightarrow> command_id
     \<Rightarrow> store_error + committed_result option"
  ws_load :: "'s \<Rightarrow> tenant_id \<Rightarrow> instance_id \<Rightarrow> store_error + loaded_instance"
  ws_commit :: "'s \<Rightarrow> commit_request \<Rightarrow> (store_error + commit_outcome) \<times> 's"

section \<open>The contract of the workflow store\<close>

text \<open>
  What a client can observe of a store: per tenant and instance the stream of committed
  events and the latest snapshot, and per idempotency scope the command that used it with
  its result.
\<close>

type_synonym stream_key = "tenant_id \<times> instance_id"
type_synonym idempotency_scope = "tenant_id \<times> actor_id \<times> idempotency_key"

record store_view =
  sv_stream :: "stream_key \<Rightarrow> event_envelope list"
  sv_snapshot :: "stream_key \<Rightarrow> snapshot_envelope option"
  sv_result :: "idempotency_scope \<Rightarrow> (command_id \<times> committed_result) option"

definition request_stream :: "commit_request \<Rightarrow> stream_key" where
  "request_stream r = (cr_tenant_id r, cr_instance_id r)"

definition request_scope :: "commit_request \<Rightarrow> idempotency_scope" where
  "request_scope r = (cr_tenant_id r, cr_actor_id r, cr_idempotency_key r)"

definition sequence_of :: "event_envelope \<Rightarrow> u64" where
  "sequence_of e = em_sequence (ee_metadata e)"

text \<open>Events numbered without gaps after a version.\<close>

definition numbered_from :: "nat \<Rightarrow> event_envelope list \<Rightarrow> bool" where
  "numbered_from n es \<longleftrightarrow> (\<forall>i < length es. unat (sequence_of (es ! i)) = n + Suc i)"

definition snapshot_sequence :: "snapshot_envelope option \<Rightarrow> u64" where
  "snapshot_sequence snapshot =
     (case snapshot of None \<Rightarrow> 0 | Some sn \<Rightarrow> is_sequence (sn_state sn))"

definition view_commit :: "store_view \<Rightarrow> commit_request \<Rightarrow> store_view" where
  "view_commit v r =
     v\<lparr>sv_stream := (sv_stream v)(request_stream r := sv_stream v (request_stream r) @ cr_events r),
       sv_snapshot := (case cr_snapshot r of None \<Rightarrow> sv_snapshot v
                       | Some sn \<Rightarrow> (sv_snapshot v)(request_stream r := Some sn)),
       sv_result := (sv_result v)(request_scope r := Some (cr_command_id r, cr_result r))\<rparr>"

locale workflow_store =
  fixes port :: "'s workflow_store_port"
    and view :: "'s \<Rightarrow> store_view"
  assumes lookup_law:
      "ws_lookup_idempotency port s t a k c =
        (case sv_result (view s) (t, a, k) of
           None \<Rightarrow> Inr None
         | Some (c', result) \<Rightarrow> if c' = c then Inr (Some result) else Inl IdempotencyConflict)"
    and load_law:
      "ws_load port s t i = Inr loaded \<Longrightarrow>
        unat (li_version loaded) = length (sv_stream (view s) (t, i))
        \<and> li_snapshot loaded = sv_snapshot (view s) (t, i)
        \<and> li_events loaded =
            filter (\<lambda>e. snapshot_sequence (li_snapshot loaded) < sequence_of e)
              (sv_stream (view s) (t, i))"
    and commit_law:
      "ws_commit port s r = (Inr (Committed result), s') \<Longrightarrow>
        sv_result (view s) (request_scope r) = None
        \<and> unat (cr_expected_version r) = length (sv_stream (view s) (request_stream r))
        \<and> result = cr_result r \<and> view s' = view_commit (view s) r"
    and duplicate_law:
      "ws_commit port s r = (Inr (Duplicate result), s') \<Longrightarrow>
        sv_result (view s) (request_scope r) = Some (cr_command_id r, result)
        \<and> view s' = view s"
    and error_law:
      "ws_commit port s r = (Inl e, s') \<Longrightarrow> view s' = view s"
begin

lemma commit_cases:
  obtains (committed) result where "fst (ws_commit port s r) = Inr (Committed result)"
      "sv_result (view s) (request_scope r) = None"
      "unat (cr_expected_version r) = length (sv_stream (view s) (request_stream r))"
      "result = cr_result r" "view (snd (ws_commit port s r)) = view_commit (view s) r"
  | (kept) "\<And>result. fst (ws_commit port s r) \<noteq> Inr (Committed result)"
      "view (snd (ws_commit port s r)) = view s"
proof (cases "ws_commit port s r")
  case (Pair outcome s')
  show ?thesis
  proof (cases outcome)
    case (Inl e)
    then show ?thesis using Pair error_law [of s r e s'] by (intro kept) simp_all
  next
    case (Inr c)
    then show ?thesis
      using Pair commit_law [of s r _ s'] duplicate_law [of s r _ s']
      by (cases c) (auto intro: committed kept)
  qed
qed

text \<open>A recorded result is never overwritten.\<close>

lemma recorded_result_kept:
  assumes "sv_result (view s) scope = Some entry"
  shows "sv_result (view (snd (ws_commit port s r))) scope = Some entry"
  by (rule commit_cases [of s r]) (use assms in \<open>auto simp: view_commit_def\<close>)

text \<open>Streams only grow.\<close>

lemma stream_extends:
  "\<exists>es. sv_stream (view (snd (ws_commit port s r))) k = sv_stream (view s) k @ es"
  by (rule commit_cases [of s r]) (auto simp: view_commit_def)

end

section \<open>Lemmas\<close>

lemma numbered_from_Nil [simp]: "numbered_from n []"
  by (simp add: numbered_from_def)

lemma numbered_from_Cons:
  "numbered_from n (e # es) \<longleftrightarrow> unat (sequence_of e) = Suc n \<and> numbered_from (Suc n) es"
  by (auto simp: numbered_from_def less_Suc_eq_0_disj)

lemma numbered_from_append:
  "numbered_from n (es @ fs) \<longleftrightarrow> numbered_from n es \<and> numbered_from (n + length es) fs"
  by (induction es arbitrary: n) (auto simp: numbered_from_Cons)

text \<open>In a numbered stream the events after a sequence number are the tail.\<close>

lemma numbered_from_tail:
  "numbered_from n es \<Longrightarrow> filter (\<lambda>e. w < sequence_of e) es = drop (unat w - n) es"
proof (induction es arbitrary: n)
  case (Cons e es)
  then have IH: "filter (\<lambda>e. w < sequence_of e) es = drop (unat w - Suc n) es"
    by (simp add: numbered_from_Cons)
  have "w < sequence_of e \<longleftrightarrow> unat w < Suc n"
    using Cons.prems by (simp add: numbered_from_Cons word_less_nat_alt)
  then show ?case using IH by (simp add: drop_Cons' Suc_le_eq not_less_eq)
qed simp

end
