(* ===== verification/Engine.thy ===== *)
theory Engine
  imports Ports
begin

text \<open>
  The command handler of the engine (\<open>apps/rust/bpmp-engine/src/application.rs\<close>):
  authorisation, idempotency lookup, configuration, replay, decision, metadata, snapshot and
  commit. \<open>handle\<close> takes the three ports as arguments; \<open>prepare_commit\<close> is its middle part,
  from the resolved configuration to the commit request. The lemmas are proved for every
  store that satisfies the contract \<open>workflow_store\<close>, also when other handlers commit
  between the load and the commit of one handler.
\<close>

section \<open>Operations\<close>

datatype handle_outcome =
    HandleCommitted committed_result
  | HandleDuplicate committed_result

datatype engine_error =
    Authorization authorization_error
  | ConfigurationFailed config_error
  | Domain failure
  | StoreFailed store_error
  | DataUnavailableForCompliance string string u64
  | SequenceOverflow
  | SnapshotWorkflowMismatch
  | PersistedWorkflowMismatch
  | DefinitionTenantMismatch
  | EncryptionKeyScopeMismatch
  | PolicyVersionMismatch policy_version policy_version

definition EVENT_SCHEMA_VERSION :: u32 where
  "EVENT_SCHEMA_VERSION = 1"

fun from_store_load :: "store_error \<Rightarrow> engine_error" where
  "from_store_load (StoreDataUnavailable key_scope key_version key_epoch) =
     DataUnavailableForCompliance key_scope key_version key_epoch"
| "from_store_load e = StoreFailed e"

fun transition_selector :: "workflow_definition \<Rightarrow> command \<Rightarrow> string \<times> string" where
  "transition_selector d (ActivateCase case_id _ _) = (case_id, ''ACTIVATE_CASE'')"
| "transition_selector d (EvaluateCaseSentries case_id _) = (case_id, ''EVALUATE_CASE_SENTRIES'')"
| "transition_selector d (StartWorkflow _ _) = (wd_start_node d, ''START'')"
| "transition_selector d (CompleteServiceTask n _ _) = (n, ''COMPLETE_SERVICE_TASK'')"
| "transition_selector d (CompleteUserTask n _ _) = (n, ''COMPLETE_USER_TASK'')"
| "transition_selector d (CompleteScriptTask n _) = (n, ''COMPLETE_SCRIPT_TASK'')"
| "transition_selector d (CompleteMultiInstanceIteration n _ _) =
     (n, ''COMPLETE_MULTI_INSTANCE_ITERATION'')"
| "transition_selector d (TriggerBoundaryEvent b _) = (b, ''TRIGGER_BOUNDARY_EVENT'')"

fun event_time :: "domain_event \<Rightarrow> u64" where
  "event_time (CaseActivated _ _ _ _ at) = at"
| "event_time (CaseSentrySatisfied _ _ at) = at"
| "event_time (CasePlanItemTransitioned _ _ _ _ _ at) = at"
| "event_time (CaseCompleted _ at) = at"
| "event_time (WorkflowStarted _ _ _ _ at) = at"
| "event_time (ServiceTaskActivated _ _ at) = at"
| "event_time (ServiceTaskCompleted _ _ at) = at"
| "event_time (UserTaskActivated _ _ _ _ at) = at"
| "event_time (UserTaskCompleted _ _ _ at) = at"
| "event_time (UserTaskCancelled _ _ at) = at"
| "event_time (ScriptTaskActivated _ _ _ _ at) = at"
| "event_time (ScriptTaskCompleted _ at) = at"
| "event_time (DecisionTaskEvaluated _ _ _ at) = at"
| "event_time (GatewaySplitActivated _ _ _ at) = at"
| "event_time (GatewayTokenArrived _ at) = at"
| "event_time (GatewayJoined _ at) = at"
| "event_time (BoundaryEventArmed _ _ _ _ _ at) = at"
| "event_time (BoundaryEventsDisarmed _ _ at) = at"
| "event_time (MultiInstanceStarted _ _ _ _ _ _ _ at) = at"
| "event_time (MultiInstanceIterationActivated _ _ _ _ at) = at"
| "event_time (MultiInstanceIterationCompleted _ _ at) = at"
| "event_time (MultiInstanceCompleted _ _ _ at) = at"
| "event_time (BoundaryEventTriggered _ _ _ _ _ _ at) = at"
| "event_time (ScopeEntered _ _ _ _ _ at) = at"
| "event_time (ScopeCompleted _ _ _ at) = at"
| "event_time (WorkflowBranchCompleted _ at) = at"
| "event_time (WorkflowCompleted at) = at"
| "event_time (WorkflowTerminatedForCompliance _ _ _ _ at) = at"

definition validate_configuration_binding ::
  "authorized_command \<Rightarrow> resolved_config_snapshot \<Rightarrow> authorized_principal \<Rightarrow> engine_error + unit" where
  "validate_configuration_binding request configuration authorized =
     (if rc_policy_version configuration \<noteq> ap_policy_version authorized
      then Inl (PolicyVersionMismatch (rc_policy_version configuration) (ap_policy_version authorized))
      else if ac_encryption_key_scope request \<noteq> en_event_payload_key_scope (rc_engine configuration)
      then Inl EncryptionKeyScopeMismatch
      else Inr ())"

definition attach_one ::
  "workflow_definition \<Rightarrow> authorized_command \<Rightarrow> actor_id \<Rightarrow> resolved_config_snapshot \<Rightarrow> u64
   \<Rightarrow> nat \<times> domain_event \<Rightarrow> engine_error + event_envelope" where
  "attach_one d request actor configuration current_version = (\<lambda>(ordinal, event).
     and_then (ok_or (u64_try_from ordinal) SequenceOverflow) (\<lambda>offset.
     and_then (ok_or (Option.bind (checked_add current_version offset) (\<lambda>v. checked_add v 1))
       SequenceOverflow) (\<lambda>sequence.
     Inr \<lparr>ee_metadata =
            \<lparr>em_event_id = ac_command_id request @ '':'' @ show_nat (unat sequence),
             em_tenant_id = ac_tenant_id request,
             em_instance_id = ac_instance_id request,
             em_sequence = sequence,
             em_schema_version = EVENT_SCHEMA_VERSION,
             em_correlation_id = ac_correlation_id request,
             em_causation_command_id = ac_command_id request,
             em_occurred_at_epoch_ms = event_time event,
             em_config_version = rc_config_version configuration,
             em_policy_version = rc_policy_version configuration,
             em_actor_id = actor,
             em_encryption_key_scope = ac_encryption_key_scope request,
             em_workflow_type = wd_workflow_type d,
             em_workflow_version = wd_workflow_version d\<rparr>,
          ee_event = event\<rparr>)))"

definition attach_metadata ::
  "workflow_definition \<Rightarrow> authorized_command \<Rightarrow> actor_id \<Rightarrow> resolved_config_snapshot \<Rightarrow> u64
   \<Rightarrow> domain_event list \<Rightarrow> engine_error + event_envelope list" where
  "attach_metadata d request actor configuration current_version events =
     try_map (attach_one d request actor configuration current_version) (enumerate 0 events)"

definition new_committed_result ::
  "u64 \<Rightarrow> event_envelope list \<Rightarrow> resolved_config_snapshot \<Rightarrow> engine_error + committed_result" where
  "new_committed_result current_version events configuration =
     and_then (ok_or (u64_try_from (length events)) SequenceOverflow) (\<lambda>event_count.
     and_then (ok_or (checked_add current_version event_count) SequenceOverflow) (\<lambda>version.
     Inr \<lparr>cm_version = version,
          cm_event_ids = map (\<lambda>e. em_event_id (ee_metadata e)) events,
          cm_config_version = rc_config_version configuration,
          cm_policy_version = rc_policy_version configuration\<rparr>))"

definition build_authorization_audit ::
  "workflow_definition \<Rightarrow> authorized_command \<Rightarrow> resolved_config_snapshot \<Rightarrow> authorized_principal
   \<Rightarrow> string \<Rightarrow> string \<Rightarrow> authorization_audit" where
  "build_authorization_audit d request configuration authorized active_node action =
     \<lparr>aa_decision_id = ''allow:'' @ ac_command_id request,
      aa_tenant_id = ac_tenant_id request,
      aa_actor_id = ap_actor_id authorized,
      aa_workload_id = ap_workload_id authorized,
      aa_roles = ap_roles authorized,
      aa_action = action,
      aa_workflow_type = wd_workflow_type d,
      aa_workflow_version = wd_workflow_version d,
      aa_instance_id = ac_instance_id request,
      aa_active_node_id = active_node,
      aa_policy_version = ap_policy_version authorized,
      aa_config_version = rc_config_version configuration,
      aa_bundle_sequence = ap_bundle_sequence authorized,
      aa_revoke_epoch = ap_revoke_epoch authorized,
      aa_occurred_at_epoch_ms = ac_evaluated_at_epoch_ms request,
      aa_command_id = ac_command_id request,
      aa_correlation_id = ac_correlation_id request,
      aa_matched_grant_ids = ap_matched_grant_ids authorized,
      aa_encryption_key_scope = en_authorization_audit_key_scope (rc_engine configuration)\<rparr>"

text \<open>
  The loop of \<open>snapshot_at_latest_boundary\<close>. The remainder by the configured interval panics
  when the interval is zero.
\<close>

fun snapshot_loop ::
  "u64 \<Rightarrow> (instance_state \<Rightarrow> snapshot_envelope) \<Rightarrow> instance_state \<Rightarrow> snapshot_envelope option
   \<Rightarrow> event_envelope list \<Rightarrow> engine_error + snapshot_envelope option" where
  "snapshot_loop interval mk state latest [] = Inr latest"
| "snapshot_loop interval mk state latest (e # es) =
     (let state = evolve state (ee_event e) in
      if interval = 0 then Inl (Domain (Panic ''remainder with a divisor of zero''))
      else snapshot_loop interval mk state
             (if sequence_of e mod interval = 0 then Some (mk state) else latest) es)"

definition snapshot_at_latest_boundary ::
  "workflow_definition \<Rightarrow> authorized_command \<Rightarrow> resolved_config_snapshot \<Rightarrow> instance_state
   \<Rightarrow> event_envelope list \<Rightarrow> engine_error + snapshot_envelope option" where
  "snapshot_at_latest_boundary d request configuration state events =
     snapshot_loop (ucast (en_snapshot_interval_events (rc_engine configuration)))
       (\<lambda>state. \<lparr>sn_tenant_id = ac_tenant_id request,
                sn_instance_id = ac_instance_id request,
                sn_workflow_type = wd_workflow_type d,
                sn_workflow_version = wd_workflow_version d,
                sn_state = state,
                sn_config_version = rc_config_version configuration,
                sn_policy_version = rc_policy_version configuration,
                sn_encryption_key_scope = ac_encryption_key_scope request\<rparr>)
       state None events"

definition load_instance ::
  "'s workflow_store_port \<Rightarrow> 's \<Rightarrow> authorized_command \<Rightarrow> engine_error + loaded_instance" where
  "load_instance port s request =
     map_err from_store_load (ws_load port s (ac_tenant_id request) (ac_instance_id request))"

definition snapshot_mismatch :: "workflow_definition \<Rightarrow> snapshot_envelope option \<Rightarrow> bool" where
  "snapshot_mismatch d snapshot \<longleftrightarrow>
     (case snapshot of None \<Rightarrow> False
      | Some sn \<Rightarrow> sn_workflow_type sn \<noteq> wd_workflow_type d
                   \<or> sn_workflow_version sn \<noteq> wd_workflow_version d)"

definition event_mismatch :: "workflow_definition \<Rightarrow> event_envelope \<Rightarrow> bool" where
  "event_mismatch d e \<longleftrightarrow> em_workflow_type (ee_metadata e) \<noteq> wd_workflow_type d
     \<or> em_workflow_version (ee_metadata e) \<noteq> wd_workflow_version d"

definition decide_commit ::
  "workflow_definition \<Rightarrow> authorized_command \<Rightarrow> authorized_principal \<Rightarrow> resolved_config_snapshot
   \<Rightarrow> loaded_instance \<Rightarrow> engine_error + commit_request" where
  "decide_commit d request authorized configuration loaded =
     (let (active_node, action) = transition_selector d (ac_command request);
          state = rehydrate (map_option sn_state (li_snapshot loaded)) (map ee_event (li_events loaded)) in
      and_then (map_err Domain (decide d state (ac_command request)
        \<lparr>dc_configuration = configuration, dc_variables = ac_variables request\<rparr>)) (\<lambda>domain_events.
      and_then (attach_metadata d request (ap_actor_id authorized) configuration (li_version loaded)
        domain_events) (\<lambda>envelopes.
      and_then (new_committed_result (li_version loaded) envelopes configuration) (\<lambda>result.
      and_then (snapshot_at_latest_boundary d request configuration state envelopes) (\<lambda>snapshot.
      Inr \<lparr>cr_tenant_id = ac_tenant_id request,
           cr_instance_id = ac_instance_id request,
           cr_actor_id = ap_actor_id authorized,
           cr_idempotency_key = ac_idempotency_key request,
           cr_command_id = ac_command_id request,
           cr_expected_version = li_version loaded,
           cr_events = envelopes,
           cr_snapshot = snapshot,
           cr_authorization_audit =
             build_authorization_audit d request configuration authorized active_node action,
           cr_result = result\<rparr>)))))"

definition prepare_commit ::
  "'s workflow_store_port \<Rightarrow> (configuration_lookup \<Rightarrow> config_error + resolved_config_snapshot) \<Rightarrow> 's
   \<Rightarrow> workflow_definition \<Rightarrow> authorized_command \<Rightarrow> authorized_principal
   \<Rightarrow> engine_error + commit_request" where
  "prepare_commit port resolve s d request authorized =
     and_then (map_err ConfigurationFailed (resolve
       \<lparr>cl_tenant_id = ac_tenant_id request, cl_workflow_type = wd_workflow_type d,
        cl_workflow_version = wd_workflow_version d\<rparr>)) (\<lambda>configuration.
     and_then (validate_configuration_binding request configuration authorized) (\<lambda>_.
     and_then (load_instance port s request) (\<lambda>loaded.
     if snapshot_mismatch d (li_snapshot loaded) then Inl SnapshotWorkflowMismatch
     else if list_ex (event_mismatch d) (li_events loaded) then Inl PersistedWorkflowMismatch
     else decide_commit d request authorized configuration loaded)))"

definition authorization_of :: "workflow_definition \<Rightarrow> authorized_command \<Rightarrow> authorization_request" where
  "authorization_of d request =
     (let (active_node, action) = transition_selector d (ac_command request) in
      \<lparr>ar_tenant_id = ac_tenant_id request,
       ar_command_id = ac_command_id request,
       ar_evaluated_at_epoch_ms = ac_evaluated_at_epoch_ms request,
       ar_actor_proof = ac_actor_proof request,
       ar_actor_proof_kind = ac_actor_proof_kind request,
       ar_workload_proof = ac_workload_proof request,
       ar_workflow_type = wd_workflow_type d,
       ar_workflow_version = wd_workflow_version d,
       ar_active_node_id = active_node,
       ar_action = action\<rparr>)"

definition handle_authorized ::
  "'s workflow_store_port \<Rightarrow> (configuration_lookup \<Rightarrow> config_error + resolved_config_snapshot) \<Rightarrow> 's
   \<Rightarrow> workflow_definition \<Rightarrow> authorized_command \<Rightarrow> authorized_principal
   \<Rightarrow> (engine_error + handle_outcome) \<times> 's" where
  "handle_authorized port resolve s d request authorized =
     (case ws_lookup_idempotency port s (ac_tenant_id request) (ap_actor_id authorized)
        (ac_idempotency_key request) (ac_command_id request) of
       Inl e \<Rightarrow> (Inl (StoreFailed e), s)
     | Inr (Some result) \<Rightarrow> (Inr (HandleDuplicate result), s)
     | Inr None \<Rightarrow>
        (case prepare_commit port resolve s d request authorized of
          Inl e \<Rightarrow> (Inl e, s)
        | Inr r \<Rightarrow>
           (case ws_commit port s r of
             (Inl e, s') \<Rightarrow> (Inl (StoreFailed e), s')
           | (Inr (Committed result), s') \<Rightarrow> (Inr (HandleCommitted result), s')
           | (Inr (Duplicate result), s') \<Rightarrow> (Inr (HandleDuplicate result), s'))))"

definition handle ::
  "'s workflow_store_port \<Rightarrow> (authorization_request \<Rightarrow> authorization_error + authorized_principal)
   \<Rightarrow> (configuration_lookup \<Rightarrow> config_error + resolved_config_snapshot) \<Rightarrow> 's
   \<Rightarrow> workflow_definition \<Rightarrow> authorized_command \<Rightarrow> (engine_error + handle_outcome) \<times> 's" where
  "handle port authorize resolve s d request =
     (if ac_tenant_id request \<noteq> wd_tenant_id d then (Inl DefinitionTenantMismatch, s)
      else case authorize (authorization_of d request) of
        Inl e \<Rightarrow> (Inl (Authorization e), s)
      | Inr authorized \<Rightarrow> handle_authorized port resolve s d request authorized)"

lemma handle_cases:
  obtains (kept) "snd (handle port authorize resolve s d request) = s"
  | (committed) authorized r where "ac_tenant_id request = wd_tenant_id d"
      "prepare_commit port resolve s d request authorized = Inr r"
      "snd (handle port authorize resolve s d request) = snd (ws_commit port s r)"
  by (fastforce simp: handle_def handle_authorized_def
      split: if_splits prod.splits sum.splits option.splits commit_outcome.splits)

text \<open>The result a command was answered with, whether now or by an earlier attempt.\<close>

primrec outcome_result :: "handle_outcome \<Rightarrow> committed_result" where
  "outcome_result (HandleCommitted result) = result"
| "outcome_result (HandleDuplicate result) = result"

end
