(* ===== verification/Engine_Runs.thy ===== *)
theory Engine_Runs
  imports Engine
begin

text \<open>
  What the engine guarantees over a workflow store. \<open>engine_run\<close> interleaves the two halves
  of \<open>handle\<close> (prepare a commit request from the current store, commit a prepared request)
  for any number of concurrent handlers. In every reachable store each stream is numbered
  without gaps, stamped with one workflow version, and its replay is a reachable instance
  of that definition; stored snapshots are the replay of a prefix.
\<close>

section \<open>Streams and snapshots\<close>

type_synonym definitions = "tenant_id \<times> workflow_type \<times> workflow_version \<Rightarrow> workflow_definition option"

definition registered :: "definitions \<Rightarrow> workflow_definition \<Rightarrow> bool" where
  "registered R d \<longleftrightarrow> R (wd_tenant_id d, wd_workflow_type d, wd_workflow_version d) = Some d"

definition replay :: "event_envelope list \<Rightarrow> instance_state" where
  "replay es = rehydrate None (map ee_event es)"

definition loaded_state :: "loaded_instance \<Rightarrow> instance_state" where
  "loaded_state loaded =
     rehydrate (map_option sn_state (li_snapshot loaded)) (map ee_event (li_events loaded))"

definition stamped :: "workflow_definition \<Rightarrow> stream_key \<Rightarrow> event_envelope \<Rightarrow> bool" where
  "stamped d k e \<longleftrightarrow> em_tenant_id (ee_metadata e) = fst k \<and> em_instance_id (ee_metadata e) = snd k
     \<and> \<not> event_mismatch d e"

text \<open>The events of an instance, as a sequence of decisions.\<close>

inductive reachable_history :: "workflow_definition \<Rightarrow> domain_event list \<Rightarrow> bool" for d where
  empty: "reachable_history d []"
| decided: "reachable_history d es \<Longrightarrow> decide d (rehydrate None es) command ctx = Inr fs \<Longrightarrow>
    reachable_history d (es @ fs)"

lemma reachable_history_instance:
  "reachable_history d es \<Longrightarrow> reachable_instance d (rehydrate None es)"
proof (induction rule: reachable_history.induct)
  case empty
  show ?case by (simp add: rehydrate_def reachable_instance.initial)
next
  case (decided es command ctx fs)
  then show ?case by (auto simp: rehydrate_def dest: reachable_instance.decided)
qed

definition stream_of :: "workflow_definition \<Rightarrow> stream_key \<Rightarrow> event_envelope list \<Rightarrow> bool" where
  "stream_of d k es \<longleftrightarrow> wd_tenant_id d = fst k \<and> length es < 2 ^ LENGTH(64) \<and> numbered_from 0 es
     \<and> (\<forall>e \<in> set es. stamped d k e) \<and> reachable_history d (map ee_event es)"

definition snapshot_of ::
  "workflow_definition \<Rightarrow> stream_key \<Rightarrow> event_envelope list \<Rightarrow> snapshot_envelope \<Rightarrow> bool" where
  "snapshot_of d k es sn \<longleftrightarrow> \<not> snapshot_mismatch d (Some sn)
     \<and> (let n = unat (is_sequence (sn_state sn)) in
          0 < n \<and> n \<le> length es \<and> sn_state sn = replay (take n es))"

definition view_ok :: "definitions \<Rightarrow> store_view \<Rightarrow> bool" where
  "view_ok R v \<longleftrightarrow> (\<forall>k. sv_stream v k = [] \<and> sv_snapshot v k = None
     \<or> (\<exists>d. registered R d \<and> stream_of d k (sv_stream v k)
           \<and> (\<forall>sn. sv_snapshot v k = Some sn \<longrightarrow> snapshot_of d k (sv_stream v k) sn)))"

lemma stream_of_reachable: "stream_of d k es \<Longrightarrow> reachable_instance d (replay es)"
  by (simp add: stream_of_def replay_def reachable_history_instance)

text \<open>
  A prepared request extends the prefix of its stream that was loaded, which stays a prefix
  while other handlers commit.
\<close>

definition prepared_ok :: "definitions \<Rightarrow> store_view \<Rightarrow> commit_request \<Rightarrow> bool" where
  "prepared_ok R v r \<longleftrightarrow>
     (let k = request_stream r; n = unat (cr_expected_version r);
          es = take n (sv_stream v k) @ cr_events r in
      n \<le> length (sv_stream v k)
      \<and> (\<exists>d. registered R d \<and> stream_of d k es
           \<and> (\<forall>sn. cr_snapshot r = Some sn \<longrightarrow> snapshot_of d k es sn)))"

inductive engine_run ::
  "'s workflow_store_port \<Rightarrow> definitions \<Rightarrow> 's \<Rightarrow> 's \<Rightarrow> commit_request list \<Rightarrow> bool"
  for port R s0 where
  idle: "engine_run port R s0 s0 []"
| prepare: "engine_run port R s0 s pending \<Longrightarrow> registered R d \<Longrightarrow>
    ac_tenant_id request = wd_tenant_id d \<Longrightarrow>
    prepare_commit port resolve s d request authorized = Inr r \<Longrightarrow>
    engine_run port R s0 s (r # pending)"
| commit: "engine_run port R s0 s pending \<Longrightarrow> r \<in> set pending \<Longrightarrow>
    engine_run port R s0 (snd (ws_commit port s r)) pending"

section \<open>Replay\<close>

lemma replay_append: "replay (es @ fs) = foldl evolve (replay es) (map ee_event fs)"
  by (simp add: replay_def rehydrate_def)

lemma replay_sequence:
  "length es < 2 ^ LENGTH(64) \<Longrightarrow> unat (is_sequence (replay es)) = length es"
  using sequence_replay [of 0 "map ee_event es"]
  by (simp add: replay_def rehydrate_def sequence_view.proj_replay default_instance_state_def)

lemma snapshot_of_append: "snapshot_of d k es sn \<Longrightarrow> snapshot_of d k (es @ fs) sn"
  by (auto simp: snapshot_of_def Let_def)

lemma registered_unique:
  "registered R d \<Longrightarrow> registered R d' \<Longrightarrow> wd_tenant_id d = wd_tenant_id d' \<Longrightarrow>
    wd_workflow_type d = wd_workflow_type d' \<Longrightarrow> wd_workflow_version d = wd_workflow_version d' \<Longrightarrow>
    d = d'"
  by (simp add: registered_def)

lemma stamped_unique:
  assumes "registered R d" "registered R d'" and "stream_of d k es" "stream_of d' k fs"
    and "e \<in> set es" "e \<in> set fs"
  shows "d = d'"
  using assms(1,2)
  by (rule registered_unique)
     (use assms(3-6) in \<open>auto simp: stream_of_def stamped_def event_mismatch_def\<close>)

section \<open>Metadata and snapshots of a decision\<close>

lemma attach_one_Inr:
  assumes "attach_one d request actor cfg version (ordinal, event) = Inr e"
  shows "ee_event e = event" and "unat (sequence_of e) = unat version + Suc ordinal"
    and "stamped d (ac_tenant_id request, ac_instance_id request) e"
proof -
  from assms obtain offset v sequence where offset: "u64_try_from ordinal = Some offset"
    and v: "checked_add version offset = Some v" and sequence: "checked_add v 1 = Some sequence"
    and e: "ee_event e = event" "sequence_of e = sequence"
      "stamped d (ac_tenant_id request, ac_instance_id request) e"
    by (auto simp: attach_one_def and_then_Inr ok_or_Inr bind_eq_Some_conv sequence_of_def
        stamped_def event_mismatch_def)
  show "ee_event e = event" and "stamped d (ac_tenant_id request, ac_instance_id request) e"
    using e by simp_all
  show "unat (sequence_of e) = unat version + Suc ordinal"
    using unat_checked_add [OF v] unat_checked_add [OF sequence] unat_u64_try_from [OF offset] e
    by simp
qed

lemma attach_metadata_Inr:
  assumes "attach_metadata d request actor cfg version events = Inr es"
  shows "map ee_event es = events" and "numbered_from (unat version) es"
    and "\<forall>e \<in> set es. stamped d (ac_tenant_id request, ac_instance_id request) e"
proof -
  have len: "length es = length events"
    and nth: "attach_one d request actor cfg version (i, events ! i) = Inr (es ! i)"
      if "i < length events" for i
    using assms that
    by (auto simp: attach_metadata_def try_map_Inr list_all2_conv_all_nth nth_enumerate_eq)
  have len: "length es = length events"
    using assms by (auto simp: attach_metadata_def try_map_Inr dest: list_all2_lengthD)
  show "map ee_event es = events"
    by (rule nth_equalityI) (simp_all add: len attach_one_Inr(1) [OF nth])
  show "numbered_from (unat version) es"
    by (simp add: numbered_from_def len attach_one_Inr(2) [OF nth])
  show "\<forall>e \<in> set es. stamped d (ac_tenant_id request, ac_instance_id request) e"
    by (auto simp: in_set_conv_nth len intro: attach_one_Inr(3) [OF nth])
qed

text \<open>
  The snapshot is the state at the last event whose sequence number is a multiple of the
  interval.
\<close>

fun last_boundary :: "u64 \<Rightarrow> event_envelope list \<Rightarrow> nat option" where
  "last_boundary interval [] = None"
| "last_boundary interval (e # es) =
     (case last_boundary interval es of
        Some j \<Rightarrow> Some (Suc j)
      | None \<Rightarrow> if sequence_of e mod interval = 0 then Some 1 else None)"

lemma last_boundary_bounds: "last_boundary interval es = Some j \<Longrightarrow> 0 < j \<and> j \<le> length es"
  by (induction es arbitrary: j) (auto split: option.splits if_splits)

lemma snapshot_loop_boundary:
  assumes "interval \<noteq> 0"
  shows "snapshot_loop interval mk st latest es =
    Inr (case last_boundary interval es of
           None \<Rightarrow> latest
         | Some j \<Rightarrow> Some (mk (foldl evolve st (map ee_event (take j es)))))"
  using assms
  by (induction es arbitrary: st latest) (auto simp: Let_def split: option.splits)

lemma snapshot_loop_Inr:
  "snapshot_loop interval mk st latest es = Inr snapshot \<Longrightarrow> es = [] \<or> interval \<noteq> 0"
  by (cases es) (auto simp: Let_def split: if_splits)

text \<open>The last multiple of the interval that a stream of some length has reached.\<close>

definition snapshot_boundary :: "nat \<Rightarrow> nat \<Rightarrow> nat" where
  "snapshot_boundary interval n = n - n mod interval"

lemma last_boundary_snoc:
  "last_boundary interval (es @ [e]) =
    (if sequence_of e mod interval = 0 then Some (Suc (length es)) else last_boundary interval es)"
  by (induction es) (auto split: option.splits)

lemma snapshot_boundary_Suc:
  "snapshot_boundary k (Suc n) = (if Suc n mod k = 0 then Suc n else snapshot_boundary k n)"
  by (simp add: snapshot_boundary_def mod_Suc)

lemma snapshot_boundary_le: "snapshot_boundary k n \<le> n"
  by (simp add: snapshot_boundary_def)

lemma last_boundary_numbered:
  assumes "numbered_from n es"
  shows "last_boundary interval es =
    (let b = snapshot_boundary (unat interval) (n + length es) in if n < b then Some (b - n) else None)"
  using assms
proof (induction es rule: rev_induct)
  case Nil
  then show ?case using snapshot_boundary_le [of "unat interval" n] by (simp add: Let_def not_less)
next
  case (snoc e es)
  have nums: "numbered_from n es" and "numbered_from (n + length es) [e]"
    using snoc.prems by (simp_all add: numbered_from_append)
  then have seq: "unat (sequence_of e) = Suc (n + length es)" by (simp add: numbered_from_def)
  have "sequence_of e mod interval = 0 \<longleftrightarrow> Suc (n + length es) mod unat interval = 0"
    by (simp add: unat_eq_0 [symmetric] unat_mod seq)
  then show ?case
    using snoc.IH [OF nums] by (simp add: last_boundary_snoc snapshot_boundary_Suc Let_def)
qed

lemma boundary_snapshot:
  assumes "snapshot_at_latest_boundary d request cfg st es = Inr snapshot" and "numbered_from n es" and "es \<noteq> []"
  shows "snapshot =
    (let b = snapshot_boundary (unat (en_snapshot_interval_events (rc_engine cfg))) (n + length es) in
     if n < b
     then Some \<lparr>sn_tenant_id = ac_tenant_id request, sn_instance_id = ac_instance_id request,
        sn_workflow_type = wd_workflow_type d, sn_workflow_version = wd_workflow_version d,
        sn_state = foldl evolve st (map ee_event (take (b - n) es)),
        sn_config_version = rc_config_version cfg, sn_policy_version = rc_policy_version cfg,
        sn_encryption_key_scope = ac_encryption_key_scope request\<rparr>
     else None)"
proof -
  let ?interval = "ucast (en_snapshot_interval_events (rc_engine cfg)) :: u64"
  have interval: "?interval \<noteq> 0"
    using assms(1,3) unfolding snapshot_at_latest_boundary_def by (auto dest: snapshot_loop_Inr)
  have "unat ?interval = unat (en_snapshot_interval_events (rc_engine cfg))"
    by (simp add: unsigned_ucast_eq take_bit_nat_eq_self_iff
        order_less_le_trans [OF unsigned_less [of "en_snapshot_interval_events (rc_engine cfg)"]])
  then show ?thesis
    using assms(1) last_boundary_numbered [OF assms(2), of ?interval]
    by (auto simp: snapshot_at_latest_boundary_def snapshot_loop_boundary [OF interval] Let_def)
qed

lemma snapshot_at_latest_boundary_Inr:
  assumes "snapshot_at_latest_boundary d request cfg (replay es) fs = Inr (Some sn)"
    and "length (es @ fs) < 2 ^ LENGTH(64)"
  shows "snapshot_of d k (es @ fs) sn" and "length es < unat (is_sequence (sn_state sn))"
proof -
  let ?interval = "ucast (en_snapshot_interval_events (rc_engine cfg)) :: u64"
  have "fs \<noteq> []"
    using assms(1) by (auto simp: snapshot_at_latest_boundary_def)
  then have interval: "?interval \<noteq> 0"
    using assms(1) unfolding snapshot_at_latest_boundary_def by (auto dest: snapshot_loop_Inr)
  from assms(1) obtain j where j: "last_boundary ?interval fs = Some j"
    and state: "sn_state sn = foldl evolve (replay es) (map ee_event (take j fs))"
    and match: "\<not> snapshot_mismatch d (Some sn)"
    by (auto simp: snapshot_at_latest_boundary_def snapshot_loop_boundary [OF interval]
        snapshot_mismatch_def split: option.splits)
  have bounds: "0 < j" "j \<le> length fs" using last_boundary_bounds [OF j] by simp_all
  have take: "take (length es + j) (es @ fs) = es @ take j fs" by simp
  have st: "sn_state sn = replay (take (length es + j) (es @ fs))"
    by (simp only: take replay_append state)
  have "unat (is_sequence (sn_state sn)) = length es + j"
    unfolding st using assms(2) bounds by (subst replay_sequence) simp_all
  then show "snapshot_of d k (es @ fs) sn" and "length es < unat (is_sequence (sn_state sn))"
    using bounds match st by (simp_all add: snapshot_of_def Let_def)
qed

lemma snapshot_identity:
  assumes "snapshot_at_latest_boundary d request cfg st es = Inr (Some sn)"
  shows "sn_tenant_id sn = ac_tenant_id request \<and> sn_instance_id sn = ac_instance_id request"
proof -
  have "P sn" if "snapshot_loop interval mk st latest es = Inr (Some sn)" "\<And>s. P (mk s)" "\<And>x. latest = Some x \<Longrightarrow> P x"
    for interval mk latest and P :: "snapshot_envelope \<Rightarrow> bool"
    using that by (induction es arbitrary: st latest) (auto simp: Let_def split: if_splits)
  from this [OF assms [unfolded snapshot_at_latest_boundary_def], of "\<lambda>x.
      sn_tenant_id x = ac_tenant_id request \<and> sn_instance_id x = ac_instance_id request"]
  show ?thesis by simp
qed

section \<open>A prepared request\<close>

lemma new_committed_result_Inr:
  assumes "new_committed_result version es cfg = Inr result"
  shows "unat version + length es < 2 ^ LENGTH(64)" and "unat (cm_version result) = unat version + length es"
proof -
  from assms obtain n v where n: "u64_try_from (length es) = Some n"
    and v: "checked_add version n = Some v" and result: "cm_version result = v"
    by (auto simp: new_committed_result_def and_then_Inr ok_or_Inr)
  show "unat version + length es < 2 ^ LENGTH(64)"
    using v unat_u64_try_from [OF n] by (simp add: checked_add_Some)
  show "unat (cm_version result) = unat version + length es"
    using unat_checked_add [OF v] unat_u64_try_from [OF n] result by simp
qed

lemma decide_commit_Inr:
  assumes "decide_commit d request authorized cfg loaded = Inr r"
  shows "request_stream r = (ac_tenant_id request, ac_instance_id request)"
    and "request_scope r = (ac_tenant_id request, ap_actor_id authorized, ac_idempotency_key request)"
    and "cr_command_id r = ac_command_id request"
    and "cr_expected_version r = li_version loaded"
    and "\<exists>ctx. decide d (loaded_state loaded) (ac_command request) ctx = Inr (map ee_event (cr_events r))"
    and "numbered_from (unat (li_version loaded)) (cr_events r)"
    and "\<forall>e \<in> set (cr_events r). stamped d (request_stream r) e"
    and "unat (li_version loaded) + length (cr_events r) < 2 ^ LENGTH(64)"
    and "unat (cm_version (cr_result r)) = unat (li_version loaded) + length (cr_events r)"
    and "snapshot_at_latest_boundary d request cfg (loaded_state loaded) (cr_events r) = Inr (cr_snapshot r)"
proof -
  from assms obtain events es result snapshot where
    decided: "decide d (loaded_state loaded) (ac_command request)
        \<lparr>dc_configuration = cfg, dc_variables = ac_variables request\<rparr> = Inr events"
    and es: "attach_metadata d request (ap_actor_id authorized) cfg (li_version loaded) events = Inr es"
    and result: "new_committed_result (li_version loaded) es cfg = Inr result"
    and snapshot: "snapshot_at_latest_boundary d request cfg (loaded_state loaded) es = Inr snapshot"
    and r: "request_stream r = (ac_tenant_id request, ac_instance_id request)"
      "request_scope r = (ac_tenant_id request, ap_actor_id authorized, ac_idempotency_key request)"
      "cr_command_id r = ac_command_id request" "cr_expected_version r = li_version loaded"
      "cr_events r = es" "cr_snapshot r = snapshot" "cr_result r = result"
    by (auto simp: decide_commit_def loaded_state_def Let_def and_then_Inr map_err_Inr request_stream_def
        request_scope_def split: prod.splits)
  show "request_stream r = (ac_tenant_id request, ac_instance_id request)"
    and "request_scope r = (ac_tenant_id request, ap_actor_id authorized, ac_idempotency_key request)"
    and "cr_command_id r = ac_command_id request" and "cr_expected_version r = li_version loaded"
    by (simp_all add: r)
  show "\<exists>ctx. decide d (loaded_state loaded) (ac_command request) ctx = Inr (map ee_event (cr_events r))"
    using decided attach_metadata_Inr(1) [OF es] r by auto
  show "numbered_from (unat (li_version loaded)) (cr_events r)"
    and "\<forall>e \<in> set (cr_events r). stamped d (request_stream r) e"
    using attach_metadata_Inr(2,3) [OF es] r by simp_all
  show "unat (li_version loaded) + length (cr_events r) < 2 ^ LENGTH(64)"
    and "unat (cm_version (cr_result r)) = unat (li_version loaded) + length (cr_events r)"
    using new_committed_result_Inr [OF result] r by simp_all
  show "snapshot_at_latest_boundary d request cfg (loaded_state loaded) (cr_events r) = Inr (cr_snapshot r)"
    using snapshot r by simp
qed

lemma attach_metadata_audit:
  assumes "attach_metadata d request actor cfg version events = Inr es"
    and "e \<in> set es"
  shows "\<not> foreign_to_audit (build_authorization_audit d request cfg
    (authorized\<lparr>ap_actor_id := actor, ap_policy_version := rc_policy_version cfg\<rparr>) active_node action) e"
proof -
  from assms(2) obtain j where j: "j < length es" "es ! j = e" by (auto simp: in_set_conv_nth)
  obtain i event where x: "enumerate 0 events ! j = (i, event)" by force
  have "attach_one d request actor cfg version (i, event) = Inr e"
    using assms(1) j x by (auto simp: attach_metadata_def try_map_Inr list_all2_conv_all_nth)
  then show ?thesis
    by (auto simp: attach_one_def and_then_Inr foreign_to_audit_def build_authorization_audit_def)
qed

lemma transition_selector_action: "snd (transition_selector d command) \<noteq> []"
  by (cases command) simp_all

text \<open>The audit record of a prepared request describes exactly its events.\<close>

lemma decide_commit_audit:
  assumes "decide_commit d request authorized cfg loaded = Inr r"
    and "rc_policy_version cfg = ap_policy_version authorized"
    and "ap_workload_id authorized \<noteq> []" and "ap_matched_grant_ids authorized \<noteq> []"
  shows "validate_authorization_audit r = Inr ()"
proof -
  obtain active_node action where selector: "transition_selector d (ac_command request) = (active_node, action)"
    by force
  let ?audit = "build_authorization_audit d request cfg authorized active_node action"
  from assms(1) obtain events es result where
    es: "attach_metadata d request (ap_actor_id authorized) cfg (li_version loaded) events = Inr es"
    and result: "new_committed_result (li_version loaded) es cfg = Inr result"
    and r: "cr_tenant_id r = ac_tenant_id request" "cr_actor_id r = ap_actor_id authorized"
      "cr_command_id r = ac_command_id request" "cr_events r = es"
      "cr_authorization_audit r = ?audit" "cr_result r = result"
    by (auto simp: decide_commit_def Let_def selector and_then_Inr map_err_Inr)
  have "\<not> foreign_to_audit ?audit e" if "e \<in> set es" for e
    using attach_metadata_audit [OF es that, of authorized active_node action] assms(2) by simp
  then have "\<not> list_ex (foreign_to_audit ?audit) es" by (simp add: list_ex_iff)
  moreover have "cm_policy_version result = rc_policy_version cfg" "cm_config_version result = rc_config_version cfg"
    using result by (auto simp: new_committed_result_def and_then_Inr)
  moreover have "action \<noteq> []" using transition_selector_action [of d "ac_command request"] selector by simp
  ultimately show ?thesis
    using assms(2-4) r by (simp add: validate_authorization_audit_def Let_def build_authorization_audit_def)
qed

lemma prepare_commit_Inr:
  assumes "prepare_commit port resolve s d request authorized = Inr r"
  obtains cfg loaded where "ws_load port s (ac_tenant_id request) (ac_instance_id request) = Inr loaded"
    "\<not> snapshot_mismatch d (li_snapshot loaded)" "\<forall>e \<in> set (li_events loaded). \<not> event_mismatch d e"
    "decide_commit d request authorized cfg loaded = Inr r"
    "rc_policy_version cfg = ap_policy_version authorized"
  using assms
  by (auto simp: prepare_commit_def load_instance_def validate_configuration_binding_def and_then_Inr
      map_err_Inr list_ex_iff split: if_splits)

lemma handle_authorized_Inr [consumes 1, case_names recorded committed duplicate]:
  assumes "handle_authorized port resolve s d request authorized = (Inr outcome, s')"
  obtains result where "ws_lookup_idempotency port s (ac_tenant_id request) (ap_actor_id authorized)
      (ac_idempotency_key request) (ac_command_id request) = Inr (Some result)"
      "outcome = HandleDuplicate result" "s' = s"
  | r result where "prepare_commit port resolve s d request authorized = Inr r"
      "ws_commit port s r = (Inr (Committed result), s')" "outcome = HandleCommitted result"
  | r result where "prepare_commit port resolve s d request authorized = Inr r"
      "ws_commit port s r = (Inr (Duplicate result), s')" "outcome = HandleDuplicate result"
  using assms
  by (auto simp: handle_authorized_def
      split: prod.splits sum.splits option.splits commit_outcome.splits)

section \<open>The engine over a store\<close>

lemma view_ok_cases:
  assumes "view_ok R v"
  obtains "sv_stream v k = []" "sv_snapshot v k = None"
  | d where "registered R d" "stream_of d k (sv_stream v k)"
      "\<And>sn. sv_snapshot v k = Some sn \<Longrightarrow> snapshot_of d k (sv_stream v k) sn"
  using assms unfolding view_ok_def by metis

text \<open>What a handler loads: the full replay, whatever snapshot it starts from.\<close>

lemma loaded_state_replay:
  assumes "numbered_from 0 es"
    and "li_events loaded = filter (\<lambda>e. snapshot_sequence (li_snapshot loaded) < sequence_of e) es"
    and "\<And>sn. li_snapshot loaded = Some sn \<Longrightarrow> snapshot_of d k es sn"
  shows "loaded_state loaded = replay es"
proof (cases "li_snapshot loaded")
  case None
  then have "li_events loaded = es"
    using assms(2) numbered_from_tail [OF assms(1), of 0] by (simp add: snapshot_sequence_def)
  then show ?thesis by (simp add: loaded_state_def replay_def None)
next
  case (Some sn)
  let ?n = "unat (is_sequence (sn_state sn))"
  have "li_events loaded = drop ?n es"
    using assms(2) numbered_from_tail [OF assms(1)] by (simp add: snapshot_sequence_def Some)
  moreover have "sn_state sn = replay (take ?n es)"
    using assms(3) [OF Some] by (simp add: snapshot_of_def Let_def)
  then have "rehydrate (Some (sn_state sn)) (map ee_event (drop ?n es)) =
      replay (take ?n es @ drop ?n es)"
    by (simp only: replay_append) (simp add: rehydrate_def)
  ultimately show ?thesis by (simp add: loaded_state_def Some)
qed

context workflow_store
begin

lemma loaded_replay:
  assumes "view_ok R (view s)" and "ws_load port s t i = Inr loaded"
  shows "loaded_state loaded = replay (sv_stream (view s) (t, i))"
proof -
  note load = load_law [OF assms(2)]
  show ?thesis
  proof (cases rule: view_ok_cases [OF assms(1), of "(t, i)"])
    case 1
    then show ?thesis using load by (simp add: loaded_state_def replay_def)
  next
    case (2 d)
    then show ?thesis
      using load by (intro loaded_state_replay [where d = d and k = "(t, i)"]) (simp_all add: stream_of_def)
  qed
qed

text \<open>The definition a handler uses is the one that wrote the stream.\<close>

lemma loaded_definition:
  assumes "view_ok R (view s)" and "ws_load port s t i = Inr loaded"
    and "registered R d" and "t = wd_tenant_id d"
    and "\<not> snapshot_mismatch d (li_snapshot loaded)"
    and "\<forall>e \<in> set (li_events loaded). \<not> event_mismatch d e"
  shows "stream_of d (t, i) (sv_stream (view s) (t, i))"
proof -
  let ?k = "(t, i)" and ?es = "sv_stream (view s) (t, i)"
  note load = load_law [OF assms(2)]
  show ?thesis
  proof (cases "?es = []")
    case True
    then show ?thesis
      using assms(4) by (simp add: stream_of_def reachable_history.empty)
  next
    case False
    obtain d' where d': "registered R d'" "stream_of d' ?k ?es"
      and sn: "\<forall>sn. sv_snapshot (view s) ?k = Some sn \<longrightarrow> snapshot_of d' ?k ?es sn"
      by (rule view_ok_cases [OF assms(1), of ?k]) (use False in auto)
    have "wd_workflow_type d' = wd_workflow_type d \<and> wd_workflow_version d' = wd_workflow_version d"
    proof (cases "li_snapshot loaded")
      case None
      then have "li_events loaded = ?es"
        using load d'(2) numbered_from_tail [of 0 ?es 0] by (simp add: snapshot_sequence_def stream_of_def)
      with False obtain e where "e \<in> set ?es" "\<not> event_mismatch d e"
        using assms(6) by (cases ?es) auto
      then show ?thesis using d'(2) by (auto simp: stream_of_def stamped_def event_mismatch_def)
    next
      case (Some x)
      then have "\<not> snapshot_mismatch d' (Some x)" using sn load by (simp add: snapshot_of_def)
      then show ?thesis using assms(5) Some by (simp add: snapshot_mismatch_def)
    qed
    moreover have "wd_tenant_id d' = wd_tenant_id d" using d'(2) assms(4) by (simp add: stream_of_def)
    ultimately have "d' = d" using d'(1) assms(3) by (intro registered_unique) simp_all
    then show ?thesis using d'(2) by simp
  qed
qed

lemma prepare_ok:
  assumes "view_ok R (view s)" and "registered R d" and "ac_tenant_id request = wd_tenant_id d"
    and "prepare_commit port resolve s d request authorized = Inr r"
  shows "prepared_ok R (view s) r"
proof -
  let ?k = "(ac_tenant_id request, ac_instance_id request)"
  let ?es = "sv_stream (view s) ?k"
  from assms(4) obtain cfg loaded where
    load: "ws_load port s (ac_tenant_id request) (ac_instance_id request) = Inr loaded"
    and match: "\<not> snapshot_mismatch d (li_snapshot loaded)" "\<forall>e \<in> set (li_events loaded). \<not> event_mismatch d e"
    and r: "decide_commit d request authorized cfg loaded = Inr r"
    by (rule prepare_commit_Inr)
  note r = decide_commit_Inr [OF r]
  have stream: "stream_of d ?k ?es"
    using assms(1) load assms(2,3) match by (rule loaded_definition)
  have state: "loaded_state loaded = replay ?es" using assms(1) load by (rule loaded_replay)
  have version: "unat (li_version loaded) = length ?es" using load_law [OF load] by simp
  from r(5) obtain ctx where
    "decide d (replay ?es) (ac_command request) ctx = Inr (map ee_event (cr_events r))"
    unfolding state by blast
  then have "reachable_history d (map ee_event (?es @ cr_events r))"
    unfolding map_append using stream
    by (intro reachable_history.decided) (simp_all add: stream_of_def replay_def)
  then have extended: "stream_of d ?k (?es @ cr_events r)"
    using stream r(1,6-8) version by (auto simp: stream_of_def numbered_from_append)
  have "snapshot_of d ?k (?es @ cr_events r) sn" if "cr_snapshot r = Some sn" for sn
    using r(8,10) that version unfolding state
    by (intro snapshot_at_latest_boundary_Inr(1) [of d request cfg]) simp_all
  then show ?thesis
    using extended assms(2) r(1,4) version by (auto simp: prepared_ok_def Let_def)
qed

lemma prepared_kept:
  assumes "prepared_ok R (view s) r"
  shows "prepared_ok R (view (snd (ws_commit port s r'))) r"
proof -
  obtain es where "sv_stream (view (snd (ws_commit port s r'))) (request_stream r) =
      sv_stream (view s) (request_stream r) @ es"
    using stream_extends by blast
  then show ?thesis using assms by (simp add: prepared_ok_def Let_def)
qed

lemma commit_ok:
  assumes "view_ok R (view s)" and "prepared_ok R (view s) r"
  shows "view_ok R (view (snd (ws_commit port s r)))"
proof (rule commit_cases [of s r])
  assume new: "view (snd (ws_commit port s r)) = view_commit (view s) r"
    and version: "unat (cr_expected_version r) = length (sv_stream (view s) (request_stream r))"
  let ?k = "request_stream r" and ?es = "sv_stream (view s) (request_stream r)"
  from assms(2) version obtain d where d: "registered R d" "stream_of d ?k (?es @ cr_events r)"
    and sn: "\<forall>sn. cr_snapshot r = Some sn \<longrightarrow> snapshot_of d ?k (?es @ cr_events r) sn"
    by (auto simp: prepared_ok_def Let_def)
  have old: "snapshot_of d ?k (?es @ cr_events r) sn" if stored: "sv_snapshot (view s) ?k = Some sn" for sn
  proof -
    obtain d' where d': "registered R d'" "stream_of d' ?k ?es" "snapshot_of d' ?k ?es sn"
      by (rule view_ok_cases [OF assms(1), of ?k]) (use stored in auto)
    then have "?es \<noteq> []" by (auto simp: snapshot_of_def Let_def)
    then obtain e where e: "e \<in> set ?es" by (cases ?es) auto
    have "d = d'" by (rule stamped_unique [OF d(1) d'(1) d(2) d'(2)]) (use e in simp_all)
    then show ?thesis using d'(3) by (simp add: snapshot_of_append)
  qed
  have "sv_stream (view_commit (view s) r) k = [] \<and> sv_snapshot (view_commit (view s) r) k = None
     \<or> (\<exists>d. registered R d \<and> stream_of d k (sv_stream (view_commit (view s) r) k)
           \<and> (\<forall>sn. sv_snapshot (view_commit (view s) r) k = Some sn \<longrightarrow>
                snapshot_of d k (sv_stream (view_commit (view s) r) k) sn))" for k
  proof (cases "k = ?k")
    case True
    then show ?thesis
      using d sn old by (auto simp: view_commit_def split: option.splits intro!: exI [of _ d])
  next
    case False
    then have "sv_stream (view_commit (view s) r) k = sv_stream (view s) k"
      and "sv_snapshot (view_commit (view s) r) k = sv_snapshot (view s) k"
      by (simp_all add: view_commit_def split: option.splits)
    then show ?thesis using assms(1) [unfolded view_ok_def, rule_format, of k] by (simp only:)
  qed
  then show ?thesis unfolding new view_ok_def by blast
next
  assume "view (snd (ws_commit port s r)) = view s"
  then show ?thesis using assms(1) by simp
qed

lemma engine_run_ok:
  assumes "engine_run port R s0 s pending" and "view_ok R (view s0)"
  shows "view_ok R (view s) \<and> (\<forall>r \<in> set pending. prepared_ok R (view s) r)"
  using assms(1)
proof (induction rule: engine_run.induct)
  case idle
  then show ?case using assms(2) by simp
next
  case (prepare s pending d request resolve authorized r)
  then show ?case using prepare_ok [of R s d request resolve authorized r] by simp
next
  case (commit s pending r)
  then show ?case using commit_ok [of R s r] prepared_kept [of R s _ r] by blast
qed

text \<open>A whole \<open>handle\<close> call is a run of one handler.\<close>

lemma handle_run:
  assumes "engine_run port R s0 s pending" and "registered R d"
  shows "\<exists>pending'. engine_run port R s0 (snd (handle port authorize resolve s d request)) pending'"
proof (cases rule: handle_cases [of port authorize resolve s d request])
  case kept
  then show ?thesis using assms(1) by metis
next
  case (committed authorized r)
  have "engine_run port R s0 s (r # pending)"
    using assms committed(1,2) by (rule engine_run.prepare)
  then have "engine_run port R s0 (snd (ws_commit port s r)) (r # pending)"
    by (rule engine_run.commit) simp
  then show ?thesis using committed(3) by auto
qed

text \<open>Once a command has a result, the result is recorded and every retry returns it.\<close>

lemma recorded_kept:
  "sv_result (view s) scope = Some entry \<Longrightarrow>
    sv_result (view (foldl (\<lambda>s r. snd (ws_commit port s r)) s rs)) scope = Some entry"
  by (induction rs arbitrary: s) (simp_all add: recorded_result_kept)

lemma handle_records:
  assumes "handle port authorize resolve s d request = (Inr outcome, s')"
  obtains authorized where "ac_tenant_id request = wd_tenant_id d"
    "authorize (authorization_of d request) = Inr authorized"
    "sv_result (view s') (ac_tenant_id request, ap_actor_id authorized, ac_idempotency_key request) =
      Some (ac_command_id request, outcome_result outcome)"
proof -
  from assms obtain authorized where tenant: "ac_tenant_id request = wd_tenant_id d"
    and auth: "authorize (authorization_of d request) = Inr authorized"
    and rest: "handle_authorized port resolve s d request authorized = (Inr outcome, s')"
    by (auto simp: handle_def split: if_splits sum.splits)
  have "sv_result (view s') (ac_tenant_id request, ap_actor_id authorized, ac_idempotency_key request) =
      Some (ac_command_id request, outcome_result outcome)"
    using rest
  proof (cases rule: handle_authorized_Inr)
    case (recorded result)
    then show ?thesis by (auto simp: lookup_law split: option.splits if_splits)
  next
    case (committed r result)
    from committed(1) obtain cfg loaded where "decide_commit d request authorized cfg loaded = Inr r"
      by (rule prepare_commit_Inr)
    then show ?thesis
      using commit_law [OF committed(2)] committed(3)
      by (simp add: decide_commit_Inr view_commit_def)
  next
    case (duplicate r result)
    from duplicate(1) obtain cfg loaded where "decide_commit d request authorized cfg loaded = Inr r"
      by (rule prepare_commit_Inr)
    then show ?thesis
      using duplicate_law [OF duplicate(2)] duplicate(3) by (simp add: decide_commit_Inr)
  qed
  then show thesis using tenant auth by (intro that)
qed

lemma handle_retry:
  assumes "handle port authorize resolve s d request = (Inr outcome, s')"
    and "s'' = foldl (\<lambda>s r. snd (ws_commit port s r)) s' rs"
  shows "handle port authorize resolve' s'' d request = (Inr (HandleDuplicate (outcome_result outcome)), s'')"
  by (rule handle_records [OF assms(1)])
     (use recorded_kept assms(2) in \<open>simp add: handle_def handle_authorized_def lookup_law\<close>)

end

end
