(* ===== verification/Outbox.thy ===== *)
theory Outbox
  imports Prelude "HOL-Library.Sublist"
begin

text \<open>
  The integration event publisher (\<open>apps/rust/bpmp-engine/src/outbox.rs\<close>): batches are read
  after a durable checkpoint, every record is published with bounded retries, and the
  checkpoint moves only after the acknowledgement. The broker is a function on its own
  state; the delays waited for are collected in a list. The locale \<open>outbox_store\<close> is the
  contract of \<open>OutboxStorePort\<close>.
\<close>

section \<open>Data\<close>

record outbox_record =
  ob_cursor :: u64
  ob_tenant_id :: string
  ob_instance_id :: string
  ob_event_id :: string
  ob_correlation_id :: string
  ob_causation_command_id :: string
  ob_payload :: "u8 list"

record publish_acknowledgement =
  pa_event_id :: string

datatype outbox_error =
    InvalidOutboxConfiguration
  | BatchLimitExceeded
  | InvalidRecordOrder
  | AcknowledgementMismatch
  | PublishAttemptsExhausted
  | OutboxCheckpointConflict
  | OutboxStoreUnavailable string
  | BrokerUnavailable string

record 's outbox_store_port =
  os_publisher_checkpoint :: "'s \<Rightarrow> outbox_error + u64"
  os_read_after :: "'s \<Rightarrow> u64 \<Rightarrow> nat \<Rightarrow> outbox_error + outbox_record list"
  os_checkpoint :: "'s \<Rightarrow> u64 \<Rightarrow> u64 \<Rightarrow> (outbox_error + unit) \<times> 's"

type_synonym 'b broker = "'b \<Rightarrow> outbox_record \<Rightarrow> (outbox_error + publish_acknowledgement) \<times> 'b"

record outbox_publisher_config =
  oc_batch_size :: nat
  oc_max_publish_attempts :: u32
  oc_initial_retry_delay_ms :: u64
  oc_max_retry_delay_ms :: u64
  oc_retry_multiplier_millis :: u32

record publish_batch_outcome =
  pb_published :: nat
  pb_checkpoint :: u64

section \<open>Operations\<close>

definition outbox_publisher_config_new ::
  "nat \<Rightarrow> u32 \<Rightarrow> u64 \<Rightarrow> u64 \<Rightarrow> u32 \<Rightarrow> outbox_error + outbox_publisher_config" where
  "outbox_publisher_config_new batch_size max_publish_attempts initial_retry_delay_ms
     max_retry_delay_ms retry_multiplier_millis =
     (if batch_size = 0
         \<or> max_publish_attempts = 0
         \<or> initial_retry_delay_ms = 0
         \<or> max_retry_delay_ms < initial_retry_delay_ms
         \<or> retry_multiplier_millis < 1000
      then Inl InvalidOutboxConfiguration
      else Inr \<lparr>oc_batch_size = batch_size,
                oc_max_publish_attempts = max_publish_attempts,
                oc_initial_retry_delay_ms = initial_retry_delay_ms,
                oc_max_retry_delay_ms = max_retry_delay_ms,
                oc_retry_multiplier_millis = retry_multiplier_millis\<rparr>)"

definition next_delay :: "u64 \<Rightarrow> outbox_publisher_config \<Rightarrow> u64" where
  "next_delay current config =
     min (saturating_mul current (ucast (oc_retry_multiplier_millis config)) div 1000)
         (oc_max_retry_delay_ms config)"

fun batch_order :: "u64 \<Rightarrow> outbox_record list \<Rightarrow> outbox_error + unit" where
  "batch_order previous [] = Inr ()"
| "batch_order previous (r # rs) =
     (if ob_cursor r \<le> previous \<or> ob_event_id r = [] \<or> ob_payload r = []
      then Inl InvalidRecordOrder
      else batch_order (ob_cursor r) rs)"

definition validate_batch :: "outbox_record list \<Rightarrow> u64 \<Rightarrow> nat \<Rightarrow> outbox_error + unit" where
  "validate_batch records checkpoint configured_limit =
     (if configured_limit < length records then Inl BatchLimitExceeded
      else batch_order checkpoint records)"

text \<open>
  The retry loop over the attempts \<open>1..=max_publish_attempts\<close>; its argument is the number
  of attempts left, so that the last one is \<open>Suc 0\<close>.
\<close>

fun publish_loop ::
  "'b broker \<Rightarrow> outbox_publisher_config \<Rightarrow> outbox_record \<Rightarrow> nat \<Rightarrow> u64 \<Rightarrow> 'b \<Rightarrow> u64 list
   \<Rightarrow> (outbox_error + unit) \<times> 'b \<times> u64 list" where
  "publish_loop publish config r 0 delay b waits = (Inl PublishAttemptsExhausted, b, waits)"
| "publish_loop publish config r (Suc attempts_left) delay b waits =
     (case publish b r of
        (Inr ack, b') \<Rightarrow>
          (if pa_event_id ack = ob_event_id r then Inr () else Inl AcknowledgementMismatch, b', waits)
      | (Inl e, b') \<Rightarrow>
          if attempts_left = 0 then (Inl e, b', waits)
          else publish_loop publish config r attempts_left (next_delay delay config) b' (waits @ [delay]))"

definition publish_with_retry ::
  "'b broker \<Rightarrow> outbox_publisher_config \<Rightarrow> outbox_record \<Rightarrow> 'b \<Rightarrow> u64 list
   \<Rightarrow> (outbox_error + unit) \<times> 'b \<times> u64 list" where
  "publish_with_retry publish config r b waits =
     publish_loop publish config r (unat (oc_max_publish_attempts config))
       (oc_initial_retry_delay_ms config) b waits"

record ('s, 'b) publisher_state =
  ps_store :: 's
  ps_broker :: 'b
  ps_waits :: "u64 list"

fun publish_records ::
  "'s outbox_store_port \<Rightarrow> 'b broker \<Rightarrow> outbox_publisher_config \<Rightarrow> u64 \<Rightarrow> outbox_record list
   \<Rightarrow> ('s, 'b) publisher_state \<Rightarrow> (outbox_error + u64) \<times> ('s, 'b) publisher_state" where
  "publish_records port publish config checkpoint [] p = (Inr checkpoint, p)"
| "publish_records port publish config checkpoint (r # rs) p =
     (case publish_with_retry publish config r (ps_broker p) (ps_waits p) of
        (Inl e, b, waits) \<Rightarrow> (Inl e, p\<lparr>ps_broker := b, ps_waits := waits\<rparr>)
      | (Inr _, b, waits) \<Rightarrow>
         (case os_checkpoint port (ps_store p) checkpoint (ob_cursor r) of
            (Inl e, s) \<Rightarrow> (Inl e, p\<lparr>ps_broker := b, ps_waits := waits, ps_store := s\<rparr>)
          | (Inr _, s) \<Rightarrow>
              publish_records port publish config (ob_cursor r) rs
                (p\<lparr>ps_broker := b, ps_waits := waits, ps_store := s\<rparr>)))"

definition run_once_with_config ::
  "'s outbox_store_port \<Rightarrow> 'b broker \<Rightarrow> outbox_publisher_config \<Rightarrow> u64 \<Rightarrow> ('s, 'b) publisher_state
   \<Rightarrow> (outbox_error + publish_batch_outcome) \<times> ('s, 'b) publisher_state" where
  "run_once_with_config port publish config initial_checkpoint p =
     (case os_read_after port (ps_store p) initial_checkpoint (oc_batch_size config) of
        Inl e \<Rightarrow> (Inl e, p)
      | Inr records \<Rightarrow>
         (case validate_batch records initial_checkpoint (oc_batch_size config) of
            Inl e \<Rightarrow> (Inl e, p)
          | Inr _ \<Rightarrow>
             (case publish_records port publish config initial_checkpoint records p of
                (Inl e, p') \<Rightarrow> (Inl e, p')
              | (Inr checkpoint, p') \<Rightarrow>
                  (Inr \<lparr>pb_published = length records, pb_checkpoint = checkpoint\<rparr>, p'))))"

section \<open>Retry delays\<close>

lemma unat_ucast_u32: "unat (ucast w :: u64) = unat w" for w :: u32
proof -
  have "unat w < 2 ^ LENGTH(32)" by (rule unsigned_less)
  then show ?thesis by (simp add: unsigned_ucast_eq take_bit_nat_eq_self)
qed

lemma next_delay_max: "next_delay delay config \<le> oc_max_retry_delay_ms config"
  by (simp add: next_delay_def)

lemma next_delay_grows:
  assumes "1000 \<le> oc_retry_multiplier_millis config"
    and "unat (oc_max_retry_delay_ms config) * unat (oc_retry_multiplier_millis config) < 2 ^ LENGTH(64)"
    and "delay \<le> oc_max_retry_delay_ms config"
  shows "delay \<le> next_delay delay config"
proof -
  let ?m = "ucast (oc_retry_multiplier_millis config) :: u64"
  have m: "unat ?m = unat (oc_retry_multiplier_millis config)"
    by (rule unat_ucast_u32)
  have "unat delay * unat ?m \<le> unat (oc_max_retry_delay_ms config) * unat ?m"
    using assms(3) by (intro mult_le_mono1) (simp add: word_le_nat_alt)
  also have "\<dots> < 2 ^ LENGTH(64)" using assms(2) m by simp
  finally have prod: "unat (saturating_mul delay ?m) = unat delay * unat ?m"
    by (simp add: unat_saturating_mul)
  have "1000 \<le> unat ?m" using assms(1) m by (simp add: word_le_nat_alt)
  then have "unat delay * 1000 \<le> unat delay * unat ?m" by simp
  then have "unat delay \<le> unat delay * unat ?m div 1000"
    by (simp add: less_eq_div_iff_mult_less_eq)
  then have "delay \<le> saturating_mul delay ?m div 1000"
    using prod by (simp add: word_le_nat_alt unat_div)
  then show ?thesis using assms(3) by (simp add: next_delay_def)
qed

text \<open>The delays of one record: at most one fewer than the attempts, ascending, bounded.\<close>

lemma publish_loop_waits:
  assumes "publish_loop publish config r attempts delay b waits = (res, b', waits')"
    and "1000 \<le> oc_retry_multiplier_millis config"
    and "unat (oc_max_retry_delay_ms config) * unat (oc_retry_multiplier_millis config) < 2 ^ LENGTH(64)"
    and "delay \<le> oc_max_retry_delay_ms config"
  shows "\<exists>ds. waits' = waits @ ds \<and> (attempts = 0 \<or> length ds < attempts) \<and> sorted (delay # ds)
    \<and> (\<forall>d \<in> set ds. d \<le> oc_max_retry_delay_ms config)"
  using assms(1,4)
proof (induction attempts arbitrary: delay b waits)
  case (Suc attempts)
  obtain ack b1 where publish: "publish b r = (ack, b1)" by force
  show ?case
  proof (cases "(\<exists>e. ack = Inl e) \<and> attempts \<noteq> 0")
    case True
    then have loop: "publish_loop publish config r attempts (next_delay delay config) b1 (waits @ [delay]) =
        (res, b', waits')"
      using Suc.prems publish by auto
    from Suc.IH [OF loop next_delay_max] obtain ds where
      ds: "waits' = waits @ delay # ds" "length ds < attempts" "sorted (next_delay delay config # ds)"
        "\<forall>d \<in> set ds. d \<le> oc_max_retry_delay_ms config"
      using True by auto
    have "delay \<le> next_delay delay config"
      by (rule next_delay_grows [OF assms(2,3) Suc.prems(2)])
    then have "sorted (delay # delay # ds)"
      using ds(3) by (auto intro: order_trans)
    then show ?thesis
      using ds Suc.prems(2) by (intro exI [of _ "delay # ds"]) simp
  next
    case False
    then have "waits' = waits" using Suc.prems publish by (cases ack) auto
    then show ?thesis by simp
  qed
qed simp

section \<open>Delivery\<close>

lemma batch_order_above:
  "batch_order c rs = Inr () \<Longrightarrow> \<forall>r \<in> set rs. c < ob_cursor r"
  by (induction rs arbitrary: c) (fastforce split: if_splits)+

text \<open>
  The broker keeps a log of what it accepted. An acknowledged record is in the log; a
  publication that failed may or may not have reached it.
\<close>

definition broker_log :: "'b broker \<Rightarrow> ('b \<Rightarrow> outbox_record list) \<Rightarrow> bool" where
  "broker_log publish log \<longleftrightarrow> (\<forall>b r. case publish b r of
     (res, b') \<Rightarrow> (log b' = log b \<or> log b' = log b @ [r])
       \<and> (\<forall>ack. res = Inr ack \<longrightarrow> log b' = log b @ [r]))"

lemma publish_loop_log:
  assumes "broker_log publish log"
    and "publish_loop publish config r attempts delay b waits = (res, b', waits')"
  shows "\<exists>n. log b' = log b @ replicate n r \<and> (res = Inr () \<longrightarrow> 0 < n)"
  using assms(2)
proof (induction attempts arbitrary: delay b waits)
  case 0
  then show ?case by (intro exI [of _ 0]) auto
next
  case (Suc attempts)
  obtain ack b1 where publish: "publish b r = (ack, b1)" by force
  then have law: "log b1 = log b \<or> log b1 = log b @ [r]" "ack = Inr x \<Longrightarrow> log b1 = log b @ [r]" for x
    using assms(1) [unfolded broker_log_def, THEN spec, THEN spec, of b r] by simp_all
  show ?case
  proof (cases ack)
    case (Inl e)
    show ?thesis
    proof (cases "attempts = 0")
      case True
      then have "res = Inl e" "b' = b1" using Suc.prems publish Inl by simp_all
      then show ?thesis using law(1) by (auto intro: exI [of _ 0] exI [of _ 1])
    next
      case False
      then obtain n where n: "log b' = log b1 @ replicate n r" "res = Inr () \<longrightarrow> 0 < n"
        using Suc.IH [of "next_delay delay config" b1 "waits @ [delay]"] Suc.prems publish Inl by auto
      then show ?thesis
        using law(1) by (auto intro: exI [of _ n] exI [of _ "Suc n"])
    qed
  next
    case (Inr x)
    then have "b' = b1" using Suc.prems publish by simp
    then show ?thesis using law(2) [OF Inr] by (intro exI [of _ 1]) simp
  qed
qed

lemma remdups_adj_replicate_append:
  "0 < n \<Longrightarrow> xs = [] \<or> hd xs \<noteq> r \<Longrightarrow> remdups_adj (replicate n r @ xs) = r # remdups_adj xs"
proof (induction n)
  case (Suc n)
  show ?case
  proof (cases n)
    case 0
    then show ?thesis using Suc.prems(2) by (cases xs) auto
  next
    case (Suc k)
    then show ?thesis using Suc.IH Suc.prems(2) by simp
  qed
qed simp

lemma remdups_adj_replicate_only: "remdups_adj (replicate n r) = (if n = 0 then [] else [r])"
  using remdups_adj_replicate_append [of n "[]" r] by auto

text \<open>
  What one run delivers of the records after checkpoint \<open>c\<close>: up to repetition the broker
  received a prefix of them in order, and the new checkpoint \<open>c'\<close> covers that prefix, except
  possibly its last record (whose acknowledgement or checkpoint was lost).
\<close>

definition delivered ::
  "outbox_record list \<Rightarrow> outbox_record list \<Rightarrow> u64 \<Rightarrow> outbox_record list \<Rightarrow> u64 \<Rightarrow> bool" where
  "delivered before after c rs c' \<longleftrightarrow> (\<exists>published n m. after = before @ published
     \<and> remdups_adj published = take m rs \<and> n \<le> m \<and> m \<le> Suc n \<and> n \<le> length rs
     \<and> c' = last (c # map ob_cursor (take n rs)))"

lemma deliveredI:
  "remdups_adj published = take m rs \<Longrightarrow> n \<le> m \<Longrightarrow> m \<le> Suc n \<Longrightarrow> n \<le> length rs \<Longrightarrow>
    delivered before (before @ published) c rs (last (c # map ob_cursor (take n rs)))"
  unfolding delivered_def by blast

lemma delivered_none: "delivered before before c rs c"
  using deliveredI [of "[]" 0 rs 0] by simp

lemma delivered_unconfirmed: "delivered before (before @ replicate k r) c (r # rs) c"
  using deliveredI [of "replicate k r" "if k = 0 then 0 else 1" "r # rs" 0]
  by (simp add: remdups_adj_replicate_only split: if_splits)

lemma delivered_Cons:
  assumes "delivered (before @ replicate k r) after (ob_cursor r) rs c'" and "0 < k" and "r \<notin> set rs"
  shows "delivered before after c (r # rs) c'"
proof -
  from assms(1) obtain published n m where D: "after = before @ replicate k r @ published"
    "remdups_adj published = take m rs" "n \<le> m" "m \<le> Suc n" "n \<le> length rs"
    "c' = last (ob_cursor r # map ob_cursor (take n rs))"
    by (auto simp: delivered_def)
  have "published = [] \<or> hd published \<noteq> r"
  proof (cases published)
    case (Cons x xs)
    then have "x \<in> set (remdups_adj published)" by simp
    then have "x \<in> set rs" using D(2) by (auto dest: in_set_takeD)
    then show ?thesis using assms(3) Cons by auto
  qed simp
  then have "remdups_adj (replicate k r @ published) = take (Suc m) (r # rs)"
    using assms(2) D(2) by (simp add: remdups_adj_replicate_append)
  then show ?thesis
    using deliveredI [of "replicate k r @ published" "Suc m" "r # rs" "Suc n" before c] D by simp
qed

lemma delivered_take:
  assumes "delivered before after c (take b rs) c'"
  shows "delivered before after c rs c'"
proof -
  from assms obtain published n m where D: "after = before @ published"
    "remdups_adj published = take m (take b rs)" "n \<le> m" "m \<le> Suc n" "n \<le> length (take b rs)"
    "c' = last (c # map ob_cursor (take n (take b rs)))"
    by (auto simp: delivered_def)
  have "n \<le> b" "n \<le> length rs" using D(5) by simp_all
  then show ?thesis
    using deliveredI [of published "min m b" rs n before c] D by (simp add: min_absorb1)
qed

text \<open>Every record up to the new checkpoint was received.\<close>

lemma delivered_covers:
  assumes "delivered before after c rs c'" and "sorted_wrt (<) (map ob_cursor rs)"
    and "\<forall>r \<in> set rs. c < ob_cursor r" and "r \<in> set rs" and "ob_cursor r \<le> c'"
  shows "r \<in> set after"
proof -
  from assms(1) obtain published n m where D: "after = before @ published"
    "remdups_adj published = take m rs" "n \<le> m" "n \<le> length rs"
    "c' = last (c # map ob_cursor (take n rs))"
    by (auto simp: delivered_def)
  from assms(4) obtain i where i: "i < length rs" "rs ! i = r" by (auto simp: in_set_conv_nth)
  have "i < n"
  proof (rule ccontr)
    assume "\<not> i < n"
    then have "c' < ob_cursor r"
    proof (cases "n = 0")
      case False
      then have "take n rs \<noteq> []" using D(4) by auto
      then have "c' = ob_cursor (rs ! (n - 1))"
        using D(4,5) by (simp add: last_map last_conv_nth)
      moreover have "n - 1 < i" using False \<open>\<not> i < n\<close> by simp
      ultimately show ?thesis
        using assms(2) i by (auto simp: sorted_wrt_iff_nth_less)
    qed (use D(5) assms(3,4) in simp)
    then show False using assms(5) by simp
  qed
  then have "r \<in> set (take n rs)" using i by (auto simp: in_set_conv_nth intro!: exI [of _ i])
  then have "r \<in> set (take m rs)" using D(3) set_take_subset_set_take [of n m rs] by blast
  then show ?thesis using D(1,2) by (metis Un_iff remdups_adj_set set_append)
qed

locale outbox_store =
  fixes port :: "'s outbox_store_port"
    and records_of :: "'s \<Rightarrow> outbox_record list"
    and checkpoint_of :: "'s \<Rightarrow> u64"
    and ok :: "'s \<Rightarrow> bool"
  assumes order_law: "ok s \<Longrightarrow> sorted_wrt (<) (map ob_cursor (records_of s))"
    and current_law: "os_publisher_checkpoint port s = Inr (checkpoint_of s)"
    and read_law: "ok s \<Longrightarrow> os_read_after port s c limit = Inr rs \<Longrightarrow>
        rs = take limit (filter (\<lambda>r. c < ob_cursor r) (records_of s))"
    and checkpoint_law: "os_checkpoint port s expected committed = (Inr u, s') \<Longrightarrow>
        checkpoint_of s = expected \<and> checkpoint_of s' = committed \<and> records_of s' = records_of s"
    and conflict_law: "os_checkpoint port s expected committed = (Inl e, s') \<Longrightarrow> s' = s"
begin


lemma publish_records_delivers:
  assumes "broker_log publish log" and "batch_order c rs = Inr ()" and "checkpoint_of (ps_store p) = c"
    and "publish_records port publish config c rs p = (res, p')"
  shows "delivered (log (ps_broker p)) (log (ps_broker p')) c rs (checkpoint_of (ps_store p'))
    \<and> records_of (ps_store p') = records_of (ps_store p)
    \<and> (\<forall>c'. res = Inr c' \<longrightarrow> checkpoint_of (ps_store p') = c' \<and> c' = last (c # map ob_cursor rs))"
  using assms(2-4)
proof (induction rs arbitrary: c p)
  case Nil
  then show ?case by (auto simp: delivered_none)
next
  case (Cons r rs)
  obtain sent b waits where retry:
    "publish_with_retry publish config r (ps_broker p) (ps_waits p) = (sent, b, waits)"
    by (metis prod_cases3)
  from publish_loop_log [OF assms(1) retry [unfolded publish_with_retry_def]] obtain k where
    k: "log b = log (ps_broker p) @ replicate k r" "sent = Inr () \<longrightarrow> 0 < k" by blast
  have above: "r \<notin> set rs"
    using Cons.prems(1) batch_order_above [of "ob_cursor r" rs] by (fastforce split: if_splits)
  obtain stored s where cp: "os_checkpoint port (ps_store p) c (ob_cursor r) = (stored, s)" by force
  consider (failed) e where "sent = Inl e"
    | (conflict) e where "sent = Inr ()" "stored = Inl e"
    | (moved) u where "sent = Inr ()" "stored = Inr u"
    by (cases sent; cases stored) auto
  then show ?case
  proof cases
    case failed
    then have "p' = p\<lparr>ps_broker := b, ps_waits := waits\<rparr>" "res = Inl e"
      using Cons.prems(3) retry by simp_all
    then show ?thesis using k Cons.prems(2) by (simp add: delivered_unconfirmed)
  next
    case conflict
    then have "p' = p\<lparr>ps_broker := b, ps_waits := waits, ps_store := s\<rparr>" "res = Inl e"
      using Cons.prems(3) retry cp by simp_all
    then show ?thesis
      using k conflict cp conflict_law [of "ps_store p" c "ob_cursor r" e s] Cons.prems(2)
      by (simp add: delivered_unconfirmed)
  next
    case moved
    let ?p = "p\<lparr>ps_broker := b, ps_waits := waits, ps_store := s\<rparr>"
    note law = checkpoint_law [OF cp [unfolded moved(2)]]
    have ord: "batch_order (ob_cursor r) rs = Inr ()"
      using Cons.prems(1) by (simp split: if_splits)
    have at: "checkpoint_of (ps_store ?p) = ob_cursor r" using law by simp
    have rest: "publish_records port publish config (ob_cursor r) rs ?p = (res, p')"
      using Cons.prems(3) retry cp moved by simp
    show ?thesis
      using Cons.IH [OF ord at rest] k moved(1) above law by (auto intro: delivered_Cons)
  qed
qed

lemma run_once_delivers:
  assumes "broker_log publish log" and "ok (ps_store p)" and "checkpoint_of (ps_store p) = c"
    and "run_once_with_config port publish config c p = (res, p')"
  shows "delivered (log (ps_broker p)) (log (ps_broker p')) c
      (filter (\<lambda>r. c < ob_cursor r) (records_of (ps_store p))) (checkpoint_of (ps_store p'))
    \<and> records_of (ps_store p') = records_of (ps_store p)"
proof (cases "\<exists>rs. os_read_after port (ps_store p) c (oc_batch_size config) = Inr rs
    \<and> validate_batch rs c (oc_batch_size config) = Inr ()")
  case True
  then obtain rs where rs: "os_read_after port (ps_store p) c (oc_batch_size config) = Inr rs"
    and valid: "validate_batch rs c (oc_batch_size config) = Inr ()"
    by blast
  obtain sent where sent: "publish_records port publish config c rs p = (sent, p')"
    using assms(4) rs valid by (auto simp: run_once_with_config_def split: prod.splits sum.splits)
  have "batch_order c rs = Inr ()"
    using valid by (simp add: validate_batch_def split: if_splits)
  note delivers = publish_records_delivers [OF assms(1) this assms(3) sent]
  show ?thesis
    using delivered_take [OF conjunct1 [OF delivers, unfolded read_law [OF assms(2) rs]]] delivers
    by simp
next
  case False
  then have "p' = p"
    using assms(4) by (auto simp: run_once_with_config_def split: sum.splits)
  then show ?thesis using assms(3) by (simp add: delivered_none)
qed

text \<open>At least once: a record at or below the checkpoint a run ends with has been received.\<close>

lemma run_once_at_least_once:
  assumes "broker_log publish log" and "ok (ps_store p)" and "checkpoint_of (ps_store p) = c"
    and "run_once_with_config port publish config c p = (res, p')"
    and "r \<in> set (records_of (ps_store p))" and "c < ob_cursor r"
    and "ob_cursor r \<le> checkpoint_of (ps_store p')"
  shows "r \<in> set (log (ps_broker p'))"
proof (rule delivered_covers)
  show "sorted_wrt (<) (map ob_cursor (filter (\<lambda>r. c < ob_cursor r) (records_of (ps_store p))))"
    using order_law [OF assms(2)] by (simp add: sorted_wrt_map sorted_wrt_filter)
qed (use run_once_delivers [OF assms(1-4)] assms(5-7) in auto)

end

section \<open>Properties\<close>

text \<open>
  C29. The publisher waits at most once less than the configured number of attempts for one
  record, never longer than the configured maximum, and its delays never shrink, for every
  accepted configuration whose largest product of delay and multiplier fits in 64 bits.
\<close>

theorem publish_retry_delays:
  assumes "outbox_publisher_config_new batch attempts initial_delay max_delay multiplier = Inr config"
    and "unat max_delay * unat multiplier < 2 ^ LENGTH(64)"
    and "publish_with_retry publish config r b waits = (res, b', waits')"
  shows "\<exists>ds. waits' = waits @ ds \<and> length ds < unat attempts \<and> sorted (initial_delay # ds)
    \<and> (\<forall>d \<in> set ds. d \<le> max_delay)"
proof -
  have config: "1000 \<le> oc_retry_multiplier_millis config" "oc_initial_retry_delay_ms config = initial_delay"
    "oc_max_retry_delay_ms config = max_delay" "initial_delay \<le> max_delay"
    "oc_retry_multiplier_millis config = multiplier" "oc_max_publish_attempts config = attempts"
    "unat attempts \<noteq> 0"
    using assms(1) by (auto simp: outbox_publisher_config_new_def not_less unat_eq_0 split: if_splits)
  show ?thesis
    using publish_loop_waits [OF assms(3) [unfolded publish_with_retry_def] config(1)] assms(2) config
    by simp
qed

theorem publish_retry_delays_witness:
  "\<exists>config waits. outbox_publisher_config_new 1 3 10 15 2000 = Inr config
    \<and> publish_with_retry (\<lambda>b r. (Inl (BrokerUnavailable ''down''), b)) config
        \<lparr>ob_cursor = 1, ob_tenant_id = [], ob_instance_id = [], ob_event_id = ''e'',
         ob_correlation_id = [], ob_causation_command_id = [], ob_payload = [1]\<rparr> () [] =
        (Inl (BrokerUnavailable ''down''), (), waits)
    \<and> waits = [10, 15] \<and> sorted ((10::u64) # waits) \<and> (\<forall>d \<in> set waits. d \<le> 15)"
proof -
  let ?config = "\<lparr>oc_batch_size = 1, oc_max_publish_attempts = 3, oc_initial_retry_delay_ms = 10,
      oc_max_retry_delay_ms = 15, oc_retry_multiplier_millis = 2000\<rparr>"
  let ?r = "\<lparr>ob_cursor = 1, ob_tenant_id = [], ob_instance_id = [], ob_event_id = ''e'',
         ob_correlation_id = [], ob_causation_command_id = [], ob_payload = [1]\<rparr>"
  have new: "outbox_publisher_config_new 1 3 10 15 2000 = Inr ?config"
    by (simp add: outbox_publisher_config_new_def)
  have "next_delay 10 ?config = 15"
    by (simp add: next_delay_def saturating_mul_def)
  then have "publish_loop (\<lambda>b r. (Inl (BrokerUnavailable ''down''), b)) ?config ?r (Suc (Suc (Suc 0))) 10 () [] =
      (Inl (BrokerUnavailable ''down''), (), [10, 15])"
    by simp
  then have run: "publish_with_retry (\<lambda>b r. (Inl (BrokerUnavailable ''down''), b)) ?config ?r () [] =
      (Inl (BrokerUnavailable ''down''), (), [10, 15])"
    unfolding numeral_3_eq_3 [symmetric] by (simp add: publish_with_retry_def)
  show ?thesis
    using publish_retry_delays [OF new _ run] new run by auto
qed

end
