(* ===== verification/Memory_Store.thy ===== *)
theory Memory_Store
  imports Engine_Runs Outbox "HOL-Library.Product_Lexorder"
begin

text \<open>
  The in-memory adapter (\<open>apps/rust/bpmp-engine/src/memory.rs\<close>): the workflow store, the
  outbox store and the local task checkpoint over one state. The derived order on the key
  structs is the lexicographic order on tuples. A method runs under the lock of the state,
  so it is one step; the lock is poisoned only by a panic in such a step. \<open>EventCodec\<close> is
  the argument \<open>encode\<close>. The adapter is shown to satisfy the contracts \<open>workflow_store\<close> and
  \<open>outbox_store\<close>.
\<close>

section \<open>State\<close>

type_synonym authorization_audit_key = "tenant_id \<times> command_id"

record stored_result =
  sr_command_id :: command_id
  sr_result :: committed_result

record memory_state =
  ms_streams :: "(stream_key, event_envelope list) btree_map"
  ms_snapshots :: "(stream_key, snapshot_envelope) btree_map"
  ms_idempotency :: "(idempotency_scope, stored_result) btree_map"
  ms_authorization_audits :: "(authorization_audit_key, authorization_audit) btree_map"
  ms_outbox :: "outbox_record list"
  ms_outbox_checkpoint :: u64
  ms_local_task_checkpoint :: u64

definition default_memory_state :: memory_state where
  "default_memory_state =
     \<lparr>ms_streams = [], ms_snapshots = [], ms_idempotency = [], ms_authorization_audits = [],
      ms_outbox = [], ms_outbox_checkpoint = 0, ms_local_task_checkpoint = 0\<rparr>"

section \<open>The configuration provider\<close>

type_synonym memory_configurations =
  "(tenant_id \<times> workflow_type \<times> workflow_version, resolved_config_snapshot) btree_map"

definition lookup_key :: "configuration_lookup \<Rightarrow> tenant_id \<times> workflow_type \<times> workflow_version" where
  "lookup_key lookup = (cl_tenant_id lookup, cl_workflow_type lookup, cl_workflow_version lookup)"

definition configuration_insert ::
  "memory_configurations \<Rightarrow> configuration_lookup \<Rightarrow> resolved_config_snapshot
   \<Rightarrow> resolved_config_snapshot option \<times> memory_configurations" where
  "configuration_insert snapshots lookup snapshot =
     (bt_get snapshots (lookup_key lookup), bt_insert (lookup_key lookup) snapshot snapshots)"

definition configuration_resolve ::
  "memory_configurations \<Rightarrow> configuration_lookup \<Rightarrow> config_error + resolved_config_snapshot" where
  "configuration_resolve snapshots lookup =
     ok_or (bt_get snapshots (lookup_key lookup)) MissingPublishedSnapshot"

section \<open>The workflow store\<close>

definition audit_recorded :: "memory_state \<Rightarrow> tenant_id \<Rightarrow> command_id \<Rightarrow> authorization_audit option" where
  "audit_recorded s tenant command_id = bt_get (ms_authorization_audits s) (tenant, command_id)"

definition authorization_audit_count :: "memory_state \<Rightarrow> nat" where
  "authorization_audit_count s = length (ms_authorization_audits s)"

definition lookup_idempotency ::
  "memory_state \<Rightarrow> tenant_id \<Rightarrow> actor_id \<Rightarrow> idempotency_key \<Rightarrow> command_id
   \<Rightarrow> store_error + committed_result option" where
  "lookup_idempotency s tenant actor key command_id =
     (case bt_get (ms_idempotency s) (tenant, actor, key) of
        Some stored \<Rightarrow>
          if sr_command_id stored = command_id then Inr (Some (sr_result stored))
          else Inl IdempotencyConflict
      | None \<Rightarrow> Inr None)"

definition memory_load ::
  "memory_state \<Rightarrow> tenant_id \<Rightarrow> instance_id \<Rightarrow> store_error + loaded_instance" where
  "memory_load s tenant instance_id =
     (let stream = (case bt_get (ms_streams s) (tenant, instance_id) of None \<Rightarrow> [] | Some es \<Rightarrow> es) in
      and_then (ok_or (u64_try_from (length stream))
        (StoreUnavailable ''out of range integral type conversion attempted'')) (\<lambda>version.
      let snapshot = bt_get (ms_snapshots s) (tenant, instance_id);
          snapshot_sequence =
            (case snapshot of None \<Rightarrow> 0 | Some sn \<Rightarrow> is_sequence (sn_state sn)) in
      Inr \<lparr>li_snapshot = snapshot,
           li_events = filter (\<lambda>e. snapshot_sequence < em_sequence (ee_metadata e)) stream,
           li_version = version\<rparr>))"

definition invalid_snapshot :: "commit_request \<Rightarrow> bool" where
  "invalid_snapshot r \<longleftrightarrow>
     (case cr_snapshot r of
        None \<Rightarrow> False
      | Some sn \<Rightarrow> sn_tenant_id sn \<noteq> cr_tenant_id r
          \<or> sn_instance_id sn \<noteq> cr_instance_id r
          \<or> is_sequence (sn_state sn) \<le> cr_expected_version r
          \<or> cm_version (cr_result r) < is_sequence (sn_state sn))"

definition outbox_entry ::
  "(event_envelope \<Rightarrow> u8 list) \<Rightarrow> commit_request \<Rightarrow> u64 \<Rightarrow> nat \<times> event_envelope
   \<Rightarrow> store_error + outbox_record" where
  "outbox_entry encode r outbox_tail = (\<lambda>(index, event).
     and_then (ok_or (u64_try_from index)
       (StoreUnavailable ''out of range integral type conversion attempted'')) (\<lambda>offset.
     and_then (ok_or (Option.bind (checked_add outbox_tail offset) (\<lambda>v. checked_add v 1))
       (StoreUnavailable ''outbox cursor overflow'')) (\<lambda>cursor.
     Inr \<lparr>ob_cursor = cursor,
          ob_tenant_id = cr_tenant_id r,
          ob_instance_id = cr_instance_id r,
          ob_event_id = em_event_id (ee_metadata event),
          ob_correlation_id = em_correlation_id (ee_metadata event),
          ob_causation_command_id = em_causation_command_id (ee_metadata event),
          ob_payload = encode event\<rparr>)))"

definition outbox_entries ::
  "(event_envelope \<Rightarrow> u8 list) \<Rightarrow> memory_state \<Rightarrow> commit_request \<Rightarrow> store_error + outbox_record list" where
  "outbox_entries encode s r =
     and_then (ok_or (u64_try_from (length (ms_outbox s)))
       (StoreUnavailable ''out of range integral type conversion attempted'')) (\<lambda>outbox_tail.
     try_map (outbox_entry encode r outbox_tail) (enumerate 0 (cr_events r)))"

text \<open>
  The sequence checks: the first event follows the stream, each further one its
  predecessor. The additions wrap, as they do without overflow checks.
\<close>

fun gap_between :: "event_envelope list \<Rightarrow> bool" where
  "gap_between (a # b # es) \<longleftrightarrow>
     em_sequence (ee_metadata b) \<noteq> em_sequence (ee_metadata a) + 1 \<or> gap_between (b # es)"
| "gap_between _ \<longleftrightarrow> False"

definition non_contiguous :: "u64 \<Rightarrow> event_envelope list \<Rightarrow> bool" where
  "non_contiguous actual es \<longleftrightarrow>
     (case es of [] \<Rightarrow> False | e # _ \<Rightarrow> em_sequence (ee_metadata e) \<noteq> actual + 1) \<or> gap_between es"

definition append_commit ::
  "memory_state \<Rightarrow> commit_request \<Rightarrow> event_envelope list \<Rightarrow> outbox_record list \<Rightarrow> memory_state" where
  "append_commit s r stream records =
     s\<lparr>ms_streams := bt_insert (cr_tenant_id r, cr_instance_id r) (stream @ cr_events r) (ms_streams s),
       ms_outbox := ms_outbox s @ records,
       ms_snapshots :=
         (case cr_snapshot r of
            None \<Rightarrow> ms_snapshots s
          | Some sn \<Rightarrow> bt_insert (cr_tenant_id r, cr_instance_id r) sn (ms_snapshots s)),
       ms_idempotency :=
         bt_insert (cr_tenant_id r, cr_actor_id r, cr_idempotency_key r)
           \<lparr>sr_command_id = cr_command_id r, sr_result = cr_result r\<rparr> (ms_idempotency s),
       ms_authorization_audits :=
         bt_insert (cr_tenant_id r, cr_command_id r) (cr_authorization_audit r)
           (ms_authorization_audits s)\<rparr>"

text \<open>
  The part of \<open>commit\<close> from \<open>state.streams.entry(..).or_default()\<close>: the entry is created
  before the version check, so a rejected first commit leaves an empty stream behind.
\<close>

definition commit_stream ::
  "memory_state \<Rightarrow> commit_request \<Rightarrow> outbox_record list \<Rightarrow> (store_error + commit_outcome) \<times> memory_state" where
  "commit_stream s r records =
     (let key = (cr_tenant_id r, cr_instance_id r);
          stream = (case bt_get (ms_streams s) key of None \<Rightarrow> [] | Some es \<Rightarrow> es);
          s = s\<lparr>ms_streams := bt_insert key stream (ms_streams s)\<rparr> in
      case u64_try_from (length stream) of
        None \<Rightarrow> (Inl (StoreUnavailable ''out of range integral type conversion attempted''), s)
      | Some actual \<Rightarrow>
          if actual \<noteq> cr_expected_version r
          then (Inl (VersionConflict (cr_expected_version r) actual), s)
          else if non_contiguous actual (cr_events r) then (Inl NonContiguousSequence, s)
          else (Inr (Committed (cr_result r)), append_commit s r stream records))"

definition memory_commit ::
  "(event_envelope \<Rightarrow> u8 list) \<Rightarrow> memory_state \<Rightarrow> commit_request
   \<Rightarrow> (store_error + commit_outcome) \<times> memory_state" where
  "memory_commit encode s r =
     (case validate_authorization_audit r of
        Inl e \<Rightarrow> (Inl e, s)
      | Inr _ \<Rightarrow>
         (case bt_get (ms_idempotency s) (cr_tenant_id r, cr_actor_id r, cr_idempotency_key r) of
            Some stored \<Rightarrow>
              (if sr_command_id stored = cr_command_id r
               then Inr (Duplicate (sr_result stored)) else Inl IdempotencyConflict, s)
          | None \<Rightarrow>
              if bt_contains_key (ms_authorization_audits s) (cr_tenant_id r, cr_command_id r)
              then (Inl InvalidAuthorizationAudit, s)
              else if invalid_snapshot r then (Inl InvalidSnapshot, s)
              else case outbox_entries encode s r of
                Inl e \<Rightarrow> (Inl e, s)
              | Inr records \<Rightarrow> commit_stream s r records))"

definition memory_port :: "(event_envelope \<Rightarrow> u8 list) \<Rightarrow> memory_state workflow_store_port" where
  "memory_port encode =
     \<lparr>ws_lookup_idempotency = lookup_idempotency, ws_load = memory_load,
      ws_commit = memory_commit encode\<rparr>"

section \<open>The outbox store and the local task checkpoint\<close>

definition publisher_checkpoint :: "memory_state \<Rightarrow> outbox_error + u64" where
  "publisher_checkpoint s = Inr (ms_outbox_checkpoint s)"

definition read_after :: "memory_state \<Rightarrow> u64 \<Rightarrow> nat \<Rightarrow> outbox_error + outbox_record list" where
  "read_after s cursor limit =
     (if limit = 0 then Inl InvalidOutboxConfiguration
      else Inr (take limit (filter (\<lambda>r. cursor < ob_cursor r) (ms_outbox s))))"

definition memory_checkpoint ::
  "memory_state \<Rightarrow> u64 \<Rightarrow> u64 \<Rightarrow> (outbox_error + unit) \<times> memory_state" where
  "memory_checkpoint s expected committed =
     (if ms_outbox_checkpoint s \<noteq> expected then (Inl OutboxCheckpointConflict, s)
      else case u64_try_from (length (ms_outbox s)) of
        None \<Rightarrow>
          (Inl (OutboxStoreUnavailable ''out of range integral type conversion attempted''), s)
      | Some tail \<Rightarrow>
          if committed \<le> expected \<or> tail < committed
          then (Inl (OutboxStoreUnavailable ''outbox checkpoint is outside the committed range''), s)
          else (Inr (), s\<lparr>ms_outbox_checkpoint := committed\<rparr>))"

definition memory_outbox_port :: "memory_state outbox_store_port" where
  "memory_outbox_port =
     \<lparr>os_publisher_checkpoint = publisher_checkpoint, os_read_after = read_after,
      os_checkpoint = memory_checkpoint\<rparr>"

datatype local_task_runtime_error =
    LocalTaskCheckpointConflict
  | LocalTaskStore string

definition local_task_checkpoint :: "memory_state \<Rightarrow> local_task_runtime_error + u64" where
  "local_task_checkpoint s = Inr (ms_local_task_checkpoint s)"

definition checkpoint_local_task ::
  "memory_state \<Rightarrow> u64 \<Rightarrow> u64 \<Rightarrow> (local_task_runtime_error + unit) \<times> memory_state" where
  "checkpoint_local_task s expected committed =
     (if ms_local_task_checkpoint s \<noteq> expected then (Inl LocalTaskCheckpointConflict, s)
      else if committed \<le> expected \<or> of_nat (length (ms_outbox s)) < committed
      then (Inl (LocalTaskStore ''local task checkpoint is outside the committed outbox range''), s)
      else (Inr (), s\<lparr>ms_local_task_checkpoint := committed\<rparr>))"

section \<open>The adapter satisfies the contract of the workflow store\<close>

definition memory_view :: "memory_state \<Rightarrow> store_view" where
  "memory_view s =
     \<lparr>sv_stream = (\<lambda>k. case bt_get (ms_streams s) k of None \<Rightarrow> [] | Some es \<Rightarrow> es),
      sv_snapshot = bt_get (ms_snapshots s),
      sv_result = (\<lambda>scope. map_option (\<lambda>stored. (sr_command_id stored, sr_result stored))
        (bt_get (ms_idempotency s) scope))\<rparr>"

lemma commit_stream_cases:
  obtains e where "commit_stream s r records =
      (Inl e, s\<lparr>ms_streams := bt_insert (request_stream r) (sv_stream (memory_view s) (request_stream r))
        (ms_streams s)\<rparr>)"
  | "commit_stream s r records = (Inr (Committed (cr_result r)),
       append_commit (s\<lparr>ms_streams := bt_insert (request_stream r)
           (sv_stream (memory_view s) (request_stream r)) (ms_streams s)\<rparr>) r
         (sv_stream (memory_view s) (request_stream r)) records)"
     "unat (cr_expected_version r) = length (sv_stream (memory_view s) (request_stream r))"
     "\<not> non_contiguous (cr_expected_version r) (cr_events r)"
proof (cases "u64_try_from (length (sv_stream (memory_view s) (request_stream r)))")
  case None
  then show ?thesis
    by (intro that(1)) (simp add: commit_stream_def memory_view_def request_stream_def Let_def)
next
  case (Some actual)
  have eq: "commit_stream s r records =
      (let s' = s\<lparr>ms_streams := bt_insert (request_stream r)
         (sv_stream (memory_view s) (request_stream r)) (ms_streams s)\<rparr> in
       if actual \<noteq> cr_expected_version r
       then (Inl (VersionConflict (cr_expected_version r) actual), s')
       else if non_contiguous actual (cr_events r) then (Inl NonContiguousSequence, s')
       else (Inr (Committed (cr_result r)),
         append_commit s' r (sv_stream (memory_view s) (request_stream r)) records))"
    using Some by (simp add: commit_stream_def memory_view_def request_stream_def Let_def)
  show ?thesis
  proof (cases "actual \<noteq> cr_expected_version r \<or> non_contiguous actual (cr_events r)")
    case True
    then show ?thesis using that(1) eq by (auto simp: Let_def split: if_splits)
  next
    case False
    then show ?thesis
      using that(2) eq unat_u64_try_from [OF Some] by (simp add: Let_def)
  qed
qed

lemma view_empty_entry:
  "memory_view (s\<lparr>ms_streams := bt_insert k (sv_stream (memory_view s) k) (ms_streams s)\<rparr>) = memory_view s"
  by (auto simp: memory_view_def fun_eq_iff)

lemma view_append_commit:
  "memory_view (append_commit (s\<lparr>ms_streams := bt_insert (request_stream r)
      (sv_stream (memory_view s) (request_stream r)) (ms_streams s)\<rparr>) r
      (sv_stream (memory_view s) (request_stream r)) records) = view_commit (memory_view s) r"
  by (auto simp: append_commit_def memory_view_def view_commit_def request_stream_def
      request_scope_def fun_eq_iff split: option.splits)

text \<open>The outcomes of a commit: it reaches the stream, or leaves the state as it is.\<close>

lemma memory_commit_cases:
  obtains (early) "snd (memory_commit encode s r) = s"
      "\<And>result. fst (memory_commit encode s r) \<noteq> Inr (Committed result)"
      "\<And>result. fst (memory_commit encode s r) = Inr (Duplicate result) \<Longrightarrow>
        sv_result (memory_view s) (request_scope r) = Some (cr_command_id r, result)"
  | (late) records where "memory_commit encode s r = commit_stream s r records"
      "sv_result (memory_view s) (request_scope r) = None"
      "outbox_entries encode s r = Inr records"
proof -
  let ?stored = "bt_get (ms_idempotency s) (cr_tenant_id r, cr_actor_id r, cr_idempotency_key r)"
  show thesis
  proof (cases "validate_authorization_audit r = Inr () \<and> ?stored = None
      \<and> \<not> bt_contains_key (ms_authorization_audits s) (cr_tenant_id r, cr_command_id r)
      \<and> \<not> invalid_snapshot r \<and> (\<exists>records. outbox_entries encode s r = Inr records)")
    case True
    then obtain records where "outbox_entries encode s r = Inr records" by blast
    then show thesis
      using True by (intro late [of records]) (simp_all add: memory_commit_def memory_view_def request_scope_def)
  next
    case False
    then show thesis
      by (intro early)
         (auto simp: memory_commit_def memory_view_def request_scope_def
           split: sum.splits option.splits if_splits)
  qed
qed

interpretation memory: workflow_store "memory_port encode" memory_view
  for encode :: "event_envelope \<Rightarrow> u8 list"
proof unfold_locales
  show "ws_lookup_idempotency (memory_port encode) s t a k c =
      (case sv_result (memory_view s) (t, a, k) of
         None \<Rightarrow> Inr None
       | Some (c', result) \<Rightarrow> if c' = c then Inr (Some result) else Inl IdempotencyConflict)"
    for s t a k c
    by (simp add: memory_port_def lookup_idempotency_def memory_view_def split: option.splits)
  show "unat (li_version loaded) = length (sv_stream (memory_view s) (t, i))
        \<and> li_snapshot loaded = sv_snapshot (memory_view s) (t, i)
        \<and> li_events loaded = filter (\<lambda>e. snapshot_sequence (li_snapshot loaded) < sequence_of e)
              (sv_stream (memory_view s) (t, i))"
    if "ws_load (memory_port encode) s t i = Inr loaded" for s t i loaded
    using that
    by (auto simp: memory_port_def memory_load_def memory_view_def Let_def and_then_Inr ok_or_Inr
        snapshot_sequence_def sequence_of_def dest: unat_u64_try_from)
  show "sv_result (memory_view s) (request_scope r) = None
        \<and> unat (cr_expected_version r) = length (sv_stream (memory_view s) (request_stream r))
        \<and> result = cr_result r \<and> memory_view s' = view_commit (memory_view s) r"
    if "ws_commit (memory_port encode) s r = (Inr (Committed result), s')" for s r result s'
  proof (cases rule: memory_commit_cases [of encode s r])
    case early
    then show ?thesis using that early(2) [of result] by (simp add: memory_port_def)
  next
    case (late records)
    then show ?thesis
      using that
      by (cases rule: commit_stream_cases [of s r records])
         (auto simp: memory_port_def view_append_commit)
  qed
  show "sv_result (memory_view s) (request_scope r) = Some (cr_command_id r, result)
        \<and> memory_view s' = memory_view s"
    if "ws_commit (memory_port encode) s r = (Inr (Duplicate result), s')" for s r result s'
  proof (cases rule: memory_commit_cases [of encode s r])
    case early
    then show ?thesis using that early(3) [of result] by (simp add: memory_port_def)
  next
    case (late records)
    then show ?thesis
      using that by (cases rule: commit_stream_cases [of s r records]) (auto simp: memory_port_def)
  qed
  show "memory_view s' = memory_view s"
    if "ws_commit (memory_port encode) s r = (Inl e, s')" for s r e s'
  proof (cases rule: memory_commit_cases [of encode s r])
    case early
    then show ?thesis using that by (simp add: memory_port_def)
  next
    case (late records)
    then show ?thesis
      using that
      by (cases rule: commit_stream_cases [of s r records])
         (auto simp: memory_port_def view_empty_entry)
  qed
qed

section \<open>The outbox\<close>

text \<open>
  The states of the adapter: commits of arbitrary requests, moves of the publisher
  checkpoint and moves of the local task checkpoint, in any order.
\<close>

inductive reachable_memory :: "(event_envelope \<Rightarrow> u8 list) \<Rightarrow> memory_state \<Rightarrow> bool" for encode where
  created: "reachable_memory encode default_memory_state"
| committed: "reachable_memory encode s \<Longrightarrow> reachable_memory encode (snd (memory_commit encode s r))"
| published: "reachable_memory encode s \<Longrightarrow> reachable_memory encode (snd (memory_checkpoint s a b))"
| worked: "reachable_memory encode s \<Longrightarrow> reachable_memory encode (snd (checkpoint_local_task s a b))"

definition cursors_ok :: "memory_state \<Rightarrow> bool" where
  "cursors_ok s \<longleftrightarrow> (\<forall>i < length (ms_outbox s). unat (ob_cursor (ms_outbox s ! i)) = Suc i)"

definition checkpoints_ok :: "memory_state \<Rightarrow> bool" where
  "checkpoints_ok s \<longleftrightarrow> unat (ms_outbox_checkpoint s) \<le> length (ms_outbox s)
     \<and> unat (ms_local_task_checkpoint s) \<le> length (ms_outbox s)"

definition outbox_of :: "memory_state \<Rightarrow> stream_key \<Rightarrow> outbox_record list" where
  "outbox_of s k = filter (\<lambda>r. (ob_tenant_id r, ob_instance_id r) = k) (ms_outbox s)"

definition outbox_matches :: "(event_envelope \<Rightarrow> u8 list) \<Rightarrow> memory_state \<Rightarrow> bool" where
  "outbox_matches encode s \<longleftrightarrow> (\<forall>k.
     map (\<lambda>r. (ob_event_id r, ob_payload r)) (outbox_of s k) =
     map (\<lambda>e. (em_event_id (ee_metadata e), encode e)) (sv_stream (memory_view s) k))"

lemma outbox_entry_Inr:
  assumes "outbox_entry encode r w (i, e) = Inr x"
  shows "unat (ob_cursor x) = unat w + Suc i" and "ob_tenant_id x = cr_tenant_id r"
    and "ob_instance_id x = cr_instance_id r" and "ob_event_id x = em_event_id (ee_metadata e)"
    and "ob_payload x = encode e"
proof -
  from assms obtain offset v cursor where offset: "u64_try_from i = Some offset"
    and v: "checked_add w offset = Some v" and cursor: "checked_add v 1 = Some cursor"
    and x: "ob_cursor x = cursor" "ob_tenant_id x = cr_tenant_id r"
      "ob_instance_id x = cr_instance_id r" "ob_event_id x = em_event_id (ee_metadata e)"
      "ob_payload x = encode e"
    by (auto simp: outbox_entry_def and_then_Inr ok_or_Inr bind_eq_Some_conv)
  show "unat (ob_cursor x) = unat w + Suc i"
    using unat_checked_add [OF v] unat_checked_add [OF cursor] unat_u64_try_from [OF offset] x(1)
    by simp
  show "ob_tenant_id x = cr_tenant_id r" and "ob_instance_id x = cr_instance_id r"
    and "ob_event_id x = em_event_id (ee_metadata e)" and "ob_payload x = encode e"
    by (simp_all add: x)
qed

lemma outbox_entries_Inr:
  assumes "outbox_entries encode s r = Inr records"
  shows "length records = length (cr_events r)"
    and "\<And>i. i < length records \<Longrightarrow> unat (ob_cursor (records ! i)) = length (ms_outbox s) + Suc i"
    and "\<And>x. x \<in> set records \<Longrightarrow> (ob_tenant_id x, ob_instance_id x) = request_stream r"
    and "map (\<lambda>r. (ob_event_id r, ob_payload r)) records =
      map (\<lambda>e. (em_event_id (ee_metadata e), encode e)) (cr_events r)"
proof -
  from assms obtain w where w: "u64_try_from (length (ms_outbox s)) = Some w"
    and all: "list_all2 (\<lambda>x y. outbox_entry encode r w x = Inr y) (enumerate 0 (cr_events r)) records"
    by (auto simp: outbox_entries_def and_then_Inr ok_or_Inr try_map_Inr)
  show len: "length records = length (cr_events r)" using list_all2_lengthD [OF all] by simp
  have nth: "outbox_entry encode r w (i, cr_events r ! i) = Inr (records ! i)" if "i < length records" for i
    using all that len by (auto simp: list_all2_conv_all_nth nth_enumerate_eq)
  show "unat (ob_cursor (records ! i)) = length (ms_outbox s) + Suc i" if "i < length records" for i
    using outbox_entry_Inr(1) [OF nth [OF that]] unat_u64_try_from [OF w] by simp
  show "(ob_tenant_id x, ob_instance_id x) = request_stream r" if x: "x \<in> set records" for x
  proof -
    from x obtain i where "i < length records" "x = records ! i" by (auto simp: in_set_conv_nth)
    then show ?thesis using outbox_entry_Inr(2,3) [OF nth] by (simp add: request_stream_def)
  qed
  show "map (\<lambda>r. (ob_event_id r, ob_payload r)) records =
      map (\<lambda>e. (em_event_id (ee_metadata e), encode e)) (cr_events r)"
    by (rule nth_equalityI) (use len outbox_entry_Inr(4,5) [OF nth] in simp_all)
qed

lemma append_commit_outbox: "ms_outbox (append_commit s r stream records) = ms_outbox s @ records"
  by (simp add: append_commit_def)

text \<open>What a commit does to the outbox: nothing, or one record per event at its end.\<close>

lemma memory_commit_outbox:
  obtains (kept) "ms_outbox (snd (memory_commit encode s r)) = ms_outbox s"
      "memory_view (snd (memory_commit encode s r)) = memory_view s"
  | (grown) records where "ms_outbox (snd (memory_commit encode s r)) = ms_outbox s @ records"
      "memory_view (snd (memory_commit encode s r)) = view_commit (memory_view s) r"
      "outbox_entries encode s r = Inr records"
proof (cases rule: memory_commit_cases [of encode s r])
  case early
  then show thesis by (intro kept) simp_all
next
  case (late records)
  show thesis
  proof (cases rule: commit_stream_cases [of s r records])
    case 1
    then show thesis using late by (intro kept) (simp_all add: view_empty_entry)
  next
    case 2
    then show thesis
      using late by (intro grown [of records]) (simp_all add: view_append_commit append_commit_outbox)
  qed
qed

lemma memory_commit_checkpoints [simp]:
  "ms_outbox_checkpoint (snd (memory_commit encode s r)) = ms_outbox_checkpoint s"
  "ms_local_task_checkpoint (snd (memory_commit encode s r)) = ms_local_task_checkpoint s"
  by (simp_all add: memory_commit_def commit_stream_def append_commit_def Let_def
      split: sum.splits option.splits)

lemma checkpoint_keeps [simp]:
  "ms_outbox (snd (memory_checkpoint s a b)) = ms_outbox s"
  "memory_view (snd (memory_checkpoint s a b)) = memory_view s"
  "ms_local_task_checkpoint (snd (memory_checkpoint s a b)) = ms_local_task_checkpoint s"
  "ms_outbox (snd (checkpoint_local_task s a b)) = ms_outbox s"
  "memory_view (snd (checkpoint_local_task s a b)) = memory_view s"
  "ms_outbox_checkpoint (snd (checkpoint_local_task s a b)) = ms_outbox_checkpoint s"
  by (simp_all add: memory_checkpoint_def checkpoint_local_task_def memory_view_def split: option.splits)

lemma checkpoint_within:
  "checkpoints_ok s \<Longrightarrow> checkpoints_ok (snd (memory_checkpoint s a b))"
  "checkpoints_ok s \<Longrightarrow> checkpoints_ok (snd (checkpoint_local_task s a b))"
  by (auto simp: checkpoints_ok_def memory_checkpoint_def checkpoint_local_task_def word_le_nat_alt
      word_less_nat_alt unat_of_nat not_less intro: order_trans [OF _ mod_less_eq_dividend]
      dest: unat_u64_try_from split: option.splits)

lemma cursors_append:
  assumes "cursors_ok s" and "ms_outbox s' = ms_outbox s @ records"
    and "\<And>i. i < length records \<Longrightarrow> unat (ob_cursor (records ! i)) = length (ms_outbox s) + Suc i"
  shows "cursors_ok s'"
  using assms by (auto simp: cursors_ok_def nth_append)

lemma matches_append:
  assumes "outbox_matches encode s" and "ms_outbox s' = ms_outbox s @ records"
    and "memory_view s' = view_commit (memory_view s) r"
    and "outbox_entries encode s r = Inr records"
  shows "outbox_matches encode s'"
proof -
  note entries = outbox_entries_Inr [OF assms(4)]
  have "filter (\<lambda>x. (ob_tenant_id x, ob_instance_id x) = k) records =
      (if k = request_stream r then records else [])" for k
    using entries(3) by (auto intro: filter_True simp: filter_empty_conv)
  then have "outbox_of s' k = outbox_of s k @ (if k = request_stream r then records else [])" for k
    using assms(2) by (simp add: outbox_of_def)
  then show ?thesis
    using assms(1,3) entries(4) by (simp add: outbox_matches_def view_commit_def)
qed

lemma outbox_invariant:
  "reachable_memory encode s \<Longrightarrow> cursors_ok s \<and> checkpoints_ok s \<and> outbox_matches encode s"
proof (induction rule: reachable_memory.induct)
  case created
  show ?case
    by (simp add: cursors_ok_def checkpoints_ok_def outbox_matches_def outbox_of_def memory_view_def
        default_memory_state_def)
next
  case (committed s r)
  then show ?case
  proof (cases rule: memory_commit_outbox [of encode s r])
    case kept
    then show ?thesis
      using committed by (simp add: cursors_ok_def checkpoints_ok_def outbox_matches_def outbox_of_def)
  next
    case (grown records)
    then show ?thesis
      using committed outbox_entries_Inr(2) [OF grown(3)]
      by (auto intro: cursors_append matches_append simp: checkpoints_ok_def)
  qed
next
  case (published s a b)
  then show ?case
    using checkpoint_within(1) [of s a b] by (simp add: cursors_ok_def outbox_matches_def outbox_of_def)
next
  case (worked s a b)
  then show ?case
    using checkpoint_within(2) [of s a b] by (simp add: cursors_ok_def outbox_matches_def outbox_of_def)
qed

interpretation memory_outbox: outbox_store memory_outbox_port ms_outbox ms_outbox_checkpoint cursors_ok
  by unfold_locales
     (auto simp: memory_outbox_port_def publisher_checkpoint_def read_after_def memory_checkpoint_def
       cursors_ok_def sorted_wrt_iff_nth_less word_less_nat_alt split: if_splits option.splits)

section \<open>Prepared requests are accepted\<close>

lemma unat_Suc_word: "unat b = Suc (unat a) \<Longrightarrow> b = a + 1" for a b :: "'l::len word"
proof -
  assume "unat b = Suc (unat a)"
  then have "of_nat (unat b) = (of_nat (Suc (unat a)) :: 'l word)" by simp
  then show "b = a + 1" by (simp add: add.commute)
qed

lemma u64_try_from_unat: "u64_try_from (unat w) = Some w"
proof -
  have "unat w < 2 ^ LENGTH(64)" by (rule unsigned_less)
  then show ?thesis by (simp add: u64_try_from_def usize_max_def)
qed

lemma numbered_contiguous:
  assumes "numbered_from (unat w) es"
  shows "\<not> non_contiguous w es"
proof -
  have "\<not> gap_between es" if "numbered_from n es" for n
    using that
  proof (induction es arbitrary: n rule: gap_between.induct)
    case (1 a b es)
    then have "unat (sequence_of b) = unat (sequence_of a) + 1" by (simp add: numbered_from_Cons)
    then have "sequence_of b = sequence_of a + 1" by (intro unat_Suc_word) simp
    then show ?case using 1 by (simp add: numbered_from_Cons sequence_of_def)
  qed simp_all
  moreover have "sequence_of e = w + 1" if "es = e # fs" for e fs
    using assms that by (intro unat_Suc_word) (simp add: numbered_from_Cons)
  ultimately show ?thesis
    using assms by (auto simp: non_contiguous_def sequence_of_def split: list.splits)
qed

lemma try_map_total: "\<forall>x \<in> set xs. \<exists>y. f x = Inr y \<Longrightarrow> \<exists>ys. try_map f xs = Inr ys"
  by (induction xs) auto

lemma outbox_entries_exist:
  assumes "length (ms_outbox s) + length (cr_events r) < 2 ^ LENGTH(64)"
  shows "\<exists>records. outbox_entries encode s r = Inr records"
proof -
  let ?w = "of_nat (length (ms_outbox s)) :: u64"
  have w: "u64_try_from (length (ms_outbox s)) = Some ?w" "unat ?w = length (ms_outbox s)"
    using assms by (simp_all add: u64_try_from_def usize_max_def unat_of_nat)
  have "\<exists>x. outbox_entry encode r ?w (i, e) = Inr x" if "i < length (cr_events r)" for i e
  proof -
    have i: "u64_try_from i = Some (of_nat i)" "unat (of_nat i :: u64) = i"
      using assms that by (simp_all add: u64_try_from_def usize_max_def unat_of_nat)
    have add: "checked_add ?w (of_nat i) = Some (?w + of_nat i)"
      using assms that w i by (simp add: checked_add_def)
    then have "unat (?w + of_nat i) = length (ms_outbox s) + i"
      using unat_checked_add [OF add] w i by simp
    then have "checked_add (?w + of_nat i) 1 = Some (?w + of_nat i + 1)"
      using assms that by (simp add: checked_add_def)
    then show ?thesis using i add by (simp add: outbox_entry_def)
  qed
  then have "\<exists>ys. try_map (outbox_entry encode r ?w) (enumerate 0 (cr_events r)) = Inr ys"
    by (intro try_map_total) (auto simp: in_set_enumerate_eq)
  then show ?thesis using w by (simp add: outbox_entries_def)
qed

lemma prepared_commit_succeeds:
  assumes "view_ok R (memory_view s)" and "registered R d" and "ac_tenant_id request = wd_tenant_id d"
    and prepared: "prepare_commit (memory_port encode) resolve s d request authorized = Inr r"
    and named: "ap_workload_id authorized \<noteq> []" "ap_matched_grant_ids authorized \<noteq> []"
    and fresh: "sv_result (memory_view s) (request_scope r) = None"
      "audit_recorded s (ac_tenant_id request) (ac_command_id request) = None"
    and room: "length (ms_outbox s) + length (cr_events r) < 2 ^ LENGTH(64)"
  shows "fst (memory_commit encode s r) = Inr (Committed (cr_result r))"
proof -
  let ?es = "sv_stream (memory_view s) (request_stream r)"
  from prepared obtain cfg loaded where
    load: "ws_load (memory_port encode) s (ac_tenant_id request) (ac_instance_id request) = Inr loaded"
    and r: "decide_commit d request authorized cfg loaded = Inr r"
    and policy: "rc_policy_version cfg = ap_policy_version authorized"
    by (rule prepare_commit_Inr)
  note facts = decide_commit_Inr [OF r]
  have state: "loaded_state loaded = replay ?es"
    using memory.loaded_replay [OF assms(1) load] facts(1) by simp
  have version: "unat (li_version loaded) = length ?es"
    using memory.load_law [OF load] facts(1) by simp
  have snapshot: "\<not> invalid_snapshot r"
  proof (cases "cr_snapshot r")
    case (Some sn)
    have boundary: "snapshot_at_latest_boundary d request cfg (replay ?es) (cr_events r) = Inr (Some sn)"
      using facts(10) Some unfolding state by simp
    have "length (?es @ cr_events r) < 2 ^ LENGTH(64)" using facts(8) version by simp
    note sn = snapshot_at_latest_boundary_Inr [OF boundary this]
    have "sn_tenant_id sn = ac_tenant_id request" "sn_instance_id sn = ac_instance_id request"
      using snapshot_identity [OF boundary] by simp_all
    then show ?thesis
      using sn Some facts(1,4,9) version
      by (auto simp: invalid_snapshot_def snapshot_of_def Let_def word_le_nat_alt word_less_nat_alt
          request_stream_def)
  qed (simp add: invalid_snapshot_def)
  obtain records where records: "outbox_entries encode s r = Inr records"
    using outbox_entries_exist [OF room] by blast
  have "memory_commit encode s r = commit_stream s r records"
    using decide_commit_audit [OF r policy named] fresh snapshot records facts(1,3)
    by (simp add: memory_commit_def memory_view_def request_scope_def request_stream_def audit_recorded_def
        bt_contains_key_def)
  moreover have "fst (commit_stream s r records) = Inr (Committed (cr_result r))"
  proof (cases rule: commit_stream_cases [of s r records])
    case (1 e)
    have "u64_try_from (length ?es) = Some (cr_expected_version r)"
      using version facts(4) u64_try_from_unat [of "li_version loaded"] by simp
    moreover have "\<not> non_contiguous (cr_expected_version r) (cr_events r)"
      using numbered_contiguous facts(4,6) by simp
    ultimately show ?thesis
      by (simp add: commit_stream_def memory_view_def request_stream_def Let_def)
  qed simp
  ultimately show ?thesis by simp
qed

end
