(* ===== verification/Engine_Examples.thy ===== *)
theory Engine_Examples
  imports Examples Memory_Store
begin

text \<open>
  The order workflow of \<open>Examples\<close> on the engine with the in-memory store: the first command
  of an instance, with concrete authorisation, configuration and codec.
\<close>

definition ex_registry :: definitions where
  "ex_registry k = (if k = (''t'', ''o'', ''1'') then Some ex_definition else None)"

definition ex_encode :: "event_envelope \<Rightarrow> u8 list" where
  "ex_encode e = [1]"

definition ex_principal :: authorized_principal where
  "ex_principal =
     \<lparr>ap_actor_id = ''alice'', ap_roles = [''clerk''], ap_workload_id = ''gateway'',
      ap_policy_version = ''p'', ap_bundle_sequence = 1, ap_revoke_epoch = 1,
      ap_matched_grant_ids = [''g'']\<rparr>"

definition ex_authorize :: "authorization_request \<Rightarrow> authorization_error + authorized_principal" where
  "ex_authorize request = (if ar_action request = ''START'' then Inr ex_principal else Inl (Denied ''x''))"

definition ex_resolve :: "configuration_lookup \<Rightarrow> config_error + resolved_config_snapshot" where
  "ex_resolve lookup = Inr ex_config"

definition ex_request :: authorized_command where
  "ex_request =
     \<lparr>ac_tenant_id = ''t'', ac_instance_id = ''i'', ac_command_id = ''c'', ac_idempotency_key = ''k'',
      ac_correlation_id = ''r'', ac_evaluated_at_epoch_ms = 7, ac_actor_proof = [],
      ac_actor_proof_kind = OriginalJwt, ac_workload_proof = [], ac_encryption_key_scope = ''p'',
      ac_variables = [], ac_command = StartWorkflow ''t'' 7\<rparr>"

definition ex_metadata :: "string \<Rightarrow> u64 \<Rightarrow> event_metadata" where
  "ex_metadata event_id sequence =
     \<lparr>em_event_id = event_id, em_tenant_id = ''t'', em_instance_id = ''i'', em_sequence = sequence,
      em_schema_version = 1, em_correlation_id = ''r'', em_causation_command_id = ''c'',
      em_occurred_at_epoch_ms = 7, em_config_version = ''v'', em_policy_version = ''p'',
      em_actor_id = ''alice'', em_encryption_key_scope = ''p'', em_workflow_type = ''o'',
      em_workflow_version = ''1''\<rparr>"

definition ex_events :: "event_envelope list" where
  "ex_events =
     [\<lparr>ee_metadata = ex_metadata ''c:1'' 1, ee_event = WorkflowStarted ''t'' ''o'' ''1'' ''s'' 7\<rparr>,
      \<lparr>ee_metadata = ex_metadata ''c:2'' 2,
       ee_event = GatewaySplitActivated ''f'' ''j'' [''a'', ''b''] 7\<rparr>,
      \<lparr>ee_metadata = ex_metadata ''c:3'' 3, ee_event = ServiceTaskActivated ''a'' ''ship'' 7\<rparr>,
      \<lparr>ee_metadata = ex_metadata ''c:4'' 4,
       ee_event = UserTaskActivated ''b'' ''approve'' ''p'' None 7\<rparr>]"

definition ex_result :: committed_result where
  "ex_result =
     \<lparr>cm_version = 4, cm_event_ids = [''c:1'', ''c:2'', ''c:3'', ''c:4''], cm_config_version = ''v'',
      cm_policy_version = ''p''\<rparr>"

definition ex_commit :: commit_request where
  "ex_commit =
     \<lparr>cr_tenant_id = ''t'', cr_instance_id = ''i'', cr_actor_id = ''alice'', cr_idempotency_key = ''k'',
      cr_command_id = ''c'', cr_expected_version = 0, cr_events = ex_events, cr_snapshot = None,
      cr_authorization_audit =
        build_authorization_audit ex_definition ex_request ex_config ex_principal ''s'' ''START'',
      cr_result = ex_result\<rparr>"

definition ex_store :: memory_state where
  "ex_store = snd (memory_commit ex_encode default_memory_state ex_commit)"

lemma ex_registered: "registered ex_registry ex_definition"
  by (simp add: registered_def ex_registry_def ex_definition_def)

lemma ex_event_ids:
  "show_nat 1 = ''1''" "show_nat 2 = ''2''" "show_nat 3 = ''3''" "show_nat 4 = ''4''"
  by code_simp+

lemma ex_loaded:
  "memory_load default_memory_state ''t'' ''i'' =
    Inr \<lparr>li_snapshot = None, li_events = [], li_version = 0\<rparr>"
  by (simp add: memory_load_def default_memory_state_def u64_try_from_def)

lemma ex_attached:
  "attach_metadata ex_definition ex_request ''alice'' ex_config 0 (map ee_event ex_events) = Inr ex_events"
  by (simp add: attach_metadata_def attach_one_def ex_events_def ex_metadata_def ex_request_def
      ex_definition_def ex_config_def EVENT_SCHEMA_VERSION_def u64_try_from_def usize_max_def
      checked_add_def ex_event_ids [unfolded One_nat_def])

lemma ex_fields [simp]:
  "ac_tenant_id ex_request = ''t''" "ac_instance_id ex_request = ''i''" "ac_command_id ex_request = ''c''"
  "ac_idempotency_key ex_request = ''k''" "ac_command ex_request = StartWorkflow ''t'' 7"
  "ac_variables ex_request = []" "ac_encryption_key_scope ex_request = ''p''"
  "ap_actor_id ex_principal = ''alice''" "ap_policy_version ex_principal = ''p''"
  "rc_policy_version ex_config = ''p''" "rc_config_version ex_config = ''v''"
  "en_event_payload_key_scope (rc_engine ex_config) = ''p''"
  "en_snapshot_interval_events (rc_engine ex_config) = 10"
  "wd_tenant_id ex_definition = ''t''" "wd_start_node ex_definition = ''s''"
  by (simp_all add: ex_request_def ex_principal_def ex_config_def ex_engine_def ex_definition_def)

lemma ex_decided:
  "decide_commit ex_definition ex_request ex_principal ex_config
     \<lparr>li_snapshot = None, li_events = [], li_version = 0\<rparr> = Inr ex_commit"
proof -
  have decided: "decide ex_definition default_instance_state (StartWorkflow ''t'' 7)
      \<lparr>dc_configuration = ex_config, dc_variables = []\<rparr> = Inr (map ee_event ex_events)"
    using ex_decide_start by (simp add: ex_context_def ex_events_def)
  have result: "new_committed_result 0 ex_events ex_config = Inr ex_result"
    by (simp add: new_committed_result_def ex_result_def ex_events_def ex_metadata_def u64_try_from_def
        usize_max_def checked_add_def)
  have snapshot: "snapshot_at_latest_boundary ex_definition ex_request ex_config default_instance_state
      ex_events = Inr None"
    by (simp add: snapshot_at_latest_boundary_def ex_events_def ex_metadata_def sequence_of_def Let_def)
  show ?thesis
    by (simp add: decide_commit_def rehydrate_def decided ex_attached result snapshot ex_commit_def)
qed

lemma ex_prepared:
  "prepare_commit (memory_port ex_encode) ex_resolve default_memory_state ex_definition ex_request
     ex_principal = Inr ex_commit"
  by (simp add: prepare_commit_def ex_resolve_def validate_configuration_binding_def load_instance_def
      memory_port_def snapshot_mismatch_def ex_loaded ex_decided)

lemma ex_committed:
  "memory_commit ex_encode default_memory_state ex_commit = (Inr (Committed ex_result), ex_store)"
proof -
  have "fst (memory_commit ex_encode default_memory_state ex_commit) = Inr (Committed (cr_result ex_commit))"
  proof (rule prepared_commit_succeeds [OF _ ex_registered _ ex_prepared])
    show "view_ok ex_registry (memory_view default_memory_state)"
      by (simp add: view_ok_def memory_view_def default_memory_state_def)
  qed (simp_all add: ex_principal_def memory_view_def default_memory_state_def audit_recorded_def
      ex_commit_def ex_events_def)
  then show ?thesis by (simp add: ex_store_def ex_commit_def prod_eq_iff)
qed

lemma ex_run: "engine_run (memory_port ex_encode) ex_registry default_memory_state ex_store [ex_commit]"
proof -
  have "engine_run (memory_port ex_encode) ex_registry default_memory_state default_memory_state [ex_commit]"
    using engine_run.idle ex_registered _ ex_prepared by (rule engine_run.prepare) simp
  then show ?thesis
    using engine_run.commit [of "memory_port ex_encode" ex_registry default_memory_state
        default_memory_state "[ex_commit]" ex_commit]
    by (simp add: memory_port_def ex_store_def)
qed

lemma ex_handled:
  "handle (memory_port ex_encode) ex_authorize ex_resolve default_memory_state ex_definition ex_request =
    (Inr (HandleCommitted ex_result), ex_store)"
proof -
  have "ex_authorize (authorization_of ex_definition ex_request) = Inr ex_principal"
    by (simp add: ex_authorize_def authorization_of_def)
  moreover have "ws_lookup_idempotency (memory_port ex_encode) default_memory_state ''t'' ''alice'' ''k'' ''c'' =
      Inr None"
    by (simp add: memory_port_def lookup_idempotency_def default_memory_state_def)
  moreover have "ws_commit (memory_port ex_encode) default_memory_state ex_commit =
      (Inr (Committed ex_result), ex_store)"
    by (simp add: memory_port_def ex_committed)
  ultimately show ?thesis
    by (simp add: handle_def handle_authorized_def ex_prepared)
qed

lemma ex_store_stream: "sv_stream (memory_view ex_store) (''t'', ''i'') = ex_events"
  using memory.commit_law [of ex_encode default_memory_state ex_commit ex_result ex_store] ex_committed
  by (simp add: memory_port_def view_commit_def request_stream_def ex_commit_def memory_view_def
      default_memory_state_def)

lemma ex_store_loaded: "\<exists>loaded. memory_load ex_store ''t'' ''i'' = Inr loaded \<and> li_version loaded = 4"
proof -
  have "(case bt_get (ms_streams ex_store) (''t'', ''i'') of None \<Rightarrow> [] | Some es \<Rightarrow> es) = ex_events"
    using ex_store_stream by (simp add: memory_view_def)
  then show ?thesis
    by (simp add: memory_load_def ex_events_def u64_try_from_def usize_max_def Let_def)
qed

section \<open>Publishing\<close>

text \<open>A broker that rejects the next publications, as often as its counter says.\<close>

definition ex_broker :: "(outbox_record list \<times> nat) broker" where
  "ex_broker b r =
     (case b of
        (received, Suc failures) \<Rightarrow> (Inl (BrokerUnavailable ''down''), (received, failures))
      | (received, 0) \<Rightarrow> (Inr \<lparr>pa_event_id = ob_event_id r\<rparr>, (received @ [r], 0)))"

definition ex_publisher :: outbox_publisher_config where
  "ex_publisher =
     \<lparr>oc_batch_size = 2, oc_max_publish_attempts = 2, oc_initial_retry_delay_ms = 10,
      oc_max_retry_delay_ms = 15, oc_retry_multiplier_millis = 2000\<rparr>"

definition ex_publishing :: "(memory_state, outbox_record list \<times> nat) publisher_state" where
  "ex_publishing = \<lparr>ps_store = ex_store, ps_broker = ([], 1), ps_waits = []\<rparr>"

lemma ex_broker_log: "broker_log ex_broker fst"
  by (auto simp: broker_log_def ex_broker_def split: prod.splits nat.splits)

lemma ex_store_reachable: "reachable_memory ex_encode ex_store"
  unfolding ex_store_def by (rule reachable_memory.committed [OF reachable_memory.created])

lemma ex_store_checkpoint: "ms_outbox_checkpoint ex_store = 0"
  by (simp add: ex_store_def default_memory_state_def)

definition ex_outbox_record :: "u64 \<Rightarrow> string \<Rightarrow> outbox_record" where
  "ex_outbox_record cursor event_id =
     \<lparr>ob_cursor = cursor, ob_tenant_id = ''t'', ob_instance_id = ''i'', ob_event_id = event_id,
      ob_correlation_id = ''r'', ob_causation_command_id = ''c'', ob_payload = [1]\<rparr>"

lemma ex_store_outbox:
  "ms_outbox ex_store = [ex_outbox_record 1 ''c:1'', ex_outbox_record 2 ''c:2'',
     ex_outbox_record 3 ''c:3'', ex_outbox_record 4 ''c:4'']"
proof (cases rule: memory_commit_outbox [of ex_encode default_memory_state ex_commit])
  case kept
  then have "sv_stream (memory_view ex_store) (''t'', ''i'') = []"
    by (simp add: ex_store_def memory_view_def default_memory_state_def)
  then show ?thesis using ex_store_stream by (simp add: ex_events_def)
next
  case (grown records)
  have "outbox_entries ex_encode default_memory_state ex_commit =
      Inr [ex_outbox_record 1 ''c:1'', ex_outbox_record 2 ''c:2'',
     ex_outbox_record 3 ''c:3'', ex_outbox_record 4 ''c:4'']"
    by (simp add: outbox_entries_def outbox_entry_def default_memory_state_def ex_commit_def ex_events_def
        ex_metadata_def ex_encode_def ex_outbox_record_def u64_try_from_def usize_max_def checked_add_def)
  then show ?thesis using grown by (simp add: ex_store_def default_memory_state_def)
qed

lemma ex_published:
  "\<exists>res p'. run_once_with_config memory_outbox_port ex_broker ex_publisher 0 ex_publishing = (res, p')
    \<and> ms_outbox_checkpoint (ps_store p') = 2"
proof -
  let ?a = "ex_outbox_record 1 ''c:1''" and ?b = "ex_outbox_record 2 ''c:2''"
  have batch: "read_after ex_store 0 2 = Inr [?a, ?b]"
    by (simp add: read_after_def ex_store_outbox ex_outbox_record_def)
  have moves: "\<exists>s. memory_checkpoint ex_store 0 1 = (Inr (), s)
      \<and> (\<exists>t. memory_checkpoint s 1 2 = (Inr (), t) \<and> ms_outbox_checkpoint t = 2)"
    by (simp add: memory_checkpoint_def ex_store_checkpoint ex_store_outbox u64_try_from_def usize_max_def
        word_le_nat_alt word_less_nat_alt)
  then obtain s t where moves: "memory_checkpoint ex_store 0 1 = (Inr (), s)"
    "memory_checkpoint s 1 2 = (Inr (), t)" "ms_outbox_checkpoint t = 2"
    by blast
  have loop: "publish_loop ex_broker ex_publisher r (Suc (Suc 0)) 10 (received, 1) w =
        (Inr (), (received @ [r], 0), w @ [10])"
      "publish_loop ex_broker ex_publisher r (Suc (Suc 0)) 10 (received, 0) w = (Inr (), (received @ [r], 0), w)"
    for r received w
    by (simp_all add: ex_broker_def)
  have retry: "publish_with_retry ex_broker ex_publisher r (received, 1) w =
        (Inr (), (received @ [r], 0), w @ [10])"
      "publish_with_retry ex_broker ex_publisher r (received, 0) w = (Inr (), (received @ [r], 0), w)"
    for r received w
    using loop [of r received w] unfolding numeral_2_eq_2 [symmetric]
    by (simp_all add: publish_with_retry_def ex_publisher_def)
  have cursors: "ob_cursor ?a = 1" "ob_cursor ?b = 2" "ob_event_id ?a \<noteq> []" "ob_event_id ?b \<noteq> []"
    "ob_payload ?a \<noteq> []" "ob_payload ?b \<noteq> []"
    by (simp_all add: ex_outbox_record_def)
  have "validate_batch [?a, ?b] 0 2 = Inr ()"
    by (simp add: validate_batch_def cursors word_le_nat_alt)
  then show ?thesis
    using retry batch moves cursors
    by (simp add: run_once_with_config_def ex_publishing_def memory_outbox_port_def
        ex_publisher_def [THEN arg_cong [where f = oc_batch_size]])
qed

end
