(* ===== verification/Decision_Events.thy ===== *)
theory Decision_Events
  imports Engine
begin

text \<open>
  What a decision records. The first event of a successful \<open>decide\<close> answers the command; the
  others are automatic: they activate, arm, cancel or complete what follows from it and never
  report work that the command did not name. All carry the time of the command, and their
  number is within the configured limit.
\<close>

section \<open>Specification\<close>

fun command_time :: "command \<Rightarrow> u64" where
  "command_time (StartWorkflow _ at) = at"
| "command_time (CompleteServiceTask _ _ at) = at"
| "command_time (CompleteUserTask _ _ at) = at"
| "command_time (CompleteScriptTask _ at) = at"
| "command_time (CompleteMultiInstanceIteration _ _ at) = at"
| "command_time (TriggerBoundaryEvent _ at) = at"
| "command_time (ActivateCase _ _ at) = at"
| "command_time (EvaluateCaseSentries _ at) = at"

text \<open>The event that answers a command.\<close>

fun answers :: "command \<Rightarrow> domain_event \<Rightarrow> bool" where
  "answers (StartWorkflow tenant _) e \<longleftrightarrow> (case e of WorkflowStarted t _ _ _ _ \<Rightarrow> t = tenant | _ \<Rightarrow> False)"
| "answers (CompleteServiceTask n outputs _) e \<longleftrightarrow>
     (case e of ServiceTaskCompleted m out _ \<Rightarrow> m = n \<and> out = outputs | _ \<Rightarrow> False)"
| "answers (CompleteUserTask n decision _) e \<longleftrightarrow>
     (case e of UserTaskCompleted m taken _ _ \<Rightarrow> m = n \<and> taken = decision | _ \<Rightarrow> False)"
| "answers (CompleteScriptTask n _) e \<longleftrightarrow> (case e of ScriptTaskCompleted m _ \<Rightarrow> m = n | _ \<Rightarrow> False)"
| "answers (CompleteMultiInstanceIteration n i _) e \<longleftrightarrow>
     (case e of MultiInstanceIterationCompleted m j _ \<Rightarrow> m = n \<and> j = i | _ \<Rightarrow> False)"
| "answers (TriggerBoundaryEvent b _) e \<longleftrightarrow>
     (case e of BoundaryEventTriggered c _ _ _ _ _ _ \<Rightarrow> c = b | _ \<Rightarrow> False)"
| "answers (ActivateCase c model _) e \<longleftrightarrow>
     (case e of CaseActivated k m _ _ _ \<Rightarrow> k = c \<and> m = model | _ \<Rightarrow> False)"
| "answers (EvaluateCaseSentries c _) e \<longleftrightarrow> (case e of CaseSentrySatisfied k _ _ \<Rightarrow> k = c | _ \<Rightarrow> False)"

text \<open>Events that report work done outside the decision.\<close>

fun reports_work :: "domain_event \<Rightarrow> bool" where
  "reports_work (WorkflowStarted _ _ _ _ _) \<longleftrightarrow> True"
| "reports_work (ServiceTaskCompleted _ _ _) \<longleftrightarrow> True"
| "reports_work (UserTaskCompleted _ _ _ _) \<longleftrightarrow> True"
| "reports_work (ScriptTaskCompleted _ _) \<longleftrightarrow> True"
| "reports_work (MultiInstanceIterationCompleted _ _ _) \<longleftrightarrow> True"
| "reports_work (BoundaryEventTriggered _ _ _ _ _ _ _) \<longleftrightarrow> True"
| "reports_work (CaseActivated _ _ _ _ _) \<longleftrightarrow> True"
| "reports_work _ \<longleftrightarrow> False"

definition automatic :: "u64 \<Rightarrow> domain_event \<Rightarrow> bool" where
  "automatic at e \<longleftrightarrow> event_time e = at \<and> \<not> reports_work e"

definition follows :: "u64 \<Rightarrow> domain_event list \<Rightarrow> domain_event list \<Rightarrow> bool" where
  "follows at es fs \<longleftrightarrow> (\<exists>gs. fs = es @ gs \<and> list_all (automatic at) gs)"

section \<open>Automatic steps\<close>

lemma follows_refl [simp]: "follows at es es"
  by (simp add: follows_def)

lemma follows_trans [trans]: "follows at es fs \<Longrightarrow> follows at fs gs \<Longrightarrow> follows at es gs"
  by (auto simp: follows_def)

lemma follows_emit: "automatic at e \<Longrightarrow> follows at (act_events a) (act_events (emit a r e))"
  by (simp add: follows_def emit_def)

lemma follows_try_fold:
  assumes "try_fold f a xs = Inr b" and "\<And>a x b. f a x = Inr b \<Longrightarrow> follows at (act_events a) (act_events b)"
  shows "follows at (act_events a) (act_events b)"
  using assms(1)
  by (rule try_fold_invariant [where P = "\<lambda>c. follows at (act_events a) (act_events c)"])
     (auto intro: follows_trans assms(2))

lemma follows_arm:
  assumes "arm_boundary_events d n at a = Inr b"
  shows "follows at (act_events a) (act_events b)"
  using assms unfolding arm_boundary_events_def
  by (rule follows_try_fold) (auto simp: and_then_Inr automatic_def intro!: follows_emit)

lemma follows_disarm: "follows at (act_events a) (act_events (disarm_boundary_events n at a))"
  by (auto simp: disarm_boundary_events_def Let_def automatic_def emit_def follows_def split: prod.split)

lemma follows_iteration:
  "activate_iteration n at a = Inr b \<Longrightarrow> follows at (act_events a) (act_events b)"
  by (auto simp: activate_iteration_def and_then_Inr automatic_def intro!: follows_emit)

lemma follows_multi_instance:
  assumes "start_multi_instance n task spec cfg at a = Inr (completed, b)"
  shows "follows at (act_events a) (act_events b)"
  using assms
proof (rule start_multi_instance_Inr)
  fix instances items p r a1
  assume a1: "a1 = emit a r (MultiInstanceStarted n task (mi_mode spec) instances p
                         (mi_item_variable spec) items at)"
    and fin: "completed \<Longrightarrow> b = emit a1 (finish_multi_instance r n) (MultiInstanceCompleted n False [] at)"
    and run: "\<not> completed \<Longrightarrow> try_fold (\<lambda>a _. activate_iteration n at a) a1 [0..<unat p] = Inr b"
  have "follows at (act_events a) (act_events a1)"
    unfolding a1 by (rule follows_emit) (simp add: automatic_def)
  moreover have "follows at (act_events a1) (act_events b)"
  proof (cases completed)
    case True
    show ?thesis unfolding fin [OF True] by (rule follows_emit) (simp add: automatic_def)
  next
    case False
    show ?thesis using run [OF False] by (rule follows_try_fold) (rule follows_iteration)
  qed
  ultimately show ?thesis by (rule follows_trans)
qed

lemma follows_activity:
  assumes "activate_activity d cfg at n scope task next_node activated a = Inr (pushed, b)"
    and "automatic at activated"
  shows "follows at (act_events a) (act_events b)"
proof (cases "node_multi_instance d n")
  case None
  with assms(1) obtain r where "arm_boundary_events d n at (emit a r activated) = Inr b"
    by (auto simp: activate_activity_def and_then_Inr)
  then show ?thesis using follows_arm follows_emit [OF assms(2)] follows_trans by blast
next
  case (Some spec)
  with assms(1) obtain completed c where "start_multi_instance n task spec cfg at a = Inr (completed, c)"
    and "c = b \<or> arm_boundary_events d n at c = Inr b"
    by (auto simp: activate_activity_def and_then_Inr split: if_splits)
  then show ?thesis using follows_arm follows_multi_instance follows_trans by blast
qed

lemma follows_end:
  assumes "activate_end d at n scope a = Inr (pushed, b)"
  shows "follows at (act_events a) (act_events b)"
proof (cases "owner_scope_id d n")
  case None
  then show ?thesis
    using assms by (auto simp: activate_end_def automatic_def intro!: follows_emit split: if_splits)
next
  case (Some owner)
  with assms obtain sid r where
    "b = disarm_boundary_events owner at (emit a r (ScopeCompleted sid owner n at))"
    by (auto simp: activate_end_def and_then_Inr Let_def)
  moreover have "follows at (act_events a) (act_events (emit a r (ScopeCompleted sid owner n at)))"
    by (rule follows_emit) (simp add: automatic_def)
  ultimately show ?thesis using follows_disarm follows_trans by metis
qed

lemma follows_join:
  assumes "activate_join at n scope next_node a = Inr (pushed, b)"
  shows "follows at (act_events a) (act_events b)"
proof -
  from assms obtain r where
    "b = emit a r (GatewayTokenArrived n at)
     \<or> (\<exists>r'. b = emit (emit a r (GatewayTokenArrived n at)) r' (GatewayJoined n at))"
    by (auto simp: activate_join_def and_then_Inr Let_def split: if_splits)
  then show ?thesis by (auto simp: follows_def emit_def automatic_def)
qed

lemma follows_step:
  assumes "activation_step d cfg at entry a = Inr (pushed, b)"
  shows "follows at (act_events a) (act_events b)"
proof -
  from assms obtain nd where "activate_node d cfg at (fst entry) (snd entry) nd a = Inr (pushed, b)"
    by (auto simp: activation_step_def and_then_Inr)
  then show ?thesis
  proof (cases nd)
    case (CallActivity called version next_node)
    then show ?thesis
      using \<open>activate_node _ _ _ _ _ _ _ = _\<close>
      by (auto simp: activate_call_activity_def automatic_def split: sum.splits elim!: follows_activity)
  next
    case (SubProcess start e n)
    then obtain sid invocation r where "arm_boundary_events d (fst entry) at
        (emit a r (ScopeEntered sid (fst entry) start (snd entry) invocation at)) = Inr b"
      using \<open>activate_node _ _ _ _ _ _ _ = _\<close> by (auto simp: activate_sub_process_def and_then_Inr)
    moreover have "follows at (act_events a)
        (act_events (emit a r (ScopeEntered sid (fst entry) start (snd entry) invocation at)))"
      by (rule follows_emit) (simp add: automatic_def)
    ultimately show ?thesis using follows_arm follows_trans by blast
  qed (auto simp: activate_service_task_def activate_user_task_def activate_script_task_def automatic_def
      activate_decision_task_def activate_split_def and_then_Inr emit_def follows_def
      split: if_splits elim!: follows_activity [unfolded follows_def] follows_end [unfolded follows_def]
      follows_join [unfolded follows_def])
qed

lemma follows_loop:
  "activation_loop d cfg at origin limit steps pending a = Inr b \<Longrightarrow> follows at (act_events a) (act_events b)"
proof (induction d cfg at origin limit steps pending a rule: activation_loop.induct)
  case (2 d cfg at origin limit steps entry pending a)
  then obtain pushed c where step: "activation_step d cfg at entry a = Inr (pushed, c)"
    and "activation_loop d cfg at origin limit (Suc steps) (pushed @ pending) c = Inr b"
      "\<not> limit < Suc steps"
    by (auto simp: and_then_Inr split: if_splits)
  then show ?case using "2.IH" follows_step [OF step] follows_trans by blast
qed simp

lemma follows_routed:
  "routed d cfg at next_node scope a = Inr es \<Longrightarrow> follows at (act_events a) es"
  unfolding routed_def activation_events_def and_then_Inr using follows_loop by blast

section \<open>Commands\<close>

definition answered :: "command \<Rightarrow> domain_event list \<Rightarrow> bool" where
  "answered command es \<longleftrightarrow>
     (\<exists>e rest. es = e # rest \<and> answers command e \<and> event_time e = command_time command
        \<and> list_all (automatic (command_time command)) rest)"

lemma answeredI:
  "follows (command_time command) [e] es \<Longrightarrow> answers command e \<Longrightarrow> event_time e = command_time command \<Longrightarrow>
    answered command es"
  by (auto simp: follows_def answered_def)

lemma complete_and_route_follows:
  assumes "complete_and_route d s n next_node completed vars cfg at = Inr es"
  shows "follows at [completed] es"
proof -
  from assms obtain r scope where "routed d cfg at next_node scope (disarm_boundary_events n at
      \<lparr>act_variables = vars, act_routing = r, act_events = [completed]\<rparr>) = Inr es"
    by (auto simp: complete_and_route_def and_then_Inr Let_def)
  from follows_trans [OF follows_disarm follows_routed [OF this]] show ?thesis by simp
qed

lemma refill_follows: "refill_slot n at a = Inr es \<Longrightarrow> follows at (act_events a) es"
  by (auto simp: refill_slot_def and_then_Inr split: if_splits dest: follows_iteration)

lemma finish_follows:
  assumes "finish_and_route d s n next_node met ctx at a = Inr es"
  shows "follows at (act_events a) es"
proof -
  define cancelled where "cancelled = (if met
            then (case bt_get (rs_active_multi_instances (act_routing a)) n of
                    None \<Rightarrow> [] | Some active \<Rightarrow> am_active_iterations active)
            else [])"
  let ?b = "emit a (finish_multi_instance (act_routing a) n) (MultiInstanceCompleted n met cancelled at)"
  from assms obtain scope vars where "routed d (dc_configuration ctx) at next_node scope
      ((disarm_boundary_events n at ?b)\<lparr>act_variables := vars\<rparr>) = Inr es"
    unfolding finish_and_route_def cancelled_def Let_def and_then_Inr by blast
  then have "follows at (act_events (disarm_boundary_events n at ?b)) es"
    using follows_routed by fastforce
  moreover have "follows at (act_events a) (act_events ?b)"
    by (rule follows_emit) (simp add: automatic_def)
  ultimately show ?thesis using follows_disarm follows_trans by blast
qed

lemma iteration_follows:
  assumes "complete_multi_instance_iteration d s n i ctx at = Inr es"
  shows "follows at [MultiInstanceIterationCompleted n i at] es"
  using assms
  by (auto simp: complete_multi_instance_iteration_def and_then_Inr Let_def split: if_splits
      dest!: finish_follows refill_follows)

lemma find_boundary_id: "find_boundary m b = Some (owner, boundary) \<Longrightarrow> be_id boundary = b"
  by (induction m b rule: find_boundary.induct) (auto simp: find_Some_iff split: option.splits)

lemma cancellation_automatic:
  assumes "boundary_cancellation d owner boundary at = Inr es"
  shows "list_all (automatic at) es"
proof (cases "be_cancel_activity boundary")
  case True
  with assms obtain nd where "definition_node d owner = Inr nd"
    by (auto simp: boundary_cancellation_def and_then_Inr)
  with assms True show ?thesis by (cases nd) (auto simp: boundary_cancellation_def automatic_def)
qed (use assms in \<open>simp add: boundary_cancellation_def\<close>)

lemma boundary_follows:
  assumes "trigger_boundary_event d s b ctx at = Inr es"
  shows "\<exists>e. follows at [e] es \<and> answers (TriggerBoundaryEvent b at) e \<and> event_time e = at"
proof -
  from assms obtain owner boundary tokens multi where fire: "fire_boundary d s owner boundary tokens multi ctx at = Inr es"
    and "map_option snd (boundary_event d b) = Some boundary"
    by (auto simp: trigger_boundary_event_def and_then_Inr ok_or_Inr Let_def split: if_splits)
  then have b: "be_id boundary = b" by (auto simp: boundary_event_def dest: find_boundary_id)
  let ?cancelled = "if be_cancel_activity boundary
            then (case multi of None \<Rightarrow> [] | Some active \<Rightarrow> am_active_iterations active) else []"
  let ?e = "BoundaryEventTriggered (be_id boundary) owner (be_target boundary) (be_cancel_activity boundary)
      ?cancelled (of_bool (be_cancel_activity boundary \<and> 0 < tokens)) at"
  from fire obtain cancellation r scope vars where
    cancel: "boundary_cancellation d owner boundary at = Inr cancellation"
    and routed: "routed d (dc_configuration ctx) at (be_target boundary) scope
      \<lparr>act_variables = vars, act_routing = r, act_events = ?e # cancellation\<rparr> = Inr es"
    unfolding fire_boundary_def Let_def and_then_Inr by blast
  have "follows at [?e] (?e # cancellation)"
    using cancellation_automatic [OF cancel] by (simp add: follows_def)
  moreover have "follows at (?e # cancellation) es" using follows_routed [OF routed] by simp
  ultimately have "follows at [?e] es" by (rule follows_trans)
  then show ?thesis by (intro exI [of _ ?e]) (simp add: b)
qed

lemma case_activation_follows:
  assumes "activate_case d s c model_id at = Inr es"
  shows "\<exists>e. follows at [e] es \<and> answers (ActivateCase c model_id at) e \<and> event_time e = at"
  using assms
  by (auto simp: activate_case_def and_then_Inr follows_def automatic_def list_all_iff split: if_splits)

text \<open>Sentries are recorded first; every later event of the evaluation is automatic.\<close>

lemma try_fold_snd_follows:
  assumes "try_fold f p xs = Inr q" and "\<And>p x q. f p x = Inr q \<Longrightarrow> follows at (snd p) (snd q)"
  shows "follows at (snd p) (snd q)"
  using assms(1)
  by (rule try_fold_invariant [where P = "\<lambda>q. follows at (snd p) (snd q)"]) (auto intro: follows_trans assms(2))

lemma push_case_transition_follows:
  "follows at (snd p) (snd (push_case_transition c item kind status governing satisfied at p))"
  by (simp add: push_case_transition_def follows_def automatic_def)

lemma advance_stage_follows: "advance_stage c satisfied at p stage = Inr q \<Longrightarrow> follows at (snd p) (snd q)"
  by (auto simp: advance_stage_def and_then_Inr push_case_transition_follows Let_def split: if_splits
      intro: follows_trans [OF push_case_transition_follows push_case_transition_follows])

lemma advance_milestone_follows:
  "advance_milestone c satisfied at p milestone = Inr q \<Longrightarrow> follows at (snd p) (snd q)"
  by (auto simp: advance_milestone_def and_then_Inr push_case_transition_follows split: if_splits)

lemma sentries_recorded:
  assumes "try_fold (evaluate_sentry c vars at) (satisfied, []) sentries = Inr (satisfied', es)"
  shows "list_all (\<lambda>e. \<exists>sentry. e = CaseSentrySatisfied c sentry at) es"
proof -
  have "list_all (\<lambda>e. \<exists>sentry. e = CaseSentrySatisfied c sentry at) (snd (satisfied', es))"
    using assms
    by (rule try_fold_invariant
        [where P = "\<lambda>q. list_all (\<lambda>e. \<exists>sentry. e = CaseSentrySatisfied c sentry at) (snd q)"])
       (auto simp: evaluate_sentry_def and_then_Inr split: if_splits)
  then show ?thesis by simp
qed

lemma case_sentries_follow:
  assumes "evaluate_case_sentries d s c facts at = Inr es"
  shows "\<exists>e. follows at [e] es \<and> answers (EvaluateCaseSentries c at) e \<and> event_time e = at"
  using assms
proof (rule evaluate_case_sentries_Inr)
  fix active model satisfied es1 p projected es2
  assume sentries: "try_fold (evaluate_sentry c (state_variables_with_context s facts) at)
        (ac_satisfied_sentries active, []) (cd_sentries model) = Inr (satisfied, es1)" "es1 \<noteq> []"
    and stages: "try_fold (advance_stage c satisfied at) (ac_plan_items active, es1) (cd_stages model) = Inr p"
    and milestones: "try_fold (advance_milestone c satisfied at) p (cd_milestones model) = Inr (projected, es2)"
    and es: "es = (if all_completed projected then es2 @ [CaseCompleted c at] else es2)"
  have "follows at es1 es2"
    using try_fold_snd_follows [OF stages advance_stage_follows]
      try_fold_snd_follows [OF milestones advance_milestone_follows] follows_trans by fastforce
  moreover have "follows at es2 es" by (simp add: es follows_def automatic_def)
  moreover obtain e rest where es1: "es1 = e # rest" using sentries(2) by (cases es1) auto
  moreover have "list_all (\<lambda>e. \<exists>sentry. e = CaseSentrySatisfied c sentry at) (e # rest)"
    using sentries_recorded [OF sentries(1)] es1 by simp
  then have "follows at [e] es1" and "answers (EvaluateCaseSentries c at) e \<and> event_time e = at"
    by (auto simp: es1 follows_def automatic_def list_all_iff)
  ultimately show ?thesis using follows_trans by blast
qed

lemma start_follows:
  assumes "start_workflow d s tenant ctx at = Inr es"
  shows "follows at [WorkflowStarted tenant (wd_workflow_type d) (wd_workflow_version d) (wd_start_node d) at] es"
proof -
  from assms obtain nd where "definition_node d (wd_start_node d) = Inr nd"
    unfolding start_workflow_def and_then_Inr if_Inl_Inr by blast
  with assms show ?thesis
    by (cases nd) (auto simp: start_workflow_def split: if_split_asm dest: follows_routed)
qed

lemma user_task_follows:
  assumes "complete_user_task d s n decision ctx at = Inr es"
  shows "\<exists>v. follows at [UserTaskCompleted n decision v at] es"
proof -
  from assms obtain nd where "definition_node d n = Inr nd"
    unfolding complete_user_task_def and_then_Inr by blast
  with assms show ?thesis
    by (cases nd) (auto simp: complete_user_task_def split: if_split_asm dest: complete_and_route_follows)
qed

lemma script_task_follows:
  assumes "complete_script_task d s n ctx at = Inr es"
  shows "follows at [ScriptTaskCompleted n at] es"
proof -
  from assms obtain nd where "definition_node d n = Inr nd"
    unfolding complete_script_task_def and_then_Inr by blast
  with assms show ?thesis
    by (cases nd) (auto simp: complete_script_task_def dest: complete_and_route_follows)
qed

lemma decide_events_answered:
  assumes "decide_events d s command ctx = Inr es"
  shows "answered command es"
proof (cases command)
  case (ActivateCase c model at)
  then show ?thesis using assms case_activation_follows [of d s c model at es] by (auto intro: answeredI)
next
  case (EvaluateCaseSentries c at)
  then show ?thesis
    using assms case_sentries_follow [of d s c "dc_variables ctx" at es] by (auto intro: answeredI)
next
  case (TriggerBoundaryEvent b at)
  then show ?thesis
    using assms boundary_follows [of d s b ctx at es] by (auto simp: when_active_Inr intro: answeredI)
next
  case (CompleteMultiInstanceIteration n i at)
  then have "follows at [MultiInstanceIterationCompleted n i at] es"
    using assms by (auto simp: when_active_Inr intro: iteration_follows)
  then show ?thesis using CompleteMultiInstanceIteration by (auto intro: answeredI)
next
  case (StartWorkflow tenant at)
  then have "follows at [WorkflowStarted tenant (wd_workflow_type d) (wd_workflow_version d) (wd_start_node d) at] es"
    using assms
    by (auto split: if_split_asm intro: start_follows)
  then show ?thesis using StartWorkflow by (auto intro: answeredI)
next
  case (CompleteServiceTask n outputs at)
  then have "follows at [ServiceTaskCompleted n outputs at] es"
    using assms
    by (auto simp: when_task_active_Inr complete_service_task_def and_then_Inr dest: complete_and_route_follows)
  then show ?thesis using CompleteServiceTask by (auto intro: answeredI)
next
  case (CompleteUserTask n decision at)
  then have "\<exists>v. follows at [UserTaskCompleted n decision v at] es"
    using assms by (auto simp: when_task_active_Inr intro: user_task_follows)
  then show ?thesis using CompleteUserTask by (auto intro: answeredI)
next
  case (CompleteScriptTask n at)
  then have "follows at [ScriptTaskCompleted n at] es"
    using assms by (auto simp: when_task_active_Inr intro: script_task_follows)
  then show ?thesis using CompleteScriptTask by (auto intro: answeredI)
qed

section \<open>Properties\<close>

text \<open>
  C5. A decision records its command and nothing else that happened outside: the first event
  of a successful decision is the one that answers the command, with the node, outcome or
  case the command names; no later event starts a workflow, completes a task or an
  iteration, fires a boundary event or opens a case; all events carry the time of the
  command; and there are at least one and at most as many as the configuration allows.
\<close>

theorem decision_records_command:
  assumes "decide d s command ctx = Inr es"
  shows "answers command (hd es)
    \<and> list_all (\<lambda>e. \<not> reports_work e) (tl es)
    \<and> list_all (\<lambda>e. event_time e = command_time command) es
    \<and> 1 \<le> length es \<and> length es \<le> unat (en_max_events_per_decision (rc_engine (dc_configuration ctx)))"
proof -
  have "decide_events d s command ctx = Inr es"
    and limit: "length es \<le> unat (en_max_events_per_decision (rc_engine (dc_configuration ctx)))"
    using assms by (simp_all add: decide_Inr)
  then obtain e rest where "es = e # rest" "answers command e" "event_time e = command_time command"
      "list_all (automatic (command_time command)) rest"
    using decide_events_answered [of d s command ctx es] by (auto simp: answered_def)
  then show ?thesis using limit by (auto simp: list_all_iff automatic_def)
qed

end
