(* ===== verification/Event_Codec.thy ===== *)
theory Event_Codec
  imports Engine
begin

text \<open>
  The durable form of events (\<open>apps/rust/bpmp-engine/src/event_codec.rs\<close>) over the generated
  messages of \<open>gen/rust/bpmp/engine/v1\<close>: translation of envelopes to wire messages, decoding
  with validation of every identifier, and the upcast of unversioned messages. The byte
  format of a message is prost's; its encoder and decoder are arguments. A wire message is a
  constructor with the fields of the generated struct in the order in which the codec
  names them, and an enumeration field is the integer it holds.
\<close>

section \<open>Wire messages\<close>

datatype wire_item = WireItem "wire_item_value option"
  and wire_item_value =
    ItemBoolean bool
  | ItemInteger int
  | ItemString string
  | ItemList "wire_item list"

datatype wire_variable_value =
    VariableBoolean bool
  | VariableInteger int
  | VariableString string
  | VariableList "wire_item list"

type_synonym wire_variable = "string \<times> wire_variable_value option"

datatype (plugins only: code) wire_event =
    WireCaseActivated string string "string list" "string list"
  | WireCaseSentrySatisfied string string
  | WireCasePlanItemTransitioned string string string string "string list"
  | WireCaseCompleted string
  | WireWorkflowStarted string string string string
  | WireServiceTaskActivated string string
  | WireServiceTaskCompleted string "wire_variable list"
  | WireUserTaskActivated string string string string
  | WireUserTaskCompleted string string string
  | WireUserTaskCancelled string string
  | WireScriptTaskActivated string string string string
  | WireScriptTaskCompleted string
  | WireDecisionTaskEvaluated string string "wire_variable list"
  | WireGatewaySplitActivated string string "string list"
  | WireGatewayTokenArrived string
  | WireGatewayJoined string
  | WireBoundaryEventArmed string string string bool int string
  | WireBoundaryEventsDisarmed string "string list"
  | WireMultiInstanceStarted string string int u32 u32 string "wire_item list"
  | WireMultiInstanceIterationActivated string string u32 "wire_item option"
  | WireMultiInstanceIterationCompleted string u32
  | WireMultiInstanceCompleted string bool "u32 list"
  | WireBoundaryEventTriggered string string string bool "u32 list" u32
  | WireScopeEntered string string string "string option" u64
  | WireScopeCompleted string string string
  | WireWorkflowBranchCompleted string
  | WireWorkflowCompleted
  | WireWorkflowTerminatedForCompliance string "u8 list" string u32

record wire_metadata =
  wm_event_id :: string
  wm_tenant_id :: string
  wm_instance_id :: string
  wm_sequence :: u64
  wm_schema_version :: u32
  wm_correlation_id :: string
  wm_causation_command_id :: string
  wm_occurred_at_epoch_ms :: u64
  wm_config_version :: string
  wm_policy_version :: string
  wm_actor_id :: string
  wm_encryption_key_scope :: string
  wm_workflow_type :: string
  wm_workflow_version :: string

record wire_envelope =
  we_metadata :: "wire_metadata option"
  we_event :: "wire_event option"

datatype event_codec_error =
    CodecDecode string
  | CodecMissingMetadata
  | CodecMissingEvent
  | CodecTenantMismatch
  | CodecEmptyField string
  | CodecMissingWorkflowVariableValue
  | CodecInvalidMultiInstanceMode int
  | CodecInvalidPositiveField string
  | CodecInvalidDigestLength
  | CodecInvalidBoundaryTriggerKind int
  | CodecUnsupportedSchema u32
  | CodecInvalidCaseEnum string string
  | CodecIdentifier string string

section \<open>Fields\<close>

definition event_identifier :: "string \<Rightarrow> string \<Rightarrow> string \<Rightarrow> event_codec_error + string" where
  "event_identifier kind value field = map_err (CodecIdentifier field) (identifier_new kind value)"

definition non_empty :: "string \<Rightarrow> string \<Rightarrow> event_codec_error + string" where
  "non_empty value field = (if is_blank value then Inl (CodecEmptyField field) else Inr value)"

definition optional_non_empty :: "string \<Rightarrow> string option" where
  "optional_non_empty value = (if is_blank value then None else Some value)"

definition positive :: "'w :: len word \<Rightarrow> string \<Rightarrow> event_codec_error + 'w word" where
  "positive value field = (if value = 0 then Inl (CodecInvalidPositiveField field) else Inr value)"

definition unwrap_or_default :: "string option \<Rightarrow> string" where
  "unwrap_or_default v = (case v of None \<Rightarrow> [] | Some s \<Rightarrow> s)"

fun workflow_value_item_to_wire :: "workflow_value \<Rightarrow> wire_item" where
  "workflow_value_item_to_wire (VBoolean v) = WireItem (Some (ItemBoolean v))"
| "workflow_value_item_to_wire (VInteger v) = WireItem (Some (ItemInteger v))"
| "workflow_value_item_to_wire (VString v) = WireItem (Some (ItemString v))"
| "workflow_value_item_to_wire (VList items) =
     WireItem (Some (ItemList (map workflow_value_item_to_wire items)))"

lemma try_map_cong [fundef_cong]:
  "xs = ys \<Longrightarrow> (\<And>x. x \<in> set ys \<Longrightarrow> f x = g x) \<Longrightarrow> try_map f xs = try_map g ys"
proof (induction ys arbitrary: xs)
  case (Cons y ys)
  then show ?case by simp
qed simp

fun workflow_value_item_from_wire :: "wire_item \<Rightarrow> event_codec_error + workflow_value" where
  "workflow_value_item_from_wire (WireItem None) = Inl CodecMissingWorkflowVariableValue"
| "workflow_value_item_from_wire (WireItem (Some (ItemBoolean v))) = Inr (VBoolean v)"
| "workflow_value_item_from_wire (WireItem (Some (ItemInteger v))) = Inr (VInteger v)"
| "workflow_value_item_from_wire (WireItem (Some (ItemString v))) = Inr (VString v)"
| "workflow_value_item_from_wire (WireItem (Some (ItemList items))) =
     and_then (try_map workflow_value_item_from_wire items) (\<lambda>values. Inr (VList values))"

fun workflow_value_to_wire :: "workflow_value \<Rightarrow> wire_variable_value" where
  "workflow_value_to_wire (VBoolean v) = VariableBoolean v"
| "workflow_value_to_wire (VInteger v) = VariableInteger v"
| "workflow_value_to_wire (VString v) = VariableString v"
| "workflow_value_to_wire (VList items) = VariableList (map workflow_value_item_to_wire items)"

definition workflow_variable_from_wire :: "wire_variable \<Rightarrow> event_codec_error + string \<times> workflow_value" where
  "workflow_variable_from_wire v =
     and_then (non_empty (fst v) ''workflow_variable.name'') (\<lambda>name.
     and_then (ok_or (snd v) CodecMissingWorkflowVariableValue) (\<lambda>value.
     and_then (case value of
         VariableBoolean b \<Rightarrow> Inr (VBoolean b)
       | VariableInteger i \<Rightarrow> Inr (VInteger i)
       | VariableString s \<Rightarrow> Inr (VString s)
       | VariableList items \<Rightarrow>
           and_then (try_map workflow_value_item_from_wire items) (\<lambda>values. Inr (VList values)))
       (\<lambda>value. Inr (name, value))))"

definition variables_to_wire :: "variables \<Rightarrow> wire_variable list" where
  "variables_to_wire vs = map (\<lambda>(name, value). (name, Some (workflow_value_to_wire value))) vs"

definition variables_from_wire :: "wire_variable list \<Rightarrow> event_codec_error + variables" where
  "variables_from_wire vs =
     and_then (try_map workflow_variable_from_wire vs) (\<lambda>pairs. Inr (bt_extend [] pairs))"

primrec multi_instance_mode_to_wire :: "multi_instance_mode \<Rightarrow> int" where
  "multi_instance_mode_to_wire Sequential = 1"
| "multi_instance_mode_to_wire Parallel = 2"

definition multi_instance_mode_from_wire :: "int \<Rightarrow> event_codec_error + multi_instance_mode" where
  "multi_instance_mode_from_wire v =
     (if v = 1 then Inr Sequential else if v = 2 then Inr Parallel
      else Inl (CodecInvalidMultiInstanceMode v))"

fun boundary_trigger_to_wire :: "boundary_trigger \<Rightarrow> int \<times> string" where
  "boundary_trigger_to_wire (TriggerTimer kind expression) =
     ((case kind of TimerDate \<Rightarrow> 1 | TimerDuration \<Rightarrow> 2 | TimerCycle \<Rightarrow> 3), expression)"
| "boundary_trigger_to_wire (TriggerError error_ref) = (4, unwrap_or_default error_ref)"
| "boundary_trigger_to_wire (TriggerMessage message_ref) = (5, message_ref)"

definition boundary_trigger_from_wire :: "int \<Rightarrow> string \<Rightarrow> event_codec_error + boundary_trigger" where
  "boundary_trigger_from_wire kind reference =
     (if kind = 1 then and_then (non_empty reference ''boundary_trigger.reference'') (\<lambda>e. Inr (TriggerTimer TimerDate e))
      else if kind = 2 then and_then (non_empty reference ''boundary_trigger.reference'') (\<lambda>e. Inr (TriggerTimer TimerDuration e))
      else if kind = 3 then and_then (non_empty reference ''boundary_trigger.reference'') (\<lambda>e. Inr (TriggerTimer TimerCycle e))
      else if kind = 4 then Inr (TriggerError (optional_non_empty reference))
      else if kind = 5 then and_then (non_empty reference ''boundary_trigger.reference'') (\<lambda>e. Inr (TriggerMessage e))
      else Inl (CodecInvalidBoundaryTriggerKind kind))"

primrec case_plan_item_kind_name :: "case_plan_item_kind \<Rightarrow> string" where
  "case_plan_item_kind_name Stage = ''STAGE''"
| "case_plan_item_kind_name Milestone = ''MILESTONE''"

definition case_plan_item_kind_from_name :: "string \<Rightarrow> event_codec_error + case_plan_item_kind" where
  "case_plan_item_kind_from_name v =
     (if v = ''STAGE'' then Inr Stage else if v = ''MILESTONE'' then Inr Milestone
      else Inl (CodecInvalidCaseEnum ''plan_item_kind'' v))"

primrec case_plan_item_status_name :: "case_plan_item_status \<Rightarrow> string" where
  "case_plan_item_status_name ItemAvailable = ''AVAILABLE''"
| "case_plan_item_status_name ItemActive = ''ACTIVE''"
| "case_plan_item_status_name ItemCompleted = ''COMPLETED''"

definition case_plan_item_status_from_name :: "string \<Rightarrow> event_codec_error + case_plan_item_status" where
  "case_plan_item_status_from_name v =
     (if v = ''AVAILABLE'' then Inr ItemAvailable else if v = ''ACTIVE'' then Inr ItemActive
      else if v = ''COMPLETED'' then Inr ItemCompleted
      else Inl (CodecInvalidCaseEnum ''plan_item_status'' v))"

section \<open>Events\<close>

fun to_wire_event :: "domain_event \<Rightarrow> wire_event" where
  "to_wire_event (CaseActivated c model stages milestones _) = WireCaseActivated c model stages milestones"
| "to_wire_event (CaseSentrySatisfied c sentry _) = WireCaseSentrySatisfied c sentry"
| "to_wire_event (CasePlanItemTransitioned c item kind status sentries _) =
     WireCasePlanItemTransitioned c item (case_plan_item_kind_name kind)
       (case_plan_item_status_name status) sentries"
| "to_wire_event (CaseCompleted c _) = WireCaseCompleted c"
| "to_wire_event (WorkflowStarted tenant type version start _) = WireWorkflowStarted tenant type version start"
| "to_wire_event (ServiceTaskActivated n task _) = WireServiceTaskActivated n task"
| "to_wire_event (ServiceTaskCompleted n outputs _) = WireServiceTaskCompleted n (variables_to_wire outputs)"
| "to_wire_event (UserTaskActivated n task policy form _) =
     WireUserTaskActivated n task policy (unwrap_or_default form)"
| "to_wire_event (UserTaskCompleted n decision result _) = WireUserTaskCompleted n decision result"
| "to_wire_event (UserTaskCancelled n reason _) = WireUserTaskCancelled n reason"
| "to_wire_event (ScriptTaskActivated n task reference version _) =
     WireScriptTaskActivated n task reference version"
| "to_wire_event (ScriptTaskCompleted n _) = WireScriptTaskCompleted n"
| "to_wire_event (DecisionTaskEvaluated n table outputs _) =
     WireDecisionTaskEvaluated n table (variables_to_wire outputs)"
| "to_wire_event (GatewaySplitActivated g join selected _) = WireGatewaySplitActivated g join selected"
| "to_wire_event (GatewayTokenArrived g _) = WireGatewayTokenArrived g"
| "to_wire_event (GatewayJoined g _) = WireGatewayJoined g"
| "to_wire_event (BoundaryEventArmed b attached target cancel trigger _) =
     (let (kind, reference) = boundary_trigger_to_wire trigger
      in WireBoundaryEventArmed b attached target cancel kind reference)"
| "to_wire_event (BoundaryEventsDisarmed attached ids _) = WireBoundaryEventsDisarmed attached ids"
| "to_wire_event (MultiInstanceStarted n task mode instances parallelism item_variable items _) =
     WireMultiInstanceStarted n task (multi_instance_mode_to_wire mode) instances parallelism
       (unwrap_or_default item_variable) (map workflow_value_item_to_wire items)"
| "to_wire_event (MultiInstanceIterationActivated n task i item _) =
     WireMultiInstanceIterationActivated n task i (map_option workflow_value_item_to_wire item)"
| "to_wire_event (MultiInstanceIterationCompleted n i _) = WireMultiInstanceIterationCompleted n i"
| "to_wire_event (MultiInstanceCompleted n satisfied cancelled _) = WireMultiInstanceCompleted n satisfied cancelled"
| "to_wire_event (BoundaryEventTriggered b attached target cancel iterations tokens _) =
     WireBoundaryEventTriggered b attached target cancel iterations tokens"
| "to_wire_event (ScopeEntered sid scope start parent invocation _) =
     WireScopeEntered sid scope start parent invocation"
| "to_wire_event (ScopeCompleted sid scope end_node _) = WireScopeCompleted sid scope end_node"
| "to_wire_event (WorkflowBranchCompleted end_node _) = WireWorkflowBranchCompleted end_node"
| "to_wire_event (WorkflowCompleted _) = WireWorkflowCompleted"
| "to_wire_event (WorkflowTerminatedForCompliance policy digest reason reconciled _) =
     WireWorkflowTerminatedForCompliance policy digest reason reconciled"

text \<open>\<open>NodeId::new\<close>, the constructor most fields go through, and lists of identifiers.\<close>

definition node_field :: "string \<Rightarrow> string \<Rightarrow> event_codec_error + node_id" where
  "node_field value field = event_identifier ''NodeId'' value field"

definition identifiers :: "string \<Rightarrow> string list \<Rightarrow> string \<Rightarrow> event_codec_error + string list" where
  "identifiers kind values field = try_map (\<lambda>value. event_identifier kind value field) values"

definition transpose_option :: "('a \<Rightarrow> 'e + 'b) \<Rightarrow> 'a option \<Rightarrow> 'e + 'b option" where
  "transpose_option f v = (case v of None \<Rightarrow> Inr None | Some x \<Rightarrow> and_then (f x) (\<lambda>y. Inr (Some y)))"

fun from_wire_event :: "u64 \<Rightarrow> wire_event \<Rightarrow> event_codec_error + domain_event" where
  "from_wire_event at (WireWorkflowStarted tenant type version start) =
     and_then (event_identifier ''TenantId'' tenant ''workflow_started.tenant_id'') (\<lambda>tenant.
     and_then (event_identifier ''WorkflowType'' type ''workflow_type'') (\<lambda>type.
     and_then (event_identifier ''WorkflowVersion'' version ''workflow_version'') (\<lambda>version.
     and_then (node_field start ''start_node_id'') (\<lambda>start.
     Inr (WorkflowStarted tenant type version start at)))))"
| "from_wire_event at (WireServiceTaskActivated n task) =
     and_then (node_field n ''node_id'') (\<lambda>n.
     and_then (event_identifier ''TaskType'' task ''task_type'') (\<lambda>task.
     Inr (ServiceTaskActivated n task at)))"
| "from_wire_event at (WireServiceTaskCompleted n outputs) =
     and_then (node_field n ''node_id'') (\<lambda>n.
     and_then (variables_from_wire outputs) (\<lambda>outputs.
     Inr (ServiceTaskCompleted n outputs at)))"
| "from_wire_event at (WireUserTaskActivated n task policy form) =
     and_then (node_field n ''node_id'') (\<lambda>n.
     and_then (event_identifier ''TaskType'' task ''task_type'') (\<lambda>task.
     and_then (non_empty policy ''assignment_policy_ref'') (\<lambda>policy.
     Inr (UserTaskActivated n task policy (optional_non_empty form) at))))"
| "from_wire_event at (WireUserTaskCompleted n decision result) =
     and_then (node_field n ''node_id'') (\<lambda>n.
     and_then (non_empty decision ''decision'') (\<lambda>decision.
     and_then (non_empty result ''result_variable'') (\<lambda>result.
     Inr (UserTaskCompleted n decision result at))))"
| "from_wire_event at (WireScriptTaskActivated n task reference version) =
     and_then (node_field n ''node_id'') (\<lambda>n.
     and_then (event_identifier ''TaskType'' task ''task_type'') (\<lambda>task.
     and_then (non_empty reference ''implementation_ref'') (\<lambda>reference.
     and_then (non_empty version ''implementation_version'') (\<lambda>version.
     Inr (ScriptTaskActivated n task reference version at)))))"
| "from_wire_event at (WireScriptTaskCompleted n) =
     and_then (node_field n ''node_id'') (\<lambda>n. Inr (ScriptTaskCompleted n at))"
| "from_wire_event at (WireDecisionTaskEvaluated n table outputs) =
     and_then (node_field n ''node_id'') (\<lambda>n.
     and_then (non_empty table ''decision_table_id'') (\<lambda>table.
     and_then (variables_from_wire outputs) (\<lambda>outputs.
     Inr (DecisionTaskEvaluated n table outputs at))))"
| "from_wire_event at (WireGatewaySplitActivated g join selected) =
     and_then (node_field g ''gateway_id'') (\<lambda>g.
     and_then (node_field join ''join_gateway_id'') (\<lambda>join.
     and_then (identifiers ''NodeId'' selected ''selected_target_node_id'') (\<lambda>selected.
     Inr (GatewaySplitActivated g join selected at))))"
| "from_wire_event at (WireGatewayTokenArrived g) =
     and_then (node_field g ''gateway_id'') (\<lambda>g. Inr (GatewayTokenArrived g at))"
| "from_wire_event at (WireGatewayJoined g) =
     and_then (node_field g ''gateway_id'') (\<lambda>g. Inr (GatewayJoined g at))"
| "from_wire_event at (WireBoundaryEventArmed b attached target cancel kind reference) =
     and_then (node_field b ''boundary_event_id'') (\<lambda>b.
     and_then (node_field attached ''attached_node_id'') (\<lambda>attached.
     and_then (node_field target ''target_node_id'') (\<lambda>target.
     and_then (boundary_trigger_from_wire kind reference) (\<lambda>trigger.
     Inr (BoundaryEventArmed b attached target cancel trigger at)))))"
| "from_wire_event at (WireBoundaryEventsDisarmed attached ids) =
     and_then (node_field attached ''attached_node_id'') (\<lambda>attached.
     and_then (identifiers ''NodeId'' ids ''boundary_event_id'') (\<lambda>ids.
     Inr (BoundaryEventsDisarmed attached ids at)))"
| "from_wire_event at (WireMultiInstanceStarted n task mode instances parallelism item_variable items) =
     and_then (node_field n ''node_id'') (\<lambda>n.
     and_then (event_identifier ''TaskType'' task ''task_type'') (\<lambda>task.
     and_then (multi_instance_mode_from_wire mode) (\<lambda>mode.
     and_then (positive parallelism ''max_parallelism'') (\<lambda>parallelism.
     and_then (try_map workflow_value_item_from_wire items) (\<lambda>items.
     Inr (MultiInstanceStarted n task mode instances parallelism (optional_non_empty item_variable)
       items at))))))"
| "from_wire_event at (WireMultiInstanceIterationActivated n task i item) =
     and_then (node_field n ''node_id'') (\<lambda>n.
     and_then (event_identifier ''TaskType'' task ''task_type'') (\<lambda>task.
     and_then (transpose_option workflow_value_item_from_wire item) (\<lambda>item.
     Inr (MultiInstanceIterationActivated n task i item at))))"
| "from_wire_event at (WireMultiInstanceIterationCompleted n i) =
     and_then (node_field n ''node_id'') (\<lambda>n. Inr (MultiInstanceIterationCompleted n i at))"
| "from_wire_event at (WireMultiInstanceCompleted n satisfied cancelled) =
     and_then (node_field n ''node_id'') (\<lambda>n. Inr (MultiInstanceCompleted n satisfied cancelled at))"
| "from_wire_event at (WireBoundaryEventTriggered b attached target cancel iterations tokens) =
     and_then (node_field b ''boundary_event_id'') (\<lambda>b.
     and_then (node_field attached ''attached_node_id'') (\<lambda>attached.
     and_then (node_field target ''target_node_id'') (\<lambda>target.
     Inr (BoundaryEventTriggered b attached target cancel iterations tokens at))))"
| "from_wire_event at (WireScopeEntered sid scope start parent invocation) =
     and_then (event_identifier ''ScopeInstanceId'' sid ''scope_instance_id'') (\<lambda>sid.
     and_then (node_field scope ''scope_node_id'') (\<lambda>scope.
     and_then (node_field start ''start_node_id'') (\<lambda>start.
     and_then (transpose_option (\<lambda>value.
         event_identifier ''ScopeInstanceId'' value ''parent_scope_instance_id'') parent) (\<lambda>parent.
     and_then (positive invocation ''scope_invocation'') (\<lambda>invocation.
     Inr (ScopeEntered sid scope start parent invocation at))))))"
| "from_wire_event at (WireScopeCompleted sid scope end_node) =
     and_then (event_identifier ''ScopeInstanceId'' sid ''scope_instance_id'') (\<lambda>sid.
     and_then (node_field scope ''scope_node_id'') (\<lambda>scope.
     and_then (node_field end_node ''end_node_id'') (\<lambda>end_node.
     Inr (ScopeCompleted sid scope end_node at))))"
| "from_wire_event at (WireWorkflowBranchCompleted end_node) =
     and_then (node_field end_node ''end_node_id'') (\<lambda>end_node.
     Inr (WorkflowBranchCompleted end_node at))"
| "from_wire_event at WireWorkflowCompleted = Inr (WorkflowCompleted at)"
| "from_wire_event at (WireWorkflowTerminatedForCompliance policy digest reason reconciled) =
     and_then (non_empty policy ''termination.policy_id'') (\<lambda>policy.
     if length digest \<noteq> 32 then Inl CodecInvalidDigestLength
     else and_then (non_empty reason ''termination.reason_code'') (\<lambda>reason.
     Inr (WorkflowTerminatedForCompliance policy digest reason reconciled at)))"
| "from_wire_event at (WireCaseActivated c model stages milestones) =
     and_then (event_identifier ''CaseId'' c ''case_id'') (\<lambda>c.
     and_then (event_identifier ''CaseModelId'' model ''case_type'') (\<lambda>model.
     and_then (identifiers ''PlanItemId'' stages ''stage_id'') (\<lambda>stages.
     and_then (identifiers ''PlanItemId'' milestones ''milestone_id'') (\<lambda>milestones.
     Inr (CaseActivated c model stages milestones at)))))"
| "from_wire_event at (WireCaseSentrySatisfied c sentry) =
     and_then (event_identifier ''CaseId'' c ''case_id'') (\<lambda>c.
     and_then (event_identifier ''SentryId'' sentry ''sentry_id'') (\<lambda>sentry.
     Inr (CaseSentrySatisfied c sentry at)))"
| "from_wire_event at (WireCasePlanItemTransitioned c item kind status sentries) =
     and_then (event_identifier ''CaseId'' c ''case_id'') (\<lambda>c.
     and_then (event_identifier ''PlanItemId'' item ''plan_item_id'') (\<lambda>item.
     and_then (case_plan_item_kind_from_name kind) (\<lambda>kind.
     and_then (case_plan_item_status_from_name status) (\<lambda>status.
     and_then (identifiers ''SentryId'' sentries ''satisfied_sentry_id'') (\<lambda>sentries.
     Inr (CasePlanItemTransitioned c item kind status sentries at))))))"
| "from_wire_event at (WireCaseCompleted c) =
     and_then (event_identifier ''CaseId'' c ''case_id'') (\<lambda>c. Inr (CaseCompleted c at))"
| "from_wire_event at (WireUserTaskCancelled n reason) =
     and_then (node_field n ''node_id'') (\<lambda>n.
     and_then (non_empty reason ''cancellation.reason'') (\<lambda>reason.
     Inr (UserTaskCancelled n reason at)))"

section \<open>Envelopes\<close>

definition to_wire :: "event_envelope \<Rightarrow> wire_envelope" where
  "to_wire envelope =
     (let m = ee_metadata envelope in
      \<lparr>we_metadata = Some
         \<lparr>wm_event_id = em_event_id m, wm_tenant_id = em_tenant_id m, wm_instance_id = em_instance_id m,
          wm_sequence = em_sequence m, wm_schema_version = em_schema_version m,
          wm_correlation_id = em_correlation_id m, wm_causation_command_id = em_causation_command_id m,
          wm_occurred_at_epoch_ms = em_occurred_at_epoch_ms m, wm_config_version = em_config_version m,
          wm_policy_version = em_policy_version m, wm_actor_id = em_actor_id m,
          wm_encryption_key_scope = em_encryption_key_scope m, wm_workflow_type = em_workflow_type m,
          wm_workflow_version = em_workflow_version m\<rparr>,
       we_event = Some (to_wire_event (ee_event envelope))\<rparr>)"

definition tenant_mismatch :: "domain_event \<Rightarrow> tenant_id \<Rightarrow> bool" where
  "tenant_mismatch event tenant =
     (case event of WorkflowStarted t _ _ _ _ \<Rightarrow> t \<noteq> tenant | _ \<Rightarrow> False)"

definition metadata_from_wire ::
  "wire_metadata \<Rightarrow> tenant_id \<Rightarrow> event_codec_error + event_metadata" where
  "metadata_from_wire m tenant =
     and_then (event_identifier ''InstanceId'' (wm_instance_id m) ''instance_id'') (\<lambda>instance.
     and_then (event_identifier ''CorrelationId'' (wm_correlation_id m) ''correlation_id'') (\<lambda>correlation.
     and_then (event_identifier ''CommandId'' (wm_causation_command_id m) ''causation_command_id'') (\<lambda>command.
     and_then (event_identifier ''ConfigVersion'' (wm_config_version m) ''config_version'') (\<lambda>config.
     and_then (event_identifier ''PolicyVersion'' (wm_policy_version m) ''policy_version'') (\<lambda>policy.
     and_then (event_identifier ''ActorId'' (wm_actor_id m) ''actor_id'') (\<lambda>actor.
     and_then (event_identifier ''KeyScope'' (wm_encryption_key_scope m) ''encryption_key_scope'') (\<lambda>scope.
     and_then (event_identifier ''WorkflowType'' (wm_workflow_type m) ''metadata.workflow_type'') (\<lambda>type.
     and_then (event_identifier ''WorkflowVersion'' (wm_workflow_version m) ''metadata.workflow_version'') (\<lambda>version.
     Inr \<lparr>em_event_id = wm_event_id m, em_tenant_id = tenant, em_instance_id = instance,
          em_sequence = wm_sequence m, em_schema_version = wm_schema_version m,
          em_correlation_id = correlation, em_causation_command_id = command,
          em_occurred_at_epoch_ms = wm_occurred_at_epoch_ms m, em_config_version = config,
          em_policy_version = policy, em_actor_id = actor, em_encryption_key_scope = scope,
          em_workflow_type = type, em_workflow_version = version\<rparr>)))))))))"

definition from_wire :: "wire_envelope \<Rightarrow> event_codec_error + event_envelope" where
  "from_wire envelope =
     and_then (ok_or (we_metadata envelope) CodecMissingMetadata) (\<lambda>m.
     if wm_schema_version m \<noteq> EVENT_SCHEMA_VERSION then Inl (CodecUnsupportedSchema (wm_schema_version m))
     else and_then (event_identifier ''TenantId'' (wm_tenant_id m) ''tenant_id'') (\<lambda>tenant.
     and_then (ok_or (we_event envelope) CodecMissingEvent) (\<lambda>event.
     and_then (from_wire_event (wm_occurred_at_epoch_ms m) event) (\<lambda>event.
     if tenant_mismatch event tenant then Inl CodecTenantMismatch
     else and_then (metadata_from_wire m tenant) (\<lambda>metadata.
     Inr \<lparr>ee_metadata = metadata, ee_event = event\<rparr>)))))"

definition upcast_envelope :: "wire_envelope \<Rightarrow> event_codec_error + wire_envelope" where
  "upcast_envelope envelope =
     and_then (ok_or (we_metadata envelope) CodecMissingMetadata) (\<lambda>m.
     if wm_schema_version m = EVENT_SCHEMA_VERSION then Inr envelope
     else if wm_schema_version m = 0
     then Inr (envelope\<lparr>we_metadata := Some (m\<lparr>wm_schema_version := EVENT_SCHEMA_VERSION\<rparr>)\<rparr>)
     else Inl (CodecUnsupportedSchema (wm_schema_version m)))"

text \<open>prost's encoder and decoder of the envelope message.\<close>

record envelope_format =
  ef_encode :: "wire_envelope \<Rightarrow> u8 list"
  ef_decode :: "u8 list \<Rightarrow> string + wire_envelope"

definition event_encode :: "envelope_format \<Rightarrow> event_envelope \<Rightarrow> u8 list" where
  "event_encode format envelope = ef_encode format (to_wire envelope)"

definition event_decode :: "envelope_format \<Rightarrow> u8 list \<Rightarrow> event_codec_error + event_envelope" where
  "event_decode format bytes =
     and_then (map_err CodecDecode (ef_decode format bytes)) (\<lambda>envelope.
     and_then (upcast_envelope envelope) from_wire)"

section \<open>What survives encoding\<close>

definition nonblank_option :: "string option \<Rightarrow> bool" where
  "nonblank_option v \<longleftrightarrow> (case v of None \<Rightarrow> True | Some s \<Rightarrow> \<not> is_blank s)"

definition codable_variables :: "variables \<Rightarrow> bool" where
  "codable_variables vs \<longleftrightarrow> bt_sorted vs \<and> (\<forall>v \<in> set vs. \<not> is_blank (fst v))"

definition codable_trigger :: "boundary_trigger \<Rightarrow> bool" where
  "codable_trigger trigger \<longleftrightarrow>
     (case trigger of
        TriggerTimer _ expression \<Rightarrow> \<not> is_blank expression
      | TriggerError error_ref \<Rightarrow> nonblank_option error_ref
      | TriggerMessage message_ref \<Rightarrow> \<not> is_blank message_ref)"

abbreviation all_nonblank :: "string list \<Rightarrow> bool" where
  "all_nonblank xs \<equiv> \<forall>x \<in> set xs. \<not> is_blank x"

text \<open>The events whose fields satisfy what decoding demands of them.\<close>

fun codable_event :: "domain_event \<Rightarrow> bool" where
  "codable_event (CaseActivated c model stages milestones _) \<longleftrightarrow>
     \<not> is_blank c \<and> \<not> is_blank model \<and> all_nonblank stages \<and> all_nonblank milestones"
| "codable_event (CaseSentrySatisfied c sentry _) \<longleftrightarrow> \<not> is_blank c \<and> \<not> is_blank sentry"
| "codable_event (CasePlanItemTransitioned c item _ _ sentries _) \<longleftrightarrow>
     \<not> is_blank c \<and> \<not> is_blank item \<and> all_nonblank sentries"
| "codable_event (CaseCompleted c _) \<longleftrightarrow> \<not> is_blank c"
| "codable_event (WorkflowStarted tenant type version start _) \<longleftrightarrow>
     \<not> is_blank tenant \<and> \<not> is_blank type \<and> \<not> is_blank version \<and> \<not> is_blank start"
| "codable_event (ServiceTaskActivated n task _) \<longleftrightarrow> \<not> is_blank n \<and> \<not> is_blank task"
| "codable_event (ServiceTaskCompleted n outputs _) \<longleftrightarrow> \<not> is_blank n \<and> codable_variables outputs"
| "codable_event (UserTaskActivated n task policy form _) \<longleftrightarrow>
     \<not> is_blank n \<and> \<not> is_blank task \<and> \<not> is_blank policy \<and> nonblank_option form"
| "codable_event (UserTaskCompleted n decision result _) \<longleftrightarrow>
     \<not> is_blank n \<and> \<not> is_blank decision \<and> \<not> is_blank result"
| "codable_event (UserTaskCancelled n reason _) \<longleftrightarrow> \<not> is_blank n \<and> \<not> is_blank reason"
| "codable_event (ScriptTaskActivated n task reference version _) \<longleftrightarrow>
     \<not> is_blank n \<and> \<not> is_blank task \<and> \<not> is_blank reference \<and> \<not> is_blank version"
| "codable_event (ScriptTaskCompleted n _) \<longleftrightarrow> \<not> is_blank n"
| "codable_event (DecisionTaskEvaluated n table outputs _) \<longleftrightarrow>
     \<not> is_blank n \<and> \<not> is_blank table \<and> codable_variables outputs"
| "codable_event (GatewaySplitActivated g join selected _) \<longleftrightarrow>
     \<not> is_blank g \<and> \<not> is_blank join \<and> all_nonblank selected"
| "codable_event (GatewayTokenArrived g _) \<longleftrightarrow> \<not> is_blank g"
| "codable_event (GatewayJoined g _) \<longleftrightarrow> \<not> is_blank g"
| "codable_event (BoundaryEventArmed b attached target _ trigger _) \<longleftrightarrow>
     \<not> is_blank b \<and> \<not> is_blank attached \<and> \<not> is_blank target \<and> codable_trigger trigger"
| "codable_event (BoundaryEventsDisarmed attached ids _) \<longleftrightarrow> \<not> is_blank attached \<and> all_nonblank ids"
| "codable_event (MultiInstanceStarted n task _ _ parallelism item_variable _ _) \<longleftrightarrow>
     \<not> is_blank n \<and> \<not> is_blank task \<and> parallelism \<noteq> 0 \<and> nonblank_option item_variable"
| "codable_event (MultiInstanceIterationActivated n task _ _ _) \<longleftrightarrow> \<not> is_blank n \<and> \<not> is_blank task"
| "codable_event (MultiInstanceIterationCompleted n _ _) \<longleftrightarrow> \<not> is_blank n"
| "codable_event (MultiInstanceCompleted n _ _ _) \<longleftrightarrow> \<not> is_blank n"
| "codable_event (BoundaryEventTriggered b attached target _ _ _ _) \<longleftrightarrow>
     \<not> is_blank b \<and> \<not> is_blank attached \<and> \<not> is_blank target"
| "codable_event (ScopeEntered sid scope start parent invocation _) \<longleftrightarrow>
     \<not> is_blank sid \<and> \<not> is_blank scope \<and> \<not> is_blank start \<and> nonblank_option parent \<and> invocation \<noteq> 0"
| "codable_event (ScopeCompleted sid scope end_node _) \<longleftrightarrow>
     \<not> is_blank sid \<and> \<not> is_blank scope \<and> \<not> is_blank end_node"
| "codable_event (WorkflowBranchCompleted end_node _) \<longleftrightarrow> \<not> is_blank end_node"
| "codable_event (WorkflowCompleted _) \<longleftrightarrow> True"
| "codable_event (WorkflowTerminatedForCompliance policy digest reason _ _) \<longleftrightarrow>
     \<not> is_blank policy \<and> length digest = 32 \<and> \<not> is_blank reason"

definition codable_metadata :: "event_metadata \<Rightarrow> bool" where
  "codable_metadata m \<longleftrightarrow> em_schema_version m = EVENT_SCHEMA_VERSION
     \<and> all_nonblank [em_tenant_id m, em_instance_id m, em_correlation_id m, em_causation_command_id m,
         em_config_version m, em_policy_version m, em_actor_id m, em_encryption_key_scope m,
         em_workflow_type m, em_workflow_version m]"

definition codable :: "event_envelope \<Rightarrow> bool" where
  "codable envelope \<longleftrightarrow> codable_metadata (ee_metadata envelope) \<and> codable_event (ee_event envelope)
     \<and> event_time (ee_event envelope) = em_occurred_at_epoch_ms (ee_metadata envelope)
     \<and> \<not> tenant_mismatch (ee_event envelope) (em_tenant_id (ee_metadata envelope))"

section \<open>Round trips of the fields\<close>

lemma event_identifier_Inr [simp]: "event_identifier kind v field = Inr w \<longleftrightarrow> \<not> is_blank v \<and> w = v"
  by (auto simp: event_identifier_def identifier_new_def)

lemma node_field_Inr [simp]: "node_field v field = Inr w \<longleftrightarrow> \<not> is_blank v \<and> w = v"
  by (simp add: node_field_def)

lemma non_empty_Inr [simp]: "non_empty v field = Inr w \<longleftrightarrow> \<not> is_blank v \<and> w = v"
  by (auto simp: non_empty_def)

lemma positive_Inr [simp]: "positive v field = Inr w \<longleftrightarrow> v \<noteq> 0 \<and> w = v"
  by (auto simp: positive_def)

lemma identifiers_Inr [simp]: "identifiers kind vs field = Inr ws \<longleftrightarrow> all_nonblank vs \<and> ws = vs"
  unfolding identifiers_def by (induction vs arbitrary: ws) (auto simp: and_then_Inr)

lemma is_blank_Nil [simp]: "is_blank []"
  by (simp add: is_blank_def trim_def)

lemma optional_round_trip [simp]:
  "optional_non_empty (unwrap_or_default v) = v \<longleftrightarrow> nonblank_option v"
  by (auto simp: optional_non_empty_def unwrap_or_default_def nonblank_option_def split: option.splits)

lemma transpose_parent [simp]:
  "transpose_option (\<lambda>v. event_identifier kind v field) p = Inr q \<longleftrightarrow> nonblank_option p \<and> q = p"
  by (auto simp: transpose_option_def nonblank_option_def and_then_Inr split: option.splits)

lemma try_map_inverse: "(\<And>x. x \<in> set xs \<Longrightarrow> g (f x) = Inr x) \<Longrightarrow> try_map g (map f xs) = Inr xs"
  by (induction xs) simp_all

lemma item_round_trip [simp]: "workflow_value_item_from_wire (workflow_value_item_to_wire v) = Inr v"
  by (induction v rule: workflow_value_item_to_wire.induct) (simp_all add: try_map_inverse)

lemma items_round_trip [simp]:
  "try_map workflow_value_item_from_wire (map workflow_value_item_to_wire vs) = Inr vs"
  by (simp add: try_map_inverse)

lemma item_option_round_trip [simp]:
  "transpose_option workflow_value_item_from_wire (map_option workflow_value_item_to_wire v) = Inr v"
  by (cases v) (simp_all add: transpose_option_def)

lemma variable_round_trip:
  "workflow_variable_from_wire (n, Some (workflow_value_to_wire v)) = Inr w \<longleftrightarrow> \<not> is_blank n \<and> w = (n, v)"
  by (cases v) (auto simp: workflow_variable_from_wire_def and_then_Inr)

lemma variables_round_trip [simp]:
  "variables_from_wire (variables_to_wire vs) = Inr vs \<longleftrightarrow> codable_variables vs"
proof -
  have each: "try_map workflow_variable_from_wire (variables_to_wire vs) = Inr ws \<longleftrightarrow>
      (\<forall>v \<in> set vs. \<not> is_blank (fst v)) \<and> ws = vs" for ws
    unfolding variables_to_wire_def
    by (induction vs arbitrary: ws) (auto simp: and_then_Inr variable_round_trip)
  have "bt_extend [] vs = vs \<longleftrightarrow> bt_sorted vs"
    using bt_extend_empty [of vs] bt_sorted_extend [of "[]" vs] by auto
  then show ?thesis by (auto simp: variables_from_wire_def and_then_Inr each codable_variables_def)
qed

lemma mode_round_trip [simp]: "multi_instance_mode_from_wire (multi_instance_mode_to_wire m) = Inr m"
  by (cases m) (simp_all add: multi_instance_mode_from_wire_def)

lemma kind_round_trip [simp]: "case_plan_item_kind_from_name (case_plan_item_kind_name k) = Inr k"
  by (cases k) (simp_all add: case_plan_item_kind_from_name_def)

lemma status_round_trip [simp]: "case_plan_item_status_from_name (case_plan_item_status_name k) = Inr k"
  by (cases k) (simp_all add: case_plan_item_status_from_name_def)

lemma trigger_round_trip [simp]:
  "boundary_trigger_to_wire t = (kind, reference) \<Longrightarrow>
   boundary_trigger_from_wire kind reference = Inr t \<longleftrightarrow> codable_trigger t"
  by (cases t rule: boundary_trigger_to_wire.cases)
     (auto simp: boundary_trigger_from_wire_def and_then_Inr codable_trigger_def
       split: boundary_timer_kind.splits)

lemma event_round_trip:
  "from_wire_event at (to_wire_event e) = Inr e \<longleftrightarrow> event_time e = at \<and> codable_event e"
  by (cases e) (auto simp: and_then_Inr split: prod.split)

lemma metadata_round_trip:
  "metadata_from_wire (the (we_metadata (to_wire envelope))) (em_tenant_id (ee_metadata envelope)) =
     Inr (ee_metadata envelope) \<longleftrightarrow>
   all_nonblank (tl [em_tenant_id (ee_metadata envelope), em_instance_id (ee_metadata envelope),
     em_correlation_id (ee_metadata envelope), em_causation_command_id (ee_metadata envelope),
     em_config_version (ee_metadata envelope), em_policy_version (ee_metadata envelope),
     em_actor_id (ee_metadata envelope), em_encryption_key_scope (ee_metadata envelope),
     em_workflow_type (ee_metadata envelope), em_workflow_version (ee_metadata envelope)])"
  by (auto simp: to_wire_def metadata_from_wire_def and_then_Inr Let_def)

end
