(* ===== verification/Committed_Events.thy ===== *)
theory Committed_Events
  imports Event_Codec Engine_Runs Memory_Store
begin

text \<open>
  Everything the engine commits can be read back. Identifiers in the source are strings that
  are not blank; here this is the predicates \<open>typed_definition\<close>, \<open>typed_command\<close> and
  \<open>typed_request\<close>. They also ask that error references and item variables are not blank, of
  which the loader of compiled workflows only checks that they are not empty. Under them
  every decision on a state whose history was decodable produces decodable events, so that
  the outbox of the in-memory store decodes to the committed streams.
\<close>

section \<open>Typed inputs\<close>

fun typed_node :: "node \<Rightarrow> bool" where
  "typed_node (ServiceTask task _) \<longleftrightarrow> \<not> is_blank task"
| "typed_node (UserTask task policy form result _) \<longleftrightarrow>
     \<not> is_blank task \<and> \<not> is_blank policy \<and> nonblank_option form \<and> \<not> is_blank result"
| "typed_node (ScriptTask task reference version _) \<longleftrightarrow>
     \<not> is_blank task \<and> \<not> is_blank reference \<and> \<not> is_blank version"
| "typed_node (DecisionTask table _) \<longleftrightarrow> \<not> is_blank table"
| "typed_node (SubProcess start _ _) \<longleftrightarrow> \<not> is_blank start"
| "typed_node (ParallelSplit ts join) \<longleftrightarrow> all_nonblank ts \<and> \<not> is_blank join"
| "typed_node (InclusiveSplit ts _ join) \<longleftrightarrow> all_nonblank (map gt_target ts) \<and> \<not> is_blank join"
| "typed_node _ \<longleftrightarrow> True"

definition typed_boundary :: "boundary_event_definition \<Rightarrow> bool" where
  "typed_boundary b \<longleftrightarrow> \<not> is_blank (be_id b) \<and> \<not> is_blank (be_target b) \<and> codable_trigger (be_trigger b)"

definition typed_metadata :: "node_execution_metadata \<Rightarrow> bool" where
  "typed_metadata m \<longleftrightarrow> nonblank_option (nm_owner_scope_id m)
     \<and> (case nm_multi_instance m of None \<Rightarrow> True
        | Some spec \<Rightarrow> mi_max_parallelism spec \<noteq> Some 0 \<and> nonblank_option (mi_item_variable spec))"

definition typed_case :: "case_definition \<Rightarrow> bool" where
  "typed_case model \<longleftrightarrow>
     (\<forall>stage \<in> set (cd_stages model). \<not> is_blank (cs_id stage) \<and> all_nonblank (cs_entry_sentry_ids stage)
        \<and> all_nonblank (cs_exit_sentry_ids stage))
     \<and> (\<forall>milestone \<in> set (cd_milestones model). \<not> is_blank (cm_id milestone)
        \<and> all_nonblank (cm_entry_sentry_ids milestone))
     \<and> (\<forall>sentry \<in> set (cd_sentries model). \<not> is_blank (sentry_id_of sentry))"

definition typed_definition :: "workflow_definition \<Rightarrow> bool" where
  "typed_definition d \<longleftrightarrow>
     \<not> is_blank (wd_tenant_id d) \<and> \<not> is_blank (wd_workflow_type d) \<and> \<not> is_blank (wd_workflow_version d)
     \<and> (\<forall>e \<in> set (wd_nodes d). \<not> is_blank (fst e) \<and> typed_node (snd e))
     \<and> (\<forall>e \<in> set (wd_boundary_events d). \<forall>b \<in> set (snd e). typed_boundary b)
     \<and> (\<forall>e \<in> set (wd_node_metadata d). typed_metadata (snd e))
     \<and> (\<forall>e \<in> set (wd_decision_tables d). all_nonblank (map do_name (dt_outputs (snd e))))
     \<and> (\<forall>e \<in> set (wd_case_models d). \<not> is_blank (fst e) \<and> typed_case (snd e))"

fun typed_command :: "command \<Rightarrow> bool" where
  "typed_command (ActivateCase c model _) \<longleftrightarrow> \<not> is_blank c \<and> \<not> is_blank model"
| "typed_command (EvaluateCaseSentries c _) \<longleftrightarrow> \<not> is_blank c"
| "typed_command (CompleteServiceTask _ outputs _) \<longleftrightarrow> codable_variables outputs"
| "typed_command _ \<longleftrightarrow> True"

abbreviation parallel_config :: "resolved_config_snapshot \<Rightarrow> bool" where
  "parallel_config cfg \<equiv> en_default_multi_instance_parallelism (rc_engine cfg) \<noteq> 0"

lemma bt_get_ball: "\<forall>e \<in> set m. P e \<Longrightarrow> bt_get m k = Some v \<Longrightarrow> P (k, v)"
  using bt_get_in_set [of m k v] by blast

lemma typed_definitionD:
  assumes "typed_definition d"
  shows "\<forall>e \<in> set (wd_nodes d). \<not> is_blank (fst e) \<and> typed_node (snd e)"
    and "\<forall>e \<in> set (wd_boundary_events d). \<forall>b \<in> set (snd e). typed_boundary b"
    and "\<forall>e \<in> set (wd_node_metadata d). typed_metadata (snd e)"
    and "\<forall>e \<in> set (wd_decision_tables d). all_nonblank (map do_name (dt_outputs (snd e)))"
    and "\<forall>e \<in> set (wd_case_models d). \<not> is_blank (fst e) \<and> typed_case (snd e)"
  using assms unfolding typed_definition_def by blast+

lemma typed_definition_node:
  "typed_definition d \<Longrightarrow> definition_node d n = Inr nd \<Longrightarrow> \<not> is_blank n \<and> typed_node nd"
  using bt_get_ball [OF typed_definitionD(1), of d n nd] by (simp add: definition_node_def ok_or_Inr)

lemma typed_definition_boundaries:
  "typed_definition d \<Longrightarrow> b \<in> set (boundary_events d n) \<Longrightarrow> typed_boundary b"
  using bt_get_ball [OF typed_definitionD(2), of d n]
  by (cases "bt_get (wd_boundary_events d) n") (simp_all add: boundary_events_def)

lemma find_boundary_in: "find_boundary m b = Some (owner, x) \<Longrightarrow> \<exists>e \<in> set m. x \<in> set (snd e)"
  by (induction m b rule: find_boundary.induct) (auto split: option.splits simp: find_Some_iff)

lemma typed_definition_boundary:
  "typed_definition d \<Longrightarrow> boundary_event d b = Some (owner, x) \<Longrightarrow> typed_boundary x"
  using find_boundary_in [of "wd_boundary_events d" b owner x] typed_definitionD(2) [of d]
  unfolding boundary_event_def by blast

lemma typed_definition_owner:
  "typed_definition d \<Longrightarrow> owner_scope_id d n = Some owner \<Longrightarrow> \<not> is_blank owner"
  using bt_get_ball [OF typed_definitionD(3), of d n]
  by (auto simp: owner_scope_id_def typed_metadata_def nonblank_option_def bind_eq_Some_conv)

lemma typed_definition_multi_instance:
  "typed_definition d \<Longrightarrow> node_multi_instance d n = Some spec \<Longrightarrow>
   mi_max_parallelism spec \<noteq> Some 0 \<and> nonblank_option (mi_item_variable spec)"
  using bt_get_ball [OF typed_definitionD(3), of d n]
  by (auto simp: node_multi_instance_def typed_metadata_def bind_eq_Some_conv)

section \<open>States with a decodable history\<close>

definition named_activity :: "node_id \<times> active_multi_instance \<Rightarrow> bool" where
  "named_activity e \<longleftrightarrow> \<not> is_blank (am_task_type (snd e))"

definition named_subscription :: "node_id \<times> active_boundary_subscription \<Rightarrow> bool" where
  "named_subscription e \<longleftrightarrow> \<not> is_blank (fst e) \<and> \<not> is_blank (ab_attached_node_id (snd e))"

definition named_scope :: "scope_instance_id \<times> active_execution_scope \<Rightarrow> bool" where
  "named_scope e \<longleftrightarrow> \<not> is_blank (fst e) \<and> nonblank_option (as_parent_scope_instance_id (snd e))"

definition routing_coded :: "routing_state \<Rightarrow> bool" where
  "routing_coded r \<longleftrightarrow> Ball (set (rs_active_multi_instances r)) named_activity
     \<and> Ball (set (rs_active_boundary_subscriptions r)) named_subscription
     \<and> Ball (set (rs_active_scopes r)) named_scope"

lemma foldl_remove_subset: "set (foldl (\<lambda>m b. bt_remove b m) m ids) \<subseteq> set m"
proof (induction ids arbitrary: m)
  case (Cons b ids)
  have "set (bt_remove b m) \<subseteq> set m" by (auto simp: bt_remove_def)
  then show ?case using Cons.IH [of "bt_remove b m"] by auto
qed simp

lemma set_bt_remove: "set (bt_remove k m) \<subseteq> set m"
  by (auto simp: bt_remove_def)

lemma set_bt_retain: "set (bt_retain p m) \<subseteq> set m"
  by (auto simp: bt_retain_def)

lemma routing_coded_mono:
  assumes "routing_coded r"
    and "set (rs_active_multi_instances r') \<subseteq> set (rs_active_multi_instances r)"
    and "set (rs_active_boundary_subscriptions r') \<subseteq> set (rs_active_boundary_subscriptions r)"
    and "set (rs_active_scopes r') \<subseteq> set (rs_active_scopes r)"
  shows "routing_coded r'"
  using assms unfolding routing_coded_def by blast

lemma routing_coded_fields [simp]:
  "routing_coded (r\<lparr>rs_active_tokens := t\<rparr>) = routing_coded r"
  "routing_coded (r\<lparr>rs_pending_joins := j\<rparr>) = routing_coded r"
  "routing_coded (r\<lparr>rs_scope_invocation_counts := c\<rparr>) = routing_coded r"
  by (simp_all add: routing_coded_def)

lemma routing_coded_multi_instance:
  assumes "routing_coded r" and "\<not> is_blank (am_task_type m)"
  shows "routing_coded (r\<lparr>rs_active_multi_instances := bt_insert n m (rs_active_multi_instances r)\<rparr>)"
  using assms ball_bt_insert [of "rs_active_multi_instances r" named_activity n m]
  by (simp add: routing_coded_def named_activity_def [of "(n, m)"])

lemma routing_coded_subscription:
  assumes "routing_coded r" and "\<not> is_blank b" and "\<not> is_blank (ab_attached_node_id sub)"
  shows "routing_coded (r\<lparr>rs_active_boundary_subscriptions := bt_insert b sub (rs_active_boundary_subscriptions r)\<rparr>)"
  using assms ball_bt_insert [of "rs_active_boundary_subscriptions r" named_subscription b sub]
  by (simp add: routing_coded_def named_subscription_def [of "(b, sub)"])

lemma routing_coded_scope:
  assumes "routing_coded r" and "\<not> is_blank sid" and "nonblank_option (as_parent_scope_instance_id scope)"
  shows "routing_coded (r\<lparr>rs_active_scopes := bt_insert sid scope (rs_active_scopes r)\<rparr>)"
  using assms ball_bt_insert [of "rs_active_scopes r" named_scope sid scope]
  by (simp add: routing_coded_def named_scope_def [of "(sid, scope)"])

lemma routing_coded_task:
  "routing_coded r \<Longrightarrow> bt_get (rs_active_multi_instances r) n = Some m \<Longrightarrow> \<not> is_blank (am_task_type m)"
  using bt_get_ball [of "rs_active_multi_instances r" named_activity n m]
  by (simp add: routing_coded_def named_activity_def [of "(n, m)"])

lemma routing_coded_active_scope:
  "routing_coded r \<Longrightarrow> bt_get (rs_active_scopes r) sid = Some scope \<Longrightarrow>
   \<not> is_blank sid \<and> nonblank_option (as_parent_scope_instance_id scope)"
  using bt_get_ball [of "rs_active_scopes r" named_scope sid scope]
  by (simp add: routing_coded_def named_scope_def [of "(sid, scope)"])

lemma routing_coded_armed:
  "routing_coded r \<Longrightarrow> bt_get (rs_active_boundary_subscriptions r) b = Some sub \<Longrightarrow>
   \<not> is_blank b \<and> \<not> is_blank (ab_attached_node_id sub)"
  using bt_get_ball [of "rs_active_boundary_subscriptions r" named_subscription b sub]
  by (simp add: routing_coded_def named_subscription_def [of "(b, sub)"])

lemma routing_coded_shrink:
  assumes "routing_coded r"
  shows "routing_coded (r\<lparr>rs_active_multi_instances := bt_remove n (rs_active_multi_instances r)\<rparr>)"
    and "routing_coded (r\<lparr>rs_active_scopes := bt_remove sid (rs_active_scopes r)\<rparr>)"
    and "routing_coded (r\<lparr>rs_active_boundary_subscriptions :=
      foldl (\<lambda>m b. bt_remove b m) (rs_active_boundary_subscriptions r) ids\<rparr>)"
  by (rule routing_coded_mono [OF assms]; simp add: set_bt_remove foldl_remove_subset)+

lemma routing_coded_cleared [simp]: "routing_coded (cleared r)"
  by (simp add: routing_coded_def cleared_def)

lemma routing_coded_cancelled:
  assumes "routing_coded r"
  shows "routing_coded (r\<lparr>rs_active_multi_instances := bt_remove n (rs_active_multi_instances r),
    rs_active_boundary_subscriptions := bt_retain p (rs_active_boundary_subscriptions r)\<rparr>)"
  by (rule routing_coded_mono [OF assms]) (simp_all add: set_bt_remove set_bt_retain)

lemma routing_coded_entered:
  assumes "routing_coded r" and "\<not> is_blank sid" and "nonblank_option (as_parent_scope_instance_id scope)"
  shows "routing_coded (r\<lparr>rs_scope_invocation_counts := c,
    rs_active_scopes := bt_insert sid scope (rs_active_scopes r)\<rparr>)"
  using routing_coded_scope [of "r\<lparr>rs_scope_invocation_counts := c\<rparr>" sid scope] assms by simp

lemma routing_coded_update:
  assumes "routing_coded r" and "\<And>m. am_task_type (f m) = am_task_type m"
  shows "routing_coded (r\<lparr>rs_active_multi_instances := update_multi_instance (rs_active_multi_instances r) n f\<rparr>)"
  using assms routing_coded_multi_instance [OF assms(1)] routing_coded_task [OF assms(1)]
  by (auto simp: update_multi_instance_def split: option.split)

lemma routing_coded_evolve:
  assumes "routing_coded r" and "codable_event e"
  shows "routing_coded (evolve_routing r e)"
  using assms
  by (cases e)
     (simp_all add: with_tokens_def close_join_def finish_multi_instance_def new_multi_instance_def
       iteration_activated_def iteration_completed_def routing_coded_subscription
       routing_coded_multi_instance routing_coded_update routing_coded_entered routing_coded_shrink
       routing_coded_cancelled)

lemma routing_coded_replay:
  "routing_coded r \<Longrightarrow> list_all codable_event es \<Longrightarrow> routing_coded (foldl evolve_routing r es)"
  by (induction es arbitrary: r) (simp_all add: routing_coded_evolve)

definition event_coded :: "tenant_id \<Rightarrow> domain_event \<Rightarrow> bool" where
  "event_coded t e \<longleftrightarrow> codable_event e \<and> \<not> tenant_mismatch e t"

declare event_coded_def [simp] tenant_mismatch_def [simp]

definition activation_coded :: "tenant_id \<Rightarrow> activation \<Rightarrow> bool" where
  "activation_coded t a \<longleftrightarrow> routing_coded (act_routing a) \<and> list_all (event_coded t) (act_events a)"

lemma activation_coded_emit:
  "activation_coded t a \<Longrightarrow> routing_coded r \<Longrightarrow> event_coded t e \<Longrightarrow> activation_coded t (emit a r e)"
  by (simp add: activation_coded_def emit_def)

section \<open>Activation\<close>

lemma arm_boundary_events_coded:
  assumes "arm_boundary_events d n at a = Inr b" and "activation_coded t a" and "typed_definition d"
    and "\<not> is_blank n"
  shows "activation_coded t b"
proof (rule try_fold_invariant [OF assms(1) [unfolded arm_boundary_events_def], where P = "activation_coded t"])
  fix a x b
  assume x: "x \<in> set (boundary_events d n)" and a: "activation_coded t a"
    and step: "and_then (arm_boundary (act_routing a) (be_id x) (subscription_of n at x)) (\<lambda>r.
       Inr (emit a r (BoundaryEventArmed (be_id x) n (be_target x) (be_cancel_activity x)
              (be_trigger x) at))) = Inr b"
  have x': "typed_boundary x" using typed_definition_boundaries [OF assms(3) x] .
  from step obtain r where r: "arm_boundary (act_routing a) (be_id x) (subscription_of n at x) = Inr r"
    and b: "b = emit a r (BoundaryEventArmed (be_id x) n (be_target x) (be_cancel_activity x) (be_trigger x) at)"
    by (auto simp: and_then_Inr)
  have "routing_coded r"
    using r a x' assms(4)
    by (auto simp: arm_boundary_def activation_coded_def typed_boundary_def subscription_of_def
        intro!: routing_coded_subscription split: if_splits)
  then show "activation_coded t b"
    unfolding b using a x' assms(4) by (intro activation_coded_emit) (simp_all add: typed_boundary_def)
qed (rule assms(2))

lemma disarm_boundary_events_coded:
  assumes "activation_coded t a" and "\<not> is_blank n"
  shows "activation_coded t (disarm_boundary_events n at a)"
proof -
  obtain ids r where ids: "disarm_boundaries (act_routing a) n = (ids, r)" by fastforce
  have "all_nonblank ids"
    using ids assms(1) by (auto simp: disarm_boundaries_def activation_coded_def routing_coded_def
        named_subscription_def Let_def)
  moreover have "routing_coded r"
    using ids assms(1) by (auto simp: disarm_boundaries_def activation_coded_def Let_def routing_coded_shrink)
  ultimately show ?thesis
    using assms by (simp add: disarm_boundary_events_def activation_coded_def ids emit_def)
qed

lemma activate_iteration_coded:
  assumes "activate_iteration n at a = Inr b" and "activation_coded t a" and "\<not> is_blank n"
  shows "activation_coded t b"
  using assms
  by (auto simp: activate_iteration_def activate_next_multi_instance_def and_then_Inr ok_or_Inr Let_def
      activation_coded_def emit_def routing_coded_task intro!: routing_coded_multi_instance split: if_splits)

lemma parallelism_positive:
  "parallel_config cfg \<Longrightarrow> mi_max_parallelism spec \<noteq> Some 0 \<Longrightarrow> multi_instance_parallelism spec cfg n \<noteq> 0"
  by (auto simp: multi_instance_parallelism_def min_def max_def split: multi_instance_mode.splits option.splits)

lemma start_multi_instance_coded:
  assumes "start_multi_instance n task spec cfg at a = Inr (completed, b)" and "activation_coded t a"
    and "\<not> is_blank n" "\<not> is_blank task" and "parallel_config cfg"
    and "mi_max_parallelism spec \<noteq> Some 0" "nonblank_option (mi_item_variable spec)"
  shows "activation_coded t b"
proof -
  from assms(1) obtain instances items r where
    r: "routing_start_multi_instance (act_routing a) n (new_multi_instance task (mi_mode spec) instances
        (multi_instance_parallelism spec cfg instances) (mi_item_variable spec) items) = Inr r"
    and b: "(if instances = 0
      then Inr (True, emit (emit a r (MultiInstanceStarted n task (mi_mode spec) instances
            (multi_instance_parallelism spec cfg instances) (mi_item_variable spec) items at))
          (finish_multi_instance r n) (MultiInstanceCompleted n False [] at))
      else and_then (try_fold (\<lambda>a _. activate_iteration n at a)
          (emit a r (MultiInstanceStarted n task (mi_mode spec) instances
            (multi_instance_parallelism spec cfg instances) (mi_item_variable spec) items at))
          [0..<unat (multi_instance_parallelism spec cfg instances)])
        (\<lambda>a. Inr (False, a))) = Inr (completed, b)"
    by (auto simp: start_multi_instance_def and_then_Inr Let_def emit_def split: if_splits)
  have "routing_coded r"
    using r assms(2,4)
    by (auto simp: routing_start_multi_instance_def activation_coded_def new_multi_instance_def
        intro!: routing_coded_multi_instance split: if_splits)
  then have started: "activation_coded t (emit a r (MultiInstanceStarted n task (mi_mode spec) instances
            (multi_instance_parallelism spec cfg instances) (mi_item_variable spec) items at))"
    using assms by (intro activation_coded_emit) (simp_all add: parallelism_positive)
  show ?thesis
  proof (cases "instances = 0")
    case True
    then show ?thesis
      using b started assms(3) \<open>routing_coded r\<close>
      by (auto intro!: activation_coded_emit simp: finish_multi_instance_def routing_coded_shrink)
  next
    case False
    then have "try_fold (\<lambda>a _. activate_iteration n at a)
          (emit a r (MultiInstanceStarted n task (mi_mode spec) instances
            (multi_instance_parallelism spec cfg instances) (mi_item_variable spec) items at))
          [0..<unat (multi_instance_parallelism spec cfg instances)] = Inr b"
      using b by (auto simp: and_then_Inr)
    from try_fold_invariant [OF this, where P = "activation_coded t", OF started] show ?thesis
      using activate_iteration_coded [OF _ _ assms(3)] by blast
  qed
qed

lemma activate_activity_coded:
  assumes "activate_activity d cfg at n scope task next activated a = Inr (pushed, b)"
    and "activation_coded t a" and "typed_definition d" and "\<not> is_blank n" "\<not> is_blank task"
    and "parallel_config cfg" and "event_coded t activated"
  shows "activation_coded t b"
proof (cases "node_multi_instance d n")
  case None
  with assms(1) obtain r where r: "activate_task (act_routing a) n = Inr r"
    and b: "arm_boundary_events d n at (emit a r activated) = Inr b"
    by (auto simp: activate_activity_def and_then_Inr)
  have "routing_coded r"
    using r assms(2) by (auto simp: activate_task_def and_then_Inr activation_coded_def)
  then show ?thesis
    using arm_boundary_events_coded [OF b _ assms(3,4)] activation_coded_emit [OF assms(2) _ assms(7)] by blast
next
  case (Some spec)
  with assms(1) obtain completed c where c: "start_multi_instance n task spec cfg at a = Inr (completed, c)"
    and b: "b = c \<or> arm_boundary_events d n at c = Inr b"
    by (auto simp: activate_activity_def and_then_Inr split: if_splits)
  have "activation_coded t c"
    using start_multi_instance_coded [OF c assms(2,4-6)] typed_definition_multi_instance [OF assms(3) Some] by blast
  then show ?thesis using b arm_boundary_events_coded [OF _ _ assms(3,4)] by blast
qed

lemma activate_end_coded:
  assumes "activate_end d at n scope a = Inr (pushed, b)" and "activation_coded t a"
    and "typed_definition d" and "\<not> is_blank n"
  shows "activation_coded t b \<and> (\<forall>e \<in> set pushed. nonblank_option (snd e))"
proof (cases "owner_scope_id d n")
  case None
  then show ?thesis
    using assms by (auto simp: activate_end_def activation_coded_def emit_def split: if_splits)
next
  case (Some owner)
  have owner: "\<not> is_blank owner" using typed_definition_owner [OF assms(3) Some] .
  from assms(1) Some obtain sid completed r exit where
    r: "complete_scope (act_routing a) sid owner = Inr (completed, r)"
    and b: "b = disarm_boundary_events owner at (emit a r (ScopeCompleted sid owner n at))"
    and pushed: "pushed = [(exit, as_parent_scope_instance_id completed)]"
    by (auto simp: activate_end_def and_then_Inr Let_def)
  have sid: "bt_get (rs_active_scopes (act_routing a)) sid = Some completed"
    using r by (auto simp: complete_scope_def and_then_Inr ok_or_Inr split: if_splits)
  have "routing_coded r"
    using r assms(2)
    by (auto simp: complete_scope_def and_then_Inr activation_coded_def routing_coded_shrink split: if_splits)
  moreover have "\<not> is_blank sid" "nonblank_option (as_parent_scope_instance_id completed)"
    using routing_coded_active_scope [OF _ sid] assms(2) by (auto simp: activation_coded_def)
  ultimately show ?thesis
    unfolding b pushed using owner assms(2,4)
    by (simp add: disarm_boundary_events_coded activation_coded_emit)
qed

lemma activate_sub_process_coded:
  assumes "activate_sub_process d at n scope start a = Inr (pushed, b)" and "activation_coded t a"
    and "typed_definition d" and "\<not> is_blank n" "\<not> is_blank start" and "nonblank_option scope"
  shows "activation_coded t b \<and> (\<forall>e \<in> set pushed. nonblank_option (snd e))"
proof -
  from assms(1) obtain sid invocation r where
    r: "enter_scope (act_routing a) n start scope = Inr (sid, invocation, r)"
    and b: "arm_boundary_events d n at (emit a r (ScopeEntered sid n start scope invocation at)) = Inr b"
    and pushed: "pushed = [(start, Some sid)]"
    by (auto simp: activate_sub_process_def and_then_Inr)
  from r obtain count where sid: "\<not> is_blank sid" and count: "checked_add count 1 = Some invocation"
    and r': "r = (act_routing a)\<lparr>rs_scope_invocation_counts :=
          bt_insert n invocation (rs_scope_invocation_counts (act_routing a)),
        rs_active_scopes := bt_insert sid
            \<lparr>as_scope_node_id = n, as_start_node_id = start, as_parent_scope_instance_id = scope,
             as_invocation = invocation\<rparr> (rs_active_scopes (act_routing a))\<rparr>"
    by (auto simp: enter_scope_def and_then_Inr ok_or_Inr Let_def split: if_splits)
  have "invocation \<noteq> 0"
    using saturating_add_one_nonzero [of count] checked_add_saturating [OF count] by simp
  moreover have "routing_coded r"
    unfolding r' using assms(2,6) sid by (intro routing_coded_entered) (simp_all add: activation_coded_def)
  ultimately have "activation_coded t (emit a r (ScopeEntered sid n start scope invocation at))"
    using assms sid by (intro activation_coded_emit) simp_all
  then show ?thesis
    using arm_boundary_events_coded [OF b _ assms(3,4)] sid by (simp add: pushed nonblank_option_def)
qed

lemma set_bt_extend_subset: "set (bt_extend m es) \<subseteq> set m \<union> set es"
  unfolding bt_extend_def
proof (induction es arbitrary: m)
  case (Cons e es)
  then show ?case using set_bt_insert_subset [of "fst e" "snd e" m] by (fastforce simp: split_beta)
qed simp

lemma decision_outputs_codable:
  assumes "evaluate_decision_table table vars = Inr outputs" and "all_nonblank (map do_name (dt_outputs table))"
  shows "codable_variables outputs"
proof -
  have "\<exists>rule :: decision_rule. outputs = bt_extend [] (map (\<lambda>(output, value). (do_name output, value))
      (zip (dt_outputs table) (dr_output_values rule)))"
    using assms(1) by (auto simp: evaluate_decision_table_def and_then_Inr)
  then obtain rule :: decision_rule where outputs: "outputs = bt_extend [] (map (\<lambda>(output, value). (do_name output, value))
      (zip (dt_outputs table) (dr_output_values rule)))" by blast
  have "\<not> is_blank (fst v)" if "v \<in> set outputs" for v
    using that assms(2) set_bt_extend_subset unfolding outputs by (fastforce dest: set_zip_leftD)
  then show ?thesis by (simp add: codable_variables_def outputs bt_sorted_extend)
qed

lemma activate_split_coded:
  assumes "activate_split at n scope selected join a = Inr (pushed, b)" and "activation_coded t a"
    and "\<not> is_blank n" "\<not> is_blank join" and "all_nonblank selected" and "nonblank_option scope"
  shows "activation_coded t b \<and> (\<forall>e \<in> set pushed. nonblank_option (snd e))"
  using assms
  by (auto simp: activate_split_def open_join_def and_then_Inr activation_coded_def emit_def split: if_splits)

lemma activate_join_coded:
  assumes "activate_join at n scope next a = Inr (pushed, b)" and "activation_coded t a" and "\<not> is_blank n"
    and "nonblank_option scope"
  shows "activation_coded t b \<and> (\<forall>e \<in> set pushed. nonblank_option (snd e))"
  using assms
  by (auto simp: activate_join_def arrive_def close_join_def and_then_Inr activation_coded_def emit_def Let_def
      split: if_splits)

lemma activity_pushed:
  assumes "activate_activity d cfg at n scope task next activated a = Inr (pushed, b)" and "nonblank_option scope"
  shows "\<forall>e \<in> set pushed. nonblank_option (snd e)"
  using assms by (auto simp: activate_activity_def and_then_Inr split: option.splits if_splits prod.splits)

lemma selected_transitions:
  assumes "select_transitions g ts vars = Inr selected"
  shows "set selected \<subseteq> set (map gt_target ts)"
proof -
  obtain found where found: "collect_loop ts vars [] = Inr found"
    using assms by (auto simp: select_transitions_def and_then_Inr)
  have "found = enabled_targets ts vars"
    using collect_loop_defined [OF collect_loop_defines [OF found], of "[]"] found by simp
  then have "set found \<subseteq> set (map gt_target ts)" by (auto simp: enabled_targets_def)
  then show ?thesis
    using assms found
    by (auto simp: select_transitions_def Let_def default_target_def find_Some_iff split: if_splits option.splits)
qed

lemma activation_step_coded:
  assumes step: "activation_step d cfg at entry a = Inr (pushed, b)" and a: "activation_coded t a"
    and d: "typed_definition d" and cfg: "parallel_config cfg" and scope: "nonblank_option (snd entry)"
  shows "activation_coded t b \<and> (\<forall>e \<in> set pushed. nonblank_option (snd e))"
proof -
  obtain n sc where entry: "entry = (n, sc)" by fastforce
  have sc: "nonblank_option sc" using scope entry by simp
  from step obtain nd where nd: "definition_node d n = Inr nd"
    and act: "activate_node d cfg at n sc nd a = Inr (pushed, b)"
    by (auto simp: activation_step_def and_then_Inr entry)
  have n: "\<not> is_blank n" and typed: "typed_node nd" using typed_definition_node [OF d nd] by simp_all
  have activity: ?thesis if "activate_activity d cfg at n sc task target activated a = Inr (pushed, b)"
      "\<not> is_blank task" "event_coded t activated" for task target activated
    using activate_activity_coded [OF that(1) a d n that(2) cfg that(3)] activity_pushed [OF that(1) sc] by simp
  show ?thesis
  proof (cases nd)
    case (InclusiveSplit ts cov join)
    then obtain selected where selected: "select_transitions n ts (act_variables a) = Inr selected"
      and "activate_split at n sc selected join a = Inr (pushed, b)"
      using act by (auto simp: and_then_Inr)
    moreover have "all_nonblank selected"
      using selected_transitions [OF selected] typed InclusiveSplit by auto
    ultimately show ?thesis using activate_split_coded [OF _ a n] typed InclusiveSplit sc by simp
  next
    case (DecisionTask table target)
    then obtain t outputs where t: "bt_get (wd_decision_tables d) table = Some t"
      and outputs: "evaluate_decision_table t (act_variables a) = Inr outputs"
      and "pushed = [(target, sc)]"
      and "b = emit (a\<lparr>act_variables := bt_extend (act_variables a) outputs\<rparr>) (act_routing a)
            (DecisionTaskEvaluated n table outputs at)"
      using act by (auto simp: activate_decision_task_def and_then_Inr ok_or_Inr)
    moreover have "codable_variables outputs"
      using decision_outputs_codable [OF outputs] bt_get_ball [OF typed_definitionD(4) [OF d] t] by simp
    ultimately show ?thesis using a n typed sc DecisionTask by (simp add: activation_coded_def emit_def)
  next
    case (CallActivity called version target)
    then show ?thesis
      using act activity [of "call_task_type called version"] n call_task_type_not_blank
      by (simp add: activate_call_activity_def identifier_new_def)
  qed (use act typed n sc a activity activate_end_coded [OF _ a d n] activate_sub_process_coded [OF _ a d n]
        activate_split_coded [OF _ a n] activate_join_coded [OF _ a n] in
      \<open>auto simp: activate_service_task_def activate_user_task_def activate_script_task_def and_then_Inr
        split: if_splits\<close>)
qed

lemma activation_loop_coded:
  assumes "activation_loop d cfg at origin limit steps pending a = Inr b" and "activation_coded t a"
    and "typed_definition d" and "parallel_config cfg" and "\<forall>e \<in> set pending. nonblank_option (snd e)"
  shows "activation_coded t b"
  using assms
proof (induction d cfg at origin limit steps pending a rule: activation_loop.induct)
  case (2 d cfg at origin limit steps entry pending a)
  obtain pushed c where step: "activation_step d cfg at entry a = Inr (pushed, c)"
    and loop: "activation_loop d cfg at origin limit (Suc steps) (pushed @ pending) c = Inr b"
    and budget: "\<not> limit < Suc steps"
    using "2.prems"(1) by (auto simp: and_then_Inr split: if_splits)
  have "activation_coded t c \<and> (\<forall>e \<in> set pushed. nonblank_option (snd e))"
    using activation_step_coded [OF step "2.prems"(2-4)] "2.prems"(5) by simp
  then show ?case
    using "2.IH" [OF budget step refl loop] "2.prems"(3-5) by auto
qed simp

lemma routed_coded:
  assumes "routed d cfg at next scope a = Inr es" and "activation_coded t a" and "typed_definition d"
    and "parallel_config cfg" and "nonblank_option scope"
  shows "list_all (event_coded t) es"
  using assms activation_loop_coded [of d cfg at "next" "max_steps d" 0 "[(next, scope)]" a]
  by (auto simp: routed_def activation_events_def and_then_Inr activation_coded_def)

section \<open>Decisions\<close>

lemma active_scope_coded:
  assumes "active_scope_for_node d s n = Inr scope" and "routing_coded (routing_from s)"
  shows "nonblank_option scope"
proof (cases scope)
  case (Some sid)
  then obtain owner where "map fst (filter (\<lambda>e. as_scope_node_id (snd e) = owner) (is_active_scopes s)) = [sid]"
    using assms(1) by (auto simp: active_scope_for_node_def split: option.splits list.splits)
  then have "sid \<in> fst ` set (is_active_scopes s)" by (metis filter_is_subset image_mono list.set_intros(1) list.set_map subset_iff)
  then show ?thesis
    using assms(2) Some by (auto simp: routing_coded_def routing_from_def named_scope_def nonblank_option_def)
qed (simp add: nonblank_option_def)

lemma complete_task_coded: "complete_task r n = Inr r' \<Longrightarrow> routing_coded r \<Longrightarrow> routing_coded r'"
  by (auto simp: complete_task_def split: option.splits if_splits)

lemma complete_and_route_coded:
  assumes "complete_and_route d s n target completed vars cfg at = Inr es"
    and "routing_coded (routing_from s)" and "typed_definition d" and "parallel_config cfg"
    and "\<not> is_blank n" and "event_coded t completed"
  shows "list_all (event_coded t) es"
proof -
  from assms(1) obtain r scope where r: "complete_task (routing_from s) n = Inr r"
    and scope: "active_scope_for_node d s n = Inr scope"
    and es: "routed d cfg at target scope (disarm_boundary_events n at
        \<lparr>act_variables = vars, act_routing = r, act_events = [completed]\<rparr>) = Inr es"
    by (auto simp: complete_and_route_def and_then_Inr Let_def)
  have "activation_coded t \<lparr>act_variables = vars, act_routing = r, act_events = [completed]\<rparr>"
    using complete_task_coded [OF r assms(2)] assms(6) by (simp add: activation_coded_def)
  then show ?thesis
    using routed_coded [OF es _ assms(3,4) active_scope_coded [OF scope assms(2)]]
      disarm_boundary_events_coded assms(5) by blast
qed

lemma start_workflow_coded:
  assumes "start_workflow d s tenant ctx at = Inr es" and "routing_coded (routing_from s)"
    and "typed_definition d" and "parallel_config (dc_configuration ctx)"
  shows "list_all (event_coded (wd_tenant_id d)) es"
proof (rule start_workflow_Inr [OF assms(1)])
  fix target
  assume tenant: "tenant = wd_tenant_id d"
    and es: "routed d (dc_configuration ctx) at target None
      (emit (at_start s (state_variables_with_context s (dc_variables ctx))) (routing_from s)
        (WorkflowStarted tenant (wd_workflow_type d) (wd_workflow_version d) (wd_start_node d) at)) = Inr es"
  obtain nd where "definition_node d (wd_start_node d) = Inr nd"
    using assms(1) by (auto simp: start_workflow_def and_then_Inr split: if_split_asm)
  then have "\<not> is_blank (wd_start_node d)" using typed_definition_node [OF assms(3)] by blast
  then show ?thesis
    using assms(2,3) tenant
    by (intro routed_coded [OF es _ assms(3,4)])
       (simp_all add: activation_coded_def nonblank_option_def typed_definition_def emit_def at_start_def)
qed

lemma complete_multi_instance_iteration_coded:
  assumes "complete_multi_instance_iteration d s n i ctx at = Inr es" and "routing_coded (routing_from s)"
    and "typed_definition d" and "parallel_config (dc_configuration ctx)"
  shows "list_all (event_coded t) es"
proof -
  from assms(1) obtain target completed r satisfied where target: "multi_instance_next d n = Inr target"
    and r: "routing_complete_iteration (routing_from s) n i = Inr (completed, r)"
    and es: "finish_and_route d s n target satisfied ctx at \<lparr>act_variables = is_variables s, act_routing = r,
              act_events = [MultiInstanceIterationCompleted n i at]\<rparr> = Inr es
      \<or> refill_slot n at \<lparr>act_variables = is_variables s, act_routing = r,
              act_events = [MultiInstanceIterationCompleted n i at]\<rparr> = Inr es"
    by (fastforce simp: complete_multi_instance_iteration_def and_then_Inr Let_def split: if_splits)
  let ?a = "\<lparr>act_variables = is_variables s, act_routing = r, act_events = [MultiInstanceIterationCompleted n i at]\<rparr>"
  obtain nd where "definition_node d n = Inr nd" using target by (auto simp: multi_instance_next_def and_then_Inr)
  then have n: "\<not> is_blank n" using typed_definition_node [OF assms(3)] by blast
  have "routing_coded r"
    using r assms(2) routing_coded_task [OF assms(2)]
    by (auto simp: routing_complete_iteration_def and_then_Inr ok_or_Inr Let_def
        intro!: routing_coded_multi_instance split: if_splits)
  then have a: "activation_coded t ?a" using n by (simp add: activation_coded_def)
  show ?thesis using es
  proof
    assume "refill_slot n at ?a = Inr es"
    then show ?thesis
      using a activate_iteration_coded [OF _ a n]
      by (auto simp: refill_slot_def and_then_Inr activation_coded_def split: if_splits)
  next
    assume "finish_and_route d s n target satisfied ctx at ?a = Inr es"
    then obtain scope cancelled where scope: "active_scope_for_node d s n = Inr scope"
      and es: "routed d (dc_configuration ctx) at target scope
         ((disarm_boundary_events n at (emit ?a (finish_multi_instance r n)
            (MultiInstanceCompleted n satisfied cancelled at)))
           \<lparr>act_variables := state_variables_with_context s (dc_variables ctx)\<rparr>) = Inr es"
      by (auto simp: finish_and_route_def and_then_Inr Let_def)
    have "activation_coded t (disarm_boundary_events n at (emit ?a (finish_multi_instance r n)
            (MultiInstanceCompleted n satisfied cancelled at)))"
      using a n \<open>routing_coded r\<close>
      by (intro disarm_boundary_events_coded activation_coded_emit)
         (simp_all add: finish_multi_instance_def routing_coded_shrink)
    then show ?thesis
      by (intro routed_coded [OF es _ assms(3,4) active_scope_coded [OF scope assms(2)]])
         (simp add: activation_coded_def)
  qed
qed

lemma cancel_activity_coded:
  assumes "cancel_activity r n k = Inr r'" and "routing_coded r"
  shows "routing_coded r'"
proof (rule try_fold_invariant [OF assms(1) [unfolded cancel_activity_def Let_def], where P = routing_coded])
  show "routing_coded (snd (disarm_boundaries
      (r\<lparr>rs_active_multi_instances := bt_remove n (rs_active_multi_instances r)\<rparr>) n))"
    unfolding disarm_boundaries_def Let_def snd_conv
    by (intro routing_coded_shrink assms(2))
qed (use complete_task_coded in blast)

lemma boundary_reason_nonblank: "\<not> is_blank (''boundary:'' @ b)"
  by (rule not_blank [of "CHR ''b''"]) (simp_all add: printable_def)

lemma fire_boundary_coded:
  assumes "fire_boundary d s owner boundary tokens mi ctx at = Inr es" and "routing_coded (routing_from s)"
    and "typed_definition d" and "parallel_config (dc_configuration ctx)"
    and "\<not> is_blank owner" and "typed_boundary boundary"
  shows "list_all (event_coded t) es"
proof -
  obtain its k cancellation r scope where
    cancellation: "boundary_cancellation d owner boundary at = Inr cancellation"
    and r: "(if be_cancel_activity boundary then cancel_activity (routing_from s) owner k
          else Inr (routing_from s)) = Inr r"
    and scope: "active_scope_for_node d s owner = Inr scope"
    and es: "routed d (dc_configuration ctx) at (be_target boundary) scope
        \<lparr>act_variables = state_variables_with_context s (dc_variables ctx), act_routing = r,
         act_events = BoundaryEventTriggered (be_id boundary) owner (be_target boundary)
             (be_cancel_activity boundary) its k at # cancellation\<rparr> = Inr es"
    using assms(1) unfolding fire_boundary_def Let_def and_then_Inr by (elim exE conjE) (rule that)
  have "list_all (event_coded t) cancellation"
    using boundary_cancellation_Inr [OF cancellation] assms(5) boundary_reason_nonblank [of "be_id boundary"]
    by (elim disjE) simp_all
  moreover have "routing_coded r"
    using r assms(2) cancel_activity_coded [of "routing_from s" owner k r] by (auto split: if_splits)
  ultimately show ?thesis
    using assms(5,6)
    by (intro routed_coded [OF es _ assms(3,4) active_scope_coded [OF scope assms(2)]])
       (simp add: activation_coded_def typed_boundary_def)
qed

lemma trigger_boundary_event_coded:
  assumes "trigger_boundary_event d s b ctx at = Inr es" and "routing_coded (routing_from s)"
    and "typed_definition d" and "parallel_config (dc_configuration ctx)"
  shows "list_all (event_coded t) es"
proof -
  from assms(1) obtain sub boundary where sub: "bt_get (is_active_boundary_subscriptions s) b = Some sub"
    and boundary: "map_option snd (boundary_event d b) = Some boundary"
    by (auto simp: trigger_boundary_event_def and_then_Inr ok_or_Inr Let_def)
  obtain tokens mi where fire: "fire_boundary d s (ab_attached_node_id sub) boundary tokens mi ctx at = Inr es"
    using assms(1) sub boundary
    by (simp add: trigger_boundary_event_def Let_def split: if_split_asm)
  have "\<not> is_blank (ab_attached_node_id sub)"
    using routing_coded_armed [OF assms(2), of b sub] sub by (simp add: routing_from_def)
  moreover have "typed_boundary boundary"
    using typed_definition_boundary [OF assms(3), of b] boundary by (cases "boundary_event d b") auto
  ultimately show ?thesis using fire_boundary_coded [OF fire assms(2-4)] by blast
qed

lemma coded_fold:
  assumes "try_fold f p xs = Inr p'" and "list_all (event_coded t) (snd p)"
    and "\<And>q x q'. x \<in> set xs \<Longrightarrow> f q x = Inr q' \<Longrightarrow> list_all (event_coded t) (snd q) \<Longrightarrow>
      list_all (event_coded t) (snd q')"
  shows "list_all (event_coded t) (snd p')"
  using assms(1)
  by (rule try_fold_invariant [where P = "\<lambda>p. list_all (event_coded t) (snd p)"]) (use assms(2,3) in blast)+

lemma push_case_transition_coded:
  assumes "list_all (event_coded t) (snd q)" and "\<not> is_blank c" "\<not> is_blank i" and "all_nonblank governing"
  shows "list_all (event_coded t) (snd (push_case_transition c i kind status governing sat at q))"
  using assms by (simp add: push_case_transition_def)

lemma evaluate_sentry_coded:
  assumes "evaluate_sentry c vars at q sentry = Inr q'" and "list_all (event_coded t) (snd q)" and "\<not> is_blank c"
    and "\<not> is_blank (sentry_id_of sentry)"
  shows "list_all (event_coded t) (snd q')"
  using assms by (auto simp: evaluate_sentry_def and_then_Inr split: if_split_asm)

lemma case_steps_coded:
  assumes "list_all (event_coded t) (snd q)" and "\<not> is_blank c"
  shows "advance_stage c sat at q stage = Inr q' \<Longrightarrow> \<not> is_blank (cs_id stage) \<Longrightarrow>
      all_nonblank (cs_entry_sentry_ids stage) \<Longrightarrow> all_nonblank (cs_exit_sentry_ids stage) \<Longrightarrow>
      list_all (event_coded t) (snd q')"
    and "advance_milestone c sat at q milestone = Inr q' \<Longrightarrow> \<not> is_blank (cm_id milestone) \<Longrightarrow>
      all_nonblank (cm_entry_sentry_ids milestone) \<Longrightarrow> list_all (event_coded t) (snd q')"
  using assms
  by (auto simp: advance_stage_def advance_milestone_def and_then_Inr Let_def
      push_case_transition_coded split: if_split_asm)

lemma evaluate_case_sentries_coded:
  assumes "evaluate_case_sentries d s c facts at = Inr es" and "typed_definition d" and c: "\<not> is_blank c"
  shows "list_all (event_coded t) es"
proof (rule evaluate_case_sentries_Inr [OF assms(1)])
  fix active model satisfied es1 p projected es2
  assume model: "case_model d (ac_model_id active) = Inr model"
    and sentries: "try_fold (evaluate_sentry c (state_variables_with_context s facts) at)
           (ac_satisfied_sentries active, []) (cd_sentries model) = Inr (satisfied, es1)"
    and stages: "try_fold (advance_stage c satisfied at) (ac_plan_items active, es1)
           (cd_stages model) = Inr p"
    and milestones: "try_fold (advance_milestone c satisfied at) p (cd_milestones model)
           = Inr (projected, es2)"
    and es: "es = (if all_completed projected then es2 @ [CaseCompleted c at] else es2)"
  have typed: "typed_case model"
    using bt_get_ball [OF typed_definitionD(5) [OF assms(2)]] model by (auto simp: case_model_def ok_or_Inr)
  have "list_all (event_coded t) (snd (satisfied, es1))"
    by (rule coded_fold [OF sentries]) (use typed evaluate_sentry_coded [OF _ _ c] in \<open>auto simp: typed_case_def\<close>)
  then have "list_all (event_coded t) (snd p)"
    by (intro coded_fold [OF stages])
       (use typed case_steps_coded(1) [OF _ c] in \<open>auto simp: typed_case_def\<close>)
  then have "list_all (event_coded t) (snd (projected, es2))"
    by (rule coded_fold [OF milestones]) (use typed case_steps_coded(2) [OF _ c] in \<open>auto simp: typed_case_def\<close>)
  then show ?thesis using c by (simp add: es)
qed

lemma activate_case_coded:
  assumes "activate_case d s c model at = Inr es" and "typed_definition d" and "\<not> is_blank c" "\<not> is_blank model"
  shows "list_all (event_coded t) es"
proof -
  from assms(1) obtain m where m: "case_model d model = Inr m"
    and es: "es = CaseActivated c model (map cs_id (cd_stages m)) (map cm_id (cd_milestones m)) at
             # map (\<lambda>stage. CasePlanItemTransitioned c (cs_id stage) Stage ItemActive [] at)
                 (filter (\<lambda>stage. cs_entry_sentry_ids stage = []) (cd_stages m))"
    by (auto simp: activate_case_def and_then_Inr split: if_split_asm)
  have "typed_case m"
    using bt_get_ball [OF typed_definitionD(5) [OF assms(2)]] m by (auto simp: case_model_def ok_or_Inr)
  then show ?thesis unfolding es using assms(3,4) by (auto simp: typed_case_def list_all_iff)
qed

lemma completed_task_coded:
  assumes "complete_service_task d s n outputs ctx at = Inr es \<and> codable_variables outputs
      \<or> complete_user_task d s n decision ctx at = Inr es \<or> complete_script_task d s n ctx at = Inr es"
    and "routing_coded (routing_from s)" and "typed_definition d" and "parallel_config (dc_configuration ctx)"
  shows "list_all (event_coded t) es"
proof -
  obtain nd where nd: "definition_node d n = Inr nd"
    using assms(1) by (auto simp: complete_service_task_def complete_user_task_def complete_script_task_def and_then_Inr)
  note typed = typed_definition_node [OF assms(3) nd]
  obtain target completed vars where
    "complete_and_route d s n target completed vars (dc_configuration ctx) at = Inr es" "event_coded t completed"
    using assms(1) nd typed
    by (cases nd)
       (auto simp: complete_service_task_def complete_user_task_def complete_script_task_def split: if_split_asm)
  then show ?thesis using complete_and_route_coded [OF _ assms(2-4)] typed by blast
qed

lemma decide_coded:
  assumes "decide d s command ctx = Inr es" and "routing_coded (routing_from s)" and "typed_definition d"
    and "typed_command command" and "parallel_config (dc_configuration ctx)"
  shows "list_all (event_coded (wd_tenant_id d)) es"
proof -
  have decided: "decide_events d s command ctx = Inr es" using assms(1) by (simp add: decide_Inr)
  show ?thesis
  proof (cases command)
    case (ActivateCase c model at)
    then show ?thesis using decided activate_case_coded [OF _ assms(3)] assms(4) by simp
  next
    case (EvaluateCaseSentries c at)
    then show ?thesis using decided evaluate_case_sentries_coded [OF _ assms(3)] assms(4) by simp
  next
    case (StartWorkflow tenant at)
    then show ?thesis using decided start_workflow_coded [OF _ assms(2,3,5)] by (simp split: if_split_asm)
  next
    case (CompleteServiceTask n outputs at)
    then show ?thesis
      using decided completed_task_coded [OF _ assms(2,3,5), of n outputs at es] assms(4)
      by (simp add: when_task_active_Inr)
  next
    case (CompleteUserTask n decision at)
    then show ?thesis
      using decided completed_task_coded [OF _ assms(2,3,5), of n _ at es decision] by (simp add: when_task_active_Inr)
  next
    case (CompleteScriptTask n at)
    then show ?thesis
      using decided completed_task_coded [OF _ assms(2,3,5), of n _ at es] by (simp add: when_task_active_Inr)
  next
    case (CompleteMultiInstanceIteration n i at)
    then show ?thesis
      using decided complete_multi_instance_iteration_coded [of d s n i ctx at es "wd_tenant_id d"] assms(2,3,5)
      by (simp add: when_active_Inr)
  next
    case (TriggerBoundaryEvent b at)
    then show ?thesis
      using decided trigger_boundary_event_coded [of d s b ctx at es "wd_tenant_id d"] assms(2,3,5)
      by (simp add: when_active_Inr)
  qed
qed

section \<open>Envelopes\<close>

text \<open>The round trip of a whole envelope: exactly the codable ones survive it.\<close>

lemma envelope_round_trip:
  assumes "ef_decode format (ef_encode format (to_wire e)) = Inr (to_wire e)"
  shows "event_decode format (event_encode format e) = Inr e \<longleftrightarrow> codable e"
proof -
  let ?m = "ee_metadata e"
  obtain wire where wire: "we_metadata (to_wire e) = Some wire" "we_event (to_wire e) = Some (to_wire_event (ee_event e))"
      "wm_schema_version wire = em_schema_version ?m" "wm_tenant_id wire = em_tenant_id ?m"
      "wm_occurred_at_epoch_ms wire = em_occurred_at_epoch_ms ?m"
    by (simp add: to_wire_def Let_def)
  have version: "em_schema_version ?m = EVENT_SCHEMA_VERSION" if "event_decode format (event_encode format e) = Inr e"
  proof (rule ccontr)
    assume other: "em_schema_version ?m \<noteq> EVENT_SCHEMA_VERSION"
    have "em_schema_version (ee_metadata f) = EVENT_SCHEMA_VERSION" if "from_wire w = Inr f" for w f
      using that by (auto simp: from_wire_def metadata_from_wire_def and_then_Inr split: if_split_asm)
    then show False using that other by (auto simp: event_decode_def and_then_Inr)
  qed
  have "event_decode format (event_encode format e) = Inr e \<longleftrightarrow> codable e"
    if current: "em_schema_version ?m = EVENT_SCHEMA_VERSION"
  proof -
    have "event_decode format (event_encode format e) = from_wire (to_wire e)"
      using assms wire current by (simp add: event_decode_def event_encode_def upcast_envelope_def)
    also have "\<dots> = Inr e \<longleftrightarrow> \<not> is_blank (em_tenant_id ?m)
        \<and> from_wire_event (em_occurred_at_epoch_ms ?m) (to_wire_event (ee_event e)) = Inr (ee_event e)
        \<and> \<not> tenant_mismatch (ee_event e) (em_tenant_id ?m)
        \<and> metadata_from_wire wire (em_tenant_id ?m) = Inr ?m"
    proof -
      have "\<lparr>ee_metadata = m, ee_event = v\<rparr> = e \<longleftrightarrow> m = ?m \<and> v = ee_event e" for m v
        by (cases e) auto
      then show ?thesis
        using wire current by (auto simp: from_wire_def and_then_Inr simp del: tenant_mismatch_def split: if_split_asm)
    qed
    also have "\<dots> \<longleftrightarrow> codable e"
      using event_round_trip [of "em_occurred_at_epoch_ms ?m" "ee_event e"] metadata_round_trip [of e] wire(1) current
      by (auto simp: codable_def codable_metadata_def simp del: tenant_mismatch_def)
    finally show ?thesis .
  qed
  then show ?thesis using version by (auto simp: codable_def codable_metadata_def)
qed

definition typed_request :: "authorized_command \<Rightarrow> bool" where
  "typed_request request \<longleftrightarrow> typed_command (ac_command request)
     \<and> all_nonblank [ac_tenant_id request, ac_instance_id request, ac_correlation_id request,
         ac_command_id request, ac_encryption_key_scope request]"

definition typed_resolver :: "(configuration_lookup \<Rightarrow> config_error + resolved_config_snapshot) \<Rightarrow> bool" where
  "typed_resolver resolve \<longleftrightarrow> (\<forall>l cfg. resolve l = Inr cfg \<longrightarrow>
     \<not> is_blank (rc_config_version cfg) \<and> \<not> is_blank (rc_policy_version cfg) \<and> parallel_config cfg)"

lemma attach_metadata_codable:
  assumes "attach_metadata d request actor cfg version events = Inr es"
    and "list_all (event_coded (wd_tenant_id d)) events" and "typed_definition d" and "typed_request request"
    and "ac_tenant_id request = wd_tenant_id d" and "\<not> is_blank actor"
    and "\<not> is_blank (rc_config_version cfg)" "\<not> is_blank (rc_policy_version cfg)"
    and "e \<in> set es"
  shows "codable e"
proof -
  from assms(9) obtain j where j: "j < length es" "es ! j = e" by (auto simp: in_set_conv_nth)
  obtain i event where x: "enumerate 0 events ! j = (i, event)" by force
  have one: "attach_one d request actor cfg version (i, event) = Inr e" and len: "length es = length events"
    using assms(1) j x by (auto simp: attach_metadata_def try_map_Inr list_all2_conv_all_nth)
  have "event = events ! j" using x j len by (auto simp: nth_enumerate_eq)
  then have "event_coded (wd_tenant_id d) event" using assms(2) j len by (simp add: list_all_length)
  then show ?thesis
    using one assms(3-8)
    by (auto simp: attach_one_def and_then_Inr codable_def codable_metadata_def typed_request_def
        typed_definition_def simp del: tenant_mismatch_def)
qed

lemma replay_coded:
  assumes "\<forall>e \<in> set es. codable e"
  shows "routing_coded (routing_from (replay es))"
proof -
  have "list_all codable_event (map ee_event es)"
    using assms by (simp add: list_all_iff codable_def)
  moreover have "routing_coded (routing_from default_instance_state)"
    by (simp add: routing_coded_def routing_from_def default_instance_state_def)
  ultimately show ?thesis
    unfolding replay_def rehydrate_def by (simp add: routing_view.proj_replay routing_coded_replay)
qed

lemma prepare_commit_codable:
  assumes "prepare_commit port resolve s d request authorized = Inr r"
    and "\<And>loaded. ws_load port s (ac_tenant_id request) (ac_instance_id request) = Inr loaded \<Longrightarrow>
      routing_coded (routing_from (loaded_state loaded))"
    and "typed_definition d" and "typed_request request" and "ac_tenant_id request = wd_tenant_id d"
    and "\<not> is_blank (ap_actor_id authorized)" and "typed_resolver resolve"
  shows "\<forall>e \<in> set (cr_events r). codable e"
proof -
  from assms(1) obtain cfg loaded l where cfg: "resolve l = Inr cfg"
    and loaded: "ws_load port s (ac_tenant_id request) (ac_instance_id request) = Inr loaded"
    and commit: "decide_commit d request authorized cfg loaded = Inr r"
    by (auto simp: prepare_commit_def load_instance_def and_then_Inr map_err_Inr split: if_splits)
  note typed = cfg [THEN assms(7) [unfolded typed_resolver_def, rule_format]]
  from commit obtain events where
    decided: "decide d (loaded_state loaded) (ac_command request)
        \<lparr>dc_configuration = cfg, dc_variables = ac_variables request\<rparr> = Inr events"
    and es: "attach_metadata d request (ap_actor_id authorized) cfg (li_version loaded) events = Inr (cr_events r)"
    by (auto simp: decide_commit_def loaded_state_def Let_def and_then_Inr map_err_Inr split: prod.splits)
  have "list_all (event_coded (wd_tenant_id d)) events"
    using decide_coded [OF decided assms(2) [OF loaded] assms(3)] assms(4) typed by (simp add: typed_request_def)
  then show ?thesis
    using attach_metadata_codable [OF es _ assms(3-6)] typed by blast
qed

section \<open>Runs of the engine\<close>

text \<open>Interleaved handlers over the in-memory store, which encodes its outbox with the codec.\<close>

inductive typed_run :: "envelope_format \<Rightarrow> definitions \<Rightarrow> memory_state \<Rightarrow> commit_request list \<Rightarrow> bool"
  for format R where
  idle: "typed_run format R default_memory_state []"
| prepare: "typed_run format R s pending \<Longrightarrow> registered R d \<Longrightarrow> typed_definition d \<Longrightarrow> typed_request request \<Longrightarrow>
    ac_tenant_id request = wd_tenant_id d \<Longrightarrow> \<not> is_blank (ap_actor_id authorized) \<Longrightarrow> typed_resolver resolve \<Longrightarrow>
    prepare_commit (memory_port (event_encode format)) resolve s d request authorized = Inr r \<Longrightarrow>
    typed_run format R s (r # pending)"
| commit: "typed_run format R s pending \<Longrightarrow> r \<in> set pending \<Longrightarrow>
    typed_run format R (snd (memory_commit (event_encode format) s r)) pending"

lemma typed_run_engine:
  "typed_run format R s pending \<Longrightarrow>
   engine_run (memory_port (event_encode format)) R default_memory_state s pending
   \<and> reachable_memory (event_encode format) s"
proof (induction rule: typed_run.induct)
  case idle
  show ?case by (simp add: engine_run.idle reachable_memory.created)
next
  case (prepare s pending d request authorized resolve r)
  then show ?case by (blast intro: engine_run.prepare)
next
  case (commit s pending r)
  then show ?case
    using engine_run.commit [of "memory_port (event_encode format)" R default_memory_state s pending r]
    by (simp add: memory_port_def reachable_memory.committed)
qed

lemma memory_view_ok:
  assumes "engine_run (memory_port encode) R default_memory_state s pending"
  shows "view_ok R (memory_view s)"
proof -
  have "view_ok R (memory_view default_memory_state)"
    by (simp add: view_ok_def memory_view_def default_memory_state_def)
  then show ?thesis using memory.engine_run_ok [OF assms] by simp
qed

lemma typed_run_codable:
  "typed_run format R s pending \<Longrightarrow>
   (\<forall>k. \<forall>e \<in> set (sv_stream (memory_view s) k). codable e) \<and> (\<forall>r \<in> set pending. \<forall>e \<in> set (cr_events r). codable e)"
proof (induction rule: typed_run.induct)
  case idle
  show ?case by (simp add: memory_view_def default_memory_state_def)
next
  case (prepare s pending d request authorized resolve r)
  note ok = memory_view_ok [OF conjunct1 [OF typed_run_engine [OF prepare.hyps(1)]]]
  have "routing_coded (routing_from (loaded_state loaded))"
    if "ws_load (memory_port (event_encode format)) s (ac_tenant_id request) (ac_instance_id request) = Inr loaded"
    for loaded
    using memory.loaded_replay [OF ok that] prepare.IH by (simp add: replay_coded)
  from prepare_commit_codable [OF prepare.hyps(8) this prepare.hyps(3-7)] show ?case
    using prepare.IH by simp
next
  case (commit s pending r)
  have "\<forall>e \<in> set (sv_stream (memory_view (snd (memory_commit (event_encode format) s r))) k). codable e" for k
  proof (cases rule: memory.commit_cases [of "event_encode format" s r])
    case (committed result)
    have "codable e" if "e \<in> set (sv_stream (memory_view s) k) \<or> e \<in> set (cr_events r)" for e
      using that commit by blast
    then show ?thesis using committed by (auto simp: memory_port_def view_commit_def)
  next
    case kept
    have "\<forall>e \<in> set (sv_stream (memory_view s) k). codable e" using commit.IH by blast
    then show ?thesis using kept by (simp add: memory_port_def)
  qed
  then show ?case using commit.IH by blast
qed

text \<open>
  C23. Everything the engine commits can be read back: after any interleaving of handlers on
  typed requests and definitions, the outbox records of an instance decode, record by record,
  to exactly the events of its committed stream, metadata included. The byte format enters
  with the law that decoding inverts the encoding of the messages of the committed events.
\<close>

theorem committed_events_decode:
  assumes "typed_run format R s pending"
    and "\<And>k e. e \<in> set (sv_stream (memory_view s) k) \<Longrightarrow>
      ef_decode format (ef_encode format (to_wire e)) = Inr (to_wire e)"
  shows "map (\<lambda>r. event_decode format (ob_payload r)) (outbox_of s (tenant, instance_id)) =
    map Inr (sv_stream (memory_view s) (tenant, instance_id))"
proof -
  let ?k = "(tenant, instance_id)"
  have "outbox_matches (event_encode format) s"
    using outbox_invariant conjunct2 [OF typed_run_engine [OF assms(1)]] by blast
  then have "map (\<lambda>r. (ob_event_id r, ob_payload r)) (outbox_of s ?k) =
      map (\<lambda>e. (em_event_id (ee_metadata e), event_encode format e)) (sv_stream (memory_view s) ?k)"
    unfolding outbox_matches_def by blast
  then have "map snd (map (\<lambda>r. (ob_event_id r, ob_payload r)) (outbox_of s ?k)) =
      map snd (map (\<lambda>e. (em_event_id (ee_metadata e), event_encode format e)) (sv_stream (memory_view s) ?k))"
    by (rule arg_cong)
  then have payloads: "map ob_payload (outbox_of s ?k) = map (event_encode format) (sv_stream (memory_view s) ?k)"
    by (simp add: comp_def)
  have "event_decode format (event_encode format e) = Inr e" if "e \<in> set (sv_stream (memory_view s) ?k)" for e
    using envelope_round_trip [OF assms(2) [OF that]] typed_run_codable [OF assms(1)] that by blast
  then have "map (event_decode format) (map (event_encode format) (sv_stream (memory_view s) ?k)) =
      map Inr (sv_stream (memory_view s) ?k)"
    by simp
  then show ?thesis unfolding payloads [symmetric] by (simp add: comp_def)
qed

end
