(* ===== verification/Codec_Examples.thy ===== *)
theory Codec_Examples
  imports Committed_Events Engine_Examples
begin

text \<open>
  The order workflow of \<open>Engine_Examples\<close> with the codec of \<open>Event_Codec\<close> in place of its
  placeholder encoder, over a small concrete byte format.
\<close>

definition ex_format_encode :: "wire_envelope \<Rightarrow> u8 list" where
  "ex_format_encode message =
     (case we_metadata message of None \<Rightarrow> [] | Some m \<Rightarrow> [ucast (wm_sequence m)])"

definition ex_format :: envelope_format where
  "ex_format =
     \<lparr>ef_encode = ex_format_encode,
      ef_decode = (\<lambda>bytes. case find (\<lambda>m. ex_format_encode m = bytes) (map to_wire ex_events) of
        None \<Rightarrow> Inl ''unknown message'' | Some m \<Rightarrow> Inr m)\<rparr>"

definition ex_coded_store :: memory_state where
  "ex_coded_store = snd (memory_commit (event_encode ex_format) default_memory_state ex_commit)"

lemma ex_format_encode_to_wire: "ex_format_encode (to_wire e) = [ucast (em_sequence (ee_metadata e))]"
  by (simp add: ex_format_encode_def to_wire_def Let_def)

lemma find_to_wire:
  "find (\<lambda>m. ex_format_encode m = bytes) (map to_wire es) =
    map_option to_wire (find (\<lambda>e. [ucast (em_sequence (ee_metadata e))] = bytes) es)"
  by (induction es) (simp_all add: ex_format_encode_to_wire)

lemma ex_format_law:
  assumes "e \<in> set ex_events"
  shows "ef_decode ex_format (ef_encode ex_format (to_wire e)) = Inr (to_wire e)"
proof -
  let ?byte = "\<lambda>e. ucast (em_sequence (ee_metadata e)) :: u8"
  have "list_all (\<lambda>e. find (\<lambda>f. [?byte f] = [?byte e]) ex_events = Some e) ex_events"
    by (simp add: ex_events_def ex_metadata_def)
  then have "find (\<lambda>f. [?byte f] = [?byte e]) ex_events = Some e"
    using assms by (simp only: list_all_iff)
  then show ?thesis
    by (simp add: ex_format_def find_to_wire ex_format_encode_to_wire del: list.map)
qed

lemma ex_coded_prepared:
  "prepare_commit (memory_port (event_encode ex_format)) ex_resolve default_memory_state ex_definition
     ex_request ex_principal = Inr ex_commit"
  by (simp add: prepare_commit_def ex_resolve_def validate_configuration_binding_def load_instance_def
      memory_port_def snapshot_mismatch_def ex_loaded ex_decided)

lemma ex_texts:
  "list_all (\<lambda>text. \<not> is_blank text)
     [''t'', ''o'', ''1'', ''a'', ''ship'', ''b'', ''approve'', ''p'', ''ok'', ''f'', ''j'', ''s'', ''z'', ''i'', ''c'',
      ''k'', ''r'', ''v'', ''alice'']"
  by code_simp

lemma ex_typed:
  "typed_definition ex_definition" "typed_request ex_request" "typed_resolver ex_resolve"
proof -
  show "typed_definition ex_definition"
    by (simp add: typed_definition_def ex_definition_def ex_nodes_def bt_extend_def nonblank_option_def
        ex_texts [simplified])
  show "typed_request ex_request"
    by (simp add: typed_request_def ex_request_def ex_texts [simplified])
  show "typed_resolver ex_resolve"
    by (simp add: typed_resolver_def ex_resolve_def ex_config_def ex_engine_def ex_texts [simplified])
qed

lemma ex_typed_run: "typed_run ex_format ex_registry ex_coded_store [ex_commit]"
proof -
  have "typed_run ex_format ex_registry default_memory_state [ex_commit]"
    using typed_run.idle ex_registered ex_typed(1,2) _ _ ex_typed(3) ex_coded_prepared
    by (rule typed_run.prepare) (simp_all add: ex_texts [simplified])
  then show ?thesis unfolding ex_coded_store_def by (rule typed_run.commit) simp
qed

lemma ex_coded_committed:
  "memory_commit (event_encode ex_format) default_memory_state ex_commit =
    (Inr (Committed ex_result), ex_coded_store)"
proof -
  have "fst (memory_commit (event_encode ex_format) default_memory_state ex_commit) =
      Inr (Committed (cr_result ex_commit))"
  proof (rule prepared_commit_succeeds [OF _ ex_registered _ ex_coded_prepared])
    show "view_ok ex_registry (memory_view default_memory_state)"
      by (simp add: view_ok_def memory_view_def default_memory_state_def)
  qed (simp_all add: ex_principal_def memory_view_def default_memory_state_def audit_recorded_def
      ex_commit_def ex_events_def)
  then show ?thesis by (simp add: ex_coded_store_def ex_commit_def prod_eq_iff)
qed

lemma ex_coded_streams:
  "sv_stream (memory_view ex_coded_store) k = (if k = (''t'', ''i'') then ex_events else [])"
  using memory.commit_law [of "event_encode ex_format" default_memory_state ex_commit ex_result ex_coded_store]
    ex_coded_committed
  by (simp add: memory_port_def view_commit_def request_stream_def ex_commit_def memory_view_def
      default_memory_state_def)

theorem committed_events_decode_witness:
  "map (\<lambda>r. event_decode ex_format (ob_payload r)) (outbox_of ex_coded_store (''t'', ''i'')) =
     map Inr ex_events"
proof -
  have "map (\<lambda>r. event_decode ex_format (ob_payload r)) (outbox_of ex_coded_store (''t'', ''i'')) =
      map Inr (sv_stream (memory_view ex_coded_store) (''t'', ''i''))"
  proof (rule committed_events_decode [OF ex_typed_run])
    fix k e
    assume "e \<in> set (sv_stream (memory_view ex_coded_store) k)"
    then have "e \<in> set ex_events" by (simp add: ex_coded_streams split: if_split_asm)
    then show "ef_decode ex_format (ef_encode ex_format (to_wire e)) = Inr (to_wire e)"
      by (rule ex_format_law)
  qed
  then show ?thesis by (simp add: ex_coded_streams)
qed

text \<open>
  The loader of compiled workflows keeps an error reference of one space, and the codec drops
  it: the subscription that is read back no longer has the trigger of its definition.
\<close>

lemma blank_error_ref_lost:
  "(case boundary_trigger_to_wire (TriggerError (Some '' '')) of
      (kind, reference) \<Rightarrow> boundary_trigger_from_wire kind reference) = Inr (TriggerError None)"
  by code_simp

end
