(* ===== verification/Dispatch_Credit.thy ===== *)
theory Dispatch_Credit
  imports BTree
begin

text \<open>
  The credit ledger of remote dispatch (\<open>apps/rust/bpmp-engine/src/dispatch_credit.rs\<close>). A
  worker holds at most as many reservations as it was granted credits. Operations return a
  result and the new ledger; a failed operation leaves the ledger as it was. The contract of
  the ledger that the session registry relies on is the locale \<open>credit_ledger\<close>.
\<close>

section \<open>State and operations\<close>

record dispatch_limits =
  dl_max_workers :: u32
  dl_max_credits_per_worker :: u32
  dl_max_identifier_bytes :: u32

datatype credit_error =
    InvalidCreditLimits
  | InvalidIdentifier
  | WorkerLimitExceeded
  | CreditLimitExceeded
  | ActiveCreditExceedsNewLimits
  | CreditBelowInflight
  | UnknownWorker
  | CreditExhausted
  | DuplicateTask
  | UnknownTask

definition dispatch_limits_validate :: "dispatch_limits \<Rightarrow> credit_error + unit" where
  "dispatch_limits_validate l =
     (if dl_max_workers l = 0 \<or> dl_max_credits_per_worker l = 0 \<or> dl_max_identifier_bytes l = 0
      then Inl InvalidCreditLimits else Inr ())"

record worker_credits =
  wc_granted :: u32
  wc_inflight :: "string btree_set"

record credit_controller =
  cc_limits :: dispatch_limits
  cc_workers :: "(string, worker_credits) btree_map"

definition credit_controller_new :: "dispatch_limits \<Rightarrow> credit_error + credit_controller" where
  "credit_controller_new limits =
     and_then (dispatch_limits_validate limits) (\<lambda>_. Inr \<lparr>cc_limits = limits, cc_workers = []\<rparr>)"

definition exceeds_limits :: "dispatch_limits \<Rightarrow> worker_credits \<Rightarrow> bool" where
  "exceeds_limits limits w \<longleftrightarrow> dl_max_credits_per_worker limits < wc_granted w
     \<or> unat (dl_max_credits_per_worker limits) < length (wc_inflight w)"

definition credit_replace_limits ::
  "credit_controller \<Rightarrow> dispatch_limits \<Rightarrow> credit_error + credit_controller" where
  "credit_replace_limits c limits =
     and_then (dispatch_limits_validate limits) (\<lambda>_.
     if unat (dl_max_workers limits) < length (cc_workers c)
        \<or> list_ex (exceeds_limits limits) (bt_values (cc_workers c))
     then Inl ActiveCreditExceedsNewLimits
     else Inr (c\<lparr>cc_limits := limits\<rparr>))"

definition validate_identifier :: "credit_controller \<Rightarrow> string \<Rightarrow> credit_error + unit" where
  "validate_identifier c v =
     (if is_blank v \<or> unat (dl_max_identifier_bytes (cc_limits c)) < length v
      then Inl InvalidIdentifier else Inr ())"

definition grant :: "credit_controller \<Rightarrow> string \<Rightarrow> u32 \<Rightarrow> credit_error + credit_controller" where
  "grant c worker_id credits =
     and_then (validate_identifier c worker_id) (\<lambda>_.
     if dl_max_credits_per_worker (cc_limits c) < credits then Inl CreditLimitExceeded
     else if \<not> bt_contains_key (cc_workers c) worker_id
             \<and> unat (dl_max_workers (cc_limits c)) \<le> length (cc_workers c)
     then Inl WorkerLimitExceeded
     else let worker = (case bt_get (cc_workers c) worker_id of
                          None \<Rightarrow> \<lparr>wc_granted = 0, wc_inflight = []\<rparr>
                        | Some w \<Rightarrow> w) in
       if unat credits < length (wc_inflight worker) then Inl CreditBelowInflight
       else Inr (c\<lparr>cc_workers := bt_insert worker_id (worker\<lparr>wc_granted := credits\<rparr>) (cc_workers c)\<rparr>))"

definition reserve :: "credit_controller \<Rightarrow> string \<Rightarrow> string \<Rightarrow> credit_error + credit_controller" where
  "reserve c worker_id task_id =
     and_then (validate_identifier c worker_id) (\<lambda>_.
     and_then (validate_identifier c task_id) (\<lambda>_.
     and_then (ok_or (bt_get (cc_workers c) worker_id) UnknownWorker) (\<lambda>worker.
     if task_id \<in> set (wc_inflight worker) then Inl DuplicateTask
     else if unat (wc_granted worker) \<le> length (wc_inflight worker) then Inl CreditExhausted
     else Inr (c\<lparr>cc_workers := bt_insert worker_id
            (worker\<lparr>wc_inflight := bs_insert task_id (wc_inflight worker)\<rparr>) (cc_workers c)\<rparr>))))"

definition complete :: "credit_controller \<Rightarrow> string \<Rightarrow> string \<Rightarrow> credit_error + credit_controller" where
  "complete c worker_id task_id =
     and_then (ok_or (bt_get (cc_workers c) worker_id) UnknownWorker) (\<lambda>worker.
     if task_id \<notin> set (wc_inflight worker) then Inl UnknownTask
     else Inr (c\<lparr>cc_workers := bt_insert worker_id
            (worker\<lparr>wc_inflight := bs_remove task_id (wc_inflight worker)\<rparr>) (cc_workers c)\<rparr>))"

definition credit_disconnect :: "credit_controller \<Rightarrow> string \<Rightarrow> string list \<times> credit_controller" where
  "credit_disconnect c worker_id =
     (case bt_get (cc_workers c) worker_id of
        None \<Rightarrow> ([], c)
      | Some worker \<Rightarrow> (wc_inflight worker, c\<lparr>cc_workers := bt_remove worker_id (cc_workers c)\<rparr>))"

definition credit_invariant_holds :: "credit_controller \<Rightarrow> bool" where
  "credit_invariant_holds c \<longleftrightarrow> list_all (\<lambda>worker.
     length (wc_inflight worker) \<le> unat (wc_granted worker)
     \<and> wc_granted worker \<le> dl_max_credits_per_worker (cc_limits c)) (bt_values (cc_workers c))"

section \<open>Invariant and abstract view\<close>

text \<open>
  What the ledger records of a worker: its bound and the set of its reservations.
\<close>

definition credit_view :: "credit_controller \<Rightarrow> string \<Rightarrow> (nat \<times> string set) option" where
  "credit_view c worker_id =
     map_option (\<lambda>w. (unat (wc_granted w), set (wc_inflight w))) (bt_get (cc_workers c) worker_id)"

definition worker_ok :: "dispatch_limits \<Rightarrow> worker_credits \<Rightarrow> bool" where
  "worker_ok limits w \<longleftrightarrow> bs_sorted (wc_inflight w) \<and> length (wc_inflight w) \<le> unat (wc_granted w)
     \<and> wc_granted w \<le> dl_max_credits_per_worker limits"

definition credit_wf :: "credit_controller \<Rightarrow> bool" where
  "credit_wf c \<longleftrightarrow> bt_sorted (cc_workers c)
     \<and> length (cc_workers c) \<le> unat (dl_max_workers (cc_limits c))
     \<and> (\<forall>e \<in> set (cc_workers c). worker_ok (cc_limits c) (snd e))"

lemma credit_wf_invariant_holds: "credit_wf c \<Longrightarrow> credit_invariant_holds c"
  by (auto simp: credit_wf_def credit_invariant_holds_def worker_ok_def bt_values_def list_all_iff)

lemma credit_wf_worker: "credit_wf c \<Longrightarrow> bt_get (cc_workers c) w = Some x \<Longrightarrow> worker_ok (cc_limits c) x"
  by (fastforce simp: credit_wf_def dest: bt_get_in_set)

lemma length_bt_insert:
  "bt_sorted m \<Longrightarrow> length (bt_insert k v m) = (if bt_contains_key m k then length m else Suc (length m))"
proof -
  have len: "length n = card (set (bt_keys n))" if "bt_sorted n" for n :: "('a \<times> 'b) list"
    using distinct_card [OF bt_sorted_distinct [OF that]] by (simp add: bt_keys_def)
  assume "bt_sorted m"
  then show ?thesis
    using len [OF bt_sorted_insert, of m k v] len [of m]
    by (simp add: keys_bt_insert bt_contains_key_iff card_insert_if)
qed

lemma credit_wf_insert:
  assumes "credit_wf c" and "worker_ok (cc_limits c) x"
    and "bt_contains_key (cc_workers c) w \<or> length (cc_workers c) < unat (dl_max_workers (cc_limits c))"
  shows "credit_wf (c\<lparr>cc_workers := bt_insert w x (cc_workers c)\<rparr>)"
  using assms ball_bt_insert [of "cc_workers c" "\<lambda>e. worker_ok (cc_limits c) (snd e)" w x]
  by (auto simp: credit_wf_def bt_sorted_insert length_bt_insert)

lemma credit_wf_remove: "credit_wf c \<Longrightarrow> credit_wf (c\<lparr>cc_workers := bt_remove w (cc_workers c)\<rparr>)"
  by (auto simp: credit_wf_def bt_remove_def bt_sorted_filter intro: order_trans [OF length_filter_le])

lemma credit_wf_limits:
  assumes "credit_wf c" and "credit_replace_limits c limits = Inr c'"
  shows "credit_wf c' \<and> credit_view c' = credit_view c \<and> cc_limits c' = limits"
proof -
  from assms(2) have c': "c' = c\<lparr>cc_limits := limits\<rparr>"
    and bound: "length (cc_workers c) \<le> unat (dl_max_workers limits)"
    and fits: "\<And>x. x \<in> set (bt_values (cc_workers c)) \<Longrightarrow> \<not> exceeds_limits limits x"
    by (auto simp: credit_replace_limits_def and_then_Inr list_ex_iff split: if_splits)
  have "worker_ok limits (snd e)" if "e \<in> set (cc_workers c)" for e
    using assms(1) that fits [of "snd e"]
    by (auto simp: credit_wf_def worker_ok_def exceeds_limits_def bt_values_def)
  then show ?thesis
    using assms(1) bound by (simp add: c' credit_wf_def credit_view_def fun_eq_iff)
qed

section \<open>The contract of the ledger\<close>

locale credit_ledger =
  fixes grant_op :: "'c \<Rightarrow> string \<Rightarrow> u32 \<Rightarrow> credit_error + 'c"
    and reserve_op :: "'c \<Rightarrow> string \<Rightarrow> string \<Rightarrow> credit_error + 'c"
    and complete_op :: "'c \<Rightarrow> string \<Rightarrow> string \<Rightarrow> credit_error + 'c"
    and disconnect_op :: "'c \<Rightarrow> string \<Rightarrow> string list \<times> 'c"
    and ledger :: "'c \<Rightarrow> string \<Rightarrow> (nat \<times> string set) option"
    and wf :: "'c \<Rightarrow> bool"
  assumes within: "wf c \<Longrightarrow> ledger c w = Some (n, T) \<Longrightarrow> finite T \<and> card T \<le> n"
    and grant_law: "wf c \<Longrightarrow> grant_op c w credits = Inr c' \<Longrightarrow>
        wf c' \<and> ledger c' = (ledger c)(w \<mapsto> (unat credits, case ledger c w of None \<Rightarrow> {} | Some (n, T) \<Rightarrow> T))"
    and reserve_law: "wf c \<Longrightarrow> reserve_op c w t = Inr c' \<Longrightarrow>
        wf c' \<and> (\<exists>n T. ledger c w = Some (n, T) \<and> t \<notin> T \<and> ledger c' = (ledger c)(w \<mapsto> (n, insert t T)))"
    and exhausted_law: "wf c \<Longrightarrow> reserve_op c w t = Inl CreditExhausted \<Longrightarrow>
        \<exists>n T. ledger c w = Some (n, T) \<and> card T = n"
    and complete_law: "wf c \<Longrightarrow> complete_op c w t = Inr c' \<Longrightarrow>
        wf c' \<and> (\<exists>n T. ledger c w = Some (n, T) \<and> t \<in> T \<and> ledger c' = (ledger c)(w \<mapsto> (n, T - {t})))"
    and disconnect_law: "wf c \<Longrightarrow> disconnect_op c w = (ts, c') \<Longrightarrow>
        wf c' \<and> ledger c' = (ledger c)(w := None)
        \<and> distinct ts \<and> set ts = (case ledger c w of None \<Rightarrow> {} | Some (n, T) \<Rightarrow> T)"
begin

text \<open>A successful reservation used a free credit.\<close>

lemma reserve_free_credit:
  assumes "wf c" and "reserve_op c w t = Inr c'"
  obtains n T where "ledger c w = Some (n, T)" "t \<notin> T" "card T < n"
proof -
  from reserve_law [OF assms] obtain n T where T: "ledger c w = Some (n, T)" "t \<notin> T"
    and c': "wf c'" "ledger c' = (ledger c)(w \<mapsto> (n, insert t T))" by blast
  have "card (insert t T) \<le> n" using within [OF c'(1), of w n "insert t T"] c'(2) by simp
  then have "card T < n" using T within [OF assms(1) T(1)] by simp
  then show thesis using T that by blast
qed

text \<open>Reserving and completing the same task restores the ledger.\<close>

lemma reserve_complete:
  assumes "wf c" and "reserve_op c w t = Inr c'" and "complete_op c' w t = Inr c''"
  shows "ledger c'' = ledger c"
proof -
  from reserve_law [OF assms(1,2)] obtain n T where T: "ledger c w = Some (n, T)" "t \<notin> T"
    and c': "wf c'" "ledger c' = (ledger c)(w \<mapsto> (n, insert t T))" by blast
  from complete_law [OF c'(1) assms(3)] c' T have "ledger c'' = (ledger c')(w \<mapsto> (n, insert t T - {t}))"
    by auto
  then show ?thesis using T c' by (simp add: fun_upd_idem_iff)
qed

end

interpretation ledger: credit_ledger grant reserve complete credit_disconnect credit_view credit_wf
proof unfold_locales
  show "finite T \<and> card T \<le> n" if wf: "credit_wf c" and view: "credit_view c w = Some (n, T)" for c w n T
  proof -
    from view obtain x where x: "bt_get (cc_workers c) w = Some x" "n = unat (wc_granted x)" "T = set (wc_inflight x)"
      by (auto simp: credit_view_def)
    then show ?thesis
      using credit_wf_worker [OF wf x(1)] by (auto simp: worker_ok_def length_bs_sorted)
  qed
  show "credit_wf c' \<and> credit_view c' =
      (credit_view c)(w \<mapsto> (unat credits, case credit_view c w of None \<Rightarrow> {} | Some (n, T) \<Rightarrow> T))"
    if wf: "credit_wf c" and run: "grant c w credits = Inr c'" for c w credits c'
  proof -
    let ?old = "case bt_get (cc_workers c) w of None \<Rightarrow> \<lparr>wc_granted = 0, wc_inflight = []\<rparr> | Some x \<Rightarrow> x"
    from run have c': "c' = c\<lparr>cc_workers := bt_insert w (?old\<lparr>wc_granted := credits\<rparr>) (cc_workers c)\<rparr>"
      and bounds: "credits \<le> dl_max_credits_per_worker (cc_limits c)"
        "length (wc_inflight ?old) \<le> unat credits"
        "bt_contains_key (cc_workers c) w \<or> length (cc_workers c) < unat (dl_max_workers (cc_limits c))"
      by (auto simp: grant_def and_then_Inr Let_def not_less not_le split: if_splits)
    have "bs_sorted (wc_inflight ?old)"
      using credit_wf_worker [OF wf, of w] by (auto simp: worker_ok_def split: option.splits)
    then show ?thesis
      using credit_wf_insert [OF wf _ bounds(3), of "?old\<lparr>wc_granted := credits\<rparr>"] bounds(1,2)
      by (auto simp: c' worker_ok_def credit_view_def fun_eq_iff split: option.splits)
  qed
  show "credit_wf c' \<and> (\<exists>n T. credit_view c w = Some (n, T) \<and> t \<notin> T
      \<and> credit_view c' = (credit_view c)(w \<mapsto> (n, insert t T)))"
    if wf: "credit_wf c" and run: "reserve c w t = Inr c'" for c w t c'
  proof -
    from run obtain x where x: "bt_get (cc_workers c) w = Some x" "t \<notin> set (wc_inflight x)"
        "length (wc_inflight x) < unat (wc_granted x)"
      and c': "c' = c\<lparr>cc_workers := bt_insert w (x\<lparr>wc_inflight := bs_insert t (wc_inflight x)\<rparr>) (cc_workers c)\<rparr>"
      by (auto simp: reserve_def and_then_Inr ok_or_Inr not_le split: if_splits)
    then show ?thesis
      using credit_wf_worker [OF wf x(1)]
        credit_wf_insert [OF wf, of "x\<lparr>wc_inflight := bs_insert t (wc_inflight x)\<rparr>" w]
      by (auto simp: c' worker_ok_def bs_sorted_insert length_bs_insert bt_contains_key_def
          credit_view_def fun_eq_iff)
  qed
  show "\<exists>n T. credit_view c w = Some (n, T) \<and> card T = n"
    if wf: "credit_wf c" and run: "reserve c w t = Inl CreditExhausted" for c w t
  proof -
    from run obtain x where x: "bt_get (cc_workers c) w = Some x" "unat (wc_granted x) \<le> length (wc_inflight x)"
      by (auto simp: reserve_def and_then_Inl ok_or_Inl ok_or_Inr validate_identifier_def split: if_splits)
    then show ?thesis
      using credit_wf_worker [OF wf x(1)] by (auto simp: worker_ok_def credit_view_def length_bs_sorted)
  qed
  show "credit_wf c' \<and> (\<exists>n T. credit_view c w = Some (n, T) \<and> t \<in> T
      \<and> credit_view c' = (credit_view c)(w \<mapsto> (n, T - {t})))"
    if wf: "credit_wf c" and run: "complete c w t = Inr c'" for c w t c'
  proof -
    from run obtain x where x: "bt_get (cc_workers c) w = Some x" "t \<in> set (wc_inflight x)"
      and c': "c' = c\<lparr>cc_workers := bt_insert w (x\<lparr>wc_inflight := bs_remove t (wc_inflight x)\<rparr>) (cc_workers c)\<rparr>"
      by (auto simp: complete_def and_then_Inr ok_or_Inr split: if_splits)
    then show ?thesis
      using credit_wf_worker [OF wf x(1)]
        credit_wf_insert [OF wf, of "x\<lparr>wc_inflight := bs_remove t (wc_inflight x)\<rparr>" w]
      by (auto simp: c' worker_ok_def bs_sorted_remove length_bs_remove bt_contains_key_def
          credit_view_def fun_eq_iff)
  qed
  show "credit_wf c' \<and> credit_view c' = (credit_view c)(w := None)
      \<and> distinct ts \<and> set ts = (case credit_view c w of None \<Rightarrow> {} | Some (n, T) \<Rightarrow> T)"
    if wf: "credit_wf c" and run: "credit_disconnect c w = (ts, c')" for c w ts c'
  proof (cases "bt_get (cc_workers c) w")
    case None
    then show ?thesis using run wf by (auto simp: credit_disconnect_def credit_view_def fun_eq_iff)
  next
    case (Some x)
    then have "ts = wc_inflight x" "c' = c\<lparr>cc_workers := bt_remove w (cc_workers c)\<rparr>"
      using run by (simp_all add: credit_disconnect_def)
    moreover have "bs_sorted (wc_inflight x)"
      using credit_wf_worker [OF wf Some] by (simp add: worker_ok_def)
    ultimately show ?thesis
      using Some credit_wf_remove [OF wf] by (simp add: credit_view_def fun_eq_iff bs_sorted_distinct)
  qed
qed

end
