(* ===== verification/Remote_Dispatch.thy ===== *)
theory Remote_Dispatch
  imports Dispatch_Credit
begin

text \<open>
  The session and capability registry of remote workers
  (\<open>apps/rust/bpmp-engine/src/remote_worker_dispatch.rs\<close>) over the credit ledger. A frame that
  is accepted moves the sequence number of its session even when the operation it carries
  then fails, so those operations return a result together with the registry.
\<close>

section \<open>State\<close>

record remote_worker_limits =
  rl_dispatch :: dispatch_limits
  rl_max_capabilities_per_worker :: nat
  rl_max_protocol_version_bytes :: nat

record remote_worker_registration =
  rr_session_id :: string
  rr_frame_sequence :: u64
  rr_worker_id :: string
  rr_tenant_id :: string
  rr_protocol_version :: string
  rr_capabilities :: "string btree_set"
  rr_initial_credit :: u32

datatype remote_task_acknowledgement = AckAccepted | AckCompleted | AckFailed

record registered_worker =
  gw_session_id :: string
  gw_tenant_id :: string
  gw_capabilities :: "string btree_set"
  gw_last_frame_sequence :: u64

record remote_dispatch_registry =
  rg_limits :: remote_worker_limits
  rg_credits :: credit_controller
  rg_workers :: "(string, registered_worker) btree_map"
  rg_sessions :: "(string, string) btree_map"

datatype remote_dispatch_error =
    InvalidLimits
  | InvalidRegistration
  | DuplicateRegistration
  | ActiveStateExceedsNewLimits
  | UnknownSession
  | NonMonotonicFrame
  | InvalidCapability
  | NoCapableWorker
  | Backpressured
  | Credit credit_error

section \<open>Operations\<close>

definition remote_worker_limits_validate :: "remote_worker_limits \<Rightarrow> remote_dispatch_error + unit" where
  "remote_worker_limits_validate l =
     and_then (map_err Credit (dispatch_limits_validate (rl_dispatch l))) (\<lambda>_.
     if rl_max_capabilities_per_worker l = 0 \<or> rl_max_protocol_version_bytes l = 0
     then Inl InvalidLimits else Inr ())"

definition remote_dispatch_registry_new ::
  "remote_worker_limits \<Rightarrow> remote_dispatch_error + remote_dispatch_registry" where
  "remote_dispatch_registry_new limits =
     and_then (remote_worker_limits_validate limits) (\<lambda>_.
     and_then (map_err Credit (credit_controller_new (rl_dispatch limits))) (\<lambda>credits.
     Inr \<lparr>rg_limits = limits, rg_credits = credits, rg_workers = [], rg_sessions = []\<rparr>))"

definition replace_limits ::
  "remote_dispatch_registry \<Rightarrow> remote_worker_limits \<Rightarrow> remote_dispatch_error + remote_dispatch_registry" where
  "replace_limits r limits =
     and_then (remote_worker_limits_validate limits) (\<lambda>_.
     if list_ex (\<lambda>w. rl_max_capabilities_per_worker limits < length (gw_capabilities w))
          (bt_values (rg_workers r))
     then Inl ActiveStateExceedsNewLimits
     else and_then (map_err Credit (credit_replace_limits (rg_credits r) (rl_dispatch limits)))
       (\<lambda>credits. Inr (r\<lparr>rg_credits := credits, rg_limits := limits\<rparr>)))"

definition invalid_text :: "nat \<Rightarrow> string \<Rightarrow> bool" where
  "invalid_text max_bytes s \<longleftrightarrow> is_blank s \<or> max_bytes < length s"

definition validate_registration ::
  "remote_dispatch_registry \<Rightarrow> remote_worker_registration \<Rightarrow> remote_dispatch_error + unit" where
  "validate_registration r g =
     (let max_identifier_bytes = unat (dl_max_identifier_bytes (rl_dispatch (rg_limits r))) in
      if invalid_text max_identifier_bytes (rr_session_id g)
         \<or> rr_frame_sequence g = 0
         \<or> invalid_text max_identifier_bytes (rr_worker_id g)
         \<or> invalid_text (rl_max_protocol_version_bytes (rg_limits r)) (rr_protocol_version g)
         \<or> rr_capabilities g = []
         \<or> rl_max_capabilities_per_worker (rg_limits r) < length (rr_capabilities g)
         \<or> list_ex (invalid_text max_identifier_bytes) (rr_capabilities g)
      then Inl InvalidRegistration else Inr ())"

definition register ::
  "remote_dispatch_registry \<Rightarrow> remote_worker_registration
   \<Rightarrow> remote_dispatch_error + remote_dispatch_registry" where
  "register r g =
     and_then (validate_registration r g) (\<lambda>_.
     if bt_contains_key (rg_workers r) (rr_worker_id g) \<or> bt_contains_key (rg_sessions r) (rr_session_id g)
     then Inl DuplicateRegistration
     else and_then (map_err Credit (grant (rg_credits r) (rr_worker_id g) (rr_initial_credit g))) (\<lambda>credits.
       Inr (r\<lparr>rg_credits := credits,
              rg_sessions := bt_insert (rr_session_id g) (rr_worker_id g) (rg_sessions r),
              rg_workers := bt_insert (rr_worker_id g)
                \<lparr>gw_session_id = rr_session_id g, gw_tenant_id = rr_tenant_id g,
                 gw_capabilities = rr_capabilities g, gw_last_frame_sequence = rr_frame_sequence g\<rparr>
                (rg_workers r)\<rparr>)))"

definition accept_frame ::
  "remote_dispatch_registry \<Rightarrow> string \<Rightarrow> u64
   \<Rightarrow> remote_dispatch_error + string \<times> remote_dispatch_registry" where
  "accept_frame r session_id frame_sequence =
     and_then (ok_or (bt_get (rg_sessions r) session_id) UnknownSession) (\<lambda>worker_id.
     and_then (ok_or (bt_get (rg_workers r) worker_id) UnknownSession) (\<lambda>worker.
     if frame_sequence = 0 \<or> frame_sequence \<le> gw_last_frame_sequence worker then Inl NonMonotonicFrame
     else Inr (worker_id, r\<lparr>rg_workers := bt_insert worker_id
            (worker\<lparr>gw_last_frame_sequence := frame_sequence\<rparr>) (rg_workers r)\<rparr>)))"

definition with_credits ::
  "remote_dispatch_registry \<Rightarrow> credit_error + credit_controller
   \<Rightarrow> (remote_dispatch_error + unit) \<times> remote_dispatch_registry" where
  "with_credits r outcome =
     (case outcome of
        Inl e \<Rightarrow> (Inl (Credit e), r)
      | Inr credits \<Rightarrow> (Inr (), r\<lparr>rg_credits := credits\<rparr>))"

definition grant_credit ::
  "remote_dispatch_registry \<Rightarrow> string \<Rightarrow> u64 \<Rightarrow> u32
   \<Rightarrow> (remote_dispatch_error + unit) \<times> remote_dispatch_registry" where
  "grant_credit r session_id frame_sequence credit =
     (case accept_frame r session_id frame_sequence of
        Inl e \<Rightarrow> (Inl e, r)
      | Inr (worker_id, r) \<Rightarrow> with_credits r (grant (rg_credits r) worker_id credit))"

definition heartbeat ::
  "remote_dispatch_registry \<Rightarrow> string \<Rightarrow> u64
   \<Rightarrow> (remote_dispatch_error + unit) \<times> remote_dispatch_registry" where
  "heartbeat r session_id frame_sequence =
     (case accept_frame r session_id frame_sequence of
        Inl e \<Rightarrow> (Inl e, r)
      | Inr (_, r) \<Rightarrow> (Inr (), r))"

definition acknowledge ::
  "remote_dispatch_registry \<Rightarrow> string \<Rightarrow> u64 \<Rightarrow> string \<Rightarrow> remote_task_acknowledgement
   \<Rightarrow> (remote_dispatch_error + unit) \<times> remote_dispatch_registry" where
  "acknowledge r session_id frame_sequence task_id status =
     (case accept_frame r session_id frame_sequence of
        Inl e \<Rightarrow> (Inl e, r)
      | Inr (worker_id, r) \<Rightarrow>
          if status = AckCompleted \<or> status = AckFailed
          then with_credits r (complete (rg_credits r) worker_id task_id)
          else (Inr (), r))"

definition cancel_reservation ::
  "remote_dispatch_registry \<Rightarrow> string \<Rightarrow> string
   \<Rightarrow> (remote_dispatch_error + unit) \<times> remote_dispatch_registry" where
  "cancel_reservation r worker_id task_id =
     with_credits r (complete (rg_credits r) worker_id task_id)"

definition session_for_worker :: "remote_dispatch_registry \<Rightarrow> string \<Rightarrow> string option" where
  "session_for_worker r worker_id = map_option gw_session_id (bt_get (rg_workers r) worker_id)"

definition disconnect ::
  "remote_dispatch_registry \<Rightarrow> string
   \<Rightarrow> remote_dispatch_error + string list \<times> remote_dispatch_registry" where
  "disconnect r session_id =
     and_then (ok_or (bt_get (rg_sessions r) session_id) UnknownSession) (\<lambda>worker_id.
     case credit_disconnect (rg_credits r) worker_id of
       (tasks, credits) \<Rightarrow>
         Inr (tasks, r\<lparr>rg_sessions := bt_remove session_id (rg_sessions r),
                       rg_workers := bt_remove worker_id (rg_workers r), rg_credits := credits\<rparr>))"

text \<open>The loop over the candidates: a full worker is skipped, any other error ends it.\<close>

fun reserve_first ::
  "credit_controller \<Rightarrow> string \<Rightarrow> string list
   \<Rightarrow> remote_dispatch_error + string \<times> credit_controller" where
  "reserve_first c task_id [] = Inl Backpressured"
| "reserve_first c task_id (w # ws) =
     (case reserve c w task_id of
        Inr c' \<Rightarrow> Inr (w, c')
      | Inl e \<Rightarrow> if e = CreditExhausted then reserve_first c task_id ws else Inl (Credit e))"

definition capable_workers :: "remote_dispatch_registry \<Rightarrow> string \<Rightarrow> string \<Rightarrow> string list" where
  "capable_workers r tenant_id capability =
     map fst (filter (\<lambda>(_, worker). gw_tenant_id worker = tenant_id
       \<and> capability \<in> set (gw_capabilities worker)) (rg_workers r))"

definition reserve_assignment ::
  "remote_dispatch_registry \<Rightarrow> string \<Rightarrow> string \<Rightarrow> string
   \<Rightarrow> remote_dispatch_error + string \<times> remote_dispatch_registry" where
  "reserve_assignment r task_id tenant_id capability =
     (if invalid_text (unat (dl_max_identifier_bytes (rl_dispatch (rg_limits r)))) capability
      then Inl InvalidCapability
      else let candidates = capable_workers r tenant_id capability in
        if candidates = [] then Inl NoCapableWorker
        else and_then (reserve_first (rg_credits r) task_id candidates) (\<lambda>(worker_id, credits).
          Inr (worker_id, r\<lparr>rg_credits := credits\<rparr>)))"

definition invariant_holds :: "remote_dispatch_registry \<Rightarrow> bool" where
  "invariant_holds r \<longleftrightarrow> credit_invariant_holds (rg_credits r)
     \<and> length (rg_workers r) = length (rg_sessions r)
     \<and> list_all (\<lambda>(worker_id, worker). bt_get (rg_sessions r) (gw_session_id worker) = Some worker_id)
         (rg_workers r)"

text \<open>The registries that sequences of operations lead to, failed operations included.\<close>

inductive reachable_registry :: "remote_dispatch_registry \<Rightarrow> bool" where
  created: "remote_dispatch_registry_new limits = Inr r \<Longrightarrow> reachable_registry r"
| limited: "reachable_registry r \<Longrightarrow> replace_limits r limits = Inr r' \<Longrightarrow> reachable_registry r'"
| registered: "reachable_registry r \<Longrightarrow> bs_sorted (rr_capabilities g) \<Longrightarrow> register r g = Inr r' \<Longrightarrow>
    reachable_registry r'"
| granted: "reachable_registry r \<Longrightarrow> reachable_registry (snd (grant_credit r session n credit))"
| beaten: "reachable_registry r \<Longrightarrow> reachable_registry (snd (heartbeat r session n))"
| acknowledged: "reachable_registry r \<Longrightarrow> reachable_registry (snd (acknowledge r session n task status))"
| cancelled: "reachable_registry r \<Longrightarrow> reachable_registry (snd (cancel_reservation r worker task))"
| assigned: "reachable_registry r \<Longrightarrow> reserve_assignment r task tenant capability = Inr (worker, r') \<Longrightarrow>
    reachable_registry r'"
| disconnected: "reachable_registry r \<Longrightarrow> disconnect r session = Inr (tasks, r') \<Longrightarrow> reachable_registry r'"

section \<open>Invariant\<close>

definition sessions_ok :: "remote_dispatch_registry \<Rightarrow> bool" where
  "sessions_ok r \<longleftrightarrow> (\<forall>s w. bt_get (rg_sessions r) s = Some w \<longleftrightarrow>
     (\<exists>x. bt_get (rg_workers r) w = Some x \<and> gw_session_id x = s))"

definition registry_ok :: "remote_dispatch_registry \<Rightarrow> bool" where
  "registry_ok r \<longleftrightarrow> credit_wf (rg_credits r) \<and> cc_limits (rg_credits r) = rl_dispatch (rg_limits r)
     \<and> bt_sorted (rg_workers r) \<and> bt_sorted (rg_sessions r) \<and> sessions_ok r
     \<and> (\<forall>w. credit_view (rg_credits r) w \<noteq> None \<longleftrightarrow> bt_get (rg_workers r) w \<noteq> None)"

lemma registry_credits:
  "registry_ok r \<Longrightarrow> credit_wf credits \<Longrightarrow> cc_limits credits = cc_limits (rg_credits r) \<Longrightarrow>
    (\<And>w. credit_view credits w \<noteq> None \<longleftrightarrow> credit_view (rg_credits r) w \<noteq> None) \<Longrightarrow>
    registry_ok (r\<lparr>rg_credits := credits\<rparr>)"
  by (simp add: registry_ok_def sessions_ok_def)

lemma limits_kept:
  "grant c w n = Inr c' \<Longrightarrow> cc_limits c' = cc_limits c"
  "reserve c w t = Inr c' \<Longrightarrow> cc_limits c' = cc_limits c"
  "complete c w t = Inr c' \<Longrightarrow> cc_limits c' = cc_limits c"
  "credit_disconnect c w = (ts, c') \<Longrightarrow> cc_limits c' = cc_limits c"
  by (auto simp: grant_def reserve_def complete_def credit_disconnect_def and_then_Inr Let_def
      split: if_splits option.splits)

lemma registry_grant:
  assumes "registry_ok r" and "grant (rg_credits r) w n = Inr c" and "bt_get (rg_workers r) w \<noteq> None"
  shows "registry_ok (r\<lparr>rg_credits := c\<rparr>)"
proof (rule registry_credits [OF assms(1)])
  have wf: "credit_wf (rg_credits r)" and dom: "credit_view (rg_credits r) w \<noteq> None"
    using assms(1,3) by (auto simp: registry_ok_def)
  note law = ledger.grant_law [OF wf assms(2)]
  show "credit_wf c" using law by simp
  show "cc_limits c = cc_limits (rg_credits r)" by (rule limits_kept(1) [OF assms(2)])
  show "credit_view c v \<noteq> None \<longleftrightarrow> credit_view (rg_credits r) v \<noteq> None" for v
    using law dom by simp
qed

lemma registry_reserve:
  assumes "registry_ok r" and "reserve (rg_credits r) w t = Inr c"
  shows "registry_ok (r\<lparr>rg_credits := c\<rparr>)"
proof (rule registry_credits [OF assms(1)])
  have wf: "credit_wf (rg_credits r)" using assms(1) by (simp add: registry_ok_def)
  note law = ledger.reserve_law [OF wf assms(2)]
  show "credit_wf c" using law by simp
  show "cc_limits c = cc_limits (rg_credits r)" by (rule limits_kept(2) [OF assms(2)])
  show "credit_view c v \<noteq> None \<longleftrightarrow> credit_view (rg_credits r) v \<noteq> None" for v
    using law by (auto split: if_splits)
qed

lemma registry_complete:
  assumes "registry_ok r" and "complete (rg_credits r) w t = Inr c"
  shows "registry_ok (r\<lparr>rg_credits := c\<rparr>)"
proof (rule registry_credits [OF assms(1)])
  have wf: "credit_wf (rg_credits r)" using assms(1) by (simp add: registry_ok_def)
  note law = ledger.complete_law [OF wf assms(2)]
  show "credit_wf c" using law by simp
  show "cc_limits c = cc_limits (rg_credits r)" by (rule limits_kept(3) [OF assms(2)])
  show "credit_view c v \<noteq> None \<longleftrightarrow> credit_view (rg_credits r) v \<noteq> None" for v
    using law by (auto split: if_splits)
qed

lemma accept_frame_Inr:
  assumes "accept_frame r s n = Inr (w, r')"
  obtains x where "bt_get (rg_sessions r) s = Some w" "bt_get (rg_workers r) w = Some x"
    "gw_last_frame_sequence x < n"
    "r' = r\<lparr>rg_workers := bt_insert w (x\<lparr>gw_last_frame_sequence := n\<rparr>) (rg_workers r)\<rparr>"
  using assms by (auto simp: accept_frame_def and_then_Inr ok_or_Inr not_le split: if_splits)

lemma registry_frame:
  assumes "registry_ok r" and "accept_frame r s n = Inr (w, r')"
  shows "registry_ok r'" and "bt_get (rg_workers r') w \<noteq> None"
proof -
  from assms(2) obtain x where x: "bt_get (rg_workers r) w = Some x"
    and r': "r' = r\<lparr>rg_workers := bt_insert w (x\<lparr>gw_last_frame_sequence := n\<rparr>) (rg_workers r)\<rparr>"
    by (rule accept_frame_Inr)
  show "bt_get (rg_workers r') w \<noteq> None" by (simp add: r')
  have "sessions_ok r'"
    using assms(1) x by (auto simp: registry_ok_def sessions_ok_def r')
  then show "registry_ok r'"
    using assms(1) x by (auto simp: registry_ok_def r' bt_sorted_insert)
qed

lemma registry_with_credits:
  "registry_ok r \<Longrightarrow> (\<And>c. outcome = Inr c \<Longrightarrow> registry_ok (r\<lparr>rg_credits := c\<rparr>)) \<Longrightarrow>
    registry_ok (snd (with_credits r outcome))"
  by (auto simp: with_credits_def split: sum.splits)

lemma registry_frame_grant:
  "registry_ok r \<Longrightarrow> accept_frame r s n = Inr (w, r') \<Longrightarrow> grant (rg_credits r') w credit = Inr c \<Longrightarrow>
    registry_ok (r'\<lparr>rg_credits := c\<rparr>)"
  by (rule registry_grant [OF registry_frame(1) _ registry_frame(2)])

lemma registry_grant_credit: "registry_ok r \<Longrightarrow> registry_ok (snd (grant_credit r s n credit))"
  by (auto simp: grant_credit_def split: sum.splits intro!: registry_with_credits
      intro: registry_frame(1) registry_frame_grant)

lemma registry_heartbeat: "registry_ok r \<Longrightarrow> registry_ok (snd (heartbeat r s n))"
  by (auto simp: heartbeat_def split: sum.splits intro: registry_frame(1))

lemma registry_acknowledge: "registry_ok r \<Longrightarrow> registry_ok (snd (acknowledge r s n t status))"
  by (auto simp: acknowledge_def split: sum.splits intro!: registry_with_credits
      intro: registry_frame(1) registry_complete)

lemma registry_cancel: "registry_ok r \<Longrightarrow> registry_ok (snd (cancel_reservation r w t))"
  by (auto simp: cancel_reservation_def intro!: registry_with_credits intro: registry_complete)

lemma registry_register:
  assumes "registry_ok r" and "register r g = Inr r'"
  shows "registry_ok r'"
proof -
  let ?w = "rr_worker_id g" and ?s = "rr_session_id g"
  from assms(2) obtain credits where new: "bt_get (rg_workers r) ?w = None" "bt_get (rg_sessions r) ?s = None"
    and granted: "grant (rg_credits r) ?w (rr_initial_credit g) = Inr credits"
    and r': "r' = r\<lparr>rg_credits := credits, rg_sessions := bt_insert ?s ?w (rg_sessions r),
      rg_workers := bt_insert ?w
                \<lparr>gw_session_id = ?s, gw_tenant_id = rr_tenant_id g,
                 gw_capabilities = rr_capabilities g, gw_last_frame_sequence = rr_frame_sequence g\<rparr>
                (rg_workers r)\<rparr>"
    by (auto simp: register_def and_then_Inr map_err_Inr bt_contains_key_def split: if_splits)
  have "credit_wf (rg_credits r)" using assms(1) by (simp add: registry_ok_def)
  note law = ledger.grant_law [OF this granted]
  have ok: "sessions_ok r" using assms(1) by (simp add: registry_ok_def)
  have "sessions_ok r'"
    unfolding sessions_ok_def
  proof (intro allI)
    show "bt_get (rg_sessions r') s = Some w \<longleftrightarrow>
        (\<exists>x. bt_get (rg_workers r') w = Some x \<and> gw_session_id x = s)" for s w
      using ok [unfolded sessions_ok_def, rule_format, of s w]
        ok [unfolded sessions_ok_def, rule_format, of ?s w] new
      by (auto simp: r')
  qed
  then show ?thesis
    using assms(1) law limits_kept(1) [OF granted]
    by (auto simp: registry_ok_def r' bt_sorted_insert)
qed

lemma registry_limits:
  assumes "registry_ok r" and "replace_limits r limits = Inr r'"
  shows "registry_ok r'"
proof -
  from assms(2) obtain credits where
    credits: "credit_replace_limits (rg_credits r) (rl_dispatch limits) = Inr credits"
    and r': "r' = r\<lparr>rg_credits := credits, rg_limits := limits\<rparr>"
    by (auto simp: replace_limits_def and_then_Inr map_err_Inr split: if_splits)
  then show ?thesis
    using assms(1) credit_wf_limits [OF _ credits] by (simp add: registry_ok_def sessions_ok_def)
qed

lemma registry_disconnect:
  assumes "registry_ok r" and "disconnect r s = Inr (tasks, r')"
  shows "registry_ok r'"
proof -
  obtain w where w: "bt_get (rg_sessions r) s = Some w"
    using assms(2) by (cases "bt_get (rg_sessions r) s") (auto simp: disconnect_def)
  obtain ts credits where c: "credit_disconnect (rg_credits r) w = (ts, credits)" by force
  have gone: "credit_disconnect (rg_credits r) w = (tasks, credits)"
    and r': "r' = r\<lparr>rg_sessions := bt_remove s (rg_sessions r),
      rg_workers := bt_remove w (rg_workers r), rg_credits := credits\<rparr>"
    using assms(2) w c by (simp_all add: disconnect_def)
  have "credit_wf (rg_credits r)" using assms(1) by (simp add: registry_ok_def)
  note law = ledger.disconnect_law [OF this gone]
  have ok: "sessions_ok r" using assms(1) by (simp add: registry_ok_def)
  have "sessions_ok r'"
    unfolding sessions_ok_def
  proof (intro allI)
    show "bt_get (rg_sessions r') s' = Some w' \<longleftrightarrow>
        (\<exists>x. bt_get (rg_workers r') w' = Some x \<and> gw_session_id x = s')" for s' w'
      using ok [unfolded sessions_ok_def, rule_format, of s' w']
        ok [unfolded sessions_ok_def, rule_format, of s w'] ok [unfolded sessions_ok_def, rule_format, of s' w] w
      by (auto simp: r')
  qed
  then show ?thesis
    using assms(1) law limits_kept(4) [OF gone]
    by (auto simp: registry_ok_def r' bt_sorted_remove)
qed

lemma reserve_first_Inr:
  assumes "reserve_first c t ws = Inr (w, c')"
  shows "\<exists>us vs. ws = us @ w # vs \<and> (\<forall>u \<in> set us. reserve c u t = Inl CreditExhausted) \<and> reserve c w t = Inr c'"
  using assms
proof (induction ws)
  case (Cons x ws)
  show ?case
  proof (cases "reserve c x t")
    case (Inl e)
    then have "e = CreditExhausted" "reserve_first c t ws = Inr (w, c')"
      using Cons.prems by (simp_all split: if_splits)
    then obtain us vs where "ws = us @ w # vs" "\<forall>u \<in> set us. reserve c u t = Inl CreditExhausted"
      "reserve c w t = Inr c'"
      using Cons.IH by blast
    then show ?thesis
      using Inl \<open>e = CreditExhausted\<close> by (intro exI [of _ "x # us"] exI [of _ vs]) simp
  next
    case (Inr y)
    then show ?thesis using Cons.prems by (intro exI [of _ "[]"] exI [of _ ws]) simp
  qed
qed simp

lemma reserve_first_full:
  "reserve_first c t ws = Inl Backpressured \<Longrightarrow> u \<in> set ws \<Longrightarrow> reserve c u t = Inl CreditExhausted"
  by (induction ws) (auto split: sum.splits if_splits)

lemma reserve_assignment_Inr:
  assumes "reserve_assignment r t tenant capability = Inr (w, r')"
  obtains us vs c where "capable_workers r tenant capability = us @ w # vs"
    "\<forall>u \<in> set us. reserve (rg_credits r) u t = Inl CreditExhausted"
    "reserve (rg_credits r) w t = Inr c" "r' = r\<lparr>rg_credits := c\<rparr>"
proof -
  from assms obtain c where "reserve_first (rg_credits r) t (capable_workers r tenant capability) = Inr (w, c)"
    and r': "r' = r\<lparr>rg_credits := c\<rparr>"
    by (auto simp: reserve_assignment_def Let_def and_then_Inr split: if_splits)
  from reserve_first_Inr [OF this(1)] r' show thesis using that by blast
qed

lemma registry_assignment:
  assumes "registry_ok r" and "reserve_assignment r t tenant capability = Inr (w, r')"
  shows "registry_ok r'"
proof -
  from assms(2) obtain c where "reserve (rg_credits r) w t = Inr c" "r' = r\<lparr>rg_credits := c\<rparr>"
    by (rule reserve_assignment_Inr)
  then show ?thesis using registry_reserve [OF assms(1)] by simp
qed

lemma registry_new: "remote_dispatch_registry_new limits = Inr r \<Longrightarrow> registry_ok r"
  by (auto simp: remote_dispatch_registry_new_def credit_controller_new_def and_then_Inr map_err_Inr
      registry_ok_def sessions_ok_def credit_wf_def credit_view_def)

lemma reachable_registry_ok: "reachable_registry r \<Longrightarrow> registry_ok r"
  by (induction rule: reachable_registry.induct)
     (auto intro: registry_new registry_limits registry_register registry_grant_credit registry_heartbeat
       registry_acknowledge registry_cancel registry_assignment registry_disconnect)

text \<open>The check that the source carries as \<open>invariant_holds\<close>.\<close>

lemma length_bijection:
  assumes "bt_sorted m" and "bt_sorted n"
    and "\<And>k v. bt_get n k = Some v \<longleftrightarrow> (\<exists>x. bt_get m v = Some x \<and> f x = k)"
  shows "length m = length n"
proof -
  have sorted_length: "length a = card (set a)" if "bt_sorted a" for a :: "('x::linorder \<times> 'y) list"
    using bt_sorted_distinct [OF that] by (simp add: distinct_map distinct_card)
  have "bij_betw (\<lambda>(v, x). (f x, v)) (set m) (set n)"
    unfolding bij_betw_def
  proof
    show "inj_on (\<lambda>(v, x). (f x, v)) (set m)"
      using assms(1) by (auto simp: inj_on_def bt_get_iff [symmetric])
    show "(\<lambda>(v, x). (f x, v)) ` set m = set n"
    proof (intro set_eqI iffI)
      fix e
      assume "e \<in> (\<lambda>(v, x). (f x, v)) ` set m"
      then show "e \<in> set n" using assms by (auto simp: bt_get_iff [symmetric])
    next
      fix e
      assume "e \<in> set n"
      then have "bt_get n (fst e) = Some (snd e)" using assms(2) by (simp add: bt_get_iff)
      then obtain x where "bt_get m (snd e) = Some x" "f x = fst e" using assms(3) by blast
      then show "e \<in> (\<lambda>(v, x). (f x, v)) ` set m"
        using bt_get_in_set [of m "snd e" x] by (force simp: image_iff)
    qed
  qed
  then show ?thesis
    using bij_betw_same_card sorted_length [OF assms(1)] sorted_length [OF assms(2)] by metis
qed

lemma registry_invariant_holds:
  assumes "registry_ok r"
  shows "invariant_holds r"
proof -
  have "length (rg_workers r) = length (rg_sessions r)"
    using assms by (intro length_bijection [where f = gw_session_id]) (auto simp: registry_ok_def sessions_ok_def)
  moreover have "bt_get (rg_sessions r) (gw_session_id x) = Some w" if "(w, x) \<in> set (rg_workers r)" for w x
    using assms that by (auto simp: registry_ok_def sessions_ok_def bt_get_iff)
  ultimately show ?thesis
    using assms credit_wf_invariant_holds by (auto simp: invariant_holds_def registry_ok_def list_all_iff)
qed

section \<open>Properties\<close>

text \<open>
  C30. Whatever sequence of operations ran, failed ones included, the registry satisfies its
  own consistency check, sessions and workers are in bijection, and every connected worker
  has a ledger entry whose reservations are within its credit and within the limits.
\<close>

theorem registry_consistent:
  assumes "reachable_registry r"
  shows "invariant_holds r
    \<and> (bt_get (rg_sessions r) session = Some w \<longleftrightarrow> session_for_worker r w = Some session)
    \<and> (bt_get (rg_workers r) w \<noteq> None \<longleftrightarrow> credit_view (rg_credits r) w \<noteq> None)
    \<and> (case credit_view (rg_credits r) w of
         None \<Rightarrow> True
       | Some (n, tasks) \<Rightarrow> finite tasks \<and> card tasks \<le> n
           \<and> n \<le> unat (dl_max_credits_per_worker (rl_dispatch (rg_limits r))))
    \<and> length (rg_workers r) \<le> unat (dl_max_workers (rl_dispatch (rg_limits r)))"
proof -
  have ok: "registry_ok r" by (rule reachable_registry_ok [OF assms])
  then have wf: "credit_wf (rg_credits r)"
    and limits: "cc_limits (rg_credits r) = rl_dispatch (rg_limits r)"
    and dom: "credit_view (rg_credits r) w \<noteq> None \<longleftrightarrow> bt_get (rg_workers r) w \<noteq> None" for w
    by (auto simp: registry_ok_def)
  have "length (rg_workers r) = length (cc_workers (rg_credits r))"
  proof -
    have "set (bt_keys (rg_workers r)) = set (bt_keys (cc_workers (rg_credits r)))"
      using dom by (simp add: set_eq_iff bt_contains_key_iff [symmetric] bt_contains_key_def credit_view_def)
    then show ?thesis
      using ok wf bt_sorted_distinct [of "rg_workers r"] bt_sorted_distinct [of "cc_workers (rg_credits r)"]
      by (metis bt_keys_def credit_wf_def distinct_card length_map registry_ok_def)
  qed
  moreover have "n \<le> unat (dl_max_credits_per_worker (rl_dispatch (rg_limits r)))"
    if "credit_view (rg_credits r) w = Some (n, tasks)" for n tasks
    using that credit_wf_worker [OF wf, of w] limits
    by (auto simp: credit_view_def worker_ok_def word_le_nat_alt)
  ultimately show ?thesis
    using registry_invariant_holds [OF ok] ok wf limits ledger.within [OF wf, of w]
    by (auto simp: registry_ok_def sessions_ok_def session_for_worker_def credit_wf_def split: option.split)
qed

text \<open>
  C31. A reservation goes to the first capable worker of the tenant that has free credit: all
  capable workers before it are full, exactly this task is added to its reservations and
  nothing else changes. Backpressure is reported only when every capable worker is full.
\<close>

theorem assignment_selects_first_free:
  assumes "reachable_registry r"
  shows "(reserve_assignment r task tenant capability = Inr (w, r') \<longrightarrow>
      (\<exists>us vs n tasks. capable_workers r tenant capability = us @ w # vs
        \<and> (\<forall>u \<in> set us. \<exists>m T. credit_view (rg_credits r) u = Some (m, T) \<and> card T = m)
        \<and> credit_view (rg_credits r) w = Some (n, tasks) \<and> task \<notin> tasks \<and> card tasks < n
        \<and> credit_view (rg_credits r') = (credit_view (rg_credits r))(w \<mapsto> (n, insert task tasks))
        \<and> rg_workers r' = rg_workers r \<and> rg_sessions r' = rg_sessions r))
    \<and> (reserve_assignment r task tenant capability = Inl Backpressured \<longrightarrow>
      capable_workers r tenant capability \<noteq> []
      \<and> (\<forall>u \<in> set (capable_workers r tenant capability).
          \<exists>m T. credit_view (rg_credits r) u = Some (m, T) \<and> card T = m))"
proof (intro conjI impI)
  have wf: "credit_wf (rg_credits r)"
    using reachable_registry_ok [OF assms] by (simp add: registry_ok_def)
  show "\<exists>us vs n tasks. capable_workers r tenant capability = us @ w # vs
        \<and> (\<forall>u \<in> set us. \<exists>m T. credit_view (rg_credits r) u = Some (m, T) \<and> card T = m)
        \<and> credit_view (rg_credits r) w = Some (n, tasks) \<and> task \<notin> tasks \<and> card tasks < n
        \<and> credit_view (rg_credits r') = (credit_view (rg_credits r))(w \<mapsto> (n, insert task tasks))
        \<and> rg_workers r' = rg_workers r \<and> rg_sessions r' = rg_sessions r"
    if run: "reserve_assignment r task tenant capability = Inr (w, r')"
  proof -
    from run obtain us vs c where list: "capable_workers r tenant capability = us @ w # vs"
      and full: "\<forall>u \<in> set us. reserve (rg_credits r) u task = Inl CreditExhausted"
      and c: "reserve (rg_credits r) w task = Inr c" "r' = r\<lparr>rg_credits := c\<rparr>"
      by (rule reserve_assignment_Inr)
    from wf c(1) obtain n tasks where free: "credit_view (rg_credits r) w = Some (n, tasks)" "task \<notin> tasks"
      "card tasks < n"
      by (rule ledger.reserve_free_credit)
    then have "credit_view c = (credit_view (rg_credits r))(w \<mapsto> (n, insert task tasks))"
      using ledger.reserve_law [OF wf c(1)] by auto
    moreover have "\<forall>u \<in> set us. \<exists>m T. credit_view (rg_credits r) u = Some (m, T) \<and> card T = m"
      using full ledger.exhausted_law [OF wf] by blast
    ultimately show ?thesis using list free c(2) by auto
  qed
  assume run: "reserve_assignment r task tenant capability = Inl Backpressured"
  then have "reserve_first (rg_credits r) task (capable_workers r tenant capability) = Inl Backpressured"
    and some: "capable_workers r tenant capability \<noteq> []"
    by (auto simp: reserve_assignment_def Let_def and_then_Inl split: if_splits)
  then show "\<forall>u \<in> set (capable_workers r tenant capability).
      \<exists>m T. credit_view (rg_credits r) u = Some (m, T) \<and> card T = m"
    using reserve_first_full ledger.exhausted_law [OF wf] by blast
  show "capable_workers r tenant capability \<noteq> []" by (rule some)
qed

section \<open>Two workers, the first one full\<close>

definition ex_worker_limits :: remote_worker_limits where
  "ex_worker_limits =
     \<lparr>rl_dispatch = \<lparr>dl_max_workers = 2, dl_max_credits_per_worker = 4, dl_max_identifier_bytes = 8\<rparr>,
      rl_max_capabilities_per_worker = 2, rl_max_protocol_version_bytes = 4\<rparr>"

definition ex_registration :: "string \<Rightarrow> string \<Rightarrow> remote_worker_registration" where
  "ex_registration worker session =
     \<lparr>rr_session_id = session, rr_frame_sequence = 1, rr_worker_id = worker, rr_tenant_id = ''t'',
      rr_protocol_version = ''1'', rr_capabilities = [''c''], rr_initial_credit = 1\<rparr>"

definition ex_worker :: "string \<Rightarrow> registered_worker" where
  "ex_worker session =
     \<lparr>gw_session_id = session, gw_tenant_id = ''t'', gw_capabilities = [''c''],
      gw_last_frame_sequence = 1\<rparr>"

definition ex_workers :: "string list \<Rightarrow> string list \<Rightarrow> remote_dispatch_registry" where
  "ex_workers a b =
     \<lparr>rg_limits = ex_worker_limits,
      rg_credits = \<lparr>cc_limits = rl_dispatch ex_worker_limits,
        cc_workers = [(''a'', \<lparr>wc_granted = 1, wc_inflight = a\<rparr>), (''b'', \<lparr>wc_granted = 1, wc_inflight = b\<rparr>)]\<rparr>,
      rg_workers = [(''a'', ex_worker ''s''), (''b'', ex_worker ''u'')],
      rg_sessions = [(''s'', ''a''), (''u'', ''b'')]\<rparr>"

lemma ex_not_blank:
  "\<not> is_blank ''a''" "\<not> is_blank ''b''" "\<not> is_blank ''s''" "\<not> is_blank ''u''" "\<not> is_blank ''c''"
  "\<not> is_blank ''1''" "\<not> is_blank ''x''" "\<not> is_blank ''y''"
  by code_simp+

lemmas ex_registry_defs = register_def validate_registration_def invalid_text_def ex_not_blank
  ex_registration_def ex_worker_limits_def ex_worker_def bt_contains_key_def bt_get_Cons grant_def
  validate_identifier_def reserve_def Let_def

lemma ex_workers_reachable: "reachable_registry (ex_workers [] [])"
proof -
  let ?new = "\<lparr>rg_limits = ex_worker_limits, rg_credits =
      \<lparr>cc_limits = rl_dispatch ex_worker_limits, cc_workers = []\<rparr>, rg_workers = [], rg_sessions = []\<rparr>"
  have "remote_dispatch_registry_new ex_worker_limits = Inr ?new"
    by (simp add: remote_dispatch_registry_new_def remote_worker_limits_validate_def
        dispatch_limits_validate_def credit_controller_new_def ex_worker_limits_def)
  then have new: "reachable_registry ?new" by (rule reachable_registry.created)
  let ?one = "?new\<lparr>rg_credits := \<lparr>cc_limits = rl_dispatch ex_worker_limits,
        cc_workers = [(''a'', \<lparr>wc_granted = 1, wc_inflight = []\<rparr>)]\<rparr>,
      rg_workers := [(''a'', ex_worker ''s'')], rg_sessions := [(''s'', ''a'')]\<rparr>"
  have sorted: "bs_sorted (rr_capabilities (ex_registration worker session))" for worker session
    by (simp add: ex_registration_def)
  have "register ?new (ex_registration ''a'' ''s'') = Inr ?one"
    by (simp add: ex_registry_defs word_le_nat_alt word_less_nat_alt)
  then have one: "reachable_registry ?one" by (rule reachable_registry.registered [OF new sorted])
  have "register ?one (ex_registration ''b'' ''u'') = Inr (ex_workers [] [])"
    by (simp add: ex_registry_defs ex_workers_def word_le_nat_alt word_less_nat_alt)
  then show ?thesis by (rule reachable_registry.registered [OF one sorted])
qed

lemma ex_first_assignment:
  "reserve_assignment (ex_workers [] []) ''x'' ''t'' ''c'' = Inr (''a'', ex_workers [''x''] [])"
  by (simp add: reserve_assignment_def capable_workers_def ex_workers_def ex_registry_defs)

lemma ex_second_assignment:
  "reserve_assignment (ex_workers [''x''] []) ''y'' ''t'' ''c'' = Inr (''b'', ex_workers [''x''] [''y''])"
  by (simp add: reserve_assignment_def capable_workers_def ex_workers_def ex_registry_defs)

lemma ex_full_reachable: "reachable_registry (ex_workers [''x''] [])"
  by (rule reachable_registry.assigned [OF ex_workers_reachable ex_first_assignment])

theorem registry_consistent_witness:
  "invariant_holds (ex_workers [''x''] [])
    \<and> session_for_worker (ex_workers [''x''] []) ''a'' = Some ''s''
    \<and> credit_view (rg_credits (ex_workers [''x''] [])) ''a'' = Some (1, {''x''})"
  using registry_consistent [OF ex_full_reachable, of "''s''" "''a''"]
  by (simp add: ex_workers_def credit_view_def bt_get_Cons)

theorem assignment_selects_first_free_witness:
  "\<exists>us vs. capable_workers (ex_workers [''x''] []) ''t'' ''c'' = us @ ''b'' # vs
    \<and> (\<forall>u \<in> set us. \<exists>m T. credit_view (rg_credits (ex_workers [''x''] [])) u = Some (m, T) \<and> card T = m)"
  using assignment_selects_first_free [OF ex_full_reachable, of "''y''" "''t''" "''c''" "''b''"
      "ex_workers [''x''] [''y'']"] ex_second_assignment
  by blast

end
