(* ===== verification/Boundary_Timers.thy ===== *)
theory Boundary_Timers
  imports Configuration Workflow_Types Outbox
begin

text \<open>
  Timer expressions of boundary events (\<open>apps/rust/bpmp-engine/src/boundary_runtime.rs\<close>):
  ISO 8601 durations, dates and cycles are turned into a schedule on the millisecond clock.
  The RFC 3339 parser of the \<open>time\<close> crate is the argument \<open>rfc3339\<close>, which returns
  nanoseconds since the epoch. The round trip \<open>parse_show_duration\<close> covers every duration
  that can be written with weeks, days, hours, minutes and seconds, fractions included.
\<close>

section \<open>Data\<close>

datatype boundary_runtime_error =
    BoundaryPolicyUnavailable
  | BoundaryOutbox outbox_error
  | CorruptEvent string
  | EventScopeMismatch
  | AdapterBatchLimitExceeded
  | NonContiguousProjection
  | ProjectionCursorOverflow
  | ProjectionCheckpointConflict
  | TimerExpressionTooLarge
  | InvalidTimerExpression
  | TimerHorizonExceeded
  | TimerOverflow
  | ClaimWithoutTimer
  | InvalidSignalId
  | InvalidSignalReference
  | InvalidAuthorizationContextReference
  | SignalConflict
  | AmbiguousCorrelation
  | CorrelationScanLimitExceeded
  | LeaseConflict
  | ClockFailed string
  | ClockOverflow
  | InvalidDispatchIdentity
  | DefinitionScopeMismatch
  | DefinitionUnavailable string
  | InvalidDispatchCredentials
  | DispatchFailed string
  | BoundaryStore string

record timer_schedule_record =
  ts_due_at_epoch_ms :: u64
  ts_interval_ms :: "u64 option"
  ts_remaining_firings :: "u32 option"

section \<open>Operations\<close>

definition decimal_component_ms :: "string \<Rightarrow> u64 \<Rightarrow> boundary_runtime_error + u64" where
  "decimal_component_ms value unit_ms =
     (case split_once CHR ''.'' value of
        None \<Rightarrow>
          and_then (ok_or (parse_unsigned value) InvalidTimerExpression) (\<lambda>n.
          ok_or (checked_mul n unit_ms) TimerOverflow)
      | Some (whole, fraction) \<Rightarrow>
          if whole = [] \<or> fraction = [] \<or> 9 < length fraction then Inl InvalidTimerExpression
          else and_then (ok_or (parse_unsigned whole) InvalidTimerExpression) (\<lambda>w.
            and_then (ok_or (checked_mul w unit_ms) TimerOverflow) (\<lambda>whole_ms.
            and_then (ok_or (checked_pow 10 (length fraction)) TimerOverflow) (\<lambda>denominator.
            and_then (ok_or (parse_unsigned fraction) InvalidTimerExpression) (\<lambda>f.
            and_then (ok_or (checked_mul f unit_ms) TimerOverflow) (\<lambda>scaled.
            ok_or (checked_add whole_ms (scaled div denominator)) TimerOverflow))))))"

text \<open>The match on the unit letter and on whether the letter \<open>T\<close> was seen.\<close>

definition duration_unit :: "char \<Rightarrow> bool \<Rightarrow> u64 option" where
  "duration_unit c in_time =
     (if c = CHR ''W'' \<and> \<not> in_time then Some (7 * 24 * 60 * 60 * 1000)
      else if c = CHR ''D'' \<and> \<not> in_time then Some (24 * 60 * 60 * 1000)
      else if c = CHR ''H'' \<and> in_time then Some (60 * 60 * 1000)
      else if c = CHR ''M'' \<and> in_time then Some (60 * 1000)
      else if c = CHR ''S'' \<and> in_time then Some 1000
      else None)"

text \<open>
  The loop over the characters. \<open>number\<close> is the text between \<open>number_start\<close> and the current
  position; the first byte of a character outside ASCII is no unit letter and ends the loop.
\<close>

fun duration_loop ::
  "bool \<Rightarrow> string \<Rightarrow> u64 \<Rightarrow> string \<Rightarrow> boundary_runtime_error + (string \<times> u64)" where
  "duration_loop in_time number total_ms [] = Inr (number, total_ms)"
| "duration_loop in_time number total_ms (c # cs) =
     (if c = CHR ''T''
      then if number \<noteq> [] then Inl InvalidTimerExpression else duration_loop True [] total_ms cs
      else if digit_value c \<noteq> None \<or> c = CHR ''.''
      then duration_loop in_time (number @ [c]) total_ms cs
      else if number = [] then Inl InvalidTimerExpression
      else and_then (ok_or (duration_unit c in_time) InvalidTimerExpression) (\<lambda>unit_ms.
        and_then (decimal_component_ms number unit_ms) (\<lambda>component.
        and_then (ok_or (checked_add total_ms component) TimerOverflow) (\<lambda>total_ms.
        duration_loop in_time [] total_ms cs))))"

definition parse_duration_ms :: "string \<Rightarrow> boundary_runtime_error + u64" where
  "parse_duration_ms expression =
     and_then (ok_or (strip_prefix ''P'' (trim expression)) InvalidTimerExpression) (\<lambda>rest.
     if rest = [] \<or> CHR ''Y'' \<in> set rest then Inl InvalidTimerExpression
     else and_then (duration_loop False [] 0 rest) (\<lambda>(rest, total_ms).
       if rest \<noteq> [] \<or> total_ms = 0 then Inl InvalidTimerExpression else Inr total_ms))"

definition parse_date ::
  "(string \<Rightarrow> int option) \<Rightarrow> string \<Rightarrow> boundary_runtime_error + u64" where
  "parse_date rfc3339 expression =
     and_then (ok_or (rfc3339 (trim expression)) InvalidTimerExpression) (\<lambda>nanos.
     let millis = nanos div 1000000 in
     if 0 \<le> millis \<and> millis < 2 ^ 64 then Inr (of_int millis) else Inl InvalidTimerExpression)"

definition parse_cycle ::
  "(string \<Rightarrow> int option) \<Rightarrow> string \<Rightarrow> u64 \<Rightarrow> boundary_runtime_error + timer_schedule_record" where
  "parse_cycle rfc3339 expression armed_at_epoch_ms =
     (let parts = split_on CHR ''/'' (trim expression) in
      if \<not> (length parts = 2 \<or> length parts = 3) \<or> strip_prefix ''R'' (parts ! 0) = None
      then Inl InvalidTimerExpression
      else and_then (if parts ! 0 = ''R'' then Inr None
          else and_then (ok_or (parse_unsigned (drop 1 (parts ! 0))) InvalidTimerExpression) (\<lambda>count.
            if count = 0 then Inl InvalidTimerExpression else Inr (Some count))) (\<lambda>remaining_firings.
        and_then (parse_duration_ms (parts ! (length parts - 1))) (\<lambda>interval.
        and_then (if length parts = 3
            then and_then (parse_date rfc3339 (parts ! 1)) (\<lambda>date. Inr (max date armed_at_epoch_ms))
            else ok_or (checked_add armed_at_epoch_ms interval) TimerOverflow) (\<lambda>due.
        Inr \<lparr>ts_due_at_epoch_ms = due, ts_interval_ms = Some interval,
             ts_remaining_firings = remaining_firings\<rparr>))))"

definition schedule_of_kind ::
  "(string \<Rightarrow> int option) \<Rightarrow> boundary_timer_kind \<Rightarrow> string \<Rightarrow> u64
   \<Rightarrow> boundary_runtime_error + timer_schedule_record" where
  "schedule_of_kind rfc3339 kind expression armed_at_epoch_ms =
     (case kind of
        TimerDate \<Rightarrow>
          and_then (parse_date rfc3339 expression) (\<lambda>date.
          Inr \<lparr>ts_due_at_epoch_ms = max date armed_at_epoch_ms, ts_interval_ms = None,
               ts_remaining_firings = Some 1\<rparr>)
      | TimerDuration \<Rightarrow>
          and_then (parse_duration_ms expression) (\<lambda>duration.
          and_then (ok_or (checked_add armed_at_epoch_ms duration) TimerOverflow) (\<lambda>due.
          Inr \<lparr>ts_due_at_epoch_ms = due, ts_interval_ms = None, ts_remaining_firings = Some 1\<rparr>))
      | TimerCycle \<Rightarrow> parse_cycle rfc3339 expression armed_at_epoch_ms)"

definition timer_schedule ::
  "(string \<Rightarrow> int option) \<Rightarrow> boundary_trigger \<Rightarrow> u64 \<Rightarrow> boundary_runtime_policy
   \<Rightarrow> boundary_runtime_error + timer_schedule_record option" where
  "timer_schedule rfc3339 trigger armed_at_epoch_ms policy =
     (case trigger of
        TriggerTimer kind expression \<Rightarrow>
          if unat (br_max_expression_bytes policy) < length expression then Inl TimerExpressionTooLarge
          else and_then (schedule_of_kind rfc3339 kind expression armed_at_epoch_ms) (\<lambda>schedule.
            let horizon = saturating_sub (ts_due_at_epoch_ms schedule) armed_at_epoch_ms in
            if br_max_timer_horizon_ms policy < horizon
               \<or> (case ts_interval_ms schedule of None \<Rightarrow> False
                  | Some interval \<Rightarrow> br_max_timer_horizon_ms policy < interval)
            then Inl TimerHorizonExceeded
            else Inr (Some schedule))
      | _ \<Rightarrow> Inr None)"

section \<open>Reading back durations\<close>

text \<open>
  The durations the parser is meant for: components with a whole part, an optional
  fraction of at most nine digits and a unit, the date units before the time units.
\<close>

record duration_component =
  du_whole :: nat
  du_fraction :: string
  du_unit :: char

definition unit_millis :: "char \<Rightarrow> nat" where
  "unit_millis c =
     (if c = CHR ''W'' then 604800000 else if c = CHR ''D'' then 86400000
      else if c = CHR ''H'' then 3600000 else if c = CHR ''M'' then 60000 else 1000)"

definition fraction_value :: "string \<Rightarrow> nat" where
  "fraction_value f = (case parse_digits 0 f of None \<Rightarrow> 0 | Some n \<Rightarrow> n)"

definition component_millis :: "duration_component \<Rightarrow> nat" where
  "component_millis c = du_whole c * unit_millis (du_unit c)
     + fraction_value (du_fraction c) * unit_millis (du_unit c) div 10 ^ length (du_fraction c)"

definition component_ok :: "string \<Rightarrow> duration_component \<Rightarrow> bool" where
  "component_ok units c \<longleftrightarrow> du_unit c \<in> set units \<and> length (du_fraction c) \<le> 9
     \<and> list_all (\<lambda>d. digit_value d \<noteq> None) (du_fraction c)"

definition show_component :: "duration_component \<Rightarrow> string" where
  "show_component c = show_nat (du_whole c)
     @ (if du_fraction c = [] then [] else CHR ''.'' # du_fraction c) @ [du_unit c]"

definition show_duration :: "duration_component list \<Rightarrow> duration_component list \<Rightarrow> string" where
  "show_duration date time = CHR ''P'' # concat (map show_component date)
     @ (if time = [] then [] else CHR ''T'' # concat (map show_component time))"

definition duration_millis :: "duration_component list \<Rightarrow> duration_component list \<Rightarrow> nat" where
  "duration_millis date time = sum_list (map component_millis (date @ time))"

lemma fraction_bound:
  assumes "list_all (\<lambda>d. digit_value d \<noteq> None) f"
  shows "parse_digits 0 f = Some (fraction_value f)" and "fraction_value f < 10 ^ length f"
proof -
  have "\<exists>n. parse_digits acc f = Some n \<and> n < (acc + 1) * 10 ^ length f" for acc
    using assms
  proof (induction f arbitrary: acc)
    case (Cons c f)
    then obtain d where d: "digit_value c = Some d" by auto
    then have "d < 10" by (auto simp: digit_value_def Let_def split: if_splits)
    from Cons obtain n where n: "parse_digits (10 * acc + d) f = Some n"
      "n < (10 * acc + d + 1) * 10 ^ length f" by auto
    have "(10 * acc + d + 1) * 10 ^ length f \<le> (10 * (acc + 1)) * 10 ^ length f"
      using \<open>d < 10\<close> by (intro mult_le_mono1) simp
    then have "n < (acc + 1) * 10 ^ length (c # f)"
      using n(2) by (simp only: length_Cons power_Suc mult.assoc mult.left_commute)
    then show ?case using n(1) d by simp
  qed simp
  from this [of 0] show "parse_digits 0 f = Some (fraction_value f)"
    and "fraction_value f < 10 ^ length f"
    by (auto simp: fraction_value_def)
qed

lemma checked_mul_unat:
  "unat a * unat b < 2 ^ LENGTH('l) \<Longrightarrow> checked_mul a b = Some (a * b)" for a b :: "'l::len word"
  by (simp add: checked_mul_def)

lemma unit_millis_bound: "1 \<le> unit_millis c" "unit_millis c \<le> 604800000"
  by (simp_all add: unit_millis_def)

lemma unat_of_nat_u64: "n < 2 ^ 64 \<Longrightarrow> unat (of_nat n :: u64) = n"
  by (simp add: unat_of_nat)

text \<open>One component: no step of the exact computation overflows when its value fits.\<close>

lemma decimal_component_shown:
  assumes ok: "component_ok units c" and fits: "component_millis c < 2 ^ 64"
  shows "decimal_component_ms (butlast (show_component c)) (of_nat (unit_millis (du_unit c))) =
    Inr (of_nat (component_millis c))"
proof -
  let ?u = "unit_millis (du_unit c)" and ?f = "du_fraction c" and ?w = "du_whole c"
  have u: "unat (of_nat ?u :: u64) = ?u"
    using unit_millis_bound(2) [of "du_unit c"] by (intro unat_of_nat_u64) simp
  have whole: "?w * ?u < 2 ^ 64" using fits by (simp add: component_millis_def)
  have "?w * 1 \<le> ?w * ?u" using unit_millis_bound(1) by (intro mult_le_mono2)
  then have w: "?w < 2 ^ 64" using whole unfolding mult_1_right by (rule order_le_less_trans)
  have parsed: "parse_unsigned (show_nat ?w) = Some (of_nat ?w :: u64)"
    using w by (intro parse_unsigned_shown) simp
  have mul: "checked_mul (of_nat ?w) (of_nat ?u) = Some (of_nat (?w * ?u) :: u64)"
    using whole by (simp add: checked_mul_def unat_of_nat_u64 [OF w] u)
  show ?thesis
  proof (cases "?f = []")
    case True
    then show ?thesis
      using parsed mul
      by (simp add: show_component_def decimal_component_ms_def butlast_append split_once_shown
          component_millis_def fraction_value_def)
  next
    case False
    let ?v = "fraction_value ?f"
    have digits: "list_all (\<lambda>d. digit_value d \<noteq> None) ?f" and short: "length ?f \<le> 9"
      using ok by (simp_all add: component_ok_def)
    have pow: "(10::nat) ^ length ?f \<le> 10 ^ 9" using short by (intro power_increasing) simp_all
    have v: "?v < 10 ^ length ?f" by (rule fraction_bound(2) [OF digits])
    then have "?v * ?u \<le> 10 ^ 9 * 604800000"
      using pow unit_millis_bound(2) [of "du_unit c"] by (intro mult_le_mono) simp_all
    then have scaled: "?v * ?u < 2 ^ 64" by simp
    have v64: "?v < 2 ^ 64" using v pow by simp
    have parsed_f: "parse_unsigned ?f = Some (of_nat ?v :: u64)"
      using False digits fraction_bound(1) [OF digits] v64 by (intro parse_unsigned_digits) simp_all
    have mul_f: "checked_mul (of_nat ?v) (of_nat ?u) = Some (of_nat (?v * ?u) :: u64)"
      using scaled by (simp add: checked_mul_def unat_of_nat_u64 [OF v64] u)
    have den: "checked_pow (10::u64) (length ?f) = Some (of_nat (10 ^ length ?f))"
      using pow by (simp add: checked_pow_def)
    have quotient: "(of_nat (?v * ?u) :: u64) div of_nat (10 ^ length ?f) =
        of_nat (?v * ?u div 10 ^ length ?f)"
    proof -
      have "?v * ?u div 10 ^ length ?f < 2 ^ 64"
        using scaled by (meson div_le_dividend order_le_less_trans)
      moreover have "(10::nat) ^ length ?f < 2 ^ 64" using pow by simp
      ultimately have "unat ((of_nat (?v * ?u) :: u64) div of_nat (10 ^ length ?f)) =
          unat (of_nat (?v * ?u div 10 ^ length ?f) :: u64)"
        using scaled by (simp only: unat_div unat_of_nat_u64)
      then show ?thesis by (simp only: word_unat_eq_iff)
    qed
    have sum: "checked_add (of_nat (?w * ?u)) (of_nat (?v * ?u div 10 ^ length ?f)) =
        Some (of_nat (component_millis c) :: u64)"
    proof -
      have "?v * ?u div 10 ^ length ?f < 2 ^ 64" using fits by (simp add: component_millis_def)
      then show ?thesis
        using fits by (simp add: checked_add_def unat_of_nat_u64 [OF whole] unat_of_nat_u64
            component_millis_def del: of_nat_mult)
    qed
    show ?thesis
      using False short parsed mul den parsed_f mul_f quotient sum
      by (simp add: show_component_def decimal_component_ms_def butlast_append split_once_shown)
  qed
qed

lemma duration_loop_number:
  "list_all (\<lambda>c. digit_value c \<noteq> None \<or> c = CHR ''.'') xs \<Longrightarrow>
    duration_loop t number total_ms (xs @ ys) = duration_loop t (number @ xs) total_ms ys"
  by (induction xs arbitrary: number) (auto simp: digit_value_def)

lemma duration_units:
  "component_ok ''WD'' c \<Longrightarrow> duration_unit (du_unit c) False = Some (of_nat (unit_millis (du_unit c)))"
  "component_ok ''HMS'' c \<Longrightarrow> duration_unit (du_unit c) True = Some (of_nat (unit_millis (du_unit c)))"
  by (auto simp: component_ok_def duration_unit_def unit_millis_def)

lemma unit_letter:
  "component_ok ''WD'' c \<or> component_ok ''HMS'' c \<Longrightarrow>
    du_unit c \<noteq> CHR ''T'' \<and> du_unit c \<noteq> CHR ''.'' \<and> du_unit c \<noteq> CHR ''Y''
    \<and> digit_value (du_unit c) = None \<and> printable (du_unit c)"
  by (auto simp: component_ok_def digit_value_def printable_def)

abbreviation units_of :: "bool \<Rightarrow> string" where
  "units_of t \<equiv> (if t then ''HMS'' else ''WD'')"

lemma duration_loop_component:
  assumes ok: "component_ok (units_of t) c" and fits: "unat total_ms + component_millis c < 2 ^ 64"
  shows "duration_loop t [] total_ms (show_component c @ ys) =
    duration_loop t [] (total_ms + of_nat (component_millis c)) ys"
proof -
  let ?number = "butlast (show_component c)"
  have split: "show_component c = ?number @ [du_unit c]"
    by (simp add: show_component_def butlast_append)
  have chars: "list_all (\<lambda>c. digit_value c \<noteq> None \<or> c = CHR ''.'') ?number"
    using ok show_nat_digits [of "du_whole c"]
    by (auto simp: show_component_def butlast_append component_ok_def list_all_iff)
  have nonempty: "?number \<noteq> []" by (simp add: show_component_def butlast_append)
  have unit_ms: "duration_unit (du_unit c) t = Some (of_nat (unit_millis (du_unit c)))"
    using ok duration_units by (cases t) simp_all
  have small: "component_millis c < 2 ^ 64" using fits by simp
  have "checked_add total_ms (of_nat (component_millis c)) =
      Some (total_ms + of_nat (component_millis c))"
    using fits by (simp add: checked_add_def unat_of_nat_u64 [OF small])
  then have "duration_loop t ?number total_ms (du_unit c # ys) =
      duration_loop t [] (total_ms + of_nat (component_millis c)) ys"
    using ok nonempty unit_ms decimal_component_shown [OF ok small] unit_letter [of c]
    by (cases t) simp_all
  then show ?thesis
    by (subst split) (simp only: append_assoc append_Cons append_Nil duration_loop_number [OF chars])
qed

lemma unat_add_of_nat:
  "unat w + n < 2 ^ 64 \<Longrightarrow> unat (w + of_nat n :: u64) = unat w + n"
  by (simp add: unat_word_ariths unat_of_nat)

lemma duration_loop_components:
  assumes "list_all (component_ok (units_of t)) cs"
    and "unat total_ms + sum_list (map component_millis cs) < 2 ^ 64"
  shows "duration_loop t [] total_ms (concat (map show_component cs) @ ys) =
    duration_loop t [] (total_ms + of_nat (sum_list (map component_millis cs))) ys"
  using assms
proof (induction cs arbitrary: total_ms)
  case (Cons c cs)
  have fits: "unat total_ms + component_millis c < 2 ^ 64" using Cons.prems(2) by simp
  have ok: "component_ok (units_of t) c" and rest: "list_all (component_ok (units_of t)) cs"
    using Cons.prems(1) by (simp_all del: if_split)
  have "unat (total_ms + of_nat (component_millis c)) + sum_list (map component_millis cs) < 2 ^ 64"
    using Cons.prems(2) by (simp add: unat_add_of_nat [OF fits])
  from Cons.IH [OF rest this] show ?case
    by (simp add: duration_loop_component [OF ok fits] add.assoc)
qed simp

lemma show_component_no_year:
  "component_ok ''WD'' c \<or> component_ok ''HMS'' c \<Longrightarrow> CHR ''Y'' \<notin> set (show_component c)"
  using show_nat_digits [of "du_whole c"]
  by (auto simp: show_component_def component_ok_def list_all_iff digit_value_def)

lemma show_duration_shape:
  assumes "date \<noteq> [] \<or> time \<noteq> []"
    and "list_all (component_ok ''WD'') date" and "list_all (component_ok ''HMS'') time"
  shows "\<exists>s z. show_duration date time = CHR ''P'' # s @ [z] \<and> printable z"
    and "CHR ''Y'' \<notin> set (show_duration date time)"
proof -
  let ?last = "last (date @ time)"
  have mem: "?last \<in> set (date @ time)" using assms(1) by (intro last_in_set) simp
  then have letter: "printable (du_unit ?last)"
    using assms(2,3) unit_letter [of ?last] by (auto simp: list_all_iff)
  have shown: "show_component c = butlast (show_component c) @ [du_unit c]" for c
    by (simp add: show_component_def butlast_append)
  have tail: "\<exists>s. concat (map show_component cs) = s @ [du_unit (last cs)]" if "cs \<noteq> []" for cs
    using that shown [of "last cs"]
    by (subst append_butlast_last_id [OF that, symmetric])
       (metis append.assoc concat.simps(1) concat.simps(2) concat_append append_Nil2 list.map map_append)
  show "\<exists>s z. show_duration date time = CHR ''P'' # s @ [z] \<and> printable z"
  proof (cases "time = []")
    case True
    then obtain s where "concat (map show_component date) = s @ [du_unit ?last]"
      using tail [of date] assms(1) by auto
    then show ?thesis using True letter by (auto simp: show_duration_def)
  next
    case False
    then obtain s where "concat (map show_component time) = s @ [du_unit ?last]"
      using tail [of time] by auto
    then show ?thesis
      using False letter by (auto simp: show_duration_def intro!: exI [of _ "_ @ _ # _"])
  qed
  have "CHR ''Y'' \<notin> set (show_component c)" if "c \<in> set date \<union> set time" for c
    using assms(2,3) that by (intro show_component_no_year) (auto simp: list_all_iff)
  then show "CHR ''Y'' \<notin> set (show_duration date time)"
    by (auto simp: show_duration_def)
qed

lemma duration_loop_shown:
  assumes "list_all (component_ok ''WD'') date" and "list_all (component_ok ''HMS'') time"
    and "duration_millis date time < 2 ^ 64"
  shows "duration_loop False [] 0 (tl (show_duration date time)) =
    Inr ([], of_nat (duration_millis date time))"
proof -
  have sum: "duration_millis date time =
      sum_list (map component_millis date) + sum_list (map component_millis time)"
    by (simp add: duration_millis_def)
  have date: "sum_list (map component_millis date) < 2 ^ 64" using assms(3) sum by simp
  have time: "unat (of_nat (sum_list (map component_millis date)) :: u64)
      + sum_list (map component_millis time) < 2 ^ 64"
    using assms(3) sum by (simp add: unat_of_nat_u64 [OF date])
  have loop: "duration_loop False [] 0 (concat (map show_component date) @ ys) =
      duration_loop False [] (of_nat (sum_list (map component_millis date))) ys" for ys
    using duration_loop_components [of False date 0 ys] assms(1) date by simp
  have "duration_loop True [] (of_nat (sum_list (map component_millis date)))
      (concat (map show_component time)) = Inr ([], of_nat (duration_millis date time))"
    using duration_loop_components [of True time _ "[]", OF _ time] assms(2) by (simp add: sum)
  then show ?thesis
    using loop [of "[]"] by (cases "time = []") (simp_all add: show_duration_def loop sum)
qed

text \<open>
  C34. Durations read back: every duration written with weeks, days, hours, minutes and
  seconds, each with an optional fraction of up to nine digits, is parsed to its exact
  number of milliseconds (each fraction rounded down), as long as that number is positive
  and fits 64 bits. No intermediate multiplication or sum overflows.
\<close>

theorem parse_show_duration:
  assumes "list_all (component_ok ''WD'') date" and "list_all (component_ok ''HMS'') time"
    and "0 < duration_millis date time" and "duration_millis date time < 2 ^ 64"
  shows "parse_duration_ms (show_duration date time) = Inr (of_nat (duration_millis date time))"
proof -
  have nonempty: "date \<noteq> [] \<or> time \<noteq> []" using assms(3) by (auto simp: duration_millis_def)
  obtain s z where shape: "show_duration date time = CHR ''P'' # s @ [z]" "printable z"
    using show_duration_shape(1) [OF nonempty assms(1,2)] by blast
  have "trim (show_duration date time) = show_duration date time"
    using shape by (simp add: trim_id printable_def)
  moreover have "(of_nat (duration_millis date time) :: u64) \<noteq> 0"
    using assms(3,4) unat_of_nat_u64 [OF assms(4)] by auto
  ultimately show ?thesis
    using duration_loop_shown [OF assms(1,2,4)] show_duration_shape(2) [OF nonempty assms(1,2)] shape(1)
    by (simp add: parse_duration_ms_def)
qed

text \<open>One day, one and a half hours and a quarter of a second: 91,800,250 milliseconds.\<close>

theorem parse_show_duration_witness:
  "parse_duration_ms ''P1DT1.5H0.25S'' = Inr 91800250"
proof -
  let ?date = "[\<lparr>du_whole = 1, du_fraction = [], du_unit = CHR ''D''\<rparr>]"
  let ?time = "[\<lparr>du_whole = 1, du_fraction = ''5'', du_unit = CHR ''H''\<rparr>,
    \<lparr>du_whole = 0, du_fraction = ''25'', du_unit = CHR ''S''\<rparr>]"
  have shown: "show_duration ?date ?time = ''P1DT1.5H0.25S''"
    by code_simp
  have millis: "duration_millis ?date ?time = 91800250"
    by (simp add: duration_millis_def component_millis_def fraction_value_def unit_millis_def
        digit_value_def)
  have "list_all (component_ok ''WD'') ?date" and "list_all (component_ok ''HMS'') ?time"
    by (simp_all add: component_ok_def digit_value_def)
  from parse_show_duration [OF this] show ?thesis
    unfolding shown millis by simp
qed

end
