(* ===== verification/Boundary_Runtime.thy ===== *)
theory Boundary_Runtime
  imports Boundary_Timers Engine
begin

text \<open>
  The boundary event runtime (\<open>apps/rust/bpmp-engine/src/boundary_runtime.rs\<close>): a worker
  projects committed events to boundary subscriptions, claims due timers and external
  signals under a lease, and dispatches them to the engine as ordinary commands. The store
  port is a record of operations, the dispatcher a function on its own state, the reading
  of the clock an argument. A lock that was poisoned by a panic is not modelled, so a policy
  is passed as a value.
\<close>

section \<open>Data\<close>

type_synonym boundary_subscription_key = "tenant_id \<times> instance_id \<times> node_id"

record projected_boundary_subscription =
  pb_key :: boundary_subscription_key
  pb_attached_node_id :: node_id
  pb_target_node_id :: node_id
  pb_cancel_activity :: bool
  pb_trigger :: boundary_trigger
  pb_armed_at_epoch_ms :: u64
  pb_armed_event_id :: string
  pb_timer_schedule :: "timer_schedule_record option"
  pb_workflow_type :: workflow_type
  pb_workflow_version :: workflow_version

datatype boundary_projection_mutation =
    Upsert projected_boundary_subscription
  | DisarmBoundary boundary_subscription_key
  | DisarmAttached tenant_id instance_id node_id
  | RemoveInstance tenant_id instance_id

record boundary_projection_record =
  bp_cursor :: u64
  bp_envelope :: event_envelope

datatype boundary_signal_kind = SignalMessage | SignalError

record boundary_signal =
  bg_signal_id :: string
  bg_tenant_id :: tenant_id
  bg_instance_id :: instance_id
  bg_kind :: boundary_signal_kind
  bg_reference :: "string option"
  bg_occurred_at_epoch_ms :: u64
  bg_authorization_context_ref :: string

record claimed_timer =
  ct_subscription :: projected_boundary_subscription
  ct_generation :: u64
  ct_attempts :: u32
  ct_lease_version :: u64

record claimed_correlation =
  cc_signal :: boundary_signal
  cc_subscription :: "projected_boundary_subscription option"
  cc_attempts :: u32
  cc_lease_version :: u64

record timer_dispatch_completion =
  tc_next_schedule :: "timer_schedule_record option"

datatype signal_enqueue_outcome = SignalEnqueued | SignalDuplicate

datatype boundary_dispatch_source =
    SourceTimer | SourceMessage | SourceError | SourceExternalWorker

record boundary_dispatch_request =
  bd_tenant_id :: tenant_id
  bd_instance_id :: instance_id
  bd_command_id :: command_id
  bd_idempotency_key :: idempotency_key
  bd_correlation_id :: correlation_id
  bd_command :: command
  bd_source :: boundary_dispatch_source
  bd_occurred_at_epoch_ms :: u64
  bd_workflow_type :: workflow_type
  bd_workflow_version :: workflow_version
  bd_authorization_context_ref :: "string option"

record boundary_dispatch_credentials =
  cd_actor_proof :: "u8 list"
  cd_workload_proof :: "u8 list"
  cd_encryption_key_scope :: key_scope

record projection_outcome =
  po_processed :: nat
  po_checkpoint :: u64

record dispatch_outcome =
  do_dispatched :: nat
  do_retried :: nat
  do_dead_lettered :: nat

definition default_dispatch_outcome :: dispatch_outcome where
  "default_dispatch_outcome = \<lparr>do_dispatched = 0, do_retried = 0, do_dead_lettered = 0\<rparr>"

record 's boundary_store_port =
  bs_projection_checkpoint :: "'s \<Rightarrow> boundary_runtime_error + u64"
  bs_apply_projection :: "'s \<Rightarrow> u64 \<Rightarrow> u64 \<Rightarrow> boundary_projection_mutation list
    \<Rightarrow> (boundary_runtime_error + unit) \<times> 's"
  bs_claim_due_timers :: "'s \<Rightarrow> u64 \<Rightarrow> u64 \<Rightarrow> string \<Rightarrow> nat
    \<Rightarrow> (boundary_runtime_error + claimed_timer list) \<times> 's"
  bs_complete_timer :: "'s \<Rightarrow> claimed_timer \<Rightarrow> timer_dispatch_completion
    \<Rightarrow> (boundary_runtime_error + unit) \<times> 's"
  bs_fail_timer :: "'s \<Rightarrow> claimed_timer \<Rightarrow> u64 \<Rightarrow> bool \<Rightarrow> (boundary_runtime_error + unit) \<times> 's"
  bs_enqueue_signal :: "'s \<Rightarrow> boundary_signal
    \<Rightarrow> (boundary_runtime_error + signal_enqueue_outcome) \<times> 's"
  bs_claim_correlations :: "'s \<Rightarrow> u64 \<Rightarrow> u64 \<Rightarrow> string \<Rightarrow> nat \<Rightarrow> nat
    \<Rightarrow> (boundary_runtime_error + claimed_correlation list) \<times> 's"
  bs_complete_correlation :: "'s \<Rightarrow> claimed_correlation \<Rightarrow> (boundary_runtime_error + unit) \<times> 's"
  bs_fail_correlation :: "'s \<Rightarrow> claimed_correlation \<Rightarrow> u64 \<Rightarrow> bool
    \<Rightarrow> (boundary_runtime_error + unit) \<times> 's"

type_synonym 'd dispatcher =
  "'d \<Rightarrow> boundary_dispatch_request \<Rightarrow> (boundary_runtime_error + unit) \<times> 'd"

section \<open>Reading committed events\<close>

text \<open>\<open>OutboxBoundaryEventSource\<close>; \<open>EventCodec::decode\<close> is an argument.\<close>

definition decode_record ::
  "(u8 list \<Rightarrow> string + event_envelope) \<Rightarrow> outbox_record
   \<Rightarrow> boundary_runtime_error + boundary_projection_record" where
  "decode_record decode r =
     and_then (map_err CorruptEvent (decode (ob_payload r))) (\<lambda>envelope.
     if em_event_id (ee_metadata envelope) \<noteq> ob_event_id r
        \<or> em_tenant_id (ee_metadata envelope) \<noteq> ob_tenant_id r
        \<or> em_instance_id (ee_metadata envelope) \<noteq> ob_instance_id r
     then Inl EventScopeMismatch
     else Inr \<lparr>bp_cursor = ob_cursor r, bp_envelope = envelope\<rparr>)"

definition source_read_after ::
  "'o outbox_store_port \<Rightarrow> (u8 list \<Rightarrow> string + event_envelope) \<Rightarrow> 'o \<Rightarrow> u64 \<Rightarrow> nat
   \<Rightarrow> boundary_runtime_error + boundary_projection_record list" where
  "source_read_after port decode s cursor limit =
     and_then (map_err BoundaryOutbox (os_read_after port s cursor limit)) (\<lambda>records.
     try_map (decode_record decode) records)"

section \<open>Projection\<close>

fun projection_order ::
  "u64 \<Rightarrow> boundary_projection_record list \<Rightarrow> boundary_runtime_error + unit" where
  "projection_order expected [] = Inr ()"
| "projection_order expected (r # rs) =
     and_then (ok_or (checked_add expected 1) ProjectionCursorOverflow) (\<lambda>expected.
     if bp_cursor r \<noteq> expected then Inl NonContiguousProjection
     else projection_order expected rs)"

definition validate_projection_records ::
  "boundary_projection_record list \<Rightarrow> u64 \<Rightarrow> nat \<Rightarrow> boundary_runtime_error + unit" where
  "validate_projection_records records checkpoint limit =
     (if limit < length records then Inl AdapterBatchLimitExceeded
      else projection_order checkpoint records)"

definition armed_subscription ::
  "event_metadata \<Rightarrow> node_id \<Rightarrow> node_id \<Rightarrow> node_id \<Rightarrow> bool \<Rightarrow> boundary_trigger \<Rightarrow> u64
   \<Rightarrow> timer_schedule_record option \<Rightarrow> projected_boundary_subscription" where
  "armed_subscription metadata b attached target cancel trigger at schedule =
     \<lparr>pb_key = (em_tenant_id metadata, em_instance_id metadata, b),
      pb_attached_node_id = attached, pb_target_node_id = target, pb_cancel_activity = cancel,
      pb_trigger = trigger, pb_armed_at_epoch_ms = at, pb_armed_event_id = em_event_id metadata,
      pb_timer_schedule = schedule, pb_workflow_type = em_workflow_type metadata,
      pb_workflow_version = em_workflow_version metadata\<rparr>"

definition disarm_attached :: "event_metadata \<Rightarrow> node_id \<Rightarrow> boundary_projection_mutation" where
  "disarm_attached metadata attached =
     DisarmAttached (em_tenant_id metadata) (em_instance_id metadata) attached"

definition remove_instance :: "event_metadata \<Rightarrow> boundary_projection_mutation" where
  "remove_instance metadata = RemoveInstance (em_tenant_id metadata) (em_instance_id metadata)"

fun event_mutation ::
  "(string \<Rightarrow> int option) \<Rightarrow> boundary_runtime_policy \<Rightarrow> event_metadata \<Rightarrow> domain_event
   \<Rightarrow> boundary_runtime_error + boundary_projection_mutation option" where
  "event_mutation rfc3339 policy m (BoundaryEventArmed b attached target cancel trigger at) =
     and_then (timer_schedule rfc3339 trigger at policy) (\<lambda>schedule.
     Inr (Some (Upsert (armed_subscription m b attached target cancel trigger at schedule))))"
| "event_mutation rfc3339 policy m (BoundaryEventsDisarmed attached ids _) =
     (case ids of
        [b] \<Rightarrow> Inr (Some (DisarmBoundary (em_tenant_id m, em_instance_id m, b)))
      | _ \<Rightarrow> Inr (Some (disarm_attached m attached)))"
| "event_mutation rfc3339 policy m (ServiceTaskCompleted n _ _) = Inr (Some (disarm_attached m n))"
| "event_mutation rfc3339 policy m (UserTaskCompleted n _ _ _) = Inr (Some (disarm_attached m n))"
| "event_mutation rfc3339 policy m (ScriptTaskCompleted n _) = Inr (Some (disarm_attached m n))"
| "event_mutation rfc3339 policy m (MultiInstanceCompleted n _ _ _) = Inr (Some (disarm_attached m n))"
| "event_mutation rfc3339 policy m (BoundaryEventTriggered _ attached _ cancel _ _ _) =
     (if cancel then Inr (Some (disarm_attached m attached)) else Inr None)"
| "event_mutation rfc3339 policy m (WorkflowCompleted _) = Inr (Some (remove_instance m))"
| "event_mutation rfc3339 policy m (WorkflowTerminatedForCompliance _ _ _ _ _) =
     Inr (Some (remove_instance m))"
| "event_mutation rfc3339 policy m _ = Inr None"

definition projection_mutation ::
  "(string \<Rightarrow> int option) \<Rightarrow> boundary_runtime_policy \<Rightarrow> boundary_projection_record
   \<Rightarrow> boundary_runtime_error + boundary_projection_mutation option" where
  "projection_mutation rfc3339 policy r =
     event_mutation rfc3339 policy (ee_metadata (bp_envelope r)) (ee_event (bp_envelope r))"

definition projection_mutations ::
  "(string \<Rightarrow> int option) \<Rightarrow> boundary_runtime_policy \<Rightarrow> boundary_projection_record list
   \<Rightarrow> boundary_runtime_error + boundary_projection_mutation list" where
  "projection_mutations rfc3339 policy records =
     and_then (try_map (projection_mutation rfc3339 policy) records) (\<lambda>ms.
     Inr (concat (map (\<lambda>m. case m of None \<Rightarrow> [] | Some mutation \<Rightarrow> [mutation]) ms)))"

definition project_once ::
  "(u64 \<Rightarrow> nat \<Rightarrow> boundary_runtime_error + boundary_projection_record list)
   \<Rightarrow> 's boundary_store_port \<Rightarrow> (string \<Rightarrow> int option) \<Rightarrow> boundary_runtime_policy \<Rightarrow> 's
   \<Rightarrow> (boundary_runtime_error + projection_outcome) \<times> 's" where
  "project_once source port rfc3339 policy s =
     (let limit = unat (br_projection_batch_size policy) in
      case and_then (bs_projection_checkpoint port s) (\<lambda>checkpoint.
           and_then (source checkpoint limit) (\<lambda>records.
           and_then (validate_projection_records records checkpoint limit) (\<lambda>_.
           and_then (projection_mutations rfc3339 policy records) (\<lambda>mutations.
           Inr (checkpoint, records, mutations))))) of
        Inl e \<Rightarrow> (Inl e, s)
      | Inr (checkpoint, records, mutations) \<Rightarrow>
          let committed = (if records = [] then checkpoint else bp_cursor (last records));
              outcome = \<lparr>po_processed = length records, po_checkpoint = committed\<rparr>
          in if committed = checkpoint then (Inr outcome, s)
             else (case bs_apply_projection port s checkpoint committed mutations of
                     (Inl e, s') \<Rightarrow> (Inl e, s')
                   | (Inr _, s') \<Rightarrow> (Inr outcome, s')))"

section \<open>Signals\<close>

definition signal_validate ::
  "boundary_signal \<Rightarrow> boundary_runtime_policy \<Rightarrow> boundary_runtime_error + unit" where
  "signal_validate signal policy =
     (if is_blank (bg_signal_id signal)
         \<or> unat (br_max_signal_id_bytes policy) < length (bg_signal_id signal)
      then Inl InvalidSignalId
      else if (case bg_reference signal of None \<Rightarrow> False
               | Some reference \<Rightarrow> unat (br_max_reference_bytes policy) < length reference)
      then Inl InvalidSignalReference
      else if bg_kind signal = SignalMessage
         \<and> (case bg_reference signal of None \<Rightarrow> True | Some reference \<Rightarrow> is_blank reference)
      then Inl InvalidSignalReference
      else if is_blank (bg_authorization_context_ref signal)
         \<or> unat (br_max_reference_bytes policy) < length (bg_authorization_context_ref signal)
      then Inl InvalidAuthorizationContextReference
      else Inr ())"

definition enqueue_signal ::
  "'s boundary_store_port \<Rightarrow> boundary_runtime_policy \<Rightarrow> 's \<Rightarrow> boundary_signal
   \<Rightarrow> (boundary_runtime_error + signal_enqueue_outcome) \<times> 's" where
  "enqueue_signal port policy s signal =
     (case signal_validate signal policy of
        Inl e \<Rightarrow> (Inl e, s)
      | Inr _ \<Rightarrow> bs_enqueue_signal port s signal)"

section \<open>Dispatch\<close>

definition new_identity :: "string \<Rightarrow> string \<Rightarrow> boundary_runtime_error + string" where
  "new_identity kind identity =
     map_err (\<lambda>_. InvalidDispatchIdentity) (identifier_new kind identity)"

definition dispatch_request ::
  "projected_boundary_subscription \<Rightarrow> string \<Rightarrow> boundary_dispatch_source \<Rightarrow> u64 \<Rightarrow> string option
   \<Rightarrow> boundary_runtime_error + boundary_dispatch_request" where
  "dispatch_request subscription identity source occurred_at authorization_context_ref =
     (case pb_key subscription of (tenant, inst, boundary) \<Rightarrow>
      and_then (new_identity ''CommandId'' identity) (\<lambda>command_id.
      and_then (new_identity ''IdempotencyKey'' identity) (\<lambda>idempotency_key.
      and_then (new_identity ''CorrelationId'' identity) (\<lambda>correlation_id.
      Inr \<lparr>bd_tenant_id = tenant, bd_instance_id = inst, bd_command_id = command_id,
           bd_idempotency_key = idempotency_key, bd_correlation_id = correlation_id,
           bd_command = TriggerBoundaryEvent boundary occurred_at, bd_source = source,
           bd_occurred_at_epoch_ms = occurred_at,
           bd_workflow_type = pb_workflow_type subscription,
           bd_workflow_version = pb_workflow_version subscription,
           bd_authorization_context_ref = authorization_context_ref\<rparr>))))"

definition timer_identity :: "claimed_timer \<Rightarrow> string" where
  "timer_identity claim =
     pb_armed_event_id (ct_subscription claim) @ '':timer:'' @ show_nat (unat (ct_generation claim))"

definition timer_dispatch_request ::
  "claimed_timer \<Rightarrow> u64 \<Rightarrow> boundary_runtime_error + boundary_dispatch_request" where
  "timer_dispatch_request claim occurred_at =
     dispatch_request (ct_subscription claim) (timer_identity claim) SourceTimer occurred_at None"

definition correlation_identity :: "boundary_signal \<Rightarrow> projected_boundary_subscription \<Rightarrow> string" where
  "correlation_identity signal subscription =
     bg_signal_id signal @ '':boundary:'' @ snd (snd (pb_key subscription))"

definition correlation_dispatch_request ::
  "boundary_signal \<Rightarrow> projected_boundary_subscription
   \<Rightarrow> boundary_runtime_error + boundary_dispatch_request" where
  "correlation_dispatch_request signal subscription =
     dispatch_request subscription (correlation_identity signal subscription)
       (case bg_kind signal of SignalMessage \<Rightarrow> SourceMessage | SignalError \<Rightarrow> SourceError)
       (bg_occurred_at_epoch_ms signal) (Some (bg_authorization_context_ref signal))"

definition timer_completion ::
  "claimed_timer \<Rightarrow> boundary_runtime_error + timer_dispatch_completion" where
  "timer_completion claim =
     and_then (ok_or (pb_timer_schedule (ct_subscription claim)) ClaimWithoutTimer) (\<lambda>schedule.
     if pb_cancel_activity (ct_subscription claim) then Inr \<lparr>tc_next_schedule = None\<rparr>
     else case ts_interval_ms schedule of
            None \<Rightarrow> Inr \<lparr>tc_next_schedule = None\<rparr>
          | Some interval \<Rightarrow>
              if ts_remaining_firings schedule = Some 1 then Inr \<lparr>tc_next_schedule = None\<rparr>
              else and_then (ok_or (checked_add (ts_due_at_epoch_ms schedule) interval) TimerOverflow)
                (\<lambda>due. Inr \<lparr>tc_next_schedule = Some \<lparr>ts_due_at_epoch_ms = due,
                  ts_interval_ms = Some interval,
                  ts_remaining_firings = map_option (\<lambda>n. n - 1) (ts_remaining_firings schedule)\<rparr>\<rparr>))"

definition count_failure :: "bool \<Rightarrow> dispatch_outcome \<Rightarrow> dispatch_outcome" where
  "count_failure dead_letter outcome =
     (if dead_letter then outcome\<lparr>do_dead_lettered := do_dead_lettered outcome + 1\<rparr>
      else outcome\<lparr>do_retried := do_retried outcome + 1\<rparr>)"

definition record_timer_failure ::
  "'s boundary_store_port \<Rightarrow> claimed_timer \<Rightarrow> u64 \<Rightarrow> boundary_runtime_policy \<Rightarrow> dispatch_outcome \<Rightarrow> 's
   \<Rightarrow> (boundary_runtime_error + dispatch_outcome) \<times> 's" where
  "record_timer_failure port claim now policy outcome s =
     (let dead_letter = br_max_dispatch_attempts policy \<le> ct_attempts claim in
      case checked_add now (br_retry_delay_ms policy) of
        None \<Rightarrow> (Inl ClockOverflow, s)
      | Some retry_at \<Rightarrow>
          (case bs_fail_timer port s claim retry_at dead_letter of
             (Inl e, s') \<Rightarrow> (Inl e, s')
           | (Inr _, s') \<Rightarrow> (Inr (count_failure dead_letter outcome), s')))"

definition record_correlation_failure ::
  "'s boundary_store_port \<Rightarrow> claimed_correlation \<Rightarrow> u64 \<Rightarrow> boundary_runtime_policy \<Rightarrow> dispatch_outcome
   \<Rightarrow> 's \<Rightarrow> (boundary_runtime_error + dispatch_outcome) \<times> 's" where
  "record_correlation_failure port claim now policy outcome s =
     (let dead_letter = br_max_dispatch_attempts policy \<le> cc_attempts claim in
      case checked_add now (br_retry_delay_ms policy) of
        None \<Rightarrow> (Inl ClockOverflow, s)
      | Some retry_at \<Rightarrow>
          (case bs_fail_correlation port s claim retry_at dead_letter of
             (Inl e, s') \<Rightarrow> (Inl e, s')
           | (Inr _, s') \<Rightarrow> (Inr (count_failure dead_letter outcome), s')))"

text \<open>One turn of the loop over the claimed timers.\<close>

definition dispatch_timer ::
  "'s boundary_store_port \<Rightarrow> 'd dispatcher \<Rightarrow> u64 \<Rightarrow> boundary_runtime_policy \<Rightarrow> claimed_timer
   \<Rightarrow> dispatch_outcome \<Rightarrow> 's \<times> 'd \<Rightarrow> (boundary_runtime_error + dispatch_outcome) \<times> 's \<times> 'd" where
  "dispatch_timer port dispatch now policy claim outcome = (\<lambda>(s, d).
     case timer_dispatch_request claim now of
       Inl e \<Rightarrow> (Inl e, s, d)
     | Inr request \<Rightarrow>
        (case dispatch d request of
           (Inr _, d') \<Rightarrow>
             (case timer_completion claim of
                Inl e \<Rightarrow> (Inl e, s, d')
              | Inr completion \<Rightarrow>
                  (case bs_complete_timer port s claim completion of
                     (Inl e, s') \<Rightarrow> (Inl e, s', d')
                   | (Inr _, s') \<Rightarrow>
                       (Inr (outcome\<lparr>do_dispatched := do_dispatched outcome + 1\<rparr>), s', d')))
         | (Inl _, d') \<Rightarrow>
             (case record_timer_failure port claim now policy outcome s of
                (r, s') \<Rightarrow> (r, s', d'))))"

fun dispatch_timers ::
  "'s boundary_store_port \<Rightarrow> 'd dispatcher \<Rightarrow> u64 \<Rightarrow> boundary_runtime_policy \<Rightarrow> claimed_timer list
   \<Rightarrow> dispatch_outcome \<Rightarrow> 's \<times> 'd \<Rightarrow> (boundary_runtime_error + dispatch_outcome) \<times> 's \<times> 'd" where
  "dispatch_timers port dispatch now policy [] outcome st = (Inr outcome, st)"
| "dispatch_timers port dispatch now policy (c # cs) outcome st =
     (case dispatch_timer port dispatch now policy c outcome st of
        (Inl e, st') \<Rightarrow> (Inl e, st')
      | (Inr outcome', st') \<Rightarrow> dispatch_timers port dispatch now policy cs outcome' st')"

definition dispatch_due_timers_once ::
  "'s boundary_store_port \<Rightarrow> 'd dispatcher \<Rightarrow> boundary_runtime_error + u64 \<Rightarrow> boundary_runtime_policy
   \<Rightarrow> 's \<times> 'd \<Rightarrow> (boundary_runtime_error + dispatch_outcome) \<times> 's \<times> 'd" where
  "dispatch_due_timers_once port dispatch clock policy = (\<lambda>(s, d).
     case and_then clock (\<lambda>now.
          and_then (ok_or (checked_add now (br_lease_duration_ms policy)) ClockOverflow) (\<lambda>lease_until.
          Inr (now, lease_until))) of
       Inl e \<Rightarrow> (Inl e, s, d)
     | Inr (now, lease_until) \<Rightarrow>
        (case bs_claim_due_timers port s now lease_until (br_worker_id policy)
                (unat (br_dispatch_batch_size policy)) of
           (Inl e, s') \<Rightarrow> (Inl e, s', d)
         | (Inr claims, s') \<Rightarrow>
             if unat (br_dispatch_batch_size policy) < length claims
             then (Inl AdapterBatchLimitExceeded, s', d)
             else dispatch_timers port dispatch now policy claims default_dispatch_outcome (s', d)))"

text \<open>A signal without a matching subscription, or whose dispatch fails, is retried.\<close>

definition dispatch_correlation ::
  "'s boundary_store_port \<Rightarrow> 'd dispatcher \<Rightarrow> u64 \<Rightarrow> boundary_runtime_policy \<Rightarrow> claimed_correlation
   \<Rightarrow> dispatch_outcome \<Rightarrow> 's \<times> 'd \<Rightarrow> (boundary_runtime_error + dispatch_outcome) \<times> 's \<times> 'd" where
  "dispatch_correlation port dispatch now policy claim outcome = (\<lambda>(s, d).
     case (case cc_subscription claim of
             None \<Rightarrow> Inr None
           | Some subscription \<Rightarrow>
               and_then (correlation_dispatch_request (cc_signal claim) subscription)
                 (\<lambda>request. Inr (Some request))) of
       Inl e \<Rightarrow> (Inl e, s, d)
     | Inr request \<Rightarrow>
        (case (case request of None \<Rightarrow> (False, d)
               | Some request \<Rightarrow>
                   (case dispatch d request of (Inr _, d') \<Rightarrow> (True, d') | (Inl _, d') \<Rightarrow> (False, d'))) of
           (dispatched, d') \<Rightarrow>
             if dispatched
             then (case bs_complete_correlation port s claim of
                     (Inl e, s') \<Rightarrow> (Inl e, s', d')
                   | (Inr _, s') \<Rightarrow>
                       (Inr (outcome\<lparr>do_dispatched := do_dispatched outcome + 1\<rparr>), s', d'))
             else (case record_correlation_failure port claim now policy outcome s of
                     (r, s') \<Rightarrow> (r, s', d'))))"

fun dispatch_correlations ::
  "'s boundary_store_port \<Rightarrow> 'd dispatcher \<Rightarrow> u64 \<Rightarrow> boundary_runtime_policy
   \<Rightarrow> claimed_correlation list \<Rightarrow> dispatch_outcome \<Rightarrow> 's \<times> 'd
   \<Rightarrow> (boundary_runtime_error + dispatch_outcome) \<times> 's \<times> 'd" where
  "dispatch_correlations port dispatch now policy [] outcome st = (Inr outcome, st)"
| "dispatch_correlations port dispatch now policy (c # cs) outcome st =
     (case dispatch_correlation port dispatch now policy c outcome st of
        (Inl e, st') \<Rightarrow> (Inl e, st')
      | (Inr outcome', st') \<Rightarrow> dispatch_correlations port dispatch now policy cs outcome' st')"

definition dispatch_correlations_once ::
  "'s boundary_store_port \<Rightarrow> 'd dispatcher \<Rightarrow> boundary_runtime_error + u64 \<Rightarrow> boundary_runtime_policy
   \<Rightarrow> 's \<times> 'd \<Rightarrow> (boundary_runtime_error + dispatch_outcome) \<times> 's \<times> 'd" where
  "dispatch_correlations_once port dispatch clock policy = (\<lambda>(s, d).
     case and_then clock (\<lambda>now.
          and_then (ok_or (checked_add now (br_lease_duration_ms policy)) ClockOverflow) (\<lambda>lease_until.
          Inr (now, lease_until))) of
       Inl e \<Rightarrow> (Inl e, s, d)
     | Inr (now, lease_until) \<Rightarrow>
        (case bs_claim_correlations port s now lease_until (br_worker_id policy)
                (unat (br_dispatch_batch_size policy))
                (unat (br_max_subscriptions_per_instance policy)) of
           (Inl e, s') \<Rightarrow> (Inl e, s', d)
         | (Inr claims, s') \<Rightarrow>
             if unat (br_dispatch_batch_size policy) < length claims
             then (Inl AdapterBatchLimitExceeded, s', d)
             else dispatch_correlations port dispatch now policy claims default_dispatch_outcome (s', d)))"

section \<open>Dispatch through the engine\<close>

text \<open>
  \<open>EngineBoundaryCommandDispatcher\<close>. The definition and credential providers are arguments,
  and so is the text that describes an engine error.
\<close>

definition boundary_command ::
  "boundary_dispatch_request \<Rightarrow> boundary_dispatch_credentials \<Rightarrow> authorized_command" where
  "boundary_command request credentials =
     \<lparr>ac_tenant_id = bd_tenant_id request, ac_instance_id = bd_instance_id request,
      ac_command_id = bd_command_id request, ac_idempotency_key = bd_idempotency_key request,
      ac_correlation_id = bd_correlation_id request,
      ac_evaluated_at_epoch_ms = bd_occurred_at_epoch_ms request,
      ac_actor_proof = cd_actor_proof credentials, ac_actor_proof_kind = SignedInternalContext,
      ac_workload_proof = cd_workload_proof credentials,
      ac_encryption_key_scope = cd_encryption_key_scope credentials,
      ac_variables = [], ac_command = bd_command request\<rparr>"

definition engine_dispatch ::
  "'s workflow_store_port \<Rightarrow> (authorization_request \<Rightarrow> authorization_error + authorized_principal)
   \<Rightarrow> (configuration_lookup \<Rightarrow> config_error + resolved_config_snapshot)
   \<Rightarrow> (tenant_id \<Rightarrow> workflow_type \<Rightarrow> workflow_version \<Rightarrow> boundary_runtime_error + workflow_definition)
   \<Rightarrow> (boundary_dispatch_request \<Rightarrow> boundary_runtime_error + boundary_dispatch_credentials)
   \<Rightarrow> (engine_error \<Rightarrow> string) \<Rightarrow> 's dispatcher" where
  "engine_dispatch port authorize resolve definitions credentials_for describe s request =
     (case and_then (definitions (bd_tenant_id request) (bd_workflow_type request)
             (bd_workflow_version request)) (\<lambda>d.
           if wd_tenant_id d \<noteq> bd_tenant_id request
              \<or> wd_workflow_type d \<noteq> bd_workflow_type request
              \<or> wd_workflow_version d \<noteq> bd_workflow_version request
           then Inl DefinitionScopeMismatch
           else and_then (credentials_for request) (\<lambda>credentials.
             if cd_actor_proof credentials = [] \<or> cd_workload_proof credentials = []
             then Inl InvalidDispatchCredentials
             else Inr (d, credentials))) of
        Inl e \<Rightarrow> (Inl e, s)
      | Inr (d, credentials) \<Rightarrow>
          (case handle port authorize resolve s d (boundary_command request credentials) of
             (Inl e, s') \<Rightarrow> (Inl (DispatchFailed (describe e)), s')
           | (Inr _, s') \<Rightarrow> (Inr (), s')))"

section \<open>Invariants of the worker rounds\<close>

text \<open>What every call on the boundary store and every dispatch keeps, a whole round keeps.\<close>

locale boundary_rounds =
  fixes port :: "'s boundary_store_port" and dispatch :: "'d dispatcher" and I :: "'s \<Rightarrow> 'd \<Rightarrow> bool"
  assumes claim_timers: "I s d \<Longrightarrow> I (snd (bs_claim_due_timers port s now lease_until worker limit)) d"
    and complete_timer: "I s d \<Longrightarrow> I (snd (bs_complete_timer port s timer completion)) d"
    and fail_timer: "I s d \<Longrightarrow> I (snd (bs_fail_timer port s timer retry_at dead_letter)) d"
    and claim_correlations:
      "I s d \<Longrightarrow> I (snd (bs_claim_correlations port s now lease_until worker limit scan)) d"
    and complete_correlation: "I s d \<Longrightarrow> I (snd (bs_complete_correlation port s signal)) d"
    and fail_correlation: "I s d \<Longrightarrow> I (snd (bs_fail_correlation port s signal retry_at dead_letter)) d"
    and dispatched: "I s d \<Longrightarrow> I s (snd (dispatch d request))"
begin

lemma record_timer_failure_keeps:
  assumes "I s d"
  shows "I (snd (record_timer_failure port timer now policy outcome s)) d"
proof (cases "checked_add now (br_retry_delay_ms policy)")
  case (Some retry_at)
  obtain r s' where call:
    "bs_fail_timer port s timer retry_at (br_max_dispatch_attempts policy \<le> ct_attempts timer) = (r, s')"
    by fastforce
  then have "I s' d" using fail_timer [OF assms] by (metis snd_conv)
  then show ?thesis using Some call by (cases r) (simp_all add: record_timer_failure_def)
qed (use assms in \<open>simp add: record_timer_failure_def\<close>)

lemma record_correlation_failure_keeps:
  assumes "I s d"
  shows "I (snd (record_correlation_failure port signal now policy outcome s)) d"
proof (cases "checked_add now (br_retry_delay_ms policy)")
  case (Some retry_at)
  obtain r s' where call:
    "bs_fail_correlation port s signal retry_at (br_max_dispatch_attempts policy \<le> cc_attempts signal) = (r, s')"
    by fastforce
  then have "I s' d" using fail_correlation [OF assms] by (metis snd_conv)
  then show ?thesis using Some call by (cases r) (simp_all add: record_correlation_failure_def)
qed (use assms in \<open>simp add: record_correlation_failure_def\<close>)

lemma dispatch_timer_keeps:
  assumes "I s d"
  shows "case snd (dispatch_timer port dispatch now policy timer outcome (s, d)) of (s', d') \<Rightarrow> I s' d'"
proof (cases "timer_dispatch_request timer now")
  case (Inr request)
  obtain r d' where dispatch: "dispatch d request = (r, d')" by fastforce
  then have after: "I s d'" using dispatched [OF assms, of request] by simp
  show ?thesis
  proof (cases r)
    case (Inl e)
    then show ?thesis
      using Inr dispatch record_timer_failure_keeps [OF after, of timer now policy outcome]
      by (simp add: dispatch_timer_def split_beta)
  next
    case accepted: (Inr u)
    show ?thesis
    proof (cases "timer_completion timer")
      case completion: (Inr completion)
      obtain q s' where call: "bs_complete_timer port s timer completion = (q, s')" by fastforce
      then have "I s' d'" using complete_timer [OF after] by (metis snd_conv)
      then show ?thesis
        using Inr dispatch accepted completion call by (cases q) (simp_all add: dispatch_timer_def)
    qed (use Inr dispatch accepted after in \<open>simp add: dispatch_timer_def\<close>)
  qed
qed (use assms in \<open>simp add: dispatch_timer_def\<close>)

lemma dispatch_timers_keeps:
  assumes "I (fst st) (snd st)"
  shows "case snd (dispatch_timers port dispatch now policy timers outcome st) of (s', d') \<Rightarrow> I s' d'"
  using assms
proof (induction timers arbitrary: outcome st)
  case (Cons timer timers)
  obtain r s d where step: "dispatch_timer port dispatch now policy timer outcome st = (r, s, d)"
    by (metis prod.exhaust)
  have "I s d"
    using dispatch_timer_keeps [of "fst st" "snd st" now policy timer outcome] Cons.prems step by simp
  then show ?case using Cons.IH [of "(s, d)"] step by (cases r) simp_all
qed (simp add: split_beta)

theorem dispatch_due_timers_keeps:
  assumes "I s d"
  shows "case snd (dispatch_due_timers_once port dispatch clock policy (s, d)) of (s', d') \<Rightarrow> I s' d'"
proof (cases "and_then clock (\<lambda>now.
    and_then (ok_or (checked_add now (br_lease_duration_ms policy)) ClockOverflow) (\<lambda>lease_until.
    Inr (now, lease_until)))")
  case (Inl e)
  then show ?thesis using assms by (simp add: dispatch_due_timers_once_def)
next
  case (Inr times)
  obtain now lease_until where times: "times = (now, lease_until)" by fastforce
  obtain r s' where call: "bs_claim_due_timers port s now lease_until (br_worker_id policy)
      (unat (br_dispatch_batch_size policy)) = (r, s')"
    by fastforce
  then have "I s' d" using claim_timers [OF assms] by (metis snd_conv)
  then show ?thesis
    using Inr times call dispatch_timers_keeps [of "(s', d)"] by (cases r) (simp_all add: dispatch_due_timers_once_def)
qed

lemma dispatch_correlation_keeps:
  assumes "I s d"
  shows "case snd (dispatch_correlation port dispatch now policy signal outcome (s, d)) of (s', d') \<Rightarrow> I s' d'"
proof (cases "cc_subscription signal")
  case None
  then show ?thesis
    using record_correlation_failure_keeps [OF assms, of signal now policy outcome]
    by (simp add: dispatch_correlation_def split_beta)
next
  case (Some subscription)
  show ?thesis
  proof (cases "correlation_dispatch_request (cc_signal signal) subscription")
    case (Inr request)
    obtain r d' where dispatch: "dispatch d request = (r, d')" by fastforce
    then have after: "I s d'" using dispatched [OF assms, of request] by simp
    obtain q s' where call: "bs_complete_correlation port s signal = (q, s')" by fastforce
    then have "I s' d'" using complete_correlation [OF after] by (metis snd_conv)
    then show ?thesis
      using Inr Some dispatch call record_correlation_failure_keeps [OF after, of signal now policy outcome]
      by (cases r; cases q) (simp_all add: dispatch_correlation_def split_beta)
  qed (use assms Some in \<open>simp add: dispatch_correlation_def\<close>)
qed

lemma dispatch_correlations_keeps:
  assumes "I (fst st) (snd st)"
  shows "case snd (dispatch_correlations port dispatch now policy signals outcome st) of (s', d') \<Rightarrow> I s' d'"
  using assms
proof (induction signals arbitrary: outcome st)
  case (Cons signal signals)
  obtain r s d where step: "dispatch_correlation port dispatch now policy signal outcome st = (r, s, d)"
    by (metis prod.exhaust)
  have "I s d"
    using dispatch_correlation_keeps [of "fst st" "snd st" now policy signal outcome] Cons.prems step by simp
  then show ?case using Cons.IH [of "(s, d)"] step by (cases r) simp_all
qed (simp add: split_beta)

theorem dispatch_correlations_once_keeps:
  assumes "I s d"
  shows "case snd (dispatch_correlations_once port dispatch clock policy (s, d)) of (s', d') \<Rightarrow> I s' d'"
proof (cases "and_then clock (\<lambda>now.
    and_then (ok_or (checked_add now (br_lease_duration_ms policy)) ClockOverflow) (\<lambda>lease_until.
    Inr (now, lease_until)))")
  case (Inl e)
  then show ?thesis using assms by (simp add: dispatch_correlations_once_def)
next
  case (Inr times)
  obtain now lease_until where times: "times = (now, lease_until)" by fastforce
  obtain r s' where call: "bs_claim_correlations port s now lease_until (br_worker_id policy)
      (unat (br_dispatch_batch_size policy))
      (unat (br_max_subscriptions_per_instance policy)) = (r, s')"
    by fastforce
  then have "I s' d" using claim_correlations [OF assms] by (metis snd_conv)
  then show ?thesis
    using Inr times call dispatch_correlations_keeps [of "(s', d)"] by (cases r) (simp_all add: dispatch_correlations_once_def)
qed

end

end
