(* ===== verification/Boundary_Store.thy ===== *)
theory Boundary_Store
  imports Boundary_Runtime "HOL-Library.Product_Lexorder"
begin

text \<open>
  The in-memory store of the boundary runtime (\<open>apps/rust/bpmp-engine/src/memory.rs\<close>):
  projected subscriptions, timers and signals with their leases. A method runs under the
  lock of the state, so it is one step.
\<close>

section \<open>State\<close>

record memory_timer_record =
  mt_subscription :: projected_boundary_subscription
  mt_generation :: u64
  mt_attempts :: u32
  mt_available_at_epoch_ms :: u64
  mt_lease_until_epoch_ms :: u64
  mt_lease_version :: u64
  mt_worker_id :: string
  mt_dead_lettered :: bool

record memory_signal_record =
  mg_signal :: boundary_signal
  mg_attempts :: u32
  mg_available_at_epoch_ms :: u64
  mg_lease_until_epoch_ms :: u64
  mg_lease_version :: u64
  mg_worker_id :: string
  mg_completed :: bool
  mg_dead_lettered :: bool

type_synonym signal_key = "tenant_id \<times> string"

record memory_boundary_state =
  mb_projection_checkpoint :: u64
  mb_subscriptions :: "(boundary_subscription_key, projected_boundary_subscription) btree_map"
  mb_timers :: "(boundary_subscription_key, memory_timer_record) btree_map"
  mb_signals :: "(signal_key, memory_signal_record) btree_map"

definition default_memory_boundary_state :: memory_boundary_state where
  "default_memory_boundary_state =
     \<lparr>mb_projection_checkpoint = 0, mb_subscriptions = [], mb_timers = [], mb_signals = []\<rparr>"

section \<open>Queries\<close>

definition boundary_subscription ::
  "memory_boundary_state \<Rightarrow> boundary_subscription_key \<Rightarrow> projected_boundary_subscription option" where
  "boundary_subscription s k = bt_get (mb_subscriptions s) k"

definition pending_timer_count :: "memory_boundary_state \<Rightarrow> nat" where
  "pending_timer_count s = length (filter (\<lambda>t. \<not> mt_dead_lettered t) (bt_values (mb_timers s)))"

definition dead_letter_count :: "memory_boundary_state \<Rightarrow> nat" where
  "dead_letter_count s =
     length (filter mt_dead_lettered (bt_values (mb_timers s)))
     + length (filter mg_dead_lettered (bt_values (mb_signals s)))"

section \<open>Projection\<close>

definition remove_memory_subscription ::
  "memory_boundary_state \<Rightarrow> boundary_subscription_key \<Rightarrow> memory_boundary_state" where
  "remove_memory_subscription s k =
     s\<lparr>mb_subscriptions := bt_remove k (mb_subscriptions s), mb_timers := bt_remove k (mb_timers s)\<rparr>"

definition new_timer :: "projected_boundary_subscription \<Rightarrow> timer_schedule_record \<Rightarrow> memory_timer_record"
  where
  "new_timer subscription schedule =
     \<lparr>mt_subscription = subscription, mt_generation = 0, mt_attempts = 0,
      mt_available_at_epoch_ms = ts_due_at_epoch_ms schedule, mt_lease_until_epoch_ms = 0,
      mt_lease_version = 0, mt_worker_id = [], mt_dead_lettered = False\<rparr>"

definition upsert_subscription ::
  "memory_boundary_state \<Rightarrow> projected_boundary_subscription \<Rightarrow> memory_boundary_state" where
  "upsert_subscription s subscription =
     (let k = pb_key subscription;
          s = s\<lparr>mb_subscriptions := bt_insert k subscription (mb_subscriptions s)\<rparr>
      in case pb_timer_schedule subscription of
           None \<Rightarrow> s
         | Some schedule \<Rightarrow>
             s\<lparr>mb_timers := bt_insert k (new_timer subscription schedule) (mb_timers s)\<rparr>)"

fun apply_memory_projection ::
  "memory_boundary_state \<Rightarrow> boundary_projection_mutation \<Rightarrow> memory_boundary_state" where
  "apply_memory_projection s (Upsert subscription) = upsert_subscription s subscription"
| "apply_memory_projection s (DisarmBoundary k) = remove_memory_subscription s k"
| "apply_memory_projection s (DisarmAttached tenant inst attached) =
     foldl remove_memory_subscription s
       (map fst (filter (\<lambda>(k, subscription). fst k = tenant \<and> fst (snd k) = inst
          \<and> pb_attached_node_id subscription = attached) (mb_subscriptions s)))"
| "apply_memory_projection s (RemoveInstance tenant inst) =
     foldl remove_memory_subscription s
       (filter (\<lambda>k. fst k = tenant \<and> fst (snd k) = inst) (bt_keys (mb_subscriptions s)))"

definition memory_apply_projection ::
  "memory_boundary_state \<Rightarrow> u64 \<Rightarrow> u64 \<Rightarrow> boundary_projection_mutation list
   \<Rightarrow> (boundary_runtime_error + unit) \<times> memory_boundary_state" where
  "memory_apply_projection s expected_checkpoint committed_checkpoint mutations =
     (if mb_projection_checkpoint s \<noteq> expected_checkpoint then (Inl ProjectionCheckpointConflict, s)
      else if committed_checkpoint \<le> expected_checkpoint then (Inl NonContiguousProjection, s)
      else (Inr (), (foldl apply_memory_projection s mutations)
              \<lparr>mb_projection_checkpoint := committed_checkpoint\<rparr>))"

section \<open>Timers\<close>

definition timer_due :: "u64 \<Rightarrow> memory_timer_record \<Rightarrow> bool" where
  "timer_due now t \<longleftrightarrow> \<not> mt_dead_lettered t \<and> mt_available_at_epoch_ms t \<le> now
     \<and> mt_lease_until_epoch_ms t \<le> now"

definition lease_timer :: "u64 \<Rightarrow> string \<Rightarrow> memory_timer_record \<Rightarrow> memory_timer_record" where
  "lease_timer lease_until worker t =
     t\<lparr>mt_attempts := saturating_add (mt_attempts t) 1,
       mt_lease_version := saturating_add (mt_lease_version t) 1,
       mt_lease_until_epoch_ms := lease_until, mt_worker_id := worker\<rparr>"

definition timer_claim :: "memory_timer_record \<Rightarrow> claimed_timer" where
  "timer_claim t =
     \<lparr>ct_subscription = mt_subscription t, ct_generation = mt_generation t,
      ct_attempts = mt_attempts t, ct_lease_version = mt_lease_version t\<rparr>"

fun claim_timers ::
  "u64 \<Rightarrow> string \<Rightarrow> boundary_subscription_key list \<Rightarrow> memory_boundary_state
   \<Rightarrow> (boundary_runtime_error + claimed_timer list) \<times> memory_boundary_state" where
  "claim_timers lease_until worker [] s = (Inr [], s)"
| "claim_timers lease_until worker (k # ks) s =
     (case bt_get (mb_timers s) k of
        None \<Rightarrow> (Inl (BoundaryStore ''timer disappeared''), s)
      | Some t \<Rightarrow>
          let t = lease_timer lease_until worker t;
              s = s\<lparr>mb_timers := bt_insert k t (mb_timers s)\<rparr>
          in case claim_timers lease_until worker ks s of
               (Inl e, s) \<Rightarrow> (Inl e, s)
             | (Inr claims, s) \<Rightarrow> (Inr (timer_claim t # claims), s))"

definition memory_claim_due_timers ::
  "memory_boundary_state \<Rightarrow> u64 \<Rightarrow> u64 \<Rightarrow> string \<Rightarrow> nat
   \<Rightarrow> (boundary_runtime_error + claimed_timer list) \<times> memory_boundary_state" where
  "memory_claim_due_timers s now lease_until worker limit =
     claim_timers lease_until worker
       (take limit (map fst (filter (\<lambda>(_, t). timer_due now t) (mb_timers s)))) s"

definition validate_timer_lease ::
  "memory_boundary_state \<Rightarrow> claimed_timer \<Rightarrow> boundary_runtime_error + unit" where
  "validate_timer_lease s claim =
     (case bt_get (mb_timers s) (pb_key (ct_subscription claim)) of
        None \<Rightarrow> Inl LeaseConflict
      | Some t \<Rightarrow>
          if mt_lease_version t = ct_lease_version claim \<and> mt_generation t = ct_generation claim
             \<and> mt_worker_id t \<noteq> []
          then Inr () else Inl LeaseConflict)"

definition set_schedule ::
  "boundary_subscription_key \<Rightarrow> timer_schedule_record option \<Rightarrow> memory_boundary_state
   \<Rightarrow> memory_boundary_state" where
  "set_schedule k schedule s =
     (case bt_get (mb_subscriptions s) k of
        None \<Rightarrow> s
      | Some subscription \<Rightarrow>
          s\<lparr>mb_subscriptions := bt_insert k (subscription\<lparr>pb_timer_schedule := schedule\<rparr>)
              (mb_subscriptions s)\<rparr>)"

definition reschedule :: "timer_schedule_record \<Rightarrow> memory_timer_record \<Rightarrow> memory_timer_record" where
  "reschedule schedule t =
     t\<lparr>mt_subscription := (mt_subscription t)\<lparr>pb_timer_schedule := Some schedule\<rparr>,
       mt_generation := saturating_add (mt_generation t) 1, mt_attempts := 0,
       mt_available_at_epoch_ms := ts_due_at_epoch_ms schedule, mt_lease_until_epoch_ms := 0,
       mt_worker_id := []\<rparr>"

definition memory_complete_timer ::
  "memory_boundary_state \<Rightarrow> claimed_timer \<Rightarrow> timer_dispatch_completion
   \<Rightarrow> (boundary_runtime_error + unit) \<times> memory_boundary_state" where
  "memory_complete_timer s claim completion =
     (let k = pb_key (ct_subscription claim) in
      case validate_timer_lease s claim of
        Inl e \<Rightarrow> (Inl e, s)
      | Inr _ \<Rightarrow>
         (case tc_next_schedule completion of
            Some schedule \<Rightarrow>
              (case bt_get (mb_timers s) k of
                 None \<Rightarrow> (Inl LeaseConflict, s)
               | Some t \<Rightarrow>
                   (Inr (), set_schedule k (Some schedule)
                      (s\<lparr>mb_timers := bt_insert k (reschedule schedule t) (mb_timers s)\<rparr>)))
          | None \<Rightarrow> (Inr (), set_schedule k None (s\<lparr>mb_timers := bt_remove k (mb_timers s)\<rparr>))))"

definition release_timer :: "u64 \<Rightarrow> bool \<Rightarrow> memory_timer_record \<Rightarrow> memory_timer_record" where
  "release_timer retry_at dead_letter t =
     t\<lparr>mt_available_at_epoch_ms := retry_at, mt_lease_until_epoch_ms := 0, mt_worker_id := [],
       mt_dead_lettered := dead_letter\<rparr>"

definition memory_fail_timer ::
  "memory_boundary_state \<Rightarrow> claimed_timer \<Rightarrow> u64 \<Rightarrow> bool
   \<Rightarrow> (boundary_runtime_error + unit) \<times> memory_boundary_state" where
  "memory_fail_timer s claim retry_at dead_letter =
     (let k = pb_key (ct_subscription claim) in
      case validate_timer_lease s claim of
        Inl e \<Rightarrow> (Inl e, s)
      | Inr _ \<Rightarrow>
         (case bt_get (mb_timers s) k of
            None \<Rightarrow> (Inl LeaseConflict, s)
          | Some t \<Rightarrow>
              (Inr (), s\<lparr>mb_timers := bt_insert k (release_timer retry_at dead_letter t) (mb_timers s)\<rparr>)))"

section \<open>Signals\<close>

definition signal_key_of :: "boundary_signal \<Rightarrow> signal_key" where
  "signal_key_of signal = (bg_tenant_id signal, bg_signal_id signal)"

definition new_signal :: "boundary_signal \<Rightarrow> memory_signal_record" where
  "new_signal signal =
     \<lparr>mg_signal = signal, mg_attempts = 0,
      mg_available_at_epoch_ms = bg_occurred_at_epoch_ms signal, mg_lease_until_epoch_ms = 0,
      mg_lease_version = 0, mg_worker_id = [], mg_completed = False, mg_dead_lettered = False\<rparr>"

definition memory_enqueue_signal ::
  "memory_boundary_state \<Rightarrow> boundary_signal
   \<Rightarrow> (boundary_runtime_error + signal_enqueue_outcome) \<times> memory_boundary_state" where
  "memory_enqueue_signal s signal =
     (case bt_get (mb_signals s) (signal_key_of signal) of
        Some existing \<Rightarrow>
          if mg_signal existing = signal then (Inr SignalDuplicate, s) else (Inl SignalConflict, s)
      | None \<Rightarrow>
          (Inr SignalEnqueued,
           s\<lparr>mb_signals := bt_insert (signal_key_of signal) (new_signal signal) (mb_signals s)\<rparr>))"

fun trigger_matches_signal :: "boundary_trigger \<Rightarrow> boundary_signal \<Rightarrow> bool" where
  "trigger_matches_signal (TriggerMessage message_ref) signal \<longleftrightarrow>
     bg_kind signal = SignalMessage \<and> bg_reference signal = Some message_ref"
| "trigger_matches_signal (TriggerError error_ref) signal \<longleftrightarrow>
     bg_kind signal = SignalError \<and> (error_ref = None \<or> error_ref = bg_reference signal)"
| "trigger_matches_signal (TriggerTimer _ _) signal \<longleftrightarrow> False"

record subscription_matches =
  sm_scanned :: nat
  sm_matches :: "projected_boundary_subscription list"

definition matching_subscriptions ::
  "(boundary_subscription_key, projected_boundary_subscription) btree_map \<Rightarrow> boundary_signal
   \<Rightarrow> subscription_matches" where
  "matching_subscriptions subscriptions signal =
     (let scoped = filter (\<lambda>subscription. fst (pb_key subscription) = bg_tenant_id signal
            \<and> fst (snd (pb_key subscription)) = bg_instance_id signal) (bt_values subscriptions)
      in \<lparr>sm_scanned = length scoped,
          sm_matches = filter (\<lambda>subscription. trigger_matches_signal (pb_trigger subscription) signal)
            scoped\<rparr>)"

definition signal_due :: "u64 \<Rightarrow> memory_signal_record \<Rightarrow> bool" where
  "signal_due now g \<longleftrightarrow> \<not> mg_completed g \<and> \<not> mg_dead_lettered g
     \<and> mg_available_at_epoch_ms g \<le> now \<and> mg_lease_until_epoch_ms g \<le> now"

definition lease_signal :: "u64 \<Rightarrow> string \<Rightarrow> memory_signal_record \<Rightarrow> memory_signal_record" where
  "lease_signal lease_until worker g =
     g\<lparr>mg_attempts := saturating_add (mg_attempts g) 1,
       mg_lease_version := saturating_add (mg_lease_version g) 1,
       mg_lease_until_epoch_ms := lease_until, mg_worker_id := worker\<rparr>"

fun claim_signals ::
  "u64 \<Rightarrow> string \<Rightarrow> nat \<Rightarrow> signal_key list \<Rightarrow> claimed_correlation list \<Rightarrow> memory_boundary_state
   \<Rightarrow> (boundary_runtime_error + claimed_correlation list) \<times> memory_boundary_state" where
  "claim_signals lease_until worker limit [] claims s = (Inr claims, s)"
| "claim_signals lease_until worker limit (k # ks) claims s =
     (case bt_get (mb_signals s) k of
        None \<Rightarrow> (Inl (BoundaryStore ''signal disappeared''), s)
      | Some g \<Rightarrow>
          let signal = mg_signal g;
              found = matching_subscriptions (mb_subscriptions s) signal
          in if limit < sm_scanned found then (Inl CorrelationScanLimitExceeded, s)
             else if 1 < length (sm_matches found) then (Inl AmbiguousCorrelation, s)
             else let g = lease_signal lease_until worker g;
                      claim = \<lparr>cc_signal = signal,
                               cc_subscription = (case sm_matches found of [] \<Rightarrow> None | m # _ \<Rightarrow> Some m),
                               cc_attempts = mg_attempts g, cc_lease_version = mg_lease_version g\<rparr>
                  in claim_signals lease_until worker limit ks (claims @ [claim])
                       (s\<lparr>mb_signals := bt_insert k g (mb_signals s)\<rparr>))"

definition memory_claim_correlations ::
  "memory_boundary_state \<Rightarrow> u64 \<Rightarrow> u64 \<Rightarrow> string \<Rightarrow> nat \<Rightarrow> nat
   \<Rightarrow> (boundary_runtime_error + claimed_correlation list) \<times> memory_boundary_state" where
  "memory_claim_correlations s now lease_until worker limit max_subscriptions_per_instance =
     claim_signals lease_until worker max_subscriptions_per_instance
       (take limit (map fst (filter (\<lambda>(_, g). signal_due now g) (mb_signals s)))) [] s"

definition validate_signal_lease ::
  "memory_boundary_state \<Rightarrow> claimed_correlation \<Rightarrow> boundary_runtime_error + unit" where
  "validate_signal_lease s claim =
     (case bt_get (mb_signals s) (signal_key_of (cc_signal claim)) of
        None \<Rightarrow> Inl LeaseConflict
      | Some g \<Rightarrow>
          if mg_lease_version g = cc_lease_version claim \<and> mg_worker_id g \<noteq> []
          then Inr () else Inl LeaseConflict)"

definition update_leased_signal ::
  "memory_boundary_state \<Rightarrow> claimed_correlation \<Rightarrow> (memory_signal_record \<Rightarrow> memory_signal_record)
   \<Rightarrow> (boundary_runtime_error + unit) \<times> memory_boundary_state" where
  "update_leased_signal s claim f =
     (case validate_signal_lease s claim of
        Inl e \<Rightarrow> (Inl e, s)
      | Inr _ \<Rightarrow>
         (case bt_get (mb_signals s) (signal_key_of (cc_signal claim)) of
            None \<Rightarrow> (Inl LeaseConflict, s)
          | Some g \<Rightarrow>
              (Inr (), s\<lparr>mb_signals := bt_insert (signal_key_of (cc_signal claim)) (f g) (mb_signals s)\<rparr>)))"

definition memory_complete_correlation ::
  "memory_boundary_state \<Rightarrow> claimed_correlation
   \<Rightarrow> (boundary_runtime_error + unit) \<times> memory_boundary_state" where
  "memory_complete_correlation s claim =
     update_leased_signal s claim
       (\<lambda>g. g\<lparr>mg_completed := True, mg_lease_until_epoch_ms := 0, mg_worker_id := []\<rparr>)"

definition memory_fail_correlation ::
  "memory_boundary_state \<Rightarrow> claimed_correlation \<Rightarrow> u64 \<Rightarrow> bool
   \<Rightarrow> (boundary_runtime_error + unit) \<times> memory_boundary_state" where
  "memory_fail_correlation s claim retry_at dead_letter =
     update_leased_signal s claim
       (\<lambda>g. g\<lparr>mg_available_at_epoch_ms := retry_at, mg_lease_until_epoch_ms := 0, mg_worker_id := [],
              mg_dead_lettered := dead_letter\<rparr>)"

definition memory_boundary_port :: "memory_boundary_state boundary_store_port" where
  "memory_boundary_port =
     \<lparr>bs_projection_checkpoint = (\<lambda>s. Inr (mb_projection_checkpoint s)),
      bs_apply_projection = memory_apply_projection,
      bs_claim_due_timers = memory_claim_due_timers,
      bs_complete_timer = memory_complete_timer,
      bs_fail_timer = memory_fail_timer,
      bs_enqueue_signal = memory_enqueue_signal,
      bs_claim_correlations = memory_claim_correlations,
      bs_complete_correlation = memory_complete_correlation,
      bs_fail_correlation = memory_fail_correlation\<rparr>"

end
