(* ===== verification/Boundary_Leases.thy ===== *)
theory Boundary_Leases
  imports Boundary_Store
begin

text \<open>
  The leases of the boundary store: the operations as a step relation, the invariant of
  its three maps, and fencing. The locale \<open>leased_record\<close> is what timers and signals share:
  a record with a lease version that every lease raises. A settled signal stays settled, and
  a claim that a later claim of the same timer replaced can neither complete nor fail it
  until the timer is armed again.
\<close>

section \<open>Steps of the store\<close>

inductive boundary_work :: "memory_boundary_state \<Rightarrow> memory_boundary_state \<Rightarrow> bool" where
  timers_claimed: "boundary_work b (snd (memory_claim_due_timers b now lease_until worker limit))"
| timer_completed: "boundary_work b (snd (memory_complete_timer b claim completion))"
| timer_failed: "boundary_work b (snd (memory_fail_timer b claim retry_at dead_letter))"
| signal_enqueued: "boundary_work b (snd (memory_enqueue_signal b signal))"
| signals_claimed: "boundary_work b (snd (memory_claim_correlations b now lease_until worker limit scan))"
| signal_completed: "boundary_work b (snd (memory_complete_correlation b correlation))"
| signal_failed: "boundary_work b (snd (memory_fail_correlation b correlation retry_at dead_letter))"

inductive boundary_step :: "memory_boundary_state \<Rightarrow> memory_boundary_state \<Rightarrow> bool" where
  worked: "boundary_work b b' \<Longrightarrow> boundary_step b b'"
| projected: "boundary_step b (snd (memory_apply_projection b expected committed mutations))"

inductive_cases boundary_stepE: "boundary_step b b'"

section \<open>Leases\<close>

locale leased_record =
  fixes version :: "'r \<Rightarrow> u64" and lease :: "u64 \<Rightarrow> string \<Rightarrow> 'r \<Rightarrow> 'r"
  assumes version_lease: "version (lease lease_until worker r) = saturating_add (version r) 1"
begin

text \<open>Some leases later.\<close>

inductive leased :: "'r \<Rightarrow> 'r \<Rightarrow> bool" where
  same: "leased r r"
| next_lease: "leased r r' \<Longrightarrow> leased r (lease lease_until worker r')"

lemma leased_refl_option: "rel_option leased x x"
  by (simp add: option.rel_refl leased.same)

lemma leased_trans: "leased s t \<Longrightarrow> leased r s \<Longrightarrow> leased r t"
  by (induction rule: leased.induct) (auto intro: leased.intros)

lemma version_le_lease: "version r \<le> version (lease lease_until worker r)"
  using unsigned_less [of "version r", where ?'a = nat]
  by (simp add: version_lease word_le_nat_alt unat_saturating_add)

lemma leased_version: "leased r r' \<Longrightarrow> version r \<le> version r'"
  by (induction rule: leased.induct) (auto intro: order_trans version_le_lease)

lemma lease_raises:
  assumes "v \<le> version r" and "v < - 1"
  shows "v < version (lease lease_until worker r)"
proof -
  have "unat v < 2 ^ 64 - 1" using assms(2) by (simp add: word_less_nat_alt unsigned_minus_1_eq_mask mask_eq_exp_minus_1)
  then show ?thesis
    using assms(1) by (simp add: version_lease word_less_nat_alt word_le_nat_alt unat_saturating_add)
qed

end

interpretation timer_lease: leased_record mt_lease_version lease_timer
  by unfold_locales (simp add: lease_timer_def)

interpretation signal_lease: leased_record mg_lease_version lease_signal
  by unfold_locales (simp add: lease_signal_def)

section \<open>Claims\<close>

lemma claim_timers_leased:
  "rel_option timer_lease.leased (bt_get (mb_timers b) k)
    (bt_get (mb_timers (snd (claim_timers lease_until worker ks b))) k)"
proof (induction ks arbitrary: b)
  case Nil
  show ?case by (simp add: timer_lease.leased_refl_option)
next
  case (Cons l ks)
  show ?case
  proof (cases "bt_get (mb_timers b) l")
    case None
    then show ?thesis by (simp add: timer_lease.leased_refl_option)
  next
    case (Some t)
    let ?b = "b\<lparr>mb_timers := bt_insert l (lease_timer lease_until worker t) (mb_timers b)\<rparr>"
    have after: "snd (claim_timers lease_until worker (l # ks) b) = snd (claim_timers lease_until worker ks ?b)"
      using Some by (simp add: Let_def split: prod.split sum.split)
    have "rel_option timer_lease.leased (bt_get (mb_timers b) k) (bt_get (mb_timers ?b) k)"
      using Some by (auto intro: timer_lease.leased_refl_option timer_lease.leased.intros)
    then show ?thesis
      unfolding after using Cons.IH [of ?b]
      by (auto elim!: option.rel_cases intro: timer_lease.leased_trans)
  qed
qed

text \<open>A claim carries the version its lease gave the timer.\<close>

lemma claim_timers_claims:
  assumes "claim_timers lease_until worker ks b = (Inr claims, b')" and "claim \<in> set claims"
  shows "\<exists>k t t' t''. bt_get (mb_timers b) k = Some t \<and> timer_lease.leased t t'
    \<and> claim = timer_claim (lease_timer lease_until worker t')
    \<and> bt_get (mb_timers b') k = Some t'' \<and> timer_lease.leased (lease_timer lease_until worker t') t''"
  using assms
proof (induction ks arbitrary: b claims)
  case (Cons l ks)
  obtain t where t: "bt_get (mb_timers b) l = Some t" using Cons.prems(1) by (cases "bt_get (mb_timers b) l") auto
  let ?t = "lease_timer lease_until worker t"
  let ?b = "b\<lparr>mb_timers := bt_insert l ?t (mb_timers b)\<rparr>"
  obtain rest where rest: "claim_timers lease_until worker ks ?b = (Inr rest, b')"
    and claims: "claims = timer_claim ?t # rest"
    using Cons.prems(1) t by (auto simp: Let_def split: prod.splits sum.splits)
  have kept: "rel_option timer_lease.leased (bt_get (mb_timers ?b) k) (bt_get (mb_timers b') k)" for k
    using claim_timers_leased [of ?b k lease_until worker ks] rest by simp
  show ?case
  proof (cases "claim = timer_claim ?t")
    case True
    moreover obtain t'' where "bt_get (mb_timers b') l = Some t''" "timer_lease.leased ?t t''"
      using kept [of l] by (auto simp: option_rel_Some1)
    ultimately show ?thesis using t timer_lease.leased.same by metis
  next
    case False
    then have "claim \<in> set rest" using Cons.prems(2) claims by simp
    from Cons.IH [OF rest this] obtain k u t' t'' where
      k: "bt_get (mb_timers ?b) k = Some u" "timer_lease.leased u t'"
        "claim = timer_claim (lease_timer lease_until worker t')"
        "bt_get (mb_timers b') k = Some t''" "timer_lease.leased (lease_timer lease_until worker t') t''"
      by blast
    have "\<exists>v. bt_get (mb_timers b) k = Some v \<and> timer_lease.leased v u"
      using k(1) t by (auto split: if_splits intro: timer_lease.leased.intros)
    then show ?thesis using k timer_lease.leased_trans by blast
  qed
qed simp

section \<open>Fencing of timers\<close>

text \<open>Until it is armed again, a timer that is still there is the claimed one, leased later.\<close>

definition succeeds :: "memory_timer_record option \<Rightarrow> memory_timer_record option \<Rightarrow> bool" where
  "succeeds x y \<longleftrightarrow> (\<forall>t'. y = Some t' \<longrightarrow> (\<exists>t. x = Some t \<and> mt_lease_version t \<le> mt_lease_version t'
     \<and> pb_key (mt_subscription t') = pb_key (mt_subscription t)))"

lemma succeeds_refl [simp]: "succeeds x x"
  by (simp add: succeeds_def)

lemma succeeds_trans: "succeeds x y \<Longrightarrow> succeeds y z \<Longrightarrow> succeeds x z"
  unfolding succeeds_def by (fastforce intro: order_trans)

lemma leased_subscription: "timer_lease.leased t t' \<Longrightarrow> mt_subscription t' = mt_subscription t"
  by (induction rule: timer_lease.leased.induct) (auto simp: lease_timer_def)

lemma leased_succeeds: "rel_option timer_lease.leased x y \<Longrightarrow> succeeds x y"
  by (auto simp: succeeds_def option_rel_Some2 leased_subscription timer_lease.leased_version)

lemma set_schedule_timers [simp]: "mb_timers (set_schedule k schedule b) = mb_timers b"
  by (simp add: set_schedule_def split: option.split)

lemma claim_signals_timers [simp]:
  "mb_timers (snd (claim_signals lease_until worker limit ks claims b)) = mb_timers b"
  by (induction ks arbitrary: b claims) (auto simp: Let_def split: option.splits)

lemma work_succeeds:
  assumes "boundary_work b b'"
  shows "succeeds (bt_get (mb_timers b) k) (bt_get (mb_timers b') k)"
  using assms
proof (induction rule: boundary_work.induct)
  case (timers_claimed b now lease_until worker limit)
  show ?case unfolding memory_claim_due_timers_def by (intro leased_succeeds claim_timers_leased)
next
  case (timer_completed b timer completion)
  show ?case
    by (auto simp: memory_complete_timer_def Let_def succeeds_def reschedule_def split: sum.split option.split)
next
  case (timer_failed b timer retry_at dead_letter)
  show ?case
    by (auto simp: memory_fail_timer_def Let_def succeeds_def release_timer_def split: sum.split option.split)
qed (auto simp: memory_enqueue_signal_def memory_claim_correlations_def memory_complete_correlation_def
    memory_fail_correlation_def update_leased_signal_def split: option.split sum.split)

definition timers_keyed :: "memory_boundary_state \<Rightarrow> bool" where
  "timers_keyed b \<longleftrightarrow> (\<forall>k t. bt_get (mb_timers b) k = Some t \<longrightarrow> pb_key (mt_subscription t) = k)"

lemma timers_keyedI:
  "(\<And>k t. bt_get (mb_timers b) k = Some t \<Longrightarrow> pb_key (mt_subscription t) = k) \<Longrightarrow> timers_keyed b"
  unfolding timers_keyed_def by blast

lemma timers_keyedD: "timers_keyed b \<Longrightarrow> bt_get (mb_timers b) k = Some t \<Longrightarrow> pb_key (mt_subscription t) = k"
  unfolding timers_keyed_def by blast

lemma timers_keyed_succeeds:
  assumes "timers_keyed b" and "\<And>k. succeeds (bt_get (mb_timers b) k) (bt_get (mb_timers b') k)"
  shows "timers_keyed b'"
proof (rule timers_keyedI)
  fix k t'
  assume "bt_get (mb_timers b') k = Some t'"
  then obtain t where "bt_get (mb_timers b) k = Some t" "pb_key (mt_subscription t') = pb_key (mt_subscription t)"
    using assms(2) [of k] by (auto simp: succeeds_def)
  then show "pb_key (mt_subscription t') = k" using timers_keyedD [OF assms(1)] by simp
qed

lemma timers_keyed_removed:
  "timers_keyed b \<Longrightarrow> timers_keyed (foldl remove_memory_subscription b ks)"
proof (induction ks arbitrary: b)
  case (Cons k ks)
  have "timers_keyed (remove_memory_subscription b k)"
    using timers_keyedD [OF Cons.prems]
    by (intro timers_keyedI) (simp add: remove_memory_subscription_def split: if_splits)
  then show ?case by (simp add: Cons.IH)
qed simp

lemma timers_keyed_upsert: "timers_keyed b \<Longrightarrow> timers_keyed (upsert_subscription b subscription)"
  by (intro timers_keyedI)
     (auto simp: upsert_subscription_def new_timer_def Let_def timers_keyedD split: option.splits if_splits)

lemma timers_keyed_mutation: "timers_keyed b \<Longrightarrow> timers_keyed (apply_memory_projection b m)"
  using timers_keyed_removed [of b "[k]" for k]
  by (cases m) (simp_all add: timers_keyed_removed timers_keyed_upsert)

lemma timers_keyed_mutations: "timers_keyed b \<Longrightarrow> timers_keyed (foldl apply_memory_projection b ms)"
  by (induction ms arbitrary: b) (simp_all add: timers_keyed_mutation)

lemma timers_keyed_step: "boundary_step b b' \<Longrightarrow> timers_keyed b \<Longrightarrow> timers_keyed b'"
proof (induction rule: boundary_step.induct)
  case (worked b b')
  then show ?case using timers_keyed_succeeds work_succeeds by blast
next
  case (projected b expected committed mutations)
  then have "timers_keyed (foldl apply_memory_projection b mutations)" by (rule timers_keyed_mutations)
  then show ?case using projected by (simp add: memory_apply_projection_def timers_keyed_def)
qed

lemma timers_keyed_reachable: "boundary_step\<^sup>*\<^sup>* default_memory_boundary_state b \<Longrightarrow> timers_keyed b"
proof (induction rule: rtranclp_induct)
  case base
  show ?case by (intro timers_keyedI) (simp add: default_memory_boundary_state_def)
qed (rule timers_keyed_step)

lemma timer_claimed:
  assumes "memory_claim_due_timers b now lease_until worker limit = (Inr claims, b')"
    and "claim \<in> set claims" and "timers_keyed b"
  shows "\<exists>t t' t''. bt_get (mb_timers b) (pb_key (ct_subscription claim)) = Some t
    \<and> mt_lease_version t \<le> mt_lease_version t'
    \<and> ct_lease_version claim = mt_lease_version (lease_timer lease_until worker t')
    \<and> bt_get (mb_timers b') (pb_key (ct_subscription claim)) = Some t''
    \<and> ct_lease_version claim \<le> mt_lease_version t''"
proof -
  from claim_timers_claims [OF assms(1) [unfolded memory_claim_due_timers_def] assms(2)]
  obtain k t t' t'' where k: "bt_get (mb_timers b) k = Some t" "timer_lease.leased t t'"
      "claim = timer_claim (lease_timer lease_until worker t')" "bt_get (mb_timers b') k = Some t''"
      "timer_lease.leased (lease_timer lease_until worker t') t''"
    by blast
  have "pb_key (mt_subscription t') = k"
    using timers_keyedD [OF assms(3) k(1)] leased_subscription [OF k(2)] by simp
  then have "pb_key (ct_subscription claim) = k"
    using k(3) by (simp add: timer_claim_def lease_timer_def)
  then show ?thesis
    using k timer_lease.leased_version by (auto simp: timer_claim_def)
qed

lemma outdated_timer_claim:
  assumes "\<And>t. bt_get (mb_timers b) (pb_key (ct_subscription claim)) = Some t \<Longrightarrow>
    ct_lease_version claim < mt_lease_version t"
  shows "memory_complete_timer b claim completion = (Inl LeaseConflict, b)"
    and "memory_fail_timer b claim retry_at dead_letter = (Inl LeaseConflict, b)"
proof -
  have "validate_timer_lease b claim = Inl LeaseConflict"
    using assms by (auto simp: validate_timer_lease_def split: option.split)
  then show "memory_complete_timer b claim completion = (Inl LeaseConflict, b)"
    and "memory_fail_timer b claim retry_at dead_letter = (Inl LeaseConflict, b)"
    by (simp_all add: memory_complete_timer_def memory_fail_timer_def)
qed

text \<open>Every store call except a projection that arms the timer \<open>k\<close>, again or for the first time.\<close>

fun arms_timer :: "boundary_subscription_key \<Rightarrow> boundary_projection_mutation \<Rightarrow> bool" where
  "arms_timer k (Upsert subscription) \<longleftrightarrow> pb_key subscription = k \<and> pb_timer_schedule subscription \<noteq> None"
| "arms_timer k _ \<longleftrightarrow> False"

inductive unarming_step :: "boundary_subscription_key \<Rightarrow> memory_boundary_state \<Rightarrow> memory_boundary_state \<Rightarrow> bool"
  for k where
  worked: "boundary_work b b' \<Longrightarrow> unarming_step k b b'"
| projected: "list_all (\<lambda>m. \<not> arms_timer k m) mutations \<Longrightarrow>
    unarming_step k b (snd (memory_apply_projection b expected committed mutations))"

lemma succeeds_None [simp]: "succeeds x None"
  by (simp add: succeeds_def)

lemma removed_succeeds:
  "succeeds (bt_get (mb_timers b) k) (bt_get (mb_timers (foldl remove_memory_subscription b ks)) k)"
proof (induction ks arbitrary: b)
  case (Cons l ks)
  have "succeeds (bt_get (mb_timers b) k) (bt_get (mb_timers (remove_memory_subscription b l)) k)"
    by (simp add: remove_memory_subscription_def)
  then show ?case using Cons.IH [of "remove_memory_subscription b l"] by (auto intro: succeeds_trans)
qed simp

lemma mutation_succeeds:
  "\<not> arms_timer k m \<Longrightarrow> succeeds (bt_get (mb_timers b) k) (bt_get (mb_timers (apply_memory_projection b m)) k)"
  using removed_succeeds [of b k "[l]" for l]
  by (cases m) (auto simp: removed_succeeds upsert_subscription_def Let_def split: option.split)

lemma mutations_succeed:
  "list_all (\<lambda>m. \<not> arms_timer k m) ms \<Longrightarrow>
    succeeds (bt_get (mb_timers b) k) (bt_get (mb_timers (foldl apply_memory_projection b ms)) k)"
  by (induction ms arbitrary: b) (auto intro: succeeds_trans mutation_succeeds)

lemma unarming_succeeds:
  "unarming_step k b b' \<Longrightarrow> succeeds (bt_get (mb_timers b) k) (bt_get (mb_timers b') k)"
proof (induction rule: unarming_step.induct)
  case (projected mutations b expected committed)
  then show ?case using mutations_succeed [of k mutations b] by (simp add: memory_apply_projection_def)
qed (rule work_succeeds)

lemma unarmings_succeed:
  "(unarming_step k)\<^sup>*\<^sup>* b b' \<Longrightarrow> succeeds (bt_get (mb_timers b) k) (bt_get (mb_timers b') k)"
  by (induction rule: rtranclp_induct) (auto intro: succeeds_trans unarming_succeeds)

lemma unarming_boundary_steps: "(unarming_step k)\<^sup>*\<^sup>* b b' \<Longrightarrow> boundary_step\<^sup>*\<^sup>* b b'"
proof (induction rule: rtranclp_induct)
  case (step b' c)
  have "boundary_step b' c"
    using step.hyps(2) by (cases rule: unarming_step.cases) (auto intro: boundary_step.intros)
  with step.IH show ?case by (rule rtranclp.rtrancl_into_rtrancl)
qed simp

text \<open>
  C35. Fencing of timers between two armings: when a worker's claim of a timer was replaced by a
  later claim of the same timer, the worker's late completion or failure is refused with a
  lease conflict and changes nothing. In between and since, any store calls may happen,
  projections for this and other instances included, as long as none arms this timer
  again (a re-armed timer starts its lease version over, and then an old claim can be
  accepted); and the lease version has not reached the largest 64-bit value.
\<close>

theorem replaced_timer_claim_refused:
  assumes "boundary_step\<^sup>*\<^sup>* default_memory_boundary_state b"
    and "memory_claim_due_timers b now lease_until worker limit = (Inr claims, b1)" and "claim \<in> set claims"
    and "(unarming_step (pb_key (ct_subscription claim)))\<^sup>*\<^sup>* b1 b2"
    and "memory_claim_due_timers b2 now' lease_until' worker' limit' = (Inr claims', b3)"
    and "claim' \<in> set claims'"
    and "pb_key (ct_subscription claim') = pb_key (ct_subscription claim)"
    and "(unarming_step (pb_key (ct_subscription claim)))\<^sup>*\<^sup>* b3 b4" and "ct_lease_version claim < - 1"
  shows "memory_complete_timer b4 claim completion = (Inl LeaseConflict, b4)
    \<and> memory_fail_timer b4 claim retry_at dead_letter = (Inl LeaseConflict, b4)"
proof -
  let ?k = "pb_key (ct_subscription claim)"
  have keyed: "timers_keyed b" using assms(1) by (rule timers_keyed_reachable)
  have "boundary_step b b1"
    using assms(2) boundary_work.timers_claimed boundary_step.worked by (metis snd_conv)
  then have "boundary_step\<^sup>*\<^sup>* default_memory_boundary_state b2"
    using assms(1) unarming_boundary_steps [OF assms(4)] by (metis rtranclp.rtrancl_into_rtrancl rtranclp_trans)
  then have keyed2: "timers_keyed b2" by (rule timers_keyed_reachable)
  obtain t1 where t1: "bt_get (mb_timers b1) ?k = Some t1" "ct_lease_version claim \<le> mt_lease_version t1"
    using timer_claimed [OF assms(2,3) keyed] by blast
  obtain t2 u t3 where t2: "bt_get (mb_timers b2) ?k = Some t2" "mt_lease_version t2 \<le> mt_lease_version u"
      "ct_lease_version claim' = mt_lease_version (lease_timer lease_until' worker' u)"
      "bt_get (mb_timers b3) ?k = Some t3" "ct_lease_version claim' \<le> mt_lease_version t3"
    using timer_claimed [OF assms(5,6) keyed2] assms(7) by metis
  have "mt_lease_version t1 \<le> mt_lease_version t2"
    using unarmings_succeed [OF assms(4)] t1 t2 by (auto simp: succeeds_def)
  then have "ct_lease_version claim < mt_lease_version t3"
    using timer_lease.lease_raises [OF _ assms(9), of u] t1 t2 by (metis order_trans less_le_trans)
  then have "ct_lease_version claim < mt_lease_version t4" if "bt_get (mb_timers b4) ?k = Some t4" for t4
    using unarmings_succeed [OF assms(8)] t2 that by (auto simp: succeeds_def)
  then show ?thesis by (simp add: outdated_timer_claim)
qed

section \<open>Settled signals\<close>

definition signals_keyed :: "memory_boundary_state \<Rightarrow> bool" where
  "signals_keyed b \<longleftrightarrow> (\<forall>k g. bt_get (mb_signals b) k = Some g \<longrightarrow> signal_key_of (mg_signal g) = k)"

lemma signals_keyedI:
  "(\<And>k g. bt_get (mb_signals b) k = Some g \<Longrightarrow> signal_key_of (mg_signal g) = k) \<Longrightarrow> signals_keyed b"
  unfolding signals_keyed_def by blast

lemma signals_keyedD:
  "signals_keyed b \<Longrightarrow> bt_get (mb_signals b) k = Some g \<Longrightarrow> signal_key_of (mg_signal g) = k"
  unfolding signals_keyed_def by blast

definition settled :: "memory_boundary_state \<Rightarrow> signal_key \<Rightarrow> bool" where
  "settled b k \<longleftrightarrow> (\<exists>g. bt_get (mb_signals b) k = Some g \<and> mg_completed g \<and> mg_worker_id g = [])"

lemma claim_timers_signals [simp]: "mb_signals (snd (claim_timers lease_until worker ks b)) = mb_signals b"
proof (induction ks arbitrary: b)
  case (Cons k ks)
  then show ?case by (cases "bt_get (mb_timers b) k") (simp_all add: Let_def split_beta split: sum.split)
qed simp

lemma set_schedule_signals [simp]: "mb_signals (set_schedule k schedule b) = mb_signals b"
  by (simp add: set_schedule_def split: option.split)

lemma removed_signals [simp]: "mb_signals (foldl remove_memory_subscription b ks) = mb_signals b"
  by (induction ks arbitrary: b) (simp_all add: remove_memory_subscription_def)

lemma projected_signals [simp]: "mb_signals (foldl apply_memory_projection b ms) = mb_signals b"
proof (induction ms arbitrary: b)
  case (Cons m ms)
  have "mb_signals (apply_memory_projection b m) = mb_signals b"
    by (cases m) (simp_all add: upsert_subscription_def remove_memory_subscription_def Let_def split: option.split)
  then show ?case using Cons.IH by simp
qed simp

lemma claim_signals_Cons:
  obtains (stopped) "snd (claim_signals lease_until worker limit (l # ks) claims b) = b"
  | (leased) h claims' where "bt_get (mb_signals b) l = Some h"
      "snd (claim_signals lease_until worker limit (l # ks) claims b) =
        snd (claim_signals lease_until worker limit ks claims'
          (b\<lparr>mb_signals := bt_insert l (lease_signal lease_until worker h) (mb_signals b)\<rparr>))"
proof (cases "bt_get (mb_signals b) l")
  case None
  then show thesis by (intro stopped) simp
next
  case (Some h)
  let ?found = "matching_subscriptions (mb_subscriptions b) (mg_signal h)"
  show thesis
  proof (cases "limit < sm_scanned ?found \<or> 1 < length (sm_matches ?found)")
    case True
    then show thesis using Some by (intro stopped) (auto simp: Let_def)
  next
    case False
    show thesis by (rule leased [OF Some]) (use Some False in \<open>simp add: Let_def\<close>)
  qed
qed

lemma claim_signals_step:
  "bt_get (mb_signals (snd (claim_signals lease_until worker limit ks claims b))) k = Some g' \<Longrightarrow>
    \<exists>g. bt_get (mb_signals b) k = Some g \<and> mg_signal g' = mg_signal g"
proof (induction ks arbitrary: b claims)
  case (Cons l ks)
  show ?case
  proof (cases rule: claim_signals_Cons [of lease_until worker limit l ks claims b])
    case stopped
    then show ?thesis using Cons.prems by simp
  next
    case (leased h claims')
    show ?thesis
      using Cons.IH [OF Cons.prems [unfolded leased(2)]] leased(1)
      by (auto simp: lease_signal_def split: if_splits)
  qed
qed simp

lemma claim_signals_other:
  "k \<notin> set ks \<Longrightarrow> bt_get (mb_signals (snd (claim_signals lease_until worker limit ks claims b))) k =
    bt_get (mb_signals b) k"
proof (induction ks arbitrary: b claims)
  case (Cons l ks)
  then show ?case by (cases rule: claim_signals_Cons [of lease_until worker limit l ks claims b]) simp_all
qed simp

text \<open>Every claimed correlation is of a record among the scanned keys.\<close>

lemma claim_signals_claims:
  assumes "claim_signals lease_until worker limit ks claims b = (Inr claims', b')" and "c \<in> set claims'"
  shows "c \<in> set claims \<or> (\<exists>k g. k \<in> set ks \<and> bt_get (mb_signals b) k = Some g \<and> cc_signal c = mg_signal g)"
  using assms
proof (induction ks arbitrary: b claims)
  case (Cons l ks)
  then obtain h where h: "bt_get (mb_signals b) l = Some h" by (cases "bt_get (mb_signals b) l") auto
  let ?found = "matching_subscriptions (mb_subscriptions b) (mg_signal h)"
  let ?g = "lease_signal lease_until worker h"
  let ?c = "\<lparr>cc_signal = mg_signal h,
    cc_subscription = (case sm_matches ?found of [] \<Rightarrow> None | m # _ \<Rightarrow> Some m),
    cc_attempts = mg_attempts ?g, cc_lease_version = mg_lease_version ?g\<rparr>"
  let ?b = "b\<lparr>mb_signals := bt_insert l ?g (mb_signals b)\<rparr>"
  have "claim_signals lease_until worker limit ks (claims @ [?c]) ?b = (Inr claims', b')"
    using Cons.prems(1) h unfolding claim_signals.simps Let_def by (auto split: if_splits)
  from Cons.IH [OF this Cons.prems(2)] show ?case
  proof (elim disjE exE conjE)
    assume "c \<in> set (claims @ [?c])"
    then have "c \<in> set claims \<or> cc_signal c = mg_signal h" by auto
    then show ?thesis using h by (meson list.set_intros(1))
  next
    fix k g
    assume g: "k \<in> set ks" "bt_get (mb_signals ?b) k = Some g" "cc_signal c = mg_signal g"
    show ?thesis
    proof (cases "k = l")
      case True
      then have "cc_signal c = mg_signal h" using g by (auto simp: lease_signal_def)
      then show ?thesis using h by (meson list.set_intros(1))
    next
      case False
      then have "bt_get (mb_signals b) k = Some g" using g by simp
      then show ?thesis using g by (meson list.set_intros(2))
    qed
  qed
qed simp

lemma settled_not_due:
  assumes "settled b k" and "bt_sorted (mb_signals b)"
  shows "k \<notin> set (take limit (map fst (filter (\<lambda>(_, g). signal_due now g) (mb_signals b))))"
proof
  assume "k \<in> set (take limit (map fst (filter (\<lambda>(_, g). signal_due now g) (mb_signals b))))"
  then obtain g where "(k, g) \<in> set (mb_signals b)" "signal_due now g"
    by (auto dest!: in_set_takeD)
  then show False using assms by (auto simp: settled_def signal_due_def bt_get_iff [symmetric])
qed

lemma update_leased_settled:
  assumes "settled b k"
  shows "signal_key_of (cc_signal c) = k \<Longrightarrow> update_leased_signal b c f = (Inl LeaseConflict, b)"
    and "settled (snd (update_leased_signal b c f)) k"
  using assms
  by (auto simp: settled_def update_leased_signal_def validate_signal_lease_def split: option.splits)

definition signals_ok :: "memory_boundary_state \<Rightarrow> bool" where
  "signals_ok b \<longleftrightarrow> bt_sorted (mb_signals b) \<and> signals_keyed b"

lemma claim_signals_sorted:
  "bt_sorted (mb_signals b) \<Longrightarrow>
    bt_sorted (mb_signals (snd (claim_signals lease_until worker limit ks claims b)))"
proof (induction ks arbitrary: b claims)
  case (Cons l ks)
  then show ?case
    by (cases rule: claim_signals_Cons [of lease_until worker limit l ks claims b])
       (simp_all add: bt_sorted_insert)
qed simp

lemma signals_ok_updated:
  assumes "signals_ok b" and "\<And>g. mg_signal (f g) = mg_signal g"
  shows "signals_ok (snd (update_leased_signal b c f))"
proof -
  have "signals_keyed (b\<lparr>mb_signals := bt_insert k (f g) (mb_signals b)\<rparr>)"
    if "bt_get (mb_signals b) k = Some g" for k g
    using assms that by (intro signals_keyedI) (auto simp: signals_ok_def signals_keyedD split: if_splits)
  then show ?thesis
    using assms(1)
    by (auto simp: update_leased_signal_def signals_ok_def bt_sorted_insert split: sum.split option.split)
qed

lemma signals_ok_claimed:
  assumes "signals_ok b"
  shows "signals_ok (snd (claim_signals lease_until worker limit ks claims b))"
proof -
  have "signals_keyed (snd (claim_signals lease_until worker limit ks claims b))"
    using assms claim_signals_step
    by (intro signals_keyedI) (metis signals_keyedD signals_ok_def)
  then show ?thesis using assms by (simp add: signals_ok_def claim_signals_sorted)
qed

lemma signals_ok_enqueued:
  assumes "signals_ok b"
  shows "signals_ok (snd (memory_enqueue_signal b signal))"
proof (cases "bt_get (mb_signals b) (signal_key_of signal)")
  case None
  have "signals_keyed (b\<lparr>mb_signals := bt_insert (signal_key_of signal) (new_signal signal) (mb_signals b)\<rparr>)"
    using assms by (intro signals_keyedI) (auto simp: signals_ok_def signals_keyedD new_signal_def split: if_splits)
  then show ?thesis using assms None by (simp add: memory_enqueue_signal_def signals_ok_def bt_sorted_insert)
qed (use assms in \<open>simp add: memory_enqueue_signal_def\<close>)

lemma signals_ok_same: "mb_signals b' = mb_signals b \<Longrightarrow> signals_ok b \<Longrightarrow> signals_ok b'"
  by (simp add: signals_ok_def signals_keyed_def)

text \<open>Only the four signal operations touch the signals.\<close>

lemma boundary_step_signals:
  assumes "boundary_step b b'"
  obtains (kept) "mb_signals b' = mb_signals b"
  | (enqueued) signal where "b' = snd (memory_enqueue_signal b signal)"
  | (claimed) now lease_until worker limit scan where
      "b' = snd (memory_claim_correlations b now lease_until worker limit scan)"
  | (updated) c f where "b' = snd (update_leased_signal b c f)" "\<And>g. mg_signal (f g) = mg_signal g"
  using assms
proof (cases rule: boundary_step.cases)
  case worked
  then show thesis
  proof (cases rule: boundary_work.cases)
    case (timers_claimed now lease_until worker limit)
    then show thesis by (intro kept) (simp add: memory_claim_due_timers_def)
  next
    case (timer_completed claim completion)
    then show thesis
      by (intro kept) (simp add: memory_complete_timer_def Let_def split: sum.split option.split)
  next
    case (timer_failed claim retry_at dead_letter)
    then show thesis by (intro kept) (simp add: memory_fail_timer_def Let_def split: sum.split option.split)
  next
    case (signal_completed c)
    then show thesis unfolding memory_complete_correlation_def by (elim updated) simp
  next
    case (signal_failed c retry_at dead_letter)
    then show thesis unfolding memory_fail_correlation_def by (elim updated) simp
  qed (rule enqueued claimed; assumption)+
next
  case (projected expected committed mutations)
  then show thesis by (intro kept) (simp add: memory_apply_projection_def)
qed

lemma signals_ok_step: "boundary_step b b' \<Longrightarrow> signals_ok b \<Longrightarrow> signals_ok b'"
  by (cases rule: boundary_step_signals)
     (auto simp: signals_ok_enqueued signals_ok_claimed memory_claim_correlations_def signals_ok_updated
       intro: signals_ok_same)

lemma signals_ok_reachable: "boundary_step\<^sup>*\<^sup>* default_memory_boundary_state b \<Longrightarrow> signals_ok b"
proof (induction rule: rtranclp_induct)
  case base
  show ?case by (simp add: signals_ok_def signals_keyed_def default_memory_boundary_state_def)
qed (rule signals_ok_step)

lemma settled_claimed:
  assumes "settled b k" and "signals_ok b"
  shows "settled (snd (memory_claim_correlations b now lease_until worker limit scan)) k"
  using settled_not_due [OF assms(1)] assms
  by (simp add: memory_claim_correlations_def settled_def signals_ok_def claim_signals_other)

lemma settled_step:
  assumes "boundary_step b b'" and "signals_ok b" and "settled b k"
  shows "settled b' k"
  using assms(1)
proof (cases rule: boundary_step_signals)
  case kept
  then show ?thesis using assms(3) by (simp add: settled_def)
next
  case (enqueued signal)
  then show ?thesis
    using assms(3) by (auto simp: settled_def memory_enqueue_signal_def split: option.split)
qed (use assms(2,3) in \<open>simp_all add: settled_claimed update_leased_settled\<close>)

lemma settled_steps:
  "boundary_step\<^sup>*\<^sup>* b b' \<Longrightarrow> signals_ok b \<Longrightarrow> settled b k \<Longrightarrow> signals_ok b' \<and> settled b' k"
proof (induction rule: rtranclp_induct)
  case (step b' b'')
  then show ?case using signals_ok_step [OF step.hyps(2)] settled_step [OF step.hyps(2)] by simp
qed simp

lemma completed_settled:
  assumes "memory_complete_correlation b c = (Inr u, b')"
  shows "settled b' (signal_key_of (cc_signal c))"
  using assms
  by (auto simp: memory_complete_correlation_def update_leased_signal_def settled_def
      split: sum.splits option.splits)

text \<open>
  C33. A signal is delivered at most once: from the moment its correlation is completed, in
  every state the store reaches by any sequence of its operations, no claim returns the
  signal, every completion and failure for it is refused and changes nothing, and sending it
  again is not accepted as new.
\<close>

theorem completed_signal_settled:
  assumes "boundary_step\<^sup>*\<^sup>* default_memory_boundary_state b"
    and "memory_complete_correlation b c = (Inr u, b1)"
    and "boundary_step\<^sup>*\<^sup>* b1 b2"
    and "signal_key_of (cc_signal other) = signal_key_of (cc_signal c)"
    and "signal_key_of signal = signal_key_of (cc_signal c)"
  shows "(case fst (memory_claim_correlations b2 now lease_until worker limit scan) of
        Inl e \<Rightarrow> True | Inr claims \<Rightarrow> other \<notin> set claims)
    \<and> memory_complete_correlation b2 other = (Inl LeaseConflict, b2)
    \<and> memory_fail_correlation b2 other retry_at dead_letter = (Inl LeaseConflict, b2)
    \<and> snd (memory_enqueue_signal b2 signal) = b2
    \<and> fst (memory_enqueue_signal b2 signal) \<noteq> Inr SignalEnqueued"
proof -
  let ?k = "signal_key_of (cc_signal c)"
  have "boundary_step b b1"
    using assms(2) boundary_step.worked [OF boundary_work.signal_completed] by (metis snd_conv)
  then have "signals_ok b1" using signals_ok_step signals_ok_reachable [OF assms(1)] by blast
  then have ok: "signals_ok b2" "settled b2 ?k"
    using settled_steps [OF assms(3)] completed_settled [OF assms(2)] by blast+
  have "other \<notin> set claims"
    if claimed: "memory_claim_correlations b2 now lease_until worker limit scan = (Inr claims, b3)" for claims b3
  proof
    assume "other \<in> set claims"
    from claim_signals_claims [OF claimed [unfolded memory_claim_correlations_def] this]
    obtain k g where g: "bt_get (mb_signals b2) k = Some g" "cc_signal other = mg_signal g"
        "k \<in> set (take limit (map fst (filter (\<lambda>(_, g). signal_due now g) (mb_signals b2))))"
      by (elim disjE exE conjE) (simp, rule that)
    then have "k = ?k" using ok(1) assms(4) signals_keyedD by (metis signals_ok_def)
    then show False using g(3) settled_not_due [OF ok(2)] ok(1) by (simp add: signals_ok_def)
  qed
  moreover have "snd (memory_enqueue_signal b2 signal) = b2
      \<and> fst (memory_enqueue_signal b2 signal) \<noteq> Inr SignalEnqueued"
    using ok(2) assms(5) by (auto simp: settled_def memory_enqueue_signal_def split: if_splits)
  moreover obtain claimed b3 where
    "memory_claim_correlations b2 now lease_until worker limit scan = (claimed, b3)" by fastforce
  ultimately show ?thesis
    using update_leased_settled(1) [OF ok(2) assms(4)]
    by (simp add: memory_complete_correlation_def memory_fail_correlation_def split: sum.split)
qed

end
