(* ===== verification/Boundary_Tracking.thy ===== *)
theory Boundary_Tracking
  imports Decide
begin

text \<open>
  What the boundary projection can rely on. The projection never sees the state of an
  instance, only its events; \<open>project_event\<close> is what one event means for the armed
  subscriptions of its instance. The theory shows that for every decision on a reachable
  instance the events project to exactly the subscriptions of the instance. The projection
  also disarms on completion events, which leave the subscriptions of the instance alone;
  this is harmless because the subscriptions of an activity exist only while it is active
  (\<open>owned\<close>), and a completed activity is disarmed in the same decision.
\<close>

section \<open>The meaning of an event for the subscriptions\<close>

type_synonym armed = "node_id \<rightharpoonup> active_boundary_subscription"

definition spare :: "node_id \<Rightarrow> armed \<Rightarrow> armed" where
  "spare n m = (\<lambda>b. case m b of None \<Rightarrow> None
     | Some sub \<Rightarrow> if ab_attached_node_id sub = n then None else Some sub)"

fun project_event :: "armed \<Rightarrow> domain_event \<Rightarrow> armed" where
  "project_event m (BoundaryEventArmed b attached target cancel trigger at) =
     m(b \<mapsto> \<lparr>ab_attached_node_id = attached, ab_target_node_id = target,
             ab_cancel_activity = cancel, ab_trigger = trigger, ab_armed_at_epoch_ms = at\<rparr>)"
| "project_event m (BoundaryEventsDisarmed attached ids _) =
     (case ids of [b] \<Rightarrow> m(b := None) | _ \<Rightarrow> spare attached m)"
| "project_event m (ServiceTaskCompleted n _ _) = spare n m"
| "project_event m (UserTaskCompleted n _ _ _) = spare n m"
| "project_event m (ScriptTaskCompleted n _) = spare n m"
| "project_event m (MultiInstanceCompleted n _ _ _) = spare n m"
| "project_event m (BoundaryEventTriggered _ attached _ cancel _ _ _) =
     (if cancel then spare attached m else m)"
| "project_event m (WorkflowCompleted _) = Map.empty"
| "project_event m (WorkflowTerminatedForCompliance _ _ _ _ _) = Map.empty"
| "project_event m _ = m"

definition armed_of :: "routing_state \<Rightarrow> armed" where
  "armed_of r = bt_get (rs_active_boundary_subscriptions r)"

text \<open>Every subscription is attached to an active activity or to a subprocess.\<close>

definition owner_active :: "workflow_definition \<Rightarrow> routing_state \<Rightarrow> node_id \<Rightarrow> bool" where
  "owner_active d r n \<longleftrightarrow>
     (bt_get (rs_active_tokens r) n \<noteq> None \<and> node_multi_instance d n = None)
     \<or> bt_get (rs_active_multi_instances r) n \<noteq> None
     \<or> (\<exists>start nodes next. bt_get (wd_nodes d) n = Some (SubProcess start nodes next))"

definition owned :: "workflow_definition \<Rightarrow> routing_state \<Rightarrow> bool" where
  "owned d r \<longleftrightarrow> (\<forall>b sub. armed_of r b = Some sub \<longrightarrow> owner_active d r (ab_attached_node_id sub))"

text \<open>An operation is tracked when its events project to the subscriptions it leaves.\<close>

definition tracked :: "workflow_definition \<Rightarrow> activation \<Rightarrow> activation \<Rightarrow> bool" where
  "tracked d a a' \<longleftrightarrow> owned d (act_routing a') \<and>
     (\<exists>es. act_events a' = act_events a @ es
        \<and> foldl project_event (armed_of (act_routing a)) es = armed_of (act_routing a'))"

lemma tracked_refl: "owned d (act_routing a) \<Longrightarrow> tracked d a a"
  by (simp add: tracked_def)

lemma tracked_trans: "tracked d a b \<Longrightarrow> tracked d b c \<Longrightarrow> tracked d a c"
  by (auto simp: tracked_def)

lemma tracked_owned: "tracked d a b \<Longrightarrow> owned d (act_routing b)"
  by (simp add: tracked_def)

lemma tracked_emit:
  "owned d r \<Longrightarrow> project_event (armed_of (act_routing a)) e = armed_of r \<Longrightarrow> tracked d a (emit a r e)"
  unfolding tracked_def by (auto simp: emit_def intro!: exI [of _ "[e]"])

text \<open>Growing the active nodes keeps ownership.\<close>

lemma owned_mono:
  assumes "owned d r" and "armed_of r' = armed_of r"
    and "\<And>n. owner_active d r n \<Longrightarrow> owner_active d r' n"
  shows "owned d r'"
  using assms by (simp add: owned_def)

lemma tracked_grow:
  assumes "owned d (act_routing a)" and "armed_of r = armed_of (act_routing a)"
    and "\<And>n. owner_active d (act_routing a) n \<Longrightarrow> owner_active d r n"
    and "\<And>m. project_event m e = m"
  shows "tracked d a (emit a r e)"
  using owned_mono [OF assms(1-3)] assms(2,4) by (intro tracked_emit) simp_all

section \<open>Arming and disarming\<close>

lemma bt_get_filter_sorted:
  "bt_sorted m \<Longrightarrow> (b, v) \<in> set m \<longleftrightarrow> bt_get m b = Some v"
  by (simp add: bt_get_iff)

lemma armed_of_disarmed:
  assumes "bt_sorted (rs_active_boundary_subscriptions r)"
  shows "armed_of (snd (disarm_boundaries r n)) = spare n (armed_of r)"
proof
  fix b
  have "b \<in> set (fst (disarm_boundaries r n)) \<longleftrightarrow>
      (\<exists>sub. armed_of r b = Some sub \<and> ab_attached_node_id sub = n)"
    using assms by (force simp: disarm_boundaries_def Let_def armed_of_def bt_get_iff)
  then show "armed_of (snd (disarm_boundaries r n)) b = spare n (armed_of r) b"
    by (auto simp: armed_of_def disarm_boundaries_def Let_def bt.lookup_del_list spare_def
        split: option.splits)
qed

lemma spare_idem [simp]: "spare n (spare n m) = spare n m"
  by (rule ext) (simp add: spare_def split: option.splits)

lemma spare_none: "(\<And>b sub. m b = Some sub \<Longrightarrow> ab_attached_node_id sub \<noteq> n) \<Longrightarrow> spare n m = m"
  by (rule ext) (simp add: spare_def split: option.splits)

lemma project_disarmed:
  assumes "bt_sorted (rs_active_boundary_subscriptions r)"
    and "m = armed_of r \<or> m = spare n (armed_of r)"
  shows "project_event m (BoundaryEventsDisarmed n (fst (disarm_boundaries r n)) at) =
    spare n (armed_of r)"
proof (cases "\<exists>b. fst (disarm_boundaries r n) = [b]")
  case True
  then obtain b where b: "fst (disarm_boundaries r n) = [b]" by blast
  have ids: "b' = b \<longleftrightarrow> (\<exists>sub. armed_of r b' = Some sub \<and> ab_attached_node_id sub = n)" for b'
  proof -
    have "b' \<in> set (fst (disarm_boundaries r n)) \<longleftrightarrow>
        (\<exists>sub. armed_of r b' = Some sub \<and> ab_attached_node_id sub = n)"
      using assms(1) by (force simp: disarm_boundaries_def Let_def armed_of_def bt_get_iff)
    then show ?thesis using b by simp
  qed
  have "m(b := None) = spare n (armed_of r)"
  proof
    fix b'
    show "(m(b := None)) b' = spare n (armed_of r) b'"
      using assms(2) ids [of b'] by (auto simp: spare_def split: option.splits)
  qed
  then show ?thesis by (simp add: b)
next
  case False
  then have "project_event m (BoundaryEventsDisarmed n (fst (disarm_boundaries r n)) at) = spare n m"
    by (auto split: list.splits)
  then show ?thesis using assms(2) by auto
qed

lemma armed_none_attached:
  assumes "bt_sorted (rs_active_boundary_subscriptions r)" and "fst (disarm_boundaries r n) = []"
  shows "spare n (armed_of r) = armed_of r"
  using armed_of_disarmed [OF assms(1), of n] assms(2)
  by (simp add: disarm_boundaries_def Let_def armed_of_def)

text \<open>
  The common pattern of a completion: an event that ends node \<open>n\<close>, then the disarming of
  everything attached to \<open>n\<close>.
\<close>

lemma complete_and_disarm_tracked:
  assumes own: "owned d (act_routing a)" and wf: "routing_wf r"
    and same: "armed_of r = armed_of (act_routing a)"
    and others: "\<And>m. m \<noteq> n \<Longrightarrow> owner_active d (act_routing a) m \<Longrightarrow> owner_active d r m"
    and event: "\<And>m. project_event m e = m \<or> project_event m e = spare n m"
  shows "tracked d a (disarm_boundary_events n at (emit a r e))"
proof -
  have sorted: "bt_sorted (rs_active_boundary_subscriptions r)" using wf by (simp add: routing_wf_defs)
  let ?r = "snd (disarm_boundaries r n)" and ?m = "project_event (armed_of (act_routing a)) e"
  have m: "?m = armed_of r \<or> ?m = spare n (armed_of r)" using event same by metis
  have armed: "armed_of ?r = spare n (armed_of r)" by (rule armed_of_disarmed [OF sorted])
  have active: "owner_active d ?r x \<longleftrightarrow> owner_active d r x" for x
    by (simp add: owner_active_def disarm_boundaries_def Let_def)
  have "owned d ?r"
    using own others unfolding owned_def active armed same
    by (auto simp: spare_def split: option.splits if_splits)
  moreover have "act_routing (disarm_boundary_events n at (emit a r e)) = ?r"
    by (simp add: disarm_boundary_events_def split: prod.splits)
  moreover have "\<exists>es. act_events (disarm_boundary_events n at (emit a r e)) = act_events a @ es
      \<and> foldl project_event (armed_of (act_routing a)) es = armed_of ?r"
  proof (cases "fst (disarm_boundaries r n) = []")
    case True
    then show ?thesis
      using m armed armed_none_attached [OF sorted True]
      by (intro exI [of _ "[e]"]) (auto simp: disarm_boundary_events_def split: prod.splits)
  next
    case False
    then show ?thesis
      using project_disarmed [OF sorted m] armed
      by (intro exI [of _ "[e, BoundaryEventsDisarmed n (fst (disarm_boundaries r n)) at]"])
         (auto simp: disarm_boundary_events_def split: prod.splits)
  qed
  ultimately show ?thesis by (simp add: tracked_def)
qed

lemma arm_boundary_events_tracked:
  assumes "arm_boundary_events d n at a = Inr a'" and "owned d (act_routing a)"
    and active: "owner_active d (act_routing a) n"
  shows "tracked d a a'"
proof -
  have "tracked d a a' \<and> owner_active d (act_routing a') n"
    using assms(1) unfolding arm_boundary_events_def
  proof (rule try_fold_invariant [where P = "\<lambda>b. tracked d a b \<and> owner_active d (act_routing b) n"])
    show "tracked d a a \<and> owner_active d (act_routing a) n" using assms by (simp add: tracked_refl)
  next
    fix b x b'
    assume inv: "tracked d a b \<and> owner_active d (act_routing b) n"
      and step: "and_then (arm_boundary (act_routing b) (be_id x) (subscription_of n at x)) (\<lambda>r.
       Inr (emit b r (BoundaryEventArmed (be_id x) n (be_target x) (be_cancel_activity x)
              (be_trigger x) at))) = Inr b'"
    then obtain r where r: "r = (act_routing b)\<lparr>rs_active_boundary_subscriptions :=
        bt_insert (be_id x) (subscription_of n at x) (rs_active_boundary_subscriptions (act_routing b))\<rparr>"
      and b': "b' = emit b r (BoundaryEventArmed (be_id x) n (be_target x) (be_cancel_activity x)
              (be_trigger x) at)"
      by (auto simp: and_then_Inr arm_boundary_def split: if_splits)
    have active': "owner_active d r m \<longleftrightarrow> owner_active d (act_routing b) m" for m
      by (simp add: owner_active_def r)
    have armed: "armed_of r = (armed_of (act_routing b))(be_id x \<mapsto> subscription_of n at x)"
      by (rule ext) (simp add: armed_of_def r)
    have "owned d r"
      using inv tracked_owned unfolding owned_def active' armed
      by (fastforce simp: subscription_of_def owned_def split: if_splits)
    then have "tracked d b b'"
      unfolding b' by (rule tracked_emit) (simp add: armed subscription_of_def)
    then show "tracked d a b' \<and> owner_active d (act_routing b') n"
      using inv tracked_trans active' by (auto simp: b')
  qed
  then show ?thesis ..
qed

lemma tracked_then_arm:
  assumes "tracked d a b" and "owner_active d (act_routing b) n"
    and "arm_boundary_events d n at b = Inr a'"
  shows "tracked d a a'"
  using assms(1) arm_boundary_events_tracked [OF assms(3) tracked_owned [OF assms(1)] assms(2)]
  by (rule tracked_trans)

section \<open>The operations of a decision\<close>

lemma owner_active_simps:
  "owner_active d (r\<lparr>rs_pending_joins := j\<rparr>) n \<longleftrightarrow> owner_active d r n"
  "owner_active d (r\<lparr>rs_active_boundary_subscriptions := b\<rparr>) n \<longleftrightarrow> owner_active d r n"
  "owner_active d (r\<lparr>rs_scope_invocation_counts := c\<rparr>) n \<longleftrightarrow> owner_active d r n"
  "owner_active d (r\<lparr>rs_active_scopes := s\<rparr>) n \<longleftrightarrow> owner_active d r n"
  by (simp_all add: owner_active_def)

lemma owner_active_cong:
  "bt_get (rs_active_tokens r) n = bt_get (rs_active_tokens r') n \<Longrightarrow>
    bt_get (rs_active_multi_instances r) n = bt_get (rs_active_multi_instances r') n \<Longrightarrow>
    owner_active d r n \<longleftrightarrow> owner_active d r' n"
  by (simp add: owner_active_def)

lemma armed_of_simps:
  "armed_of (r\<lparr>rs_pending_joins := j\<rparr>) = armed_of r"
  "armed_of (r\<lparr>rs_active_tokens := t\<rparr>) = armed_of r"
  "armed_of (r\<lparr>rs_active_multi_instances := i\<rparr>) = armed_of r"
  "armed_of (r\<lparr>rs_active_scopes := s\<rparr>) = armed_of r"
  "armed_of (r\<lparr>rs_scope_invocation_counts := c\<rparr>) = armed_of r"
  by (simp_all add: armed_of_def)

lemma activate_iteration_tracked:
  assumes "activate_iteration n at a = Inr a'" and "owned d (act_routing a)"
  shows "tracked d a a'"
    and "bt_get (rs_active_multi_instances (act_routing a')) n \<noteq> None"
proof -
  from assms(1) obtain active active' i task item where
    a': "a' = emit a ((act_routing a)\<lparr>rs_active_multi_instances :=
          bt_insert n active' (rs_active_multi_instances (act_routing a))\<rparr>)
        (MultiInstanceIterationActivated n task i item at)"
    by (auto simp: activate_iteration_def activate_next_multi_instance_def and_then_Inr ok_or_Inr
        Let_def split: if_splits)
  show "tracked d a a'"
    unfolding a' by (rule tracked_grow [OF assms(2)]) (auto simp: armed_of_simps owner_active_def)
  show "bt_get (rs_active_multi_instances (act_routing a')) n \<noteq> None"
    by (simp add: a')
qed

lemma owned_unattached:
  assumes "owned d r" and "\<not> owner_active d r n"
  shows "spare n (armed_of r) = armed_of r"
  using assms by (intro spare_none) (auto simp: owned_def)

lemma start_multi_instance_tracked:
  assumes start: "start_multi_instance n task spec cfg at a = Inr (completed, a')"
    and own: "owned d (act_routing a)" and mi: "node_multi_instance d n \<noteq> None"
    and node: "\<And>start nodes next. bt_get (wd_nodes d) n \<noteq> Some (SubProcess start nodes next)"
  shows "tracked d a a'"
    and "\<not> completed \<Longrightarrow> bt_get (rs_active_multi_instances (act_routing a')) n \<noteq> None"
proof -
  from start obtain instances items p r a1 active where
    r: "routing_start_multi_instance (act_routing a) n active = Inr r"
    and a1: "a1 = emit a r (MultiInstanceStarted n task (mi_mode spec) instances p
                         (mi_item_variable spec) items at)"
    and fin: "completed \<Longrightarrow>
         a' = emit a1 (finish_multi_instance r n) (MultiInstanceCompleted n False [] at)"
    and run: "\<not> completed \<Longrightarrow>
         try_fold (\<lambda>a _. activate_iteration n at a) a1 [0..<unat p] = Inr a'"
    by (rule start_multi_instance_Inr) blast
  from r have absent: "bt_get (rs_active_multi_instances (act_routing a)) n = None"
    and r': "r = (act_routing a)\<lparr>rs_active_multi_instances :=
        bt_insert n active (rs_active_multi_instances (act_routing a))\<rparr>"
    by (auto simp: routing_start_multi_instance_def bt_contains_key_def split: if_splits)
  have first: "tracked d a a1"
    unfolding a1 r' by (rule tracked_grow [OF own]) (auto simp: armed_of_simps owner_active_def)
  have "tracked d a a' \<and> (\<not> completed \<longrightarrow> bt_get (rs_active_multi_instances (act_routing a')) n \<noteq> None)"
  proof (cases completed)
    case True
    have idle: "\<not> owner_active d (act_routing a) n"
      using absent mi node by (auto simp: owner_active_def)
    let ?r = "finish_multi_instance r n"
    have armed: "armed_of ?r = armed_of (act_routing a)" "armed_of r = armed_of (act_routing a)"
      by (simp_all add: r' finish_multi_instance_def armed_of_simps)
    have "owner_active d ?r x" if "owner_active d (act_routing a) x" for x
      using that idle owner_active_cong [of "act_routing a" x ?r]
      by (cases "x = n") (auto simp: r' finish_multi_instance_def)
    then have "owned d ?r" by (rule owned_mono [OF own armed(1)])
    then have "tracked d a1 a'"
      unfolding fin [OF True] using owned_unattached [OF own idle]
      by (intro tracked_emit) (simp_all add: a1 armed)
    then show ?thesis using True first by (blast intro: tracked_trans)
  next
    case False
    have "bt_get (rs_active_multi_instances (act_routing a1)) n \<noteq> None" by (simp add: a1 r')
    then have "tracked d a a' \<and> bt_get (rs_active_multi_instances (act_routing a')) n \<noteq> None"
      using run [OF False] first
      by - (rule try_fold_invariant [where P = "\<lambda>b. tracked d a b
          \<and> bt_get (rs_active_multi_instances (act_routing b)) n \<noteq> None"],
        blast+, metis activate_iteration_tracked tracked_owned tracked_trans)
    then show ?thesis by blast
  qed
  then show "tracked d a a'"
    and "\<not> completed \<Longrightarrow> bt_get (rs_active_multi_instances (act_routing a')) n \<noteq> None"
    by blast+
qed

lemma activate_activity_tracked:
  assumes step: "activate_activity d cfg at n scope task next activated a = Inr (pushed, a')"
    and own: "owned d (act_routing a)" and quiet: "\<And>m. project_event m activated = m"
    and node: "\<And>start nodes next. bt_get (wd_nodes d) n \<noteq> Some (SubProcess start nodes next)"
  shows "tracked d a a'"
proof (cases "node_multi_instance d n")
  case None
  from step None obtain r where r: "activate_task (act_routing a) n = Inr r"
    and a': "arm_boundary_events d n at (emit a r activated) = Inr a'"
    by (auto simp: activate_activity_def and_then_Inr)
  from r obtain k where r': "r = (act_routing a)\<lparr>rs_active_tokens :=
      bt_insert n k (rs_active_tokens (act_routing a))\<rparr>"
    by (auto simp: activate_task_def and_then_Inr)
  have "tracked d a (emit a r activated)"
    unfolding r' by (rule tracked_grow [OF own _ _ quiet]) (auto simp: armed_of_simps owner_active_def)
  moreover have "owner_active d r n" using None by (simp add: owner_active_def r')
  ultimately show ?thesis using a' by (elim tracked_then_arm) simp_all
next
  case (Some spec)
  from step Some obtain completed b where
    b: "start_multi_instance n task spec cfg at a = Inr (completed, b)"
    and cont: "if completed then a' = b else arm_boundary_events d n at b = Inr a'"
    by (auto simp: activate_activity_def and_then_Inr split: if_splits)
  have mi: "node_multi_instance d n \<noteq> None" using Some by simp
  have adv: "tracked d a b" by (rule start_multi_instance_tracked(1) [OF b own mi node])
  show ?thesis
  proof (cases completed)
    case True
    then show ?thesis using cont adv by simp
  next
    case False
    then have "owner_active d (act_routing b) n"
      using start_multi_instance_tracked(2) [OF b own mi node] by (simp add: owner_active_def)
    then show ?thesis using False cont by (auto intro: tracked_then_arm [OF adv])
  qed
qed

lemma activate_end_tracked:
  assumes step: "activate_end d at n scope a = Inr (pushed, a')"
    and own: "owned d (act_routing a)" and wf: "routing_wf (act_routing a)"
    and idle: "\<not> has_outstanding_work (act_routing a) \<Longrightarrow> armed_of (act_routing a) = Map.empty"
  shows "tracked d a a'"
proof (cases "owner_scope_id d n")
  case None
  show ?thesis
  proof (cases "has_outstanding_work (act_routing a)")
    case True
    then show ?thesis
      using step None own by (auto simp: activate_end_def intro!: tracked_emit)
  next
    case False
    then show ?thesis
      using step None own idle by (auto simp: activate_end_def intro!: tracked_emit)
  qed
next
  case (Some owner)
  from step Some obtain sid completed r where
    r: "complete_scope (act_routing a) sid owner = Inr (completed, r)"
    and a': "a' = disarm_boundary_events owner at (emit a r (ScopeCompleted sid owner n at))"
    by (auto simp: activate_end_def and_then_Inr ok_or_Inr Let_def)
  from r have r': "r = (act_routing a)\<lparr>rs_active_scopes := bt_remove sid (rs_active_scopes (act_routing a))\<rparr>"
    by (auto simp: complete_scope_def and_then_Inr ok_or_Inr split: if_splits)
  show ?thesis
    unfolding a' by (rule complete_and_disarm_tracked [OF own complete_scope_wf [OF r wf]])
      (simp_all add: r' armed_of_simps owner_active_simps)
qed

lemma activate_sub_process_tracked:
  assumes step: "activate_sub_process d at n scope start a = Inr (pushed, a')"
    and own: "owned d (act_routing a)"
    and node: "bt_get (wd_nodes d) n = Some (SubProcess start nodes nxt)"
  shows "tracked d a a'"
proof -
  from step obtain sid invocation r where
    r: "enter_scope (act_routing a) n start scope = Inr (sid, invocation, r)"
    and a': "arm_boundary_events d n at (emit a r (ScopeEntered sid n start scope invocation at)) = Inr a'"
    by (auto simp: activate_sub_process_def and_then_Inr)
  from r obtain scopes counts where
    r': "r = (act_routing a)\<lparr>rs_scope_invocation_counts := counts, rs_active_scopes := scopes\<rparr>"
    by (auto simp: enter_scope_def and_then_Inr ok_or_Inr Let_def split: if_splits)
  have "tracked d a (emit a r (ScopeEntered sid n start scope invocation at))"
    by (rule tracked_grow [OF own]) (simp_all add: r' armed_of_simps owner_active_simps)
  moreover have "owner_active d r n" using node by (simp add: owner_active_def)
  ultimately show ?thesis using a' by (elim tracked_then_arm) simp_all
qed

lemma activate_split_tracked:
  assumes "activate_split at n scope selected join a = Inr (pushed, a')" and "owned d (act_routing a)"
  shows "tracked d a a'"
proof -
  from assms(1) obtain joins where a': "a' = emit a ((act_routing a)\<lparr>rs_pending_joins := joins\<rparr>)
      (GatewaySplitActivated n join selected at)"
    by (auto simp: activate_split_def open_join_def and_then_Inr ok_or_Inr split: if_splits)
  show ?thesis
    unfolding a' by (rule tracked_grow [OF assms(2)]) (simp_all add: armed_of_simps owner_active_simps)
qed

lemma activate_join_tracked:
  assumes "activate_join at n scope next a = Inr (pushed, a')" and own: "owned d (act_routing a)"
  shows "tracked d a a'"
proof -
  from assms(1) obtain complete r where arr: "arrive (act_routing a) n = Inr (complete, r)"
    and a': "a' = emit a r (GatewayTokenArrived n at) \<or>
      a' = emit (emit a r (GatewayTokenArrived n at)) (close_join r n) (GatewayJoined n at)"
    by (auto simp: activate_join_def and_then_Inr Let_def split: if_splits)
  from arr obtain joins where r: "r = (act_routing a)\<lparr>rs_pending_joins := joins\<rparr>"
    by (auto elim: arrive_Inr)
  have first: "tracked d a (emit a r (GatewayTokenArrived n at))"
    by (rule tracked_grow [OF own]) (simp_all add: r armed_of_simps owner_active_simps)
  have "owned d (act_routing (emit a r (GatewayTokenArrived n at)))"
    using first by (rule tracked_owned)
  then have "tracked d (emit a r (GatewayTokenArrived n at))
      (emit (emit a r (GatewayTokenArrived n at)) (close_join r n) (GatewayJoined n at))"
    by (rule tracked_grow) (simp_all add: close_join_def armed_of_simps owner_active_simps)
  then show ?thesis using a' first by (auto intro: tracked_trans)
qed

lemma activate_decision_task_tracked:
  "activate_decision_task d at n scope table_id next a = Inr (pushed, a') \<Longrightarrow>
    owned d (act_routing a) \<Longrightarrow> tracked d a a'"
  by (auto simp: activate_decision_task_def and_then_Inr ok_or_Inr tracked_def emit_def)

lemma idle_unarmed: "\<not> has_outstanding_work r \<Longrightarrow> armed_of r = Map.empty"
  by (rule ext) (simp add: has_outstanding_work_def armed_of_def)

lemma activation_step_tracked:
  assumes step: "activation_step d cfg at entry a = Inr (pushed, a')"
    and own: "owned d (act_routing a)" and wf: "routing_wf (act_routing a)"
  shows "tracked d a a'"
proof -
  from step obtain nd where nd: "bt_get (wd_nodes d) (fst entry) = Some nd"
    and node: "activate_node d cfg at (fst entry) (snd entry) nd a = Inr (pushed, a')"
    by (auto simp: activation_step_def definition_node_def and_then_Inr ok_or_Inr)
  note activity = activate_activity_tracked [OF _ own]
  have here: "tracked d a a" using own by (rule tracked_refl)
  show ?thesis
  proof (cases nd)
    case (ServiceTask task nxt)
    then show ?thesis using node nd
      by (simp add: activate_service_task_def) (erule activity; simp)
  next
    case (UserTask task assignment form_key result_variable nxt)
    then show ?thesis using node nd
      by (simp add: activate_user_task_def) (erule activity; simp)
  next
    case (ScriptTask task implementation version nxt)
    then show ?thesis using node nd
      by (simp add: activate_script_task_def) (erule activity; simp)
  next
    case (CallActivity called version nxt)
    then obtain task where "activate_activity d cfg at (fst entry) (snd entry) task nxt
        (ServiceTaskActivated (fst entry) task at) a = Inr (pushed, a')"
      using node by (auto simp: activate_call_activity_def split: sum.splits)
    then show ?thesis using nd CallActivity by (elim activity) simp_all
  next
    case (InclusiveSplit transitions coverage join)
    then show ?thesis using node own activate_split_tracked by (auto simp: and_then_Inr)
  next
    case (SubProcess start nodes nxt)
    then show ?thesis using node nd own by (simp add: activate_sub_process_tracked)
  next
    case End
    then show ?thesis using node own wf by (simp add: activate_end_tracked idle_unarmed)
  qed (use node own here activate_split_tracked activate_join_tracked activate_decision_task_tracked
        in \<open>auto simp: and_then_Inr split: if_splits\<close>)
qed

lemma activation_loop_tracked:
  assumes "activation_loop d cfg at origin limit steps pending a = Inr a'"
    and "routing_wf (act_routing a)" and "splits_nonempty d" and "owned d (act_routing a)"
  shows "tracked d a a'"
  using assms
proof (induction d cfg at origin limit steps pending a rule: activation_loop.induct)
  case (1 d cfg at origin limit steps a)
  then show ?case by (simp add: tracked_refl)
next
  case (2 d cfg at origin limit steps entry pending a)
  from "2.prems"(1) obtain pushed b where
    step: "activation_step d cfg at entry a = Inr (pushed, b)" and limit: "\<not> limit < Suc steps"
    and rest: "activation_loop d cfg at origin limit (Suc steps) (pushed @ pending) b = Inr a'"
    by (auto simp: and_then_Inr split: if_splits)
  have first: "tracked d a b" using step "2.prems"(4,2) by (rule activation_step_tracked)
  have "routing_wf (act_routing b)"
    using activation_step_ok [OF step "2.prems"(2,3)] "2.prems"(2)
    by (auto simp: step_ok_def finishes_def dest: advances_wf)
  then have "tracked d b a'"
    using "2.IH" [OF limit step refl rest] "2.prems"(3) tracked_owned [OF first] by blast
  then show ?case by (rule tracked_trans [OF first])
qed

section \<open>Decisions\<close>

text \<open>
  The events of a decision, applied to the state they were decided on and projected from
  its subscriptions, agree.
\<close>

definition decision_tracked :: "workflow_definition \<Rightarrow> instance_state \<Rightarrow> domain_event list \<Rightarrow> bool" where
  "decision_tracked d s es \<longleftrightarrow>
     (let r = foldl evolve_routing (routing_from s) es in
      owned d r \<and> foldl project_event (armed_of (routing_from s)) es = armed_of r)"

lemma routed_tracked:
  assumes "routed d cfg at next scope a = Inr es" and adv: "advances progress_event (at_start s vars) a"
    and tracked: "tracked d (at_start s vars) a" and "splits_nonempty d"
  shows "decision_tracked d s es"
proof -
  from assms(1) obtain b where b: "activation_events d cfg at next scope a = Inr b" "es = act_events b"
    by (auto simp: routed_def and_then_Inr)
  have "activation_ok a b" using b(1) advances_wf [OF adv] assms(4) by (rule activation_events_ok)
  then have "activation_ok (at_start s vars) b" using adv by (rule activation_ok_step [rotated])
  then have replay: "act_routing b = foldl evolve_routing (routing_from s) es"
    by (auto simp: activation_ok_def at_start_def b(2))
  have "tracked d a b"
    using b(1) advances_wf [OF adv] assms(4) tracked_owned [OF tracked]
    unfolding activation_events_def by (rule activation_loop_tracked)
  then have "tracked d (at_start s vars) b" using tracked by (rule tracked_trans [rotated])
  then show ?thesis
    unfolding decision_tracked_def replay [symmetric] by (auto simp: tracked_def at_start_def b(2))
qed

lemma release_tokens_other: "m \<noteq> n \<Longrightarrow> bt_get (release_tokens t n k) m = bt_get t m"
  by (simp add: release_tokens_def Let_def split: option.splits)

lemma complete_and_route_tracked:
  assumes "complete_and_route d s n next completed vars cfg at = Inr es"
    and wf: "routing_wf (routing_from s)" and "splits_nonempty d" and own: "owned d (routing_from s)"
    and completed: "\<And>r. evolve_routing r completed = with_tokens r (\<lambda>t. release_tokens t n 1)"
      "progress_event completed" "\<And>m. project_event m completed = spare n m"
  shows "decision_tracked d s es"
  using assms(1)
proof (rule complete_and_route_Inr)
  fix r scope
  assume r: "complete_task (routing_from s) n = Inr r" and route: "routed d cfg at next scope
      (disarm_boundary_events n at (emit (at_start s vars) r completed)) = Inr es"
  have r': "r = with_tokens (routing_from s) (\<lambda>t. release_tokens t n 1)"
    using complete_task_event [OF r] by simp
  have "tracked d (at_start s vars) (disarm_boundary_events n at (emit (at_start s vars) r completed))"
  proof (rule complete_and_disarm_tracked)
    show "owner_active d r m" if "m \<noteq> n" "owner_active d (act_routing (at_start s vars)) m" for m
      using that by (simp add: r' at_start_def with_tokens_def owner_active_def release_tokens_other)
  qed (use own wf r completed(3) in \<open>simp_all add: at_start_def complete_task_wf r' with_tokens_def
      armed_of_simps\<close>)
  then show ?thesis
    using routed_tracked [OF route complete_prefix_advances [OF r wf completed(1,2)]] assms(3) by blast
qed

lemma start_workflow_tracked:
  assumes "start_workflow d s tenant ctx at = Inr es" and "routing_wf (routing_from s)"
    and "splits_nonempty d" and own: "owned d (routing_from s)"
  shows "decision_tracked d s es"
  using assms(1)
proof (rule start_workflow_Inr)
  fix nxt
  let ?vars = "state_variables_with_context s (dc_variables ctx)"
  let ?e = "WorkflowStarted tenant (wd_workflow_type d) (wd_workflow_version d) (wd_start_node d) at"
  assume route: "routed d (dc_configuration ctx) at nxt None
      (emit (at_start s ?vars) (routing_from s) ?e) = Inr es"
  have "tracked d (at_start s ?vars) (emit (at_start s ?vars) (routing_from s) ?e)"
    using own by (intro tracked_emit) (simp_all add: at_start_def)
  then show ?thesis
    using routed_tracked [OF route start_workflow_advances [OF assms(2)]] assms(3) by blast
qed

lemma finish_and_route_tracked:
  assumes "finish_and_route d s n next satisfied ctx at a = Inr es"
    and adv: "advances progress_event (at_start s vars) a" and "splits_nonempty d"
    and tracked: "tracked d (at_start s vars) a"
  shows "decision_tracked d s es"
  using assms(1)
proof (rule finish_and_route_Inr)
  fix cancelled scope
  let ?vars = "state_variables_with_context s (dc_variables ctx)"
  let ?b = "disarm_boundary_events n at (emit a (finish_multi_instance (act_routing a) n)
          (MultiInstanceCompleted n satisfied cancelled at))"
  assume route: "routed d (dc_configuration ctx) at next scope (?b\<lparr>act_variables := ?vars\<rparr>) = Inr es"
  have "tracked d a ?b"
  proof (rule complete_and_disarm_tracked [OF tracked_owned [OF tracked]])
    show "routing_wf (finish_multi_instance (act_routing a) n)"
      using advances_wf [OF adv] by (rule finish_multi_instance_wf)
  qed (simp_all add: finish_multi_instance_def armed_of_simps owner_active_def)
  then have "tracked d (at_start s vars) ?b" by (rule tracked_trans [OF tracked])
  then have "tracked d (at_start s vars) (?b\<lparr>act_variables := ?vars\<rparr>)" by (simp add: tracked_def)
  then show ?thesis
    using routed_tracked [OF route finish_prefix_advances [OF adv]] assms(3) by blast
qed

lemma refill_slot_tracked:
  assumes "refill_slot n at a = Inr es" and adv: "advances progress_event (at_start s vars) a"
    and tracked: "tracked d (at_start s vars) a"
  shows "decision_tracked d s es"
proof -
  from assms(1) obtain b where b: "es = act_events b"
    and cases: "b = a \<or> activate_iteration n at a = Inr b"
    by (auto simp: refill_slot_def and_then_Inr ok_or_Inr split: if_splits)
  have "tracked d a b"
    using cases activate_iteration_tracked(1) [OF _ tracked_owned [OF tracked]] tracked_owned [OF tracked]
    by (auto intro: tracked_refl)
  then have "tracked d (at_start s vars) b" by (rule tracked_trans [OF tracked])
  moreover have "advances progress_event a b"
    using cases advances_wf [OF adv] by (auto intro: advances_refl advances_local activate_iteration_advances)
  then have "advances progress_event (at_start s vars) b" by (rule advances_trans [OF adv])
  then have "act_routing b = foldl evolve_routing (routing_from s) es"
    by (auto simp: advances_def at_start_def b)
  ultimately show ?thesis
    unfolding decision_tracked_def by (auto simp: tracked_def at_start_def b)
qed

lemma complete_multi_instance_iteration_tracked:
  assumes "complete_multi_instance_iteration d s n i ctx at = Inr es"
    and wf: "routing_wf (routing_from s)" and "splits_nonempty d" and own: "owned d (routing_from s)"
  shows "decision_tracked d s es"
  using assms(1)
proof (rule complete_multi_instance_iteration_Inr)
  fix nxt completed r satisfied
  let ?a = "emit (at_start s (is_variables s)) r (MultiInstanceIterationCompleted n i at)"
  assume r: "routing_complete_iteration (routing_from s) n i = Inr (completed, r)"
    and res: "finish_and_route d s n nxt satisfied ctx at ?a = Inr es \<or> refill_slot n at ?a = Inr es"
  from r obtain active where r': "r = (routing_from s)\<lparr>rs_active_multi_instances :=
      bt_insert n active (rs_active_multi_instances (routing_from s))\<rparr>"
    by (auto simp: routing_complete_iteration_def and_then_Inr ok_or_Inr Let_def split: if_splits)
  have "tracked d (at_start s (is_variables s)) ?a"
    by (rule tracked_grow) (use own in \<open>auto simp: r' at_start_def armed_of_simps owner_active_def\<close>)
  then show ?thesis
    using res iteration_prefix_advances [OF r wf] assms(3) finish_and_route_tracked refill_slot_tracked
    by blast
qed

lemma fire_boundary_tracked:
  assumes "fire_boundary d s owner boundary tokens mi ctx at = Inr es"
    and wf: "routing_wf (routing_from s)" and "splits_nonempty d" and own: "owned d (routing_from s)"
  shows "decision_tracked d s es"
  using assms(1)
proof (rule fire_boundary_Inr)
  fix its k cancellation r scope
  let ?vars = "state_variables_with_context s (dc_variables ctx)"
  let ?e = "BoundaryEventTriggered (be_id boundary) owner (be_target boundary)
             (be_cancel_activity boundary) its k at"
  let ?a = "\<lparr>act_variables = ?vars, act_routing = r, act_events = ?e # cancellation\<rparr>"
  assume k: "k = (of_bool (be_cancel_activity boundary \<and> 0 < tokens) :: u32)"
    and canc: "boundary_cancellation d owner boundary at = Inr cancellation"
    and r: "(if be_cancel_activity boundary then cancel_activity (routing_from s) owner k
          else Inr (routing_from s)) = Inr r"
    and route: "routed d (dc_configuration ctx) at (be_target boundary) scope ?a = Inr es"
  have quiet: "foldl project_event m cancellation = m" for m
    using boundary_cancellation_Inr [OF canc] by auto
  have "owned d r \<and> project_event (armed_of (routing_from s)) ?e = armed_of r"
  proof (cases "be_cancel_activity boundary")
    case True
    have sorted: "bt_sorted (rs_active_boundary_subscriptions (routing_from s))"
      using wf by (simp add: routing_wf_defs)
    have "evolve_routing (routing_from s) (BoundaryEventTriggered [] owner [] True [] k 0) = r"
      using r True by (intro cancel_activity_event [OF _ _ wf]) (simp_all add: k)
    then have r': "r = (routing_from s)
        \<lparr>rs_active_multi_instances := bt_remove owner (rs_active_multi_instances (routing_from s)),
         rs_active_boundary_subscriptions := bt_retain (\<lambda>_ sub. ab_attached_node_id sub \<noteq> owner)
           (rs_active_boundary_subscriptions (routing_from s)),
         rs_active_tokens := release_tokens (rs_active_tokens (routing_from s)) owner k\<rparr>"
      by simp
    have armed: "armed_of r = spare owner (armed_of (routing_from s))"
      by (rule ext) (simp add: armed_of_def r' bt_get_retain [OF sorted] spare_def split: option.split)
    have "owner_active d r m" if "m \<noteq> owner" "owner_active d (routing_from s) m" for m
      using that by (simp add: r' owner_active_def release_tokens_other)
    then have "owned d r"
      using own unfolding owned_def armed by (auto simp: spare_def split: option.splits if_splits)
    then show ?thesis using True armed by simp
  qed (use r own in simp)
  then have "tracked d (at_start s ?vars) ?a"
    using quiet unfolding tracked_def by (intro conjI exI [of _ "?e # cancellation"]) (simp_all add: at_start_def)
  then show ?thesis
    using routed_tracked [OF route fire_prefix_advances [OF k canc r wf]] assms(3) by blast
qed

lemma case_event_projection: "is_case_event e \<Longrightarrow> project_event m e = m"
  by (cases e) simp_all

lemma case_events_tracked:
  "list_all is_case_event es \<Longrightarrow> owned d (routing_from s) \<Longrightarrow> decision_tracked d s es"
proof -
  have "foldl project_event m es = m \<and> foldl evolve_routing r es = r" if "list_all is_case_event es" for m r
    using that by (induction es arbitrary: m r) (simp_all add: case_event_projection case_event_routing)
  then show "list_all is_case_event es \<Longrightarrow> owned d (routing_from s) \<Longrightarrow> decision_tracked d s es"
    by (simp add: decision_tracked_def Let_def)
qed

lemma decide_events_tracked:
  assumes "decide_events d s command ctx = Inr es" and "routing_wf (routing_from s)"
    and "splits_nonempty d" and "owned d (routing_from s)"
  shows "decision_tracked d s es"
proof (cases "is_case_command command")
  case True
  then show ?thesis using assms decide_events_case case_events_tracked by blast
next
  case False
  show ?thesis
  proof (cases command)
    case (StartWorkflow tenant at)
    then show ?thesis using assms by (auto split: if_split_asm elim: start_workflow_tracked)
  next
    case (CompleteServiceTask n outputs at)
    then obtain nxt where "complete_and_route d s n nxt (ServiceTaskCompleted n outputs at)
        (state_variables_with_context s (dc_variables ctx)) (dc_configuration ctx) at = Inr es"
      using assms(1) by (auto simp: when_task_active_Inr complete_service_task_def and_then_Inr)
    then show ?thesis using assms(2-4) by (rule complete_and_route_tracked) simp_all
  next
    case (CompleteUserTask n decision at)
    then show ?thesis using assms
      by (auto simp: when_task_active_Inr elim!: complete_user_task_Inr complete_and_route_tracked)
  next
    case (CompleteScriptTask n at)
    then show ?thesis using assms
      by (auto simp: when_task_active_Inr elim!: complete_script_task_Inr complete_and_route_tracked)
  next
    case (CompleteMultiInstanceIteration n i at)
    then show ?thesis
      using assms by (auto simp: when_active_Inr elim: complete_multi_instance_iteration_tracked)
  next
    case (TriggerBoundaryEvent b at)
    then show ?thesis using assms
      by (auto simp: when_active_Inr trigger_boundary_event_def and_then_Inr ok_or_Inr Let_def
          elim!: fire_boundary_tracked split: if_splits)
  qed (use False in simp_all)
qed

text \<open>
  Replaying a stream and projecting it agree: for every reachable instance the events that
  lead to it project to its subscriptions.
\<close>

definition armed_subscriptions :: "instance_state \<Rightarrow> armed" where
  "armed_subscriptions s = bt_get (is_active_boundary_subscriptions s)"

lemma armed_of_routing: "armed_of (routing_from s) = armed_subscriptions s"
  by (simp add: armed_of_def armed_subscriptions_def routing_from_def)

lemma reachable_owned:
  assumes "reachable_instance d s" and "splits_nonempty d"
  shows "owned d (routing_from s)"
  using assms(1)
proof (induction rule: reachable_instance.induct)
  case initial
  then show ?case by (simp add: owned_def armed_of_def routing_from_def default_instance_state_def)
next
  case (decided s command ctx es)
  have "routing_wf (routing_from s)"
    using reachable_instance_ok [OF decided.hyps(1) assms(2)] by (simp add: instance_ok_def)
  then have "decision_tracked d s es"
    using decided decide_Inr assms(2) decide_events_tracked by blast
  then show ?case by (simp add: decision_tracked_def Let_def routing_view.proj_replay)
next
  case (fenced s reason digest actor version at)
  then show ?case
    by (simp add: routing_from_evolve owned_def armed_of_def cleared_def)
qed

lemma decision_projection:
  assumes "reachable_instance d s" and "splits_nonempty d" and "decide d s command ctx = Inr es"
  shows "foldl project_event (armed_subscriptions s) es = armed_subscriptions (foldl evolve s es)"
proof -
  have "routing_wf (routing_from s)"
    using reachable_instance_ok [OF assms(1,2)] by (simp add: instance_ok_def)
  then have "decision_tracked d s es"
    using assms decide_Inr reachable_owned decide_events_tracked by blast
  then show ?thesis
    by (simp add: decision_tracked_def Let_def armed_of_routing [symmetric] routing_view.proj_replay)
qed

end
