(* ===== verification/Boundary_Sync.thy ===== *)
theory Boundary_Sync
  imports Boundary_Leases Boundary_Tracking Memory_Store
begin

text \<open>
  The boundary runtime beside the engine: handlers prepare and commit requests, the
  publisher and the local worker move their checkpoints, and the boundary worker projects
  committed events and works on timers and signals, in any order. The subscriptions of the
  boundary store are at every moment the projection of the outbox records up to its
  checkpoint; once the checkpoint has reached the end of the outbox, they are the
  subscriptions of the replayed instances.
\<close>

section \<open>Views\<close>

definition subscription_view :: "projected_boundary_subscription \<Rightarrow> active_boundary_subscription" where
  "subscription_view p =
     \<lparr>ab_attached_node_id = pb_attached_node_id p, ab_target_node_id = pb_target_node_id p,
      ab_cancel_activity = pb_cancel_activity p, ab_trigger = pb_trigger p,
      ab_armed_at_epoch_ms = pb_armed_at_epoch_ms p\<rparr>"

definition projected_armed :: "memory_boundary_state \<Rightarrow> stream_key \<Rightarrow> armed" where
  "projected_armed b k = (\<lambda>n. map_option subscription_view (bt_get (mb_subscriptions b) (fst k, snd k, n)))"

definition record_scope :: "outbox_record \<Rightarrow> stream_key" where
  "record_scope r = (ob_tenant_id r, ob_instance_id r)"

definition envelope_scope :: "event_envelope \<Rightarrow> stream_key" where
  "envelope_scope e = (em_tenant_id (ee_metadata e), em_instance_id (ee_metadata e))"

definition decoded :: "(u8 list \<Rightarrow> string + event_envelope) \<Rightarrow> outbox_record \<Rightarrow> event_envelope" where
  "decoded decode r = projr (decode (ob_payload r))"

definition events_of ::
  "(u8 list \<Rightarrow> string + event_envelope) \<Rightarrow> stream_key \<Rightarrow> outbox_record list \<Rightarrow> domain_event list" where
  "events_of decode k rs =
     map (\<lambda>r. ee_event (decoded decode r)) (filter (\<lambda>r. record_scope r = k) rs)"

definition projection_ok ::
  "(u8 list \<Rightarrow> string + event_envelope) \<Rightarrow> memory_state \<Rightarrow> memory_boundary_state \<Rightarrow> bool" where
  "projection_ok decode s b \<longleftrightarrow>
     (let n = unat (mb_projection_checkpoint b) in
      n \<le> length (ms_outbox s) \<and> bt_sorted (mb_subscriptions b)
      \<and> (\<forall>k. projected_armed b k =
            foldl project_event Map.empty (events_of decode k (take n (ms_outbox s)))))"

section \<open>Mutations\<close>

lemma remove_subscriptions_fold:
  "mb_subscriptions (foldl remove_memory_subscription b ks) =
    foldl (\<lambda>m k. bt_remove k m) (mb_subscriptions b) ks"
  by (induction ks arbitrary: b) (simp_all add: remove_memory_subscription_def)

lemma checkpoint_fold [simp]:
  "mb_projection_checkpoint (foldl remove_memory_subscription b ks) = mb_projection_checkpoint b"
  by (induction ks arbitrary: b) (simp_all add: remove_memory_subscription_def)

lemma apply_mutation_sorted:
  "bt_sorted (mb_subscriptions b) \<Longrightarrow> bt_sorted (mb_subscriptions (apply_memory_projection b m))"
  by (cases m)
     (simp_all add: upsert_subscription_def Let_def bt_sorted_insert remove_memory_subscription_def
       bt_sorted_remove remove_subscriptions_fold bt.invar_del_list split: option.split)

lemma apply_mutations_sorted:
  "bt_sorted (mb_subscriptions b) \<Longrightarrow> bt_sorted (mb_subscriptions (foldl apply_memory_projection b ms))"
  by (induction ms arbitrary: b) (simp_all add: apply_mutation_sorted)

lemma projected_upsert:
  "projected_armed (upsert_subscription b p) k =
    (if (fst (pb_key p), fst (snd (pb_key p))) = k
     then (projected_armed b k)(snd (snd (pb_key p)) \<mapsto> subscription_view p)
     else projected_armed b k)"
  by (cases "pb_key p")
     (auto simp: projected_armed_def upsert_subscription_def Let_def fun_eq_iff split: option.split)

lemma projected_disarm_boundary:
  "projected_armed (remove_memory_subscription b (t, i, n)) k =
    (if (t, i) = k then (projected_armed b k)(n := None) else projected_armed b k)"
  by (auto simp: projected_armed_def remove_memory_subscription_def fun_eq_iff)

lemma projected_disarm_attached:
  assumes "bt_sorted (mb_subscriptions b)"
  shows "projected_armed (apply_memory_projection b (DisarmAttached t i n)) k =
    (if (t, i) = k then spare n (projected_armed b k) else projected_armed b k)"
proof (rule ext)
  fix x
  have mem: "(fst k, snd k, x) \<in> fst ` set (filter (\<lambda>(k, p). fst k = t \<and> fst (snd k) = i
        \<and> pb_attached_node_id p = n) (mb_subscriptions b)) \<longleftrightarrow>
      (t, i) = k \<and> (\<exists>p. bt_get (mb_subscriptions b) (fst k, snd k, x) = Some p
        \<and> pb_attached_node_id p = n)"
    by (force simp: bt_get_iff [OF assms])
  show "projected_armed (apply_memory_projection b (DisarmAttached t i n)) k x =
      (if (t, i) = k then spare n (projected_armed b k) else projected_armed b k) x"
    using mem
    by (auto simp: projected_armed_def remove_subscriptions_fold bt.lookup_del_list spare_def
        subscription_view_def split: option.splits)
qed

lemma projected_remove_instance:
  "projected_armed (apply_memory_projection b (RemoveInstance t i)) k =
    (if (t, i) = k then Map.empty else projected_armed b k)"
proof (rule ext)
  fix x
  have "(fst k, snd k, x) \<in> set (filter (\<lambda>k. fst k = t \<and> fst (snd k) = i) (bt_keys (mb_subscriptions b)))
      \<longleftrightarrow> (t, i) = k \<and> bt_get (mb_subscriptions b) (fst k, snd k, x) \<noteq> None"
    by (auto simp: bt_get_None_iff)
  then show "projected_armed (apply_memory_projection b (RemoveInstance t i)) k x =
      (if (t, i) = k then Map.empty else projected_armed b k) x"
    by (auto simp: projected_armed_def remove_subscriptions_fold bt.lookup_del_list)
qed

definition apply_optional ::
  "memory_boundary_state \<Rightarrow> boundary_projection_mutation option \<Rightarrow> memory_boundary_state" where
  "apply_optional b m = (case m of None \<Rightarrow> b | Some m \<Rightarrow> apply_memory_projection b m)"

lemma event_mutation_armed:
  assumes "event_mutation rfc3339 policy m e = Inr mutation" and "bt_sorted (mb_subscriptions b)"
  shows "projected_armed (apply_optional b mutation) k =
    (if (em_tenant_id m, em_instance_id m) = k then project_event (projected_armed b k) e
     else projected_armed b k)"
proof (cases e)
  case (BoundaryEventArmed n attached target cancel trigger at)
  then obtain schedule where
    "mutation = Some (Upsert (armed_subscription m n attached target cancel trigger at schedule))"
    using assms(1) by (auto simp: and_then_Inr)
  then show ?thesis
    using BoundaryEventArmed
    by (simp add: apply_optional_def projected_upsert armed_subscription_def subscription_view_def)
next
  case (BoundaryEventsDisarmed attached ids at)
  show ?thesis
  proof (cases "\<exists>n. ids = [n]")
    case True
    then show ?thesis
      using assms BoundaryEventsDisarmed by (auto simp: apply_optional_def projected_disarm_boundary)
  next
    case False
    then have "mutation = Some (disarm_attached m attached)"
      "project_event (projected_armed b k) e = spare attached (projected_armed b k)"
      using assms(1) BoundaryEventsDisarmed by (auto split: list.splits)
    then show ?thesis
      by (simp add: apply_optional_def disarm_attached_def projected_disarm_attached [OF assms(2)]
          del: apply_memory_projection.simps)
  qed
qed (use assms in \<open>auto simp: apply_optional_def disarm_attached_def remove_instance_def
      projected_disarm_attached projected_remove_instance
      simp del: apply_memory_projection.simps split: if_splits\<close>)

lemma apply_optional_sorted:
  "bt_sorted (mb_subscriptions b) \<Longrightarrow> bt_sorted (mb_subscriptions (apply_optional b m))"
  by (simp add: apply_optional_def apply_mutation_sorted split: option.split)

text \<open>A batch of records projects scope by scope.\<close>

lemma records_armed:
  assumes "list_all2 (\<lambda>r m. projection_mutation rfc3339 policy r = Inr m) records ms"
    and "bt_sorted (mb_subscriptions b)"
  shows "projected_armed (foldl apply_optional b ms) k =
    foldl project_event (projected_armed b k)
      (map (\<lambda>r. ee_event (bp_envelope r)) (filter (\<lambda>r. envelope_scope (bp_envelope r) = k) records))"
  using assms
proof (induction arbitrary: b rule: list_all2_induct)
  case (Cons r records m ms)
  have "event_mutation rfc3339 policy (ee_metadata (bp_envelope r)) (ee_event (bp_envelope r)) = Inr m"
    using Cons.hyps(1) by (simp add: projection_mutation_def)
  from event_mutation_armed [OF this Cons.prems, of k] Cons.IH [OF apply_optional_sorted [OF Cons.prems]]
  show ?case by (simp add: envelope_scope_def)
qed simp

lemma apply_mutations_optional:
  "foldl apply_memory_projection b
      (concat (map (\<lambda>m. case m of None \<Rightarrow> [] | Some mutation \<Rightarrow> [mutation]) ms)) =
    foldl apply_optional b ms"
  by (induction ms arbitrary: b) (auto simp: apply_optional_def split: option.split)

lemma decode_records:
  assumes "try_map (decode_record decode) rs = Inr records"
  shows "length records = length rs"
    and "map (\<lambda>r. ee_event (bp_envelope r)) (filter (\<lambda>r. envelope_scope (bp_envelope r) = k) records) =
      events_of decode k rs"
proof -
  have all: "list_all2 (\<lambda>r record. decode_record decode r = Inr record) rs records"
    using assms by (simp add: try_map_Inr)
  then show "length records = length rs" by (simp add: list_all2_lengthD)
  from all show "map (\<lambda>r. ee_event (bp_envelope r))
      (filter (\<lambda>r. envelope_scope (bp_envelope r) = k) records) = events_of decode k rs"
    by (induction rule: list_all2_induct)
       (auto simp: decode_record_def and_then_Inr map_err_Inr events_of_def decoded_def
         envelope_scope_def record_scope_def split: if_splits)
qed

lemma projection_order_last:
  "projection_order c records = Inr () \<Longrightarrow> records \<noteq> [] \<Longrightarrow>
    unat (bp_cursor (last records)) = unat c + length records"
proof (induction c records rule: projection_order.induct)
  case (2 c r rs)
  from "2.prems"(1) obtain c' where c': "checked_add c 1 = Some c'" "bp_cursor r = c'"
    "projection_order c' rs = Inr ()"
    by (auto simp: and_then_Inr ok_or_Inr split: if_splits)
  have "unat c' = Suc (unat c)" using unat_checked_add [OF c'(1)] by simp
  moreover have "ok_or (checked_add c 1) ProjectionCursorOverflow = Inr c'" by (simp add: c'(1))
  ultimately show ?case using "2.IH" [of c'] c' by (cases "rs = []") simp_all
qed simp

lemma outbox_tail:
  assumes "cursors_ok s"
  shows "filter (\<lambda>r. c < ob_cursor r) (ms_outbox s) = drop (unat c) (ms_outbox s)"
proof -
  have "filter (\<lambda>r. c < ob_cursor r) rs = drop (unat c - n) rs"
    if "\<forall>i < length rs. unat (ob_cursor (rs ! i)) = n + Suc i" for n rs
    using that
  proof (induction rs arbitrary: n)
    case (Cons r rs)
    have "unat (ob_cursor r) = Suc n" using Cons.prems by (force dest: spec [of _ 0])
    moreover have "filter (\<lambda>r. c < ob_cursor r) rs = drop (unat c - Suc n) rs"
      using Cons.prems by (intro Cons.IH) auto
    ultimately show ?case by (auto simp: word_less_nat_alt drop_Cons' not_less_eq)
  qed simp
  from this [of "ms_outbox s" 0] show ?thesis using assms by (simp add: cursors_ok_def)
qed

section \<open>One projection step\<close>

lemma project_once_cases:
  assumes "project_once source memory_boundary_port rfc3339 policy b = (result, b')"
  obtains (kept) "b' = b"
  | (applied) records ms where
      "source (mb_projection_checkpoint b) (unat (br_projection_batch_size policy)) = Inr records"
      "validate_projection_records records (mb_projection_checkpoint b)
         (unat (br_projection_batch_size policy)) = Inr ()" "records \<noteq> []"
      "list_all2 (\<lambda>r m. projection_mutation rfc3339 policy r = Inr m) records ms"
      "b' = (foldl apply_optional b ms)\<lparr>mb_projection_checkpoint := bp_cursor (last records)\<rparr>"
proof -
  show thesis
  proof (cases "b' = b")
    case False
    with assms obtain records mutations where
      read: "source (mb_projection_checkpoint b) (unat (br_projection_batch_size policy)) = Inr records"
      and valid: "validate_projection_records records (mb_projection_checkpoint b)
         (unat (br_projection_batch_size policy)) = Inr ()"
      and mutations: "projection_mutations rfc3339 policy records = Inr mutations"
      and nonempty: "records \<noteq> []"
      and b': "b' = snd (memory_apply_projection b (mb_projection_checkpoint b)
        (bp_cursor (last records)) mutations)"
      by (auto simp: project_once_def Let_def memory_boundary_port_def and_then_Inr
          split: sum.splits if_splits prod.splits)
    from mutations obtain ms where
      ms: "list_all2 (\<lambda>r m. projection_mutation rfc3339 policy r = Inr m) records ms"
      and concat: "mutations = concat (map (\<lambda>m. case m of None \<Rightarrow> [] | Some mutation \<Rightarrow> [mutation]) ms)"
      by (auto simp: projection_mutations_def and_then_Inr try_map_Inr)
    have "b' = (foldl apply_optional b ms)\<lparr>mb_projection_checkpoint := bp_cursor (last records)\<rparr>"
      using b' False by (simp add: memory_apply_projection_def concat apply_mutations_optional split: if_splits)
    then show thesis using applied [OF read valid nonempty ms] by simp
  qed (rule kept)
qed

lemma project_once_ok:
  assumes ok: "projection_ok decode s b" and cursors: "cursors_ok s"
    and step: "project_once (source_read_after memory_outbox_port decode s) memory_boundary_port
      rfc3339 policy b = (result, b')"
  shows "projection_ok decode s b'"
  using step
proof (cases rule: project_once_cases)
  case kept
  then show ?thesis using ok by simp
next
  case (applied records ms)
  let ?c = "mb_projection_checkpoint b" and ?limit = "unat (br_projection_batch_size policy)"
  let ?rs = "take ?limit (drop (unat ?c) (ms_outbox s))"
  have sorted: "bt_sorted (mb_subscriptions b)" and within: "unat ?c \<le> length (ms_outbox s)"
    and armed: "\<And>k. projected_armed b k =
      foldl project_event Map.empty (events_of decode k (take (unat ?c) (ms_outbox s)))"
    using ok unfolding projection_ok_def Let_def by blast+
  have records: "try_map (decode_record decode) ?rs = Inr records"
    using applied(1) outbox_tail [OF cursors, of ?c]
    by (auto simp: source_read_after_def memory_outbox_port_def read_after_def and_then_Inr map_err_Inr
        split: if_splits)
  note decoded = decode_records [OF records]
  have last: "unat (bp_cursor (last records)) = unat ?c + length ?rs"
    using projection_order_last [of ?c records] applied(2,3) decoded(1)
    by (auto simp: validate_projection_records_def split: if_splits)
  have rs: "take (unat ?c + length ?rs) (ms_outbox s) = take (unat ?c) (ms_outbox s) @ ?rs"
    by (simp add: take_add min_def)
  have "projected_armed b' k =
      foldl project_event Map.empty (events_of decode k (take (unat ?c) (ms_outbox s) @ ?rs))" for k
  proof -
    have "projected_armed b' k = projected_armed (foldl apply_optional b ms) k"
      by (simp add: applied(5) projected_armed_def)
    also have "\<dots> = foldl project_event (projected_armed b k) (events_of decode k ?rs)"
      by (simp only: records_armed [OF applied(4) sorted] decoded(2))
    finally show ?thesis by (simp add: armed events_of_def)
  qed
  moreover have "bt_sorted (mb_subscriptions b')"
    using apply_mutations_sorted [OF sorted, of "concat (map (\<lambda>m. case m of None \<Rightarrow> [] | Some m \<Rightarrow> [m]) ms)"]
    by (simp add: applied(5) apply_mutations_optional)
  moreover have "unat ?c + length ?rs \<le> length (ms_outbox s)" using within by simp
  ultimately show ?thesis
    unfolding projection_ok_def Let_def by (simp add: applied(5) last rs del: length_take)
qed

section \<open>Work on timers and signals\<close>

lemma claim_timers_keeps:
  "mb_subscriptions (snd (claim_timers lease_until worker ks b)) = mb_subscriptions b
    \<and> mb_projection_checkpoint (snd (claim_timers lease_until worker ks b)) = mb_projection_checkpoint b"
proof (induction ks arbitrary: b)
  case (Cons k ks)
  show ?case
  proof (cases "bt_get (mb_timers b) k")
    case (Some t)
    let ?b = "b\<lparr>mb_timers := bt_insert k (lease_timer lease_until worker t) (mb_timers b)\<rparr>"
    have "snd (claim_timers lease_until worker (k # ks) b) = snd (claim_timers lease_until worker ks ?b)"
      using Some by (simp add: Let_def split: prod.split sum.split)
    then show ?thesis using Cons.IH [of ?b] by simp
  qed simp
qed simp

lemma claim_signals_keeps:
  "mb_subscriptions (snd (claim_signals lease_until worker limit ks claims b)) = mb_subscriptions b
    \<and> mb_projection_checkpoint (snd (claim_signals lease_until worker limit ks claims b)) =
        mb_projection_checkpoint b"
  by (induction ks arbitrary: b claims) (auto simp: Let_def split: option.splits)

lemma set_schedule_keeps:
  "projected_armed (set_schedule k schedule b) = projected_armed b"
  "mb_projection_checkpoint (set_schedule k schedule b) = mb_projection_checkpoint b"
  "bt_sorted (mb_subscriptions b) \<Longrightarrow> bt_sorted (mb_subscriptions (set_schedule k schedule b))"
  by (auto simp: set_schedule_def projected_armed_def subscription_view_def fun_eq_iff bt_sorted_insert
      split: option.split)

lemma projected_armed_cong: "mb_subscriptions b = mb_subscriptions b' \<Longrightarrow> projected_armed b = projected_armed b'"
  by (simp add: projected_armed_def fun_eq_iff)

lemma boundary_work_keeps:
  assumes "boundary_work b b'" and "bt_sorted (mb_subscriptions b)"
  shows "projected_armed b' = projected_armed b"
    and "mb_projection_checkpoint b' = mb_projection_checkpoint b"
    and "bt_sorted (mb_subscriptions b')"
proof -
  have "projected_armed b' = projected_armed b \<and> mb_projection_checkpoint b' = mb_projection_checkpoint b
      \<and> bt_sorted (mb_subscriptions b')"
    using assms
  proof (induction rule: boundary_work.induct)
    case (timer_completed b claim completion)
    have "projected_armed (b\<lparr>mb_timers := t\<rparr>) = projected_armed b" for t
      by (intro projected_armed_cong) simp
    then show ?case
      using timer_completed set_schedule_keeps
      by (auto simp: memory_complete_timer_def Let_def split: sum.split option.split)
  qed (auto simp: memory_claim_due_timers_def claim_timers_keeps memory_claim_correlations_def
      claim_signals_keeps memory_fail_timer_def memory_enqueue_signal_def memory_complete_correlation_def
      memory_fail_correlation_def update_leased_signal_def Let_def intro!: projected_armed_cong
      split: sum.split option.split)
  then show "projected_armed b' = projected_armed b"
    and "mb_projection_checkpoint b' = mb_projection_checkpoint b"
    and "bt_sorted (mb_subscriptions b')"
    by blast+
qed

section \<open>Runs of the engine with the boundary worker\<close>

inductive boundary_run ::
  "(event_envelope \<Rightarrow> u8 list) \<Rightarrow> (u8 list \<Rightarrow> string + event_envelope) \<Rightarrow> (string \<Rightarrow> int option)
   \<Rightarrow> definitions \<Rightarrow> memory_state \<Rightarrow> commit_request list \<Rightarrow> memory_boundary_state \<Rightarrow> bool"
  for encode decode rfc3339 R where
  idle: "boundary_run encode decode rfc3339 R default_memory_state [] default_memory_boundary_state"
| prepare: "boundary_run encode decode rfc3339 R s pending b \<Longrightarrow> registered R d \<Longrightarrow>
    ac_tenant_id request = wd_tenant_id d \<Longrightarrow>
    prepare_commit (memory_port encode) resolve s d request authorized = Inr r \<Longrightarrow>
    boundary_run encode decode rfc3339 R s (r # pending) b"
| commit: "boundary_run encode decode rfc3339 R s pending b \<Longrightarrow> r \<in> set pending \<Longrightarrow>
    boundary_run encode decode rfc3339 R (snd (memory_commit encode s r)) pending b"
| publish: "boundary_run encode decode rfc3339 R s pending b \<Longrightarrow>
    boundary_run encode decode rfc3339 R (snd (memory_checkpoint s x y)) pending b"
| local_task: "boundary_run encode decode rfc3339 R s pending b \<Longrightarrow>
    boundary_run encode decode rfc3339 R (snd (checkpoint_local_task s x y)) pending b"
| project: "boundary_run encode decode rfc3339 R s pending b \<Longrightarrow>
    boundary_run encode decode rfc3339 R s pending
      (snd (project_once (source_read_after memory_outbox_port decode s) memory_boundary_port
        rfc3339 policy b))"
| work: "boundary_run encode decode rfc3339 R s pending b \<Longrightarrow> boundary_work b b' \<Longrightarrow>
    boundary_run encode decode rfc3339 R s pending b'"

lemma memory_ws_commit [simp]: "ws_commit (memory_port encode) = memory_commit encode"
  by (simp add: memory_port_def)

lemma boundary_run_engine:
  assumes "boundary_run encode decode rfc3339 R s pending b"
  shows "view_ok R (memory_view s) \<and> (\<forall>r \<in> set pending. prepared_ok R (memory_view s) r)
    \<and> reachable_memory encode s"
  using assms
proof (induction rule: boundary_run.induct)
  case idle
  then show ?case
    by (simp add: view_ok_def memory_view_def default_memory_state_def
        reachable_memory.created [unfolded default_memory_state_def])
next
  case (prepare s pending b d request resolve authorized r)
  then show ?case using memory.prepare_ok [of R s d request encode resolve authorized r] by simp
next
  case (commit s pending b r)
  then show ?case
    using memory.commit_ok [of R s r encode] memory.prepared_kept [of R s _ encode r]
      reachable_memory.committed [of encode s r]
    by (auto simp del: memory_ws_commit simp add: memory_ws_commit [symmetric])
qed (simp_all add: reachable_memory.published reachable_memory.worked)

lemma events_of_append: "events_of decode k (xs @ ys) = events_of decode k xs @ events_of decode k ys"
  by (simp add: events_of_def)

lemma projection_ok_commit:
  assumes "projection_ok decode s b"
  shows "projection_ok decode (snd (memory_commit encode s r)) b"
  using assms by (cases rule: memory_commit_outbox [of encode s r]) (auto simp: projection_ok_def Let_def)

lemma boundary_run_projection:
  assumes "boundary_run encode decode rfc3339 R s pending b"
  shows "projection_ok decode s b"
  using assms
proof (induction rule: boundary_run.induct)
  case idle
  then show ?case
    by (simp add: projection_ok_def projected_armed_def events_of_def fun_eq_iff
        default_memory_boundary_state_def)
next
  case (commit s pending b r)
  then show ?case by (simp add: projection_ok_commit)
next
  case (project s pending b policy)
  have "cursors_ok s"
    using boundary_run_engine [OF project.hyps] outbox_invariant by blast
  then show ?case using project.IH by (intro project_once_ok [OF _ _ prod.collapse [symmetric]])
next
  case (work s pending b b')
  have "bt_sorted (mb_subscriptions b)" using work.IH by (simp add: projection_ok_def Let_def)
  then show ?case using work.IH boundary_work_keeps [OF work.hyps(2)] by (simp add: projection_ok_def)
qed (simp_all add: projection_ok_def)

text \<open>All committed events of an instance, read back from the outbox.\<close>

lemma events_of_outbox:
  assumes "outbox_matches encode s" and "\<forall>e \<in> set (sv_stream (memory_view s) k). decode (encode e) = Inr e"
  shows "events_of decode k (ms_outbox s) = map ee_event (sv_stream (memory_view s) k)"
proof -
  have "map (\<lambda>r. (ob_event_id r, ob_payload r)) (outbox_of s k) =
      map (\<lambda>e. (em_event_id (ee_metadata e), encode e)) (sv_stream (memory_view s) k)"
    using assms(1) unfolding outbox_matches_def by blast
  from arg_cong [OF this, of "map snd"]
  have payloads: "map ob_payload (outbox_of s k) = map encode (sv_stream (memory_view s) k)"
    by (simp add: comp_def)
  have "map (decoded decode) (outbox_of s k) = map (\<lambda>p. projr (decode p)) (map ob_payload (outbox_of s k))"
    by (simp add: decoded_def)
  also have "\<dots> = sv_stream (memory_view s) k"
    unfolding payloads using assms(2) by (simp add: map_idI)
  finally have decoded: "map (decoded decode) (outbox_of s k) = sv_stream (memory_view s) k" .
  have "events_of decode k (ms_outbox s) = map ee_event (map (decoded decode) (outbox_of s k))"
    by (simp add: events_of_def outbox_of_def record_scope_def)
  then show ?thesis by (simp only: decoded)
qed

lemma history_projection:
  assumes "reachable_history d es" and "splits_nonempty d"
  shows "foldl project_event Map.empty es = armed_subscriptions (rehydrate None es)"
  using assms(1)
proof (induction rule: reachable_history.induct)
  case empty
  show ?case
    by (simp add: armed_subscriptions_def rehydrate_def default_instance_state_def fun_eq_iff)
next
  case (decided es command ctx fs)
  then show ?case
    using decision_projection [OF reachable_history_instance [OF decided.hyps(1)] assms(2) decided.hyps(2)]
    by (simp add: rehydrate_def)
qed

section \<open>The rounds of the worker\<close>

lemma engine_dispatch_run:
  assumes "boundary_run encode decode rfc3339 R s pending b"
    and "\<And>t y v d. definitions t y v = Inr d \<Longrightarrow> registered R d"
  shows "\<exists>pending. boundary_run encode decode rfc3339 R
    (snd (engine_dispatch (memory_port encode) authorize resolve definitions credentials_for describe s request))
    pending b"
proof -
  let ?after = "snd (engine_dispatch (memory_port encode) authorize resolve definitions credentials_for
    describe s request)"
  have cases: "?after = s \<or> (\<exists>d command. registered R d
      \<and> ?after = snd (handle (memory_port encode) authorize resolve s d command))"
    using assms(2)
    by (auto simp: engine_dispatch_def and_then_Inr split: sum.split prod.split if_splits) (metis snd_conv)+
  have handled: "\<exists>pending. boundary_run encode decode rfc3339 R
      (snd (handle (memory_port encode) authorize resolve s d command)) pending b"
    if "registered R d" for d command
  proof (cases rule: handle_cases [of "memory_port encode" authorize resolve s d command])
    case kept
    then show ?thesis using assms(1) by metis
  next
    case (committed authorized r)
    have "boundary_run encode decode rfc3339 R s (r # pending) b"
      using assms(1) that committed(1,2) by (rule boundary_run.prepare)
    then have "boundary_run encode decode rfc3339 R (snd (memory_commit encode s r)) (r # pending) b"
      by (rule boundary_run.commit) simp
    then show ?thesis using committed(3) by auto
  qed
  show ?thesis using cases handled assms(1) by metis
qed

text \<open>A state of the two stores that a run reaches, when the definitions provider is sound.\<close>

definition driven ::
  "(event_envelope \<Rightarrow> u8 list) \<Rightarrow> (u8 list \<Rightarrow> string + event_envelope) \<Rightarrow> (string \<Rightarrow> int option) \<Rightarrow> definitions
   \<Rightarrow> (tenant_id \<Rightarrow> workflow_type \<Rightarrow> workflow_version \<Rightarrow> boundary_runtime_error + workflow_definition)
   \<Rightarrow> memory_boundary_state \<Rightarrow> memory_state \<Rightarrow> bool" where
  "driven encode decode rfc3339 R definitions b s \<longleftrightarrow>
     ((\<forall>t y v d. definitions t y v = Inr d \<longrightarrow> registered R d) \<longrightarrow>
      (\<exists>pending. boundary_run encode decode rfc3339 R s pending b))"

lemma driven_work: "driven encode decode rfc3339 R definitions b s \<Longrightarrow> boundary_work b b' \<Longrightarrow>
    driven encode decode rfc3339 R definitions b' s"
  unfolding driven_def using boundary_run.work by metis

interpretation boundary_worker: boundary_rounds memory_boundary_port
  "engine_dispatch (memory_port encode) authorize resolve definitions credentials_for describe"
  "driven encode decode rfc3339 R definitions"
  for encode authorize resolve definitions credentials_for describe decode rfc3339 R
proof unfold_locales
  fix b :: memory_boundary_state and s :: memory_state and request
  assume "driven encode decode rfc3339 R definitions b s"
  then show "driven encode decode rfc3339 R definitions b
      (snd (engine_dispatch (memory_port encode) authorize resolve definitions credentials_for describe
        s request))"
    unfolding driven_def by (metis engine_dispatch_run)
qed (simp_all add: memory_boundary_port_def driven_work boundary_work.intros)

text \<open>
  C32. The boundary projection is exact: whatever commands were committed in between, whatever
  timers and signals were claimed, completed or failed, and however the batches fell, once
  the projection checkpoint has reached the end of the outbox the stored subscriptions of
  every instance are the subscriptions of its current state: each is armed in the store
  exactly when it is armed in the instance, with the same owner, target, trigger and
  arming time. The hypothesis on the codec is asked of the committed events only.
\<close>

theorem boundary_projection_exact:
  assumes run: "boundary_run encode decode rfc3339 R s pending b"
    and valid: "\<And>d. registered R d \<Longrightarrow> valid_definition d"
    and codec: "\<forall>e \<in> set (sv_stream (memory_view s) (tenant, inst)). decode (encode e) = Inr e"
    and caught_up: "unat (mb_projection_checkpoint b) = length (ms_outbox s)"
    and loaded: "memory_load s tenant inst = Inr loaded"
  shows "map_option subscription_view (bt_get (mb_subscriptions b) (tenant, inst, boundary)) =
    bt_get (is_active_boundary_subscriptions (loaded_state loaded)) boundary"
proof -
  let ?es = "sv_stream (memory_view s) (tenant, inst)"
  note engine = boundary_run_engine [OF run]
  have matches: "outbox_matches encode s" using engine outbox_invariant by blast
  have armed: "projected_armed b (tenant, inst) =
      foldl project_event Map.empty (map ee_event ?es)"
    using boundary_run_projection [OF run] caught_up events_of_outbox [OF matches codec]
    by (simp add: projection_ok_def Let_def)
  have "ws_load (memory_port encode) s tenant inst = Inr loaded" using loaded by (simp add: memory_port_def)
  then have state: "loaded_state loaded = replay ?es" using engine by (intro memory.loaded_replay) blast
  have "foldl project_event Map.empty (map ee_event ?es) = armed_subscriptions (replay ?es)"
  proof (cases "?es = []")
    case True
    then show ?thesis
      by (simp add: armed_subscriptions_def replay_def rehydrate_def default_instance_state_def fun_eq_iff)
  next
    case False
    obtain d where "registered R d" "stream_of d (tenant, inst) ?es"
      using engine False by (auto elim: view_ok_cases [of R _ "(tenant, inst)"])
    then show ?thesis
      unfolding replay_def
      using valid valid_definition_splits by (intro history_projection [of d]) (auto simp: stream_of_def)
  qed
  then show ?thesis
    using armed state by (simp add: projected_armed_def armed_subscriptions_def fun_eq_iff)
qed

end
