(* ===== verification/Boundary_Examples.thy ===== *)
theory Boundary_Examples
  imports Engine_Examples Boundary_Sync
begin

text \<open>
  A workflow with a message boundary event on the engine and the boundary store, the store
  calls that two workers make on one timer, and a signal that two subscriptions match.
\<close>

section \<open>A projected subscription\<close>

definition bx_nodes :: "(node_id \<times> node) list" where
  "bx_nodes = [(''s'', Start ''a''), (''a'', ServiceTask ''ship'' ''z''), (''z'', End)]"

definition bx_boundary :: boundary_event_definition where
  "bx_boundary = \<lparr>be_id = ''b'', be_cancel_activity = False, be_target = ''z'',
     be_trigger = TriggerMessage ''paid''\<rparr>"

definition bx_contracts :: workflow_execution_contracts where
  "bx_contracts = no_contracts\<lparr>ec_boundary_events := [(''a'', bx_boundary)]\<rparr>"

definition bx_definition :: workflow_definition where
  "bx_definition =
     \<lparr>wd_tenant_id = ''t'', wd_workflow_type = ''o'', wd_workflow_version = ''1'',
      wd_start_node = ''s'', wd_nodes = bt_extend [] bx_nodes, wd_decision_tables = [],
      wd_boundary_events = [(''a'', [bx_boundary])], wd_node_metadata = [], wd_properties = [],
      wd_case_models = []\<rparr>"

definition bx_registry :: definitions where
  "bx_registry k = (if k = (''t'', ''o'', ''1'') then Some bx_definition else None)"

definition bx_events :: "event_envelope list" where
  "bx_events =
     [\<lparr>ee_metadata = ex_metadata ''c:1'' 1, ee_event = WorkflowStarted ''t'' ''o'' ''1'' ''s'' 7\<rparr>,
      \<lparr>ee_metadata = ex_metadata ''c:2'' 2, ee_event = ServiceTaskActivated ''a'' ''ship'' 7\<rparr>,
      \<lparr>ee_metadata = ex_metadata ''c:3'' 3,
       ee_event = BoundaryEventArmed ''b'' ''a'' ''z'' False (TriggerMessage ''paid'') 7\<rparr>]"

text \<open>A codec for these events: the payload is the sequence number.\<close>

definition bx_encode :: "event_envelope \<Rightarrow> u8 list" where
  "bx_encode e = [of_nat (unat (em_sequence (ee_metadata e)))]"

definition bx_decode :: "u8 list \<Rightarrow> string + event_envelope" where
  "bx_decode bytes =
     (if bytes = [1] then Inr (bx_events ! 0) else if bytes = [2] then Inr (bx_events ! 1)
      else if bytes = [3] then Inr (bx_events ! 2) else Inl ''unknown'')"

definition bx_result :: committed_result where
  "bx_result =
     \<lparr>cm_version = 3, cm_event_ids = [''c:1'', ''c:2'', ''c:3''], cm_config_version = ''v'',
      cm_policy_version = ''p''\<rparr>"

definition bx_commit :: commit_request where
  "bx_commit =
     \<lparr>cr_tenant_id = ''t'', cr_instance_id = ''i'', cr_actor_id = ''alice'', cr_idempotency_key = ''k'',
      cr_command_id = ''c'', cr_expected_version = 0, cr_events = bx_events, cr_snapshot = None,
      cr_authorization_audit =
        build_authorization_audit bx_definition ex_request ex_config ex_principal ''s'' ''START'',
      cr_result = bx_result\<rparr>"

definition bx_store :: memory_state where
  "bx_store = snd (memory_commit bx_encode default_memory_state bx_commit)"

definition bx_policy :: boundary_runtime_policy where
  "bx_policy = (en_boundary_runtime ex_engine)\<lparr>br_projection_batch_size := 10\<rparr>"

definition bx_projected :: memory_boundary_state where
  "bx_projected = snd (project_once (source_read_after memory_outbox_port bx_decode bx_store)
     memory_boundary_port (\<lambda>_. None) bx_policy default_memory_boundary_state)"

lemma bx_accepted:
  "new_with_execution_contracts ''t'' ''o'' ''1'' ''s'' bx_nodes [] bx_contracts = Inr bx_definition"
  by (simp add: definition_defs bx_nodes_def bx_definition_def bx_contracts_def bx_boundary_def
      index_boundary_def)

lemma bx_registered: "registered bx_registry bx_definition"
  by (simp add: registered_def bx_registry_def bx_definition_def)

lemma bx_fields [simp]: "wd_tenant_id bx_definition = ''t''" "wd_start_node bx_definition = ''s''"
  by (simp_all add: bx_definition_def)

lemma bx_decide_start:
  "decide bx_definition default_instance_state (StartWorkflow ''t'' 7)
     \<lparr>dc_configuration = ex_config, dc_variables = []\<rparr> = Inr (map ee_event bx_events)"
  by (simp add: runtime_defs bx_definition_def bx_nodes_def bx_boundary_def bx_events_def
      ex_config_def ex_engine_def arm_boundary_def subscription_of_def)

lemma bx_attached:
  "attach_metadata bx_definition ex_request ''alice'' ex_config 0 (map ee_event bx_events) = Inr bx_events"
  by (simp add: attach_metadata_def attach_one_def bx_events_def ex_metadata_def ex_request_def
      bx_definition_def ex_config_def EVENT_SCHEMA_VERSION_def u64_try_from_def usize_max_def
      checked_add_def ex_event_ids [unfolded One_nat_def])

lemma bx_decided:
  "decide_commit bx_definition ex_request ex_principal ex_config
     \<lparr>li_snapshot = None, li_events = [], li_version = 0\<rparr> = Inr bx_commit"
proof -
  have result: "new_committed_result 0 bx_events ex_config = Inr bx_result"
    by (simp add: new_committed_result_def bx_result_def bx_events_def ex_metadata_def u64_try_from_def
        usize_max_def checked_add_def)
  have snapshot: "snapshot_at_latest_boundary bx_definition ex_request ex_config default_instance_state
      bx_events = Inr None"
    by (simp add: snapshot_at_latest_boundary_def bx_events_def ex_metadata_def sequence_of_def Let_def)
  show ?thesis
    by (simp add: decide_commit_def rehydrate_def bx_decide_start bx_attached result snapshot bx_commit_def)
qed

lemma bx_prepared:
  "prepare_commit (memory_port bx_encode) ex_resolve default_memory_state bx_definition ex_request
     ex_principal = Inr bx_commit"
  by (simp add: prepare_commit_def ex_resolve_def validate_configuration_binding_def load_instance_def
      memory_port_def snapshot_mismatch_def ex_loaded bx_decided)

lemma bx_committed:
  "memory_commit bx_encode default_memory_state bx_commit = (Inr (Committed bx_result), bx_store)"
proof -
  have "fst (memory_commit bx_encode default_memory_state bx_commit) = Inr (Committed (cr_result bx_commit))"
  proof (rule prepared_commit_succeeds [OF _ bx_registered _ bx_prepared])
    show "view_ok bx_registry (memory_view default_memory_state)"
      by (simp add: view_ok_def memory_view_def default_memory_state_def)
  qed (simp_all add: ex_principal_def memory_view_def default_memory_state_def audit_recorded_def
      bx_commit_def bx_events_def)
  then show ?thesis by (simp add: bx_store_def bx_commit_def prod_eq_iff)
qed

lemma bx_store_stream: "sv_stream (memory_view bx_store) (''t'', ''i'') = bx_events"
  using memory.commit_law [of bx_encode default_memory_state bx_commit bx_result bx_store] bx_committed
  by (simp add: memory_port_def view_commit_def request_stream_def bx_commit_def memory_view_def
      default_memory_state_def)

lemma bx_codec: "\<forall>e \<in> set bx_events. bx_decode (bx_encode e) = Inr e"
  by (simp add: bx_decode_def bx_encode_def bx_events_def ex_metadata_def)

lemma bx_run: "boundary_run bx_encode bx_decode (\<lambda>_. None) bx_registry bx_store [bx_commit] bx_projected"
proof -
  have "boundary_run bx_encode bx_decode (\<lambda>_. None) bx_registry default_memory_state [bx_commit]
      default_memory_boundary_state"
    using boundary_run.idle bx_registered _ bx_prepared by (rule boundary_run.prepare) simp
  then have "boundary_run bx_encode bx_decode (\<lambda>_. None) bx_registry bx_store [bx_commit]
      default_memory_boundary_state"
    unfolding bx_store_def by (rule boundary_run.commit) simp
  then show ?thesis unfolding bx_projected_def by (rule boundary_run.project)
qed

definition bx_outbox_record :: "u64 \<Rightarrow> string \<Rightarrow> u8 \<Rightarrow> outbox_record" where
  "bx_outbox_record cursor event_id payload =
     \<lparr>ob_cursor = cursor, ob_tenant_id = ''t'', ob_instance_id = ''i'', ob_event_id = event_id,
      ob_correlation_id = ''r'', ob_causation_command_id = ''c'', ob_payload = [payload]\<rparr>"

lemma bx_store_outbox:
  "ms_outbox bx_store = [bx_outbox_record 1 ''c:1'' 1, bx_outbox_record 2 ''c:2'' 2,
     bx_outbox_record 3 ''c:3'' 3]"
proof (cases rule: memory_commit_outbox [of bx_encode default_memory_state bx_commit])
  case kept
  then have "sv_stream (memory_view bx_store) (''t'', ''i'') = []"
    by (simp add: bx_store_def memory_view_def default_memory_state_def)
  then show ?thesis using bx_store_stream by (simp add: bx_events_def)
next
  case (grown records)
  have "outbox_entries bx_encode default_memory_state bx_commit =
      Inr [bx_outbox_record 1 ''c:1'' 1, bx_outbox_record 2 ''c:2'' 2, bx_outbox_record 3 ''c:3'' 3]"
    by (simp add: outbox_entries_def outbox_entry_def default_memory_state_def bx_commit_def bx_events_def
        ex_metadata_def bx_encode_def bx_outbox_record_def u64_try_from_def usize_max_def checked_add_def)
  then show ?thesis using grown by (simp add: bx_store_def default_memory_state_def)
qed

lemma bx_source:
  "source_read_after memory_outbox_port bx_decode bx_store 0 10 =
     Inr [\<lparr>bp_cursor = 1, bp_envelope = bx_events ! 0\<rparr>, \<lparr>bp_cursor = 2, bp_envelope = bx_events ! 1\<rparr>,
       \<lparr>bp_cursor = 3, bp_envelope = bx_events ! 2\<rparr>]"
  by (simp add: source_read_after_def memory_outbox_port_def read_after_def bx_store_outbox
      bx_outbox_record_def decode_record_def bx_decode_def bx_events_def ex_metadata_def)

lemma bx_checkpoint: "mb_projection_checkpoint bx_projected = 3"
  by (simp add: bx_projected_def project_once_def bx_policy_def ex_engine_def memory_boundary_port_def
      default_memory_boundary_state_def bx_source validate_projection_records_def checked_add_def
      memory_apply_projection_def projection_mutations_def projection_mutation_def bx_events_def
      timer_schedule_def Let_def)

lemma bx_loaded:
  "memory_load bx_store ''t'' ''i'' = Inr \<lparr>li_snapshot = None, li_events = bx_events, li_version = 3\<rparr>"
proof -
  have "(case bt_get (ms_streams bx_store) (''t'', ''i'') of None \<Rightarrow> [] | Some es \<Rightarrow> es) = bx_events"
    using bx_store_stream by (simp add: memory_view_def)
  moreover have "bt_get (ms_snapshots bx_store) (''t'', ''i'') = None"
    using memory.commit_law [of bx_encode default_memory_state bx_commit bx_result bx_store] bx_committed
    by (simp add: memory_port_def view_commit_def request_stream_def bx_commit_def memory_view_def
        default_memory_state_def fun_eq_iff)
  ultimately show ?thesis
    by (simp add: memory_load_def bx_events_def ex_metadata_def u64_try_from_def usize_max_def Let_def
        word_less_nat_alt)
qed

theorem boundary_projection_exact_witness:
  "map_option subscription_view (bt_get (mb_subscriptions bx_projected) (''t'', ''i'', ''b'')) =
    bt_get (is_active_boundary_subscriptions
      (loaded_state \<lparr>li_snapshot = None, li_events = bx_events, li_version = 3\<rparr>)) ''b''"
  using bx_run _ _ _ bx_loaded
proof (rule boundary_projection_exact)
  show "valid_definition d" if "registered bx_registry d" for d
    using that new_with_execution_contracts_valid [OF bx_accepted]
    by (auto simp: registered_def bx_registry_def split: if_splits)
qed (simp_all add: bx_store_stream bx_codec bx_checkpoint bx_store_outbox)

section \<open>Two workers and one timer\<close>

definition bx_timer :: projected_boundary_subscription where
  "bx_timer =
     \<lparr>pb_key = (''t'', ''i'', ''b''), pb_attached_node_id = ''a'', pb_target_node_id = ''z'',
      pb_cancel_activity = True, pb_trigger = TriggerTimer TimerDuration ''PT1S'',
      pb_armed_at_epoch_ms = 1, pb_armed_event_id = ''c:3'',
      pb_timer_schedule = Some \<lparr>ts_due_at_epoch_ms = 5, ts_interval_ms = None, ts_remaining_firings = None\<rparr>,
      pb_workflow_type = ''o'', pb_workflow_version = ''1''\<rparr>"

definition bx_armed :: memory_boundary_state where
  "bx_armed = snd (memory_apply_projection default_memory_boundary_state 0 1 [Upsert bx_timer])"

definition bx_first :: "(boundary_runtime_error + claimed_timer list) \<times> memory_boundary_state" where
  "bx_first = memory_claim_due_timers bx_armed 10 20 ''w'' 1"

definition bx_second :: "(boundary_runtime_error + claimed_timer list) \<times> memory_boundary_state" where
  "bx_second = memory_claim_due_timers (snd bx_first) 30 40 ''v'' 1"

definition bx_claim :: "u32 \<Rightarrow> u64 \<Rightarrow> claimed_timer" where
  "bx_claim attempts version =
     \<lparr>ct_subscription = bx_timer, ct_generation = 0, ct_attempts = attempts, ct_lease_version = version\<rparr>"

lemmas lease_defs = memory_apply_projection_def default_memory_boundary_state_def upsert_subscription_def
  new_timer_def memory_claim_due_timers_def timer_due_def lease_timer_def timer_claim_def
  saturating_add_def bt_get_Cons Let_def word_le_nat_alt

lemma bx_first_claim: "fst bx_first = Inr [bx_claim 1 1]"
  by (simp add: bx_first_def bx_armed_def bx_claim_def bx_timer_def lease_defs)

lemma bx_second_claim: "fst bx_second = Inr [bx_claim 2 2]"
  by (simp add: bx_second_def bx_first_def bx_armed_def bx_claim_def bx_timer_def lease_defs)

lemma bx_armed_reached: "boundary_step\<^sup>*\<^sup>* default_memory_boundary_state bx_armed"
  unfolding bx_armed_def by (intro r_into_rtranclp boundary_step.projected)

theorem replaced_timer_claim_refused_witness:
  "memory_complete_timer (snd bx_second) (bx_claim 1 1) \<lparr>tc_next_schedule = None\<rparr> =
      (Inl LeaseConflict, snd bx_second)
   \<and> memory_fail_timer (snd bx_second) (bx_claim 1 1) 50 False = (Inl LeaseConflict, snd bx_second)"
proof (rule replaced_timer_claim_refused [OF bx_armed_reached, where claim' = "bx_claim 2 2"])
  show "memory_claim_due_timers bx_armed 10 20 ''w'' 1 = (Inr [bx_claim 1 1], snd bx_first)"
    unfolding bx_first_def [symmetric] using bx_first_claim by (simp add: prod_eq_iff)
  show "memory_claim_due_timers (snd bx_first) 30 40 ''v'' 1 = (Inr [bx_claim 2 2], snd bx_second)"
    unfolding bx_second_def [symmetric] using bx_second_claim by (simp add: prod_eq_iff)
qed (simp_all add: bx_claim_def word_less_nat_alt unsigned_minus_1_eq_mask mask_eq_exp_minus_1)

text \<open>
  Re-arming a timer starts its generation and its lease version again, so the claim that a
  slow worker holds from the earlier arming is accepted for the new one: its completion
  removes the timer that the second worker has just claimed.
\<close>

definition bx_rearmed :: memory_boundary_state where
  "bx_rearmed = snd (memory_apply_projection (snd bx_first) 1 3
     [DisarmBoundary (''t'', ''i'', ''b''), Upsert (bx_timer\<lparr>pb_armed_event_id := ''c:9''\<rparr>)])"

lemma rearmed_timer_accepts_old_claim:
  "fst (memory_claim_due_timers bx_rearmed 30 40 ''v'' 1) =
     Inr [(bx_claim 1 1)\<lparr>ct_subscription := bx_timer\<lparr>pb_armed_event_id := ''c:9''\<rparr>\<rparr>]"
  "fst (memory_complete_timer (snd (memory_claim_due_timers bx_rearmed 30 40 ''v'' 1)) (bx_claim 1 1)
     \<lparr>tc_next_schedule = None\<rparr>) = Inr ()"
  "mb_timers (snd (memory_complete_timer (snd (memory_claim_due_timers bx_rearmed 30 40 ''v'' 1))
     (bx_claim 1 1) \<lparr>tc_next_schedule = None\<rparr>)) = []"
  by (simp_all add: bx_rearmed_def bx_first_def bx_armed_def bx_claim_def bx_timer_def lease_defs
      remove_memory_subscription_def memory_complete_timer_def validate_timer_lease_def set_schedule_def
      bt_remove_def)

section \<open>Signals\<close>

definition bx_signal :: "string \<Rightarrow> boundary_signal" where
  "bx_signal signal_id =
     \<lparr>bg_signal_id = signal_id, bg_tenant_id = ''t'', bg_instance_id = ''i'', bg_kind = SignalMessage,
      bg_reference = Some ''paid'', bg_occurred_at_epoch_ms = 1, bg_authorization_context_ref = ''x''\<rparr>"

definition bx_waiting :: "string \<Rightarrow> projected_boundary_subscription" where
  "bx_waiting b = bx_timer\<lparr>pb_key := (''t'', ''i'', b), pb_trigger := TriggerMessage ''paid'',
     pb_timer_schedule := None\<rparr>"

definition bx_sent :: memory_boundary_state where
  "bx_sent = snd (memory_enqueue_signal (snd (memory_apply_projection default_memory_boundary_state 0 1
     [Upsert (bx_waiting ''b'')])) (bx_signal ''m''))"

definition bx_correlated :: "(boundary_runtime_error + claimed_correlation list) \<times> memory_boundary_state" where
  "bx_correlated = memory_claim_correlations bx_sent 10 20 ''w'' 1 5"

definition bx_correlation :: claimed_correlation where
  "bx_correlation =
     \<lparr>cc_signal = bx_signal ''m'', cc_subscription = Some (bx_waiting ''b''), cc_attempts = 1,
      cc_lease_version = 1\<rparr>"

lemmas signal_defs = memory_enqueue_signal_def memory_claim_correlations_def signal_due_def
  matching_subscriptions_def bx_signal_def bx_waiting_def bx_timer_def new_signal_def signal_key_of_def
  lease_signal_def bt_values_def

lemma bx_correlation_claimed: "fst bx_correlated = Inr [bx_correlation]"
  by (simp add: bx_correlated_def bx_sent_def bx_correlation_def signal_defs lease_defs)

lemma bx_sent_reached: "boundary_step\<^sup>*\<^sup>* default_memory_boundary_state (snd bx_correlated)"
proof -
  note step = rtranclp.rtrancl_into_rtrancl [where r = boundary_step]
  have "boundary_step\<^sup>*\<^sup>* default_memory_boundary_state
      (snd (memory_apply_projection default_memory_boundary_state 0 1 [Upsert (bx_waiting ''b'')]))"
    by (intro r_into_rtranclp boundary_step.projected)
  then have "boundary_step\<^sup>*\<^sup>* default_memory_boundary_state bx_sent"
    unfolding bx_sent_def by (elim step) (intro boundary_step.worked boundary_work.intros)
  then show ?thesis
    unfolding bx_correlated_def
    by (elim step) (intro boundary_step.worked boundary_work.intros)
qed

lemma bx_correlation_completed:
  "fst (memory_complete_correlation (snd bx_correlated) bx_correlation) = Inr ()"
  by (simp add: bx_correlated_def bx_sent_def bx_correlation_def signal_defs lease_defs
      memory_complete_correlation_def update_leased_signal_def validate_signal_lease_def)

definition bx_done :: memory_boundary_state where
  "bx_done = snd (memory_complete_correlation (snd bx_correlated) bx_correlation)"

theorem completed_signal_settled_witness:
  "(case fst (memory_claim_correlations bx_done 50 60 ''v'' 4 5) of
      Inl e \<Rightarrow> True | Inr claims \<Rightarrow> bx_correlation \<notin> set claims)
    \<and> memory_complete_correlation bx_done bx_correlation = (Inl LeaseConflict, bx_done)
    \<and> memory_fail_correlation bx_done bx_correlation 70 True = (Inl LeaseConflict, bx_done)
    \<and> snd (memory_enqueue_signal bx_done (bx_signal ''m'')) = bx_done
    \<and> fst (memory_enqueue_signal bx_done (bx_signal ''m'')) \<noteq> Inr SignalEnqueued"
proof (rule completed_signal_settled [OF bx_sent_reached])
  show "memory_complete_correlation (snd bx_correlated) bx_correlation = (Inr (), bx_done)"
    using bx_correlation_completed by (simp add: bx_done_def prod_eq_iff)
qed (simp_all add: bx_correlation_def signal_key_of_def)

text \<open>
  A signal that two subscriptions of its instance match stops every round: the claim call
  fails before it leases anything, so the signal's attempts stay as they are, it is never
  dead-lettered, and the signals behind it are not claimed either.
\<close>

lemma ambiguous_signal_stops_claims:
  assumes "filter (\<lambda>(_, g). signal_due now g) (mb_signals b) = (k, g) # rest"
    and "bt_get (mb_signals b) k = Some g"
    and "1 < length (sm_matches (matching_subscriptions (mb_subscriptions b) (mg_signal g)))"
    and "sm_scanned (matching_subscriptions (mb_subscriptions b) (mg_signal g)) \<le> scan"
  shows "memory_claim_correlations b now lease_until worker (Suc limit) scan = (Inl AmbiguousCorrelation, b)"
  using assms by (simp add: memory_claim_correlations_def Let_def)

end
