(* ===== verification/Authz_Artifacts.thy ===== *)
theory Authz_Artifacts
  imports BTree
begin

text \<open>
  Signed authorization artifacts (\<open>crates/bpmp-authz-contracts\<close>): policy bundles, revocation
  updates, and the actor and workload proofs, with their canonical form, validation, sealing
  and opening. Protobuf serialisation, SHA-256 and Ed25519 are libraries: they are the fields
  of \<open>authz_library\<close>, and what the code relies on is stated where it is used.
\<close>

section \<open>Messages\<close>

record policy_grant =
  gr_grant_id :: string
  gr_actor_ids :: "string list"
  gr_roles :: "string list"
  gr_required_capabilities :: "string list"
  gr_workflow_type :: string
  gr_workflow_version :: string
  gr_active_node_id :: string
  gr_action :: string
  gr_effect :: u32
  gr_priority :: u32

record actor_revoke_epoch =
  ae_actor_id :: string
  ae_revoke_epoch :: u64

record policy_bundle =
  pl_schema_version :: u32
  pl_tenant_id :: string
  pl_bundle_sequence :: u64
  pl_policy_version :: string
  pl_revoke_epoch :: u64
  pl_valid_from_epoch_ms :: u64
  pl_expires_at_epoch_ms :: u64
  pl_grants :: "policy_grant list"
  pl_actor_revoke_epochs :: "actor_revoke_epoch list"
  pl_signing_key_id :: string
  pl_content_hash :: "u8 list"
  pl_signature :: "u8 list"

record revoke_update =
  ru_schema_version :: u32
  ru_tenant_id :: string
  ru_actor_id :: string
  ru_revoke_epoch :: u64
  ru_bundle_sequence :: u64
  ru_issued_at_epoch_ms :: u64
  ru_signing_key_id :: string
  ru_content_hash :: "u8 list"
  ru_signature :: "u8 list"

record signed_actor_context =
  sa_schema_version :: u32
  sa_tenant_id :: string
  sa_actor_id :: string
  sa_roles :: "string list"
  sa_capabilities :: "string list"
  sa_revoke_epoch :: u64
  sa_issued_at_epoch_ms :: u64
  sa_expires_at_epoch_ms :: u64
  sa_audience_workload_id :: string
  sa_command_id :: string
  sa_signing_key_id :: string
  sa_content_hash :: "u8 list"
  sa_signature :: "u8 list"

record signed_workload_context =
  sw_schema_version :: u32
  sw_tenant_id :: string
  sw_workload_id :: string
  sw_command_id :: string
  sw_issued_at_epoch_ms :: u64
  sw_expires_at_epoch_ms :: u64
  sw_signing_key_id :: string
  sw_content_hash :: "u8 list"
  sw_signature :: "u8 list"

datatype policy_effect = EffectUnspecified | EffectAllow | EffectDeny

definition policy_effect_of :: "u32 \<Rightarrow> policy_effect option" where
  "policy_effect_of v =
     (if v = 0 then Some EffectUnspecified else if v = 1 then Some EffectAllow
      else if v = 2 then Some EffectDeny else None)"

section \<open>Libraries\<close>

text \<open>The functions of \<open>prost\<close>, \<open>sha2\<close> and \<open>ed25519_dalek\<close> that the sources call.\<close>

record 'm message_codec =
  mc_encode :: "'m \<Rightarrow> u8 list"
  mc_decode :: "u8 list \<Rightarrow> string + 'm"

record 'k authz_library =
  al_bundle :: "policy_bundle message_codec"
  al_revoke :: "revoke_update message_codec"
  al_actor :: "signed_actor_context message_codec"
  al_workload :: "signed_workload_context message_codec"
  al_sha256 :: "u8 list \<Rightarrow> u8 list"
  al_key_from_bytes :: "u8 list \<Rightarrow> 'k option"
  al_verify :: "'k \<Rightarrow> u8 list \<Rightarrow> u8 list \<Rightarrow> bool"

section \<open>Errors and limits\<close>

datatype artifact_error =
    ArtifactInvalidLimits
  | UnsupportedSchema u32 u32
  | ArtifactDecode string
  | ArtifactTooLarge nat nat
  | NonCanonicalArtifact
  | HashMismatch
  | InvalidSignature
  | InvalidKeyId
  | DuplicateKeyId string
  | UnknownKey string
  | InvalidPublicKey
  | InvalidField string
  | InvalidValidityWindow
  | TooManyGrants nat nat
  | DuplicateGrantId string
  | DuplicateActorEpoch string
  | ActorEpochBelowTenantEpoch
  | InvalidPolicyEffectValue u32

record artifact_limits =
  lim_max_artifact_bytes :: nat
  lim_max_grants :: nat

definition artifact_limits_new :: "nat \<Rightarrow> nat \<Rightarrow> artifact_error + artifact_limits" where
  "artifact_limits_new max_artifact_bytes max_grants =
     (if max_artifact_bytes = 0 \<or> max_grants = 0 then Inl ArtifactInvalidLimits
      else Inr \<lparr>lim_max_artifact_bytes = max_artifact_bytes, lim_max_grants = max_grants\<rparr>)"

definition AUTHORIZATION_BUNDLE_SCHEMA_VERSION :: u32 where
  "AUTHORIZATION_BUNDLE_SCHEMA_VERSION = 1"

section \<open>Keys\<close>

type_synonym 'k keyring = "(string, 'k) btree_map"

definition keyring_insert ::
  "'k authz_library \<Rightarrow> 'k keyring \<Rightarrow> string \<Rightarrow> u8 list \<Rightarrow> artifact_error + 'k keyring" where
  "keyring_insert lib keys key_id public_key =
     (if key_id = [] then Inl InvalidKeyId
      else if bt_contains_key keys key_id then Inl (DuplicateKeyId key_id)
      else and_then (ok_or (al_key_from_bytes lib public_key) InvalidPublicKey) (\<lambda>k.
        Inr (bt_insert key_id k keys)))"

definition keyring_verify ::
  "'k authz_library \<Rightarrow> 'k keyring \<Rightarrow> string \<Rightarrow> u8 list \<Rightarrow> u8 list \<Rightarrow> artifact_error + unit" where
  "keyring_verify lib keys key_id digest signature =
     and_then (ok_or (bt_get keys key_id) (UnknownKey key_id)) (\<lambda>k.
       if al_verify lib k digest signature then Inr () else Inl InvalidSignature)"

section \<open>Canonical form and validation\<close>

text \<open>\<open>sort_unstable\<close> followed by \<open>dedup\<close>.\<close>

definition canonical_strings :: "string list \<Rightarrow> string list" where
  "canonical_strings xs = remdups_adj (sort xs)"

definition canonicalize_grant :: "policy_grant \<Rightarrow> policy_grant" where
  "canonicalize_grant g =
     g\<lparr>gr_actor_ids := canonical_strings (gr_actor_ids g), gr_roles := canonical_strings (gr_roles g),
       gr_required_capabilities := canonical_strings (gr_required_capabilities g)\<rparr>"

definition canonicalize_bundle :: "policy_bundle \<Rightarrow> policy_bundle" where
  "canonicalize_bundle b =
     b\<lparr>pl_grants := sort_key gr_grant_id (map canonicalize_grant (pl_grants b)),
       pl_actor_revoke_epochs := sort_key ae_actor_id (pl_actor_revoke_epochs b)\<rparr>"

definition validate_schema :: "u32 \<Rightarrow> artifact_error + unit" where
  "validate_schema version =
     (if version = AUTHORIZATION_BUNDLE_SCHEMA_VERSION then Inr ()
      else Inl (UnsupportedSchema AUTHORIZATION_BUNDLE_SCHEMA_VERSION version))"

definition validate_key_id :: "string \<Rightarrow> artifact_error + string" where
  "validate_key_id key_id = (if key_id = [] then Inl InvalidKeyId else Inr key_id)"

definition validate_nonempty :: "string \<Rightarrow> string \<Rightarrow> artifact_error + unit" where
  "validate_nonempty field v = (if v = [] then Inl (InvalidField field) else Inr ())"

definition validate_nonempty_values :: "string \<Rightarrow> string list \<Rightarrow> artifact_error + unit" where
  "validate_nonempty_values field vs = (if [] \<in> set vs then Inl (InvalidField field) else Inr ())"

text \<open>The key of the first adjacent pair with equal keys: the loops over \<open>windows(2)\<close>.\<close>

fun first_repeat :: "('a \<Rightarrow> 'b) \<Rightarrow> 'a list \<Rightarrow> 'b option" where
  "first_repeat f (x # y # xs) = (if f x = f y then Some (f x) else first_repeat f (y # xs))"
| "first_repeat f _ = None"

definition validate_grant :: "policy_grant \<Rightarrow> artifact_error + unit" where
  "validate_grant g =
     and_then (validate_nonempty ''grant_id'' (gr_grant_id g)) (\<lambda>_.
     and_then (validate_nonempty_values ''actor_ids'' (gr_actor_ids g)) (\<lambda>_.
     and_then (validate_nonempty_values ''roles'' (gr_roles g)) (\<lambda>_.
     and_then (validate_nonempty_values ''required_capabilities'' (gr_required_capabilities g)) (\<lambda>_.
     and_then (validate_nonempty ''workflow_type'' (gr_workflow_type g)) (\<lambda>_.
     and_then (validate_nonempty ''workflow_version'' (gr_workflow_version g)) (\<lambda>_.
     and_then (validate_nonempty ''active_node_id'' (gr_active_node_id g)) (\<lambda>_.
     and_then (validate_nonempty ''action'' (gr_action g)) (\<lambda>_.
     and_then (ok_or (policy_effect_of (gr_effect g)) (InvalidPolicyEffectValue (gr_effect g))) (\<lambda>effect.
     if effect = EffectUnspecified then Inl (InvalidPolicyEffectValue (gr_effect g))
     else Inr ())))))))))"

definition validate_bundle :: "policy_bundle \<Rightarrow> artifact_limits \<Rightarrow> artifact_error + unit" where
  "validate_bundle b limits =
     and_then (validate_schema (pl_schema_version b)) (\<lambda>_.
     and_then (validate_nonempty ''tenant_id'' (pl_tenant_id b)) (\<lambda>_.
     and_then (validate_nonempty ''policy_version'' (pl_policy_version b)) (\<lambda>_.
     and_then (validate_key_id (pl_signing_key_id b)) (\<lambda>_.
     if pl_bundle_sequence b = 0 then Inl (InvalidField ''bundle_sequence'')
     else if pl_expires_at_epoch_ms b \<le> pl_valid_from_epoch_ms b then Inl InvalidValidityWindow
     else if lim_max_grants limits < length (pl_grants b)
     then Inl (TooManyGrants (length (pl_grants b)) (lim_max_grants limits))
     else case first_repeat gr_grant_id (pl_grants b) of
            Some grant_id \<Rightarrow> Inl (DuplicateGrantId grant_id)
          | None \<Rightarrow>
     and_then (try_all validate_grant (pl_grants b)) (\<lambda>_.
     case first_repeat ae_actor_id (pl_actor_revoke_epochs b) of
            Some actor_id \<Rightarrow> Inl (DuplicateActorEpoch actor_id)
          | None \<Rightarrow>
     try_all (\<lambda>a.
       and_then (validate_nonempty ''actor_id'' (ae_actor_id a)) (\<lambda>_.
       if ae_revoke_epoch a < pl_revoke_epoch b then Inl ActorEpochBelowTenantEpoch else Inr ()))
     (pl_actor_revoke_epochs b))))))"

definition validate_revoke_update :: "revoke_update \<Rightarrow> artifact_error + unit" where
  "validate_revoke_update u =
     and_then (validate_schema (ru_schema_version u)) (\<lambda>_.
     and_then (validate_nonempty ''tenant_id'' (ru_tenant_id u)) (\<lambda>_.
     and_then (validate_key_id (ru_signing_key_id u)) (\<lambda>_.
     if ru_bundle_sequence u = 0 then Inl (InvalidField ''bundle_sequence'')
     else if ru_revoke_epoch u = 0 then Inl (InvalidField ''revoke_epoch'')
     else if ru_issued_at_epoch_ms u = 0 then Inl (InvalidField ''issued_at_epoch_ms'')
     else Inr ())))"

definition check_size :: "u8 list \<Rightarrow> artifact_limits \<Rightarrow> artifact_error + unit" where
  "check_size bytes limits =
     (if lim_max_artifact_bytes limits < length bytes
      then Inl (ArtifactTooLarge (length bytes) (lim_max_artifact_bytes limits)) else Inr ())"

section \<open>Sealing and opening bundles and updates\<close>

definition bundle_digest :: "'k authz_library \<Rightarrow> policy_bundle \<Rightarrow> u8 list" where
  "bundle_digest lib b = al_sha256 lib (mc_encode (al_bundle lib) (b\<lparr>pl_content_hash := [], pl_signature := []\<rparr>))"

definition revoke_digest :: "'k authz_library \<Rightarrow> revoke_update \<Rightarrow> u8 list" where
  "revoke_digest lib u = al_sha256 lib (mc_encode (al_revoke lib) (u\<lparr>ru_content_hash := [], ru_signature := []\<rparr>))"

text \<open>The signer is an argument: it signs a digest.\<close>

definition bundle_seal ::
  "'k authz_library \<Rightarrow> policy_bundle \<Rightarrow> string \<Rightarrow> (u8 list \<Rightarrow> u8 list) \<Rightarrow> artifact_limits
   \<Rightarrow> artifact_error + u8 list" where
  "bundle_seal lib b key_id sign limits =
     and_then (validate_key_id key_id) (\<lambda>key_id.
     let b = canonicalize_bundle (b\<lparr>pl_signing_key_id := key_id\<rparr>) in
     and_then (validate_bundle b limits) (\<lambda>_.
     let digest = bundle_digest lib b;
         encoded = mc_encode (al_bundle lib) (b\<lparr>pl_content_hash := digest, pl_signature := sign digest\<rparr>)
     in and_then (check_size encoded limits) (\<lambda>_. Inr encoded)))"

definition bundle_open ::
  "'k authz_library \<Rightarrow> u8 list \<Rightarrow> 'k keyring \<Rightarrow> artifact_limits \<Rightarrow> artifact_error + policy_bundle" where
  "bundle_open lib bytes keys limits =
     and_then (check_size bytes limits) (\<lambda>_.
     and_then (map_err ArtifactDecode (mc_decode (al_bundle lib) bytes)) (\<lambda>b.
     if mc_encode (al_bundle lib) b \<noteq> bytes then Inl NonCanonicalArtifact
     else and_then (validate_bundle b limits) (\<lambda>_.
     let canonical = canonicalize_bundle b in
     if pl_grants canonical \<noteq> pl_grants b \<or> pl_actor_revoke_epochs canonical \<noteq> pl_actor_revoke_epochs b
     then Inl NonCanonicalArtifact
     else let digest = bundle_digest lib b in
     if pl_content_hash b \<noteq> digest then Inl HashMismatch
     else and_then (keyring_verify lib keys (pl_signing_key_id b) digest (pl_signature b)) (\<lambda>_.
     Inr b))))"

definition revoke_seal ::
  "'k authz_library \<Rightarrow> revoke_update \<Rightarrow> string \<Rightarrow> (u8 list \<Rightarrow> u8 list) \<Rightarrow> artifact_limits
   \<Rightarrow> artifact_error + u8 list" where
  "revoke_seal lib u key_id sign limits =
     and_then (validate_key_id key_id) (\<lambda>key_id.
     let u = u\<lparr>ru_signing_key_id := key_id\<rparr> in
     and_then (validate_revoke_update u) (\<lambda>_.
     let digest = revoke_digest lib u;
         encoded = mc_encode (al_revoke lib) (u\<lparr>ru_content_hash := digest, ru_signature := sign digest\<rparr>)
     in and_then (check_size encoded limits) (\<lambda>_. Inr encoded)))"

definition revoke_open ::
  "'k authz_library \<Rightarrow> u8 list \<Rightarrow> 'k keyring \<Rightarrow> artifact_limits \<Rightarrow> artifact_error + revoke_update" where
  "revoke_open lib bytes keys limits =
     and_then (check_size bytes limits) (\<lambda>_.
     and_then (map_err ArtifactDecode (mc_decode (al_revoke lib) bytes)) (\<lambda>u.
     if mc_encode (al_revoke lib) u \<noteq> bytes then Inl NonCanonicalArtifact
     else and_then (validate_revoke_update u) (\<lambda>_.
     let digest = revoke_digest lib u in
     if ru_content_hash u \<noteq> digest then Inl HashMismatch
     else and_then (keyring_verify lib keys (ru_signing_key_id u) digest (ru_signature u)) (\<lambda>_.
     Inr u))))"

section \<open>Actor and workload proofs\<close>

text \<open>A failed signature check keeps the keyring's error where the source keeps its text.\<close>

datatype proof_error =
    ProofInvalidLimits
  | ProofTooLarge nat nat
  | TooManyRoles nat nat
  | TooManyCapabilities nat nat
  | ProofUnsupportedSchema u32
  | InvalidScope
  | InvalidIdentity
  | ProofInvalidValidityWindow
  | ProofDecode string
  | NonCanonicalProof
  | ProofHashMismatch
  | ProofSignature artifact_error

record proof_limits =
  pr_proof_bytes :: nat
  pr_roles :: nat
  pr_capabilities :: nat

definition proof_limits_new :: "nat \<Rightarrow> nat \<Rightarrow> nat \<Rightarrow> proof_error + proof_limits" where
  "proof_limits_new max_proof_bytes max_roles max_capabilities =
     (if max_proof_bytes = 0 \<or> max_roles = 0 \<or> max_capabilities = 0 then Inl ProofInvalidLimits
      else Inr \<lparr>pr_proof_bytes = max_proof_bytes, pr_roles = max_roles, pr_capabilities = max_capabilities\<rparr>)"

definition AUTHORIZATION_PROOF_SCHEMA_VERSION :: u32 where
  "AUTHORIZATION_PROOF_SCHEMA_VERSION = 1"

definition proof_validate_key_id :: "string \<Rightarrow> proof_error + string" where
  "proof_validate_key_id key_id = (if key_id = [] then Inl InvalidScope else Inr key_id)"

definition canonicalize_actor :: "signed_actor_context \<Rightarrow> signed_actor_context" where
  "canonicalize_actor p =
     p\<lparr>sa_roles := canonical_strings (sa_roles p), sa_capabilities := canonical_strings (sa_capabilities p)\<rparr>"

definition validate_common ::
  "u32 \<Rightarrow> string \<Rightarrow> string \<Rightarrow> u64 \<Rightarrow> u64 \<Rightarrow> string \<Rightarrow> proof_error + unit" where
  "validate_common schema tenant command_id issued_at expires_at key_id =
     (if schema \<noteq> AUTHORIZATION_PROOF_SCHEMA_VERSION then Inl (ProofUnsupportedSchema schema)
      else if tenant = [] \<or> command_id = [] \<or> key_id = [] then Inl InvalidScope
      else if expires_at \<le> issued_at then Inl ProofInvalidValidityWindow
      else Inr ())"

definition validate_actor :: "signed_actor_context \<Rightarrow> proof_limits \<Rightarrow> proof_error + unit" where
  "validate_actor p limits =
     and_then (validate_common (sa_schema_version p) (sa_tenant_id p) (sa_command_id p)
       (sa_issued_at_epoch_ms p) (sa_expires_at_epoch_ms p) (sa_signing_key_id p)) (\<lambda>_.
     if sa_actor_id p = [] \<or> sa_audience_workload_id p = [] then Inl InvalidIdentity
     else if pr_roles limits < length (sa_roles p)
     then Inl (TooManyRoles (length (sa_roles p)) (pr_roles limits))
     else if pr_capabilities limits < length (sa_capabilities p)
     then Inl (TooManyCapabilities (length (sa_capabilities p)) (pr_capabilities limits))
     else if [] \<in> set (sa_roles p) \<or> [] \<in> set (sa_capabilities p) then Inl InvalidIdentity
     else Inr ())"

definition validate_workload :: "signed_workload_context \<Rightarrow> proof_error + unit" where
  "validate_workload p =
     and_then (validate_common (sw_schema_version p) (sw_tenant_id p) (sw_command_id p)
       (sw_issued_at_epoch_ms p) (sw_expires_at_epoch_ms p) (sw_signing_key_id p)) (\<lambda>_.
     if sw_workload_id p = [] then Inl InvalidIdentity else Inr ())"

definition actor_digest :: "'k authz_library \<Rightarrow> signed_actor_context \<Rightarrow> u8 list" where
  "actor_digest lib p = al_sha256 lib (mc_encode (al_actor lib) (p\<lparr>sa_content_hash := [], sa_signature := []\<rparr>))"

definition workload_digest :: "'k authz_library \<Rightarrow> signed_workload_context \<Rightarrow> u8 list" where
  "workload_digest lib p =
     al_sha256 lib (mc_encode (al_workload lib) (p\<lparr>sw_content_hash := [], sw_signature := []\<rparr>))"

definition verify_digest :: "u8 list \<Rightarrow> u8 list \<Rightarrow> proof_error + unit" where
  "verify_digest content_hash digest = (if content_hash = digest then Inr () else Inl ProofHashMismatch)"

definition proof_check_size :: "u8 list \<Rightarrow> proof_limits \<Rightarrow> proof_error + unit" where
  "proof_check_size bytes limits =
     (if pr_proof_bytes limits < length bytes
      then Inl (ProofTooLarge (length bytes) (pr_proof_bytes limits)) else Inr ())"

definition encode_bounded :: "u8 list \<Rightarrow> proof_limits \<Rightarrow> proof_error + u8 list" where
  "encode_bounded encoded limits = and_then (proof_check_size encoded limits) (\<lambda>_. Inr encoded)"

definition actor_seal ::
  "'k authz_library \<Rightarrow> signed_actor_context \<Rightarrow> string \<Rightarrow> (u8 list \<Rightarrow> u8 list) \<Rightarrow> proof_limits
   \<Rightarrow> proof_error + u8 list" where
  "actor_seal lib p key_id sign limits =
     and_then (proof_validate_key_id key_id) (\<lambda>key_id.
     let p = canonicalize_actor (p\<lparr>sa_signing_key_id := key_id\<rparr>) in
     and_then (validate_actor p limits) (\<lambda>_.
     let digest = actor_digest lib p in
     encode_bounded (mc_encode (al_actor lib) (p\<lparr>sa_content_hash := digest, sa_signature := sign digest\<rparr>))
       limits))"

definition actor_open ::
  "'k authz_library \<Rightarrow> u8 list \<Rightarrow> 'k keyring \<Rightarrow> proof_limits \<Rightarrow> proof_error + signed_actor_context" where
  "actor_open lib bytes keys limits =
     and_then (proof_check_size bytes limits) (\<lambda>_.
     and_then (map_err ProofDecode (mc_decode (al_actor lib) bytes)) (\<lambda>p.
     if mc_encode (al_actor lib) p \<noteq> bytes then Inl NonCanonicalProof
     else and_then (validate_actor p limits) (\<lambda>_.
     if sa_roles (canonicalize_actor p) \<noteq> sa_roles p
        \<or> sa_capabilities (canonicalize_actor p) \<noteq> sa_capabilities p
     then Inl NonCanonicalProof
     else and_then (verify_digest (sa_content_hash p) (actor_digest lib p)) (\<lambda>_.
     and_then (map_err ProofSignature
       (keyring_verify lib keys (sa_signing_key_id p) (actor_digest lib p) (sa_signature p))) (\<lambda>_.
     Inr p)))))"

definition workload_seal ::
  "'k authz_library \<Rightarrow> signed_workload_context \<Rightarrow> string \<Rightarrow> (u8 list \<Rightarrow> u8 list) \<Rightarrow> proof_limits
   \<Rightarrow> proof_error + u8 list" where
  "workload_seal lib p key_id sign limits =
     and_then (proof_validate_key_id key_id) (\<lambda>key_id.
     let p = p\<lparr>sw_signing_key_id := key_id\<rparr> in
     and_then (validate_workload p) (\<lambda>_.
     let digest = workload_digest lib p in
     encode_bounded (mc_encode (al_workload lib)
       (p\<lparr>sw_content_hash := digest, sw_signature := sign digest\<rparr>)) limits))"

definition workload_open ::
  "'k authz_library \<Rightarrow> u8 list \<Rightarrow> 'k keyring \<Rightarrow> proof_limits \<Rightarrow> proof_error + signed_workload_context" where
  "workload_open lib bytes keys limits =
     and_then (proof_check_size bytes limits) (\<lambda>_.
     and_then (map_err ProofDecode (mc_decode (al_workload lib) bytes)) (\<lambda>p.
     if mc_encode (al_workload lib) p \<noteq> bytes then Inl NonCanonicalProof
     else and_then (validate_workload p) (\<lambda>_.
     and_then (verify_digest (sw_content_hash p) (workload_digest lib p)) (\<lambda>_.
     and_then (map_err ProofSignature
       (keyring_verify lib keys (sw_signing_key_id p) (workload_digest lib p) (sw_signature p))) (\<lambda>_.
     Inr p)))))"

section \<open>Canonical forms\<close>

lemma sorted_remdups_adj_distinct: "sorted xs \<Longrightarrow> distinct (remdups_adj xs)"
  for xs :: "'a::linorder list"
  by (induction xs rule: remdups_adj.induct) auto

lemma canonical_strings_sorted: "sorted (canonical_strings xs)" "distinct (canonical_strings xs)"
  by (simp_all add: canonical_strings_def sorted_remdups_adj sorted_remdups_adj_distinct)

lemma canonical_strings_id: "sorted xs \<Longrightarrow> distinct xs \<Longrightarrow> canonical_strings xs = xs"
  by (simp add: canonical_strings_def sorted_sort_id remdups_adj_distinct)

lemma canonical_strings_idem [simp]: "canonical_strings (canonical_strings xs) = canonical_strings xs"
  by (simp add: canonical_strings_id canonical_strings_sorted)

lemma set_canonical_strings [simp]: "set (canonical_strings xs) = set xs"
  by (simp add: canonical_strings_def)

lemma canonicalize_grant_idem [simp]: "canonicalize_grant (canonicalize_grant g) = canonicalize_grant g"
  by (simp add: canonicalize_grant_def)

lemma canonicalize_bundle_idem [simp]: "canonicalize_bundle (canonicalize_bundle b) = canonicalize_bundle b"
proof -
  have "map canonicalize_grant (sort_key gr_grant_id (map canonicalize_grant gs)) =
      sort_key gr_grant_id (map canonicalize_grant gs)" for gs
    by (intro map_idI) auto
  then show ?thesis by (simp add: canonicalize_bundle_def sort_key_id_if_sorted)
qed

lemma first_repeat_None:
  "first_repeat f xs = None \<Longrightarrow> sorted (map f xs) \<Longrightarrow> distinct (map f xs)"
  for f :: "'a \<Rightarrow> 'b::linorder"
  by (induction f xs rule: first_repeat.induct) (auto split: if_splits intro: antisym)

text \<open>What an accepted bundle has.\<close>

definition bundle_ok :: "policy_bundle \<Rightarrow> bool" where
  "bundle_ok b \<longleftrightarrow> pl_tenant_id b \<noteq> [] \<and> pl_policy_version b \<noteq> []
     \<and> pl_bundle_sequence b \<noteq> 0 \<and> pl_valid_from_epoch_ms b < pl_expires_at_epoch_ms b
     \<and> sorted (map gr_grant_id (pl_grants b)) \<and> distinct (map gr_grant_id (pl_grants b))
     \<and> (\<forall>g \<in> set (pl_grants b). gr_grant_id g \<noteq> [] \<and> gr_effect g \<in> {1, 2})
     \<and> sorted (map ae_actor_id (pl_actor_revoke_epochs b))
     \<and> distinct (map ae_actor_id (pl_actor_revoke_epochs b))
     \<and> (\<forall>a \<in> set (pl_actor_revoke_epochs b). pl_revoke_epoch b \<le> ae_revoke_epoch a)"

lemma validate_grant_Inr: "validate_grant g = Inr u \<Longrightarrow> gr_grant_id g \<noteq> [] \<and> gr_effect g \<in> {1, 2}"
  by (auto simp: validate_grant_def and_then_Inr validate_nonempty_def ok_or_Inr policy_effect_of_def
      split: if_splits)

lemma validate_bundle_ok:
  assumes "validate_bundle b limits = Inr u" and canonical: "pl_grants (canonicalize_bundle b) = pl_grants b"
    "pl_actor_revoke_epochs (canonicalize_bundle b) = pl_actor_revoke_epochs b"
  shows "bundle_ok b"
proof -
  have sorted: "sorted (map gr_grant_id (pl_grants b))" "sorted (map ae_actor_id (pl_actor_revoke_epochs b))"
    using canonical unfolding canonicalize_bundle_def
    by (metis policy_bundle.select_convs(8) policy_bundle.surjective policy_bundle.update_convs(8,9)
        policy_bundle.select_convs(9) sorted_sort_key)+
  from assms(1) have checks: "pl_tenant_id b \<noteq> []" "pl_policy_version b \<noteq> []" "pl_bundle_sequence b \<noteq> 0"
      "\<not> pl_expires_at_epoch_ms b \<le> pl_valid_from_epoch_ms b" "first_repeat gr_grant_id (pl_grants b) = None"
      "\<forall>g \<in> set (pl_grants b). validate_grant g = Inr ()"
      "first_repeat ae_actor_id (pl_actor_revoke_epochs b) = None"
      "\<forall>a \<in> set (pl_actor_revoke_epochs b). \<not> ae_revoke_epoch a < pl_revoke_epoch b"
    by (auto simp: validate_bundle_def and_then_Inr try_all_Inr validate_nonempty_def
        split: if_splits option.splits)
  then show ?thesis
    using sorted first_repeat_None [OF checks(5)] first_repeat_None [OF checks(7)] validate_grant_Inr
    by (auto simp: bundle_ok_def)
qed

lemma bundle_open_Inr:
  assumes "bundle_open lib bytes keys limits = Inr b"
  shows "bundle_ok b" and "mc_decode (al_bundle lib) bytes = Inr b"
    and "pl_content_hash b = bundle_digest lib b"
    and "keyring_verify lib keys (pl_signing_key_id b) (bundle_digest lib b) (pl_signature b) = Inr ()"
  using assms validate_bundle_ok [of b limits]
  by (auto simp: bundle_open_def and_then_Inr map_err_Inr Let_def split: if_splits)

section \<open>Sealed artifacts open\<close>

lemma validate_bundle_signed [simp]:
  "validate_bundle (b\<lparr>pl_content_hash := h, pl_signature := s\<rparr>) limits = validate_bundle b limits"
  by (simp add: validate_bundle_def cong: option.case_cong)

lemma canonicalize_bundle_signed [simp]:
  "canonicalize_bundle (b\<lparr>pl_content_hash := h, pl_signature := s\<rparr>) =
    (canonicalize_bundle b)\<lparr>pl_content_hash := h, pl_signature := s\<rparr>"
  by (simp add: canonicalize_bundle_def)

lemma bundle_digest_signed [simp]:
  "bundle_digest lib (b\<lparr>pl_content_hash := h, pl_signature := s\<rparr>) = bundle_digest lib b"
  by (simp add: bundle_digest_def)

text \<open>
  C36. A sealed policy bundle opens: with the key registered under the signing key id, and
  given that decoding these bytes inverts their encoding and that the signer's signatures
  verify, opening the sealed bytes under the same limits returns the canonical bundle with its hash and
  signature, and that bundle satisfies everything that evaluation relies on.
\<close>

theorem bundle_seal_open:
  assumes sealed: "bundle_seal lib b key_id sign limits = Inr bytes"
    and codec: "\<And>m. mc_encode (al_bundle lib) m = bytes \<Longrightarrow> mc_decode (al_bundle lib) bytes = Inr m"
    and key: "bt_get keys key_id = Some k" and signer: "\<And>d. al_verify lib k d (sign d)"
  shows "\<exists>opened. bundle_open lib bytes keys limits = Inr opened \<and> bundle_ok opened
    \<and> opened\<lparr>pl_content_hash := pl_content_hash b, pl_signature := pl_signature b\<rparr> =
        canonicalize_bundle (b\<lparr>pl_signing_key_id := key_id\<rparr>)"
proof -
  let ?b = "canonicalize_bundle (b\<lparr>pl_signing_key_id := key_id\<rparr>)"
  let ?digest = "bundle_digest lib ?b"
  let ?signed = "?b\<lparr>pl_content_hash := ?digest, pl_signature := sign ?digest\<rparr>"
  from sealed have valid: "validate_bundle ?b limits = Inr ()"
    and bytes: "bytes = mc_encode (al_bundle lib) ?signed" "check_size bytes limits = Inr ()"
    by (auto simp: bundle_seal_def validate_key_id_def and_then_Inr Let_def split: if_splits)
  have id: "pl_signing_key_id ?b = key_id" by (simp add: canonicalize_bundle_def)
  have opened: "bundle_open lib bytes keys limits = Inr ?signed"
    using bytes(2) valid codec [OF bytes(1) [symmetric]] key signer
    by (simp add: bundle_open_def bytes(1) [symmetric] map_err_def id keyring_verify_def Let_def)
  have "?signed\<lparr>pl_content_hash := pl_content_hash b, pl_signature := pl_signature b\<rparr> = ?b"
    by (simp add: canonicalize_bundle_def)
  then show ?thesis using opened bundle_open_Inr(1) [OF opened] by blast
qed

end
