(* ===== verification/Authz_Evaluation.thy ===== *)
theory Authz_Evaluation
  imports Authz_Artifacts
begin

text \<open>
  The policy decision (\<open>crates/bpmp-authz-engine\<close>) and the store of verified bundles and
  revocation floors (\<open>crates/bpmp-adapter-policy-bundle\<close>). The decision is a pure function;
  a store operation returns its result and the new state. The binary search over the actor
  epochs is the one of the Rust standard library.
\<close>

section \<open>Evaluation\<close>

record authorization_input =
  ai_tenant_id :: string
  ai_actor_id :: string
  ai_roles :: "string list"
  ai_capabilities :: "string list"
  ai_actor_proof_revoke_epoch :: u64
  ai_evaluated_at_epoch_ms :: u64
  ai_workflow_type :: string
  ai_workflow_version :: string
  ai_active_node_id :: string
  ai_action :: string

record revocation_snapshot =
  rs_tenant_epoch :: u64
  rs_actor_epoch :: u64

definition required_epoch :: "revocation_snapshot \<Rightarrow> u64" where
  "required_epoch r = (if rs_actor_epoch r < rs_tenant_epoch r then rs_tenant_epoch r else rs_actor_epoch r)"

datatype decision_type = DecisionAllow | DecisionDeny

datatype deny_reason =
    BundleTenantMismatch
  | BundleNotYetValid
  | BundleExpired
  | ActorProofRevoked
  | InvalidPolicyEffect
  | NoMatchingGrant
  | ExplicitDeny

primrec deny_code :: "deny_reason \<Rightarrow> string" where
  "deny_code BundleTenantMismatch = ''BUNDLE_TENANT_MISMATCH''"
| "deny_code BundleNotYetValid = ''BUNDLE_NOT_YET_VALID''"
| "deny_code BundleExpired = ''BUNDLE_EXPIRED''"
| "deny_code ActorProofRevoked = ''ACTOR_PROOF_REVOKED''"
| "deny_code InvalidPolicyEffect = ''INVALID_POLICY_EFFECT''"
| "deny_code NoMatchingGrant = ''NO_MATCHING_GRANT''"
| "deny_code ExplicitDeny = ''EXPLICIT_DENY''"

record authorization_decision =
  de_decision :: decision_type
  de_deny_reason :: "deny_reason option"
  de_policy_version :: string
  de_bundle_sequence :: u64
  de_required_revoke_epoch :: u64
  de_matched_grant_ids :: "string list"

definition deny ::
  "policy_bundle \<Rightarrow> deny_reason \<Rightarrow> u64 \<Rightarrow> string list \<Rightarrow> authorization_decision" where
  "deny b reason epoch ids =
     \<lparr>de_decision = DecisionDeny, de_deny_reason = Some reason, de_policy_version = pl_policy_version b,
      de_bundle_sequence = pl_bundle_sequence b, de_required_revoke_epoch = epoch,
      de_matched_grant_ids = ids\<rparr>"

text \<open>The search loop: \<open>beyond i\<close> compares entry \<open>i\<close> with the target.\<close>

function search_base :: "(nat \<Rightarrow> bool) \<Rightarrow> nat \<Rightarrow> nat \<Rightarrow> nat" where
  "search_base beyond base len =
     (if len \<le> 1 then base
      else let half = len div 2; mid = base + half
           in search_base beyond (if beyond mid then base else mid) (len - half))"
  by pat_completeness auto
termination by (relation "measure (\<lambda>(_, _, len). len)") auto

declare search_base.simps [simp del]

definition binary_search_by :: "('a \<Rightarrow> 'b::linorder) \<Rightarrow> 'a list \<Rightarrow> 'b \<Rightarrow> nat option" where
  "binary_search_by f xs k =
     (if xs = [] then None
      else let base = search_base (\<lambda>i. k < f (xs ! i)) 0 (length xs)
           in if f (xs ! base) = k then Some base else None)"

definition required_revoke_epoch :: "policy_bundle \<Rightarrow> string \<Rightarrow> revocation_snapshot \<Rightarrow> u64" where
  "required_revoke_epoch b actor external =
     (let actor_bundle_epoch =
            (case binary_search_by ae_actor_id (pl_actor_revoke_epochs b) actor of
               None \<Rightarrow> 0 | Some i \<Rightarrow> ae_revoke_epoch (pl_actor_revoke_epochs b ! i))
      in max (max (pl_revoke_epoch b) actor_bundle_epoch) (required_epoch external))"

definition selector_matches :: "string \<Rightarrow> string \<Rightarrow> bool" where
  "selector_matches selector actual \<longleftrightarrow> selector = ''*'' \<or> selector = actual"

definition subject_matches :: "policy_grant \<Rightarrow> authorization_input \<Rightarrow> bool" where
  "subject_matches g i \<longleftrightarrow>
     (if gr_actor_ids g = [] \<and> gr_roles g = [] then True
      else ai_actor_id i \<in> set (gr_actor_ids g) \<or> list_ex (\<lambda>role. role \<in> set (ai_roles i)) (gr_roles g))"

definition grant_matches :: "policy_grant \<Rightarrow> authorization_input \<Rightarrow> bool" where
  "grant_matches g i \<longleftrightarrow> subject_matches g i
     \<and> list_all (\<lambda>required. required \<in> set (ai_capabilities i)) (gr_required_capabilities g)
     \<and> selector_matches (gr_workflow_type g) (ai_workflow_type i)
     \<and> selector_matches (gr_workflow_version g) (ai_workflow_version i)
     \<and> selector_matches (gr_active_node_id g) (ai_active_node_id i)
     \<and> selector_matches (gr_action g) (ai_action i)"

text \<open>The loop over the grants: the allows and denies, or the first grant with a bad effect.\<close>

fun collect_grants ::
  "authorization_input \<Rightarrow> policy_grant list \<Rightarrow> string list \<Rightarrow> string list
   \<Rightarrow> string + (string list \<times> string list)" where
  "collect_grants i [] allows denies = Inr (allows, denies)"
| "collect_grants i (g # gs) allows denies =
     (if \<not> grant_matches g i then collect_grants i gs allows denies
      else case policy_effect_of (gr_effect g) of
             Some EffectAllow \<Rightarrow> collect_grants i gs (allows @ [gr_grant_id g]) denies
           | Some EffectDeny \<Rightarrow> collect_grants i gs allows (denies @ [gr_grant_id g])
           | _ \<Rightarrow> Inl (gr_grant_id g))"

definition evaluate :: "policy_bundle \<Rightarrow> authorization_input \<Rightarrow> revocation_snapshot \<Rightarrow> authorization_decision"
  where
  "evaluate b i external =
     (let epoch = required_revoke_epoch b (ai_actor_id i) external in
      if pl_tenant_id b \<noteq> ai_tenant_id i then deny b BundleTenantMismatch epoch []
      else if ai_evaluated_at_epoch_ms i < pl_valid_from_epoch_ms b then deny b BundleNotYetValid epoch []
      else if pl_expires_at_epoch_ms b \<le> ai_evaluated_at_epoch_ms i then deny b BundleExpired epoch []
      else if ai_actor_proof_revoke_epoch i < epoch then deny b ActorProofRevoked epoch []
      else case collect_grants i (pl_grants b) [] [] of
             Inl grant_id \<Rightarrow> deny b InvalidPolicyEffect epoch [grant_id]
           | Inr (allows, denies) \<Rightarrow>
               if denies \<noteq> [] then deny b ExplicitDeny epoch denies
               else if allows = [] then deny b NoMatchingGrant epoch []
               else \<lparr>de_decision = DecisionAllow, de_deny_reason = None,
                     de_policy_version = pl_policy_version b, de_bundle_sequence = pl_bundle_sequence b,
                     de_required_revoke_epoch = epoch, de_matched_grant_ids = allows\<rparr>)"

section \<open>The store of verified bundles\<close>

datatype install_outcome = Installed | AlreadyCurrent

record tenant_authorization_state =
  tn_bundle :: policy_bundle
  tn_tenant_revoke_floor :: u64
  tn_actor_revoke_floors :: "(string, u64) btree_map"

datatype authorization_store_error =
    StoreArtifact artifact_error
  | MissingBundle string
  | BundleSequenceRollback u64 u64
  | BundleSequenceConflict u64
  | RevokeEpochRollback u64 u64
  | RevokeBundleSequenceMismatch u64 u64

type_synonym tenants = "(string, tenant_authorization_state) btree_map"

definition install_bundle ::
  "tenants \<Rightarrow> policy_bundle \<Rightarrow> (authorization_store_error + install_outcome) \<times> tenants" where
  "install_bundle tenants b =
     (let install = (\<lambda>previous.
            (Inr Installed,
             bt_insert (pl_tenant_id b)
               \<lparr>tn_bundle = b,
                tn_tenant_revoke_floor =
                  (case previous of None \<Rightarrow> pl_revoke_epoch b
                   | Some s \<Rightarrow> max (tn_tenant_revoke_floor s) (pl_revoke_epoch b)),
                tn_actor_revoke_floors =
                  (case previous of None \<Rightarrow> [] | Some s \<Rightarrow> tn_actor_revoke_floors s)\<rparr>
               (bt_remove (pl_tenant_id b) tenants)))
      in case bt_get tenants (pl_tenant_id b) of
           None \<Rightarrow> install None
         | Some current \<Rightarrow>
             if pl_bundle_sequence b < pl_bundle_sequence (tn_bundle current)
             then (Inl (BundleSequenceRollback (pl_bundle_sequence (tn_bundle current)) (pl_bundle_sequence b)),
                   tenants)
             else if pl_bundle_sequence b = pl_bundle_sequence (tn_bundle current)
             then (if pl_content_hash b = pl_content_hash (tn_bundle current)
                   then (Inr AlreadyCurrent, tenants)
                   else (Inl (BundleSequenceConflict (pl_bundle_sequence b)), tenants))
             else if pl_revoke_epoch b < tn_tenant_revoke_floor current
             then (Inl (RevokeEpochRollback (tn_tenant_revoke_floor current) (pl_revoke_epoch b)), tenants)
             else install (Some current))"

definition install_signed_bundle ::
  "'k authz_library \<Rightarrow> 'k keyring \<Rightarrow> artifact_limits \<Rightarrow> tenants \<Rightarrow> u8 list
   \<Rightarrow> (authorization_store_error + install_outcome) \<times> tenants" where
  "install_signed_bundle lib keys limits tenants bytes =
     (case bundle_open lib bytes keys limits of
        Inl e \<Rightarrow> (Inl (StoreArtifact e), tenants)
      | Inr b \<Rightarrow> install_bundle tenants b)"

text \<open>The floor an update addresses, after \<open>entry(..).or_insert(0)\<close>, and how it is set.\<close>

definition with_floor_entry :: "tenant_authorization_state \<Rightarrow> string \<Rightarrow> tenant_authorization_state" where
  "with_floor_entry s actor =
     (if actor = [] \<or> bt_contains_key (tn_actor_revoke_floors s) actor then s
      else s\<lparr>tn_actor_revoke_floors := bt_insert actor 0 (tn_actor_revoke_floors s)\<rparr>)"

definition floor_of :: "tenant_authorization_state \<Rightarrow> string \<Rightarrow> u64" where
  "floor_of s actor =
     (if actor = [] then tn_tenant_revoke_floor s
      else case bt_get (tn_actor_revoke_floors s) actor of None \<Rightarrow> 0 | Some e \<Rightarrow> e)"

definition set_floor :: "tenant_authorization_state \<Rightarrow> string \<Rightarrow> u64 \<Rightarrow> tenant_authorization_state" where
  "set_floor s actor epoch =
     (if actor = [] then s\<lparr>tn_tenant_revoke_floor := epoch\<rparr>
      else s\<lparr>tn_actor_revoke_floors := bt_insert actor epoch (tn_actor_revoke_floors s)\<rparr>)"

definition apply_revoke_update ::
  "tenants \<Rightarrow> revoke_update \<Rightarrow> (authorization_store_error + install_outcome) \<times> tenants" where
  "apply_revoke_update tenants u =
     (case bt_get tenants (ru_tenant_id u) of
        None \<Rightarrow> (Inl (MissingBundle (ru_tenant_id u)), tenants)
      | Some s \<Rightarrow>
          if ru_bundle_sequence u \<noteq> pl_bundle_sequence (tn_bundle s)
          then (Inl (RevokeBundleSequenceMismatch (pl_bundle_sequence (tn_bundle s)) (ru_bundle_sequence u)),
                tenants)
          else let s = with_floor_entry s (ru_actor_id u);
                   current = floor_of s (ru_actor_id u);
                   tenants = bt_insert (ru_tenant_id u) s tenants
               in if ru_revoke_epoch u < current
                  then (Inl (RevokeEpochRollback current (ru_revoke_epoch u)), tenants)
                  else if ru_revoke_epoch u = current then (Inr AlreadyCurrent, tenants)
                  else (Inr Installed,
                        bt_insert (ru_tenant_id u) (set_floor s (ru_actor_id u) (ru_revoke_epoch u)) tenants))"

definition apply_signed_revoke_update ::
  "'k authz_library \<Rightarrow> 'k keyring \<Rightarrow> artifact_limits \<Rightarrow> tenants \<Rightarrow> u8 list
   \<Rightarrow> (authorization_store_error + install_outcome) \<times> tenants" where
  "apply_signed_revoke_update lib keys limits tenants bytes =
     (case revoke_open lib bytes keys limits of
        Inl e \<Rightarrow> (Inl (StoreArtifact e), tenants)
      | Inr u \<Rightarrow> apply_revoke_update tenants u)"

definition store_evaluate ::
  "tenants \<Rightarrow> authorization_input \<Rightarrow> authorization_store_error + authorization_decision" where
  "store_evaluate tenants i =
     and_then (ok_or (bt_get tenants (ai_tenant_id i)) (MissingBundle (ai_tenant_id i))) (\<lambda>s.
     Inr (evaluate (tn_bundle s) i
       \<lparr>rs_tenant_epoch = tn_tenant_revoke_floor s,
        rs_actor_epoch =
          (case bt_get (tn_actor_revoke_floors s) (ai_actor_id i) of None \<Rightarrow> 0 | Some e \<Rightarrow> e)\<rparr>))"

section \<open>The search finds the entry\<close>

lemma search_base_bounds:
  "0 < len \<Longrightarrow> base \<le> search_base beyond base len \<and> search_base beyond base len < base + len"
proof (induction beyond base len rule: search_base.induct)
  case (1 beyond base len)
  show ?case
  proof (cases "len \<le> 1")
    case True
    then show ?thesis using "1.prems" by (simp add: search_base.simps)
  next
    case False
    let ?half = "len div 2"
    let ?base = "if beyond (base + ?half) then base else base + ?half"
    have "?base \<le> search_base beyond ?base (len - ?half)
        \<and> search_base beyond ?base (len - ?half) < ?base + (len - ?half)"
      using False by (intro "1.IH" [OF False refl refl]) simp
    moreover have "base \<le> ?base" "?base + (len - ?half) \<le> base + len" by auto
    ultimately have "base \<le> search_base beyond ?base (len - ?half)
        \<and> search_base beyond ?base (len - ?half) < base + len"
      by linarith
    then show ?thesis using False by (subst (1 2) search_base.simps) (simp add: Let_def)
  qed
qed

lemma search_base_finds:
  assumes "base \<le> t" and "t < base + len"
    and "\<And>j. base \<le> j \<Longrightarrow> j < base + len \<Longrightarrow> beyond j \<longleftrightarrow> t < j"
  shows "search_base beyond base len = t"
  using assms
proof (induction beyond base len rule: search_base.induct)
  case (1 beyond base len)
  show ?case
  proof (cases "len \<le> 1")
    case True
    then show ?thesis using 1(2,3) by (simp add: search_base.simps)
  next
    case False
    let ?half = "len div 2" and ?mid = "base + len div 2"
    let ?base = "if beyond ?mid then base else ?mid"
    have mid: "beyond ?mid \<longleftrightarrow> t < ?mid" by (rule 1(4)) (use False in simp_all)
    have "search_base beyond ?base (len - ?half) = t"
    proof (rule "1.IH" [OF False refl refl])
      show "?base \<le> t" using mid 1(2) by auto
      show "t < ?base + (len - ?half)" using mid 1(3) by auto
      show "beyond j \<longleftrightarrow> t < j" if "?base \<le> j" "j < ?base + (len - ?half)" for j
        by (rule 1(4)) (use that in \<open>auto split: if_splits\<close>)
    qed
    then show ?thesis using False by (subst search_base.simps) (simp add: Let_def)
  qed
qed

lemma binary_search_by_correct:
  assumes "sorted (map f xs)" and "distinct (map f xs)"
  shows "(case binary_search_by f xs k of None \<Rightarrow> k \<notin> f ` set xs
    | Some t \<Rightarrow> t < length xs \<and> f (xs ! t) = k)"
proof (cases "xs = []")
  case False
  let ?base = "search_base (\<lambda>i. k < f (xs ! i)) 0 (length xs)"
  have bound: "?base < length xs" using search_base_bounds [of "length xs" 0] False by simp
  have "k \<notin> f ` set xs" if miss: "f (xs ! ?base) \<noteq> k"
  proof
    assume "k \<in> f ` set xs"
    then obtain t where t: "t < length xs" "f (xs ! t) = k" by (auto simp: in_set_conv_nth)
    have strict: "f (xs ! i) < f (xs ! j)" if "i < j" "j < length xs" for i j
      using assms that strict_sorted_iff [of "map f xs"] sorted_wrt_nth_less [of "(<)" "map f xs" i j] by simp
    have "k < f (xs ! j) \<longleftrightarrow> t < j" if "j < length xs" for j
      using strict [of t j] strict [of j t] t that by (cases t j rule: linorder_cases) auto
    then have "?base = t" using t by (intro search_base_finds) auto
    then show False using t(2) miss by simp
  qed
  then show ?thesis using bound False by (auto simp: binary_search_by_def Let_def)
qed (simp add: binary_search_by_def)

text \<open>Every floor that applies to an actor is at most the required epoch.\<close>

lemma required_revoke_epoch_le:
  assumes "bundle_ok b"
  shows "required_revoke_epoch b actor external \<le> e \<longleftrightarrow>
    pl_revoke_epoch b \<le> e \<and> (\<forall>a \<in> set (pl_actor_revoke_epochs b). ae_actor_id a = actor \<longrightarrow> ae_revoke_epoch a \<le> e)
    \<and> rs_tenant_epoch external \<le> e \<and> rs_actor_epoch external \<le> e"
proof -
  let ?as = "pl_actor_revoke_epochs b"
  have as: "sorted (map ae_actor_id ?as)" "distinct (map ae_actor_id ?as)"
    using assms by (simp_all add: bundle_ok_def)
  have "(case binary_search_by ae_actor_id ?as actor of None \<Rightarrow> 0 | Some i \<Rightarrow> ae_revoke_epoch (?as ! i)) \<le> e \<longleftrightarrow>
      (\<forall>a \<in> set ?as. ae_actor_id a = actor \<longrightarrow> ae_revoke_epoch a \<le> e)"
  proof (cases "binary_search_by ae_actor_id ?as actor")
    case None
    then show ?thesis using binary_search_by_correct [OF as, of actor] by auto
  next
    case (Some t)
    then have t: "t < length ?as" "ae_actor_id (?as ! t) = actor"
      using binary_search_by_correct [OF as, of actor] by simp_all
    have "a = ?as ! t" if "a \<in> set ?as" "ae_actor_id a = actor" for a
      using as(2) t that by (auto simp: distinct_map inj_on_def)
    then show ?thesis using Some t by auto
  qed
  then show ?thesis by (auto simp: required_revoke_epoch_def required_epoch_def Let_def)
qed

section \<open>Decisions\<close>

lemma collect_grants_effects:
  assumes "\<forall>g \<in> set gs. gr_effect g \<in> {1, 2}"
  shows "collect_grants i gs allows denies =
    Inr (allows @ map gr_grant_id (filter (\<lambda>g. grant_matches g i \<and> gr_effect g = 1) gs),
         denies @ map gr_grant_id (filter (\<lambda>g. grant_matches g i \<and> gr_effect g = 2) gs))"
  using assms by (induction gs arbitrary: allows denies) (auto simp: policy_effect_of_def)

lemma evaluate_decision:
  assumes "bundle_ok b"
  shows "(de_decision (evaluate b i external) = DecisionAllow \<longleftrightarrow>
      pl_tenant_id b = ai_tenant_id i
      \<and> pl_valid_from_epoch_ms b \<le> ai_evaluated_at_epoch_ms i
      \<and> ai_evaluated_at_epoch_ms i < pl_expires_at_epoch_ms b
      \<and> pl_revoke_epoch b \<le> ai_actor_proof_revoke_epoch i
      \<and> (\<forall>a \<in> set (pl_actor_revoke_epochs b).
           ae_actor_id a = ai_actor_id i \<longrightarrow> ae_revoke_epoch a \<le> ai_actor_proof_revoke_epoch i)
      \<and> rs_tenant_epoch external \<le> ai_actor_proof_revoke_epoch i
      \<and> rs_actor_epoch external \<le> ai_actor_proof_revoke_epoch i
      \<and> (\<exists>g \<in> set (pl_grants b). grant_matches g i \<and> gr_effect g = 1)
      \<and> \<not> (\<exists>g \<in> set (pl_grants b). grant_matches g i \<and> gr_effect g = 2))
    \<and> (de_decision (evaluate b i external) = DecisionAllow \<longrightarrow>
        de_matched_grant_ids (evaluate b i external) =
          map gr_grant_id (filter (\<lambda>g. grant_matches g i \<and> gr_effect g = 1) (pl_grants b))
        \<and> de_policy_version (evaluate b i external) = pl_policy_version b
        \<and> de_bundle_sequence (evaluate b i external) = pl_bundle_sequence b
        \<and> de_deny_reason (evaluate b i external) = None)"
proof -
  let ?epoch = "required_revoke_epoch b (ai_actor_id i) external"
  have grants: "collect_grants i (pl_grants b) [] [] =
      Inr (map gr_grant_id (filter (\<lambda>g. grant_matches g i \<and> gr_effect g = 1) (pl_grants b)),
           map gr_grant_id (filter (\<lambda>g. grant_matches g i \<and> gr_effect g = 2) (pl_grants b)))"
    using collect_grants_effects [of "pl_grants b" i "[]" "[]"] assms by (simp add: bundle_ok_def)
  show ?thesis
    using required_revoke_epoch_le [OF assms, of "ai_actor_id i" external "ai_actor_proof_revoke_epoch i"]
    by (auto simp: evaluate_def Let_def grants deny_def filter_empty_conv not_less not_le)
qed

text \<open>
  C37. The decision on a verified bundle: a request is allowed exactly when the bundle is the
  tenant's, the evaluation time lies in its validity window, the actor's proof is not older
  than any revocation epoch that applies to the actor, some grant that matches the request
  allows it, and no grant that matches denies it; the decision then carries the matching
  grants, the policy version and the bundle sequence.
\<close>

theorem evaluate_allows:
  assumes "bundle_ok b"
  shows "(de_decision (evaluate b i external) = DecisionAllow \<longleftrightarrow>
      pl_tenant_id b = ai_tenant_id i
      \<and> pl_valid_from_epoch_ms b \<le> ai_evaluated_at_epoch_ms i
      \<and> ai_evaluated_at_epoch_ms i < pl_expires_at_epoch_ms b
      \<and> pl_revoke_epoch b \<le> ai_actor_proof_revoke_epoch i
      \<and> (\<forall>a \<in> set (pl_actor_revoke_epochs b).
           ae_actor_id a = ai_actor_id i \<longrightarrow> ae_revoke_epoch a \<le> ai_actor_proof_revoke_epoch i)
      \<and> rs_tenant_epoch external \<le> ai_actor_proof_revoke_epoch i
      \<and> rs_actor_epoch external \<le> ai_actor_proof_revoke_epoch i
      \<and> (\<exists>g \<in> set (pl_grants b). grant_matches g i \<and> gr_effect g = 1)
      \<and> \<not> (\<exists>g \<in> set (pl_grants b). grant_matches g i \<and> gr_effect g = 2))
    \<and> (de_decision (evaluate b i external) = DecisionAllow \<longrightarrow>
        de_matched_grant_ids (evaluate b i external) =
          map gr_grant_id (filter (\<lambda>g. grant_matches g i \<and> gr_effect g = 1) (pl_grants b))
        \<and> de_policy_version (evaluate b i external) = pl_policy_version b
        \<and> de_bundle_sequence (evaluate b i external) = pl_bundle_sequence b
        \<and> de_deny_reason (evaluate b i external) = None)"
  using assms by (rule evaluate_decision)

section \<open>Revocation\<close>

lemma revoked_denied:
  assumes "rs_tenant_epoch external = t" and "rs_actor_epoch external = a"
    and "ai_actor_proof_revoke_epoch i < t \<or> ai_actor_proof_revoke_epoch i < a"
  shows "de_decision (evaluate b i external) = DecisionDeny"
proof -
  have "ai_actor_proof_revoke_epoch i < required_revoke_epoch b (ai_actor_id i) external"
    using assms by (auto simp: required_revoke_epoch_def required_epoch_def Let_def less_max_iff_disj)
  then show ?thesis by (simp add: evaluate_def Let_def deny_def)
qed

lemma with_floor_entry_floor [simp]: "floor_of (with_floor_entry s actor) other = floor_of s other"
  by (auto simp: floor_of_def with_floor_entry_def bt_contains_key_def split: option.split)

lemma with_floor_entry_bundle [simp]: "tn_bundle (with_floor_entry s actor) = tn_bundle s"
  by (simp add: with_floor_entry_def)

lemma set_floor_floor [simp]:
  "floor_of (set_floor s actor e) other = (if other = actor then e else floor_of s other)"
  by (auto simp: floor_of_def set_floor_def)

lemma set_floor_bundle [simp]: "tn_bundle (set_floor s actor e) = tn_bundle s"
  by (simp add: set_floor_def)

inductive authz_step :: "'k authz_library \<Rightarrow> 'k keyring \<Rightarrow> artifact_limits \<Rightarrow> tenants \<Rightarrow> tenants \<Rightarrow> bool"
  for lib keys limits where
  installed: "authz_step lib keys limits tenants (snd (install_signed_bundle lib keys limits tenants bytes))"
| revoked: "authz_step lib keys limits tenants (snd (apply_signed_revoke_update lib keys limits tenants bytes))"

text \<open>Every bundle in the store was opened, and is filed under its tenant.\<close>

definition tenants_ok :: "'k authz_library \<Rightarrow> 'k keyring \<Rightarrow> artifact_limits \<Rightarrow> tenants \<Rightarrow> bool" where
  "tenants_ok lib keys limits tenants \<longleftrightarrow>
     (\<forall>t s. bt_get tenants t = Some s \<longrightarrow> pl_tenant_id (tn_bundle s) = t
        \<and> (\<exists>bytes. bundle_open lib bytes keys limits = Inr (tn_bundle s)))"

lemma tenants_ok_insert:
  assumes "tenants_ok lib keys limits tenants" and "pl_tenant_id (tn_bundle s) = t"
    and "\<exists>bytes. bundle_open lib bytes keys limits = Inr (tn_bundle s)"
  shows "tenants_ok lib keys limits (bt_insert t s tenants)"
  using assms by (simp add: tenants_ok_def)

lemma tenants_ok_revoked:
  assumes "tenants_ok lib keys limits tenants"
  shows "tenants_ok lib keys limits (snd (apply_revoke_update tenants u))"
proof (cases "bt_get tenants (ru_tenant_id u)")
  case None
  then show ?thesis using assms by (simp add: apply_revoke_update_def)
next
  case (Some s)
  let ?s = "with_floor_entry s (ru_actor_id u)"
  have opened: "pl_tenant_id (tn_bundle s) = ru_tenant_id u"
      "\<exists>bytes. bundle_open lib bytes keys limits = Inr (tn_bundle s)"
    using assms Some by (simp_all add: tenants_ok_def)
  have entry: "tenants_ok lib keys limits (bt_insert (ru_tenant_id u) ?s tenants)"
    by (rule tenants_ok_insert [OF assms]) (simp_all add: opened)
  have "tenants_ok lib keys limits (bt_insert (ru_tenant_id u) (set_floor ?s (ru_actor_id u) e)
      (bt_insert (ru_tenant_id u) ?s tenants))" for e
    by (rule tenants_ok_insert [OF entry]) (simp_all add: opened)
  then show ?thesis using Some assms entry by (simp add: apply_revoke_update_def Let_def)
qed

lemma tenants_ok_installed:
  assumes "tenants_ok lib keys limits tenants" and "bundle_open lib bytes keys limits = Inr b"
  shows "tenants_ok lib keys limits (snd (install_bundle tenants b))"
proof -
  have removed: "tenants_ok lib keys limits (bt_remove k tenants)" for k
    using assms(1) by (simp add: tenants_ok_def)
  have "tenants_ok lib keys limits (bt_insert (pl_tenant_id b)
      \<lparr>tn_bundle = b, tn_tenant_revoke_floor = e, tn_actor_revoke_floors = fs\<rparr>
      (bt_remove (pl_tenant_id b) tenants))" for e fs
    by (rule tenants_ok_insert [OF removed]) (use assms(2) in auto)
  then show ?thesis
    using assms(1) by (simp add: install_bundle_def Let_def split: option.split)
qed

lemma tenants_ok_step:
  "authz_step lib keys limits x y \<Longrightarrow> tenants_ok lib keys limits x \<Longrightarrow> tenants_ok lib keys limits y"
  by (induction rule: authz_step.induct)
     (auto simp: install_signed_bundle_def apply_signed_revoke_update_def tenants_ok_installed
       tenants_ok_revoked split: sum.split)

lemma tenants_ok_reachable: "(authz_step lib keys limits)\<^sup>*\<^sup>* [] tenants \<Longrightarrow> tenants_ok lib keys limits tenants"
proof (induction rule: rtranclp_induct)
  case base
  show ?case by (simp add: tenants_ok_def)
qed (rule tenants_ok_step)

text \<open>A tenant stays known, with floors and a bundle sequence that never fall.\<close>

definition tenant_le :: "tenant_authorization_state \<Rightarrow> tenant_authorization_state \<Rightarrow> bool" where
  "tenant_le s s' \<longleftrightarrow> (\<forall>actor. floor_of s actor \<le> floor_of s' actor)
     \<and> pl_bundle_sequence (tn_bundle s) \<le> pl_bundle_sequence (tn_bundle s')"

definition tenants_le :: "tenants \<Rightarrow> tenants \<Rightarrow> bool" where
  "tenants_le x y \<longleftrightarrow> (\<forall>t s. bt_get x t = Some s \<longrightarrow> (\<exists>s'. bt_get y t = Some s' \<and> tenant_le s s'))"

lemma tenant_le_refl [simp]: "tenant_le s s"
  by (simp add: tenant_le_def)

lemma tenant_le_trans: "tenant_le s t \<Longrightarrow> tenant_le t u \<Longrightarrow> tenant_le s u"
  unfolding tenant_le_def by (meson order_trans)

lemma tenants_le_refl [simp]: "tenants_le x x"
  by (simp add: tenants_le_def)

lemma tenants_le_trans: "tenants_le x y \<Longrightarrow> tenants_le y z \<Longrightarrow> tenants_le x z"
  unfolding tenants_le_def by (meson tenant_le_trans)

lemma tenants_le_insert:
  "(\<And>s. bt_get x t = Some s \<Longrightarrow> tenant_le s s') \<Longrightarrow> tenants_le x (bt_insert t s' x)"
  by (simp add: tenants_le_def)

lemma bt_insert_removed: "bt_get (bt_insert k v (bt_remove k m)) = bt_get (bt_insert k v m)"
  by (simp add: fun_eq_iff)

lemma install_bundle_le: "tenants_le tenants (snd (install_bundle tenants b))"
proof (cases "bt_get tenants (pl_tenant_id b)")
  case None
  then show ?thesis by (auto simp: install_bundle_def tenants_le_def)
next
  case (Some s)
  then show ?thesis
    by (auto simp: install_bundle_def tenants_le_def Let_def tenant_le_def floor_of_def)
qed

lemma apply_revoke_update_le: "tenants_le tenants (snd (apply_revoke_update tenants u))"
proof (cases "bt_get tenants (ru_tenant_id u)")
  case None
  then show ?thesis by (simp add: apply_revoke_update_def)
next
  case (Some s)
  then show ?thesis
    by (auto simp: apply_revoke_update_def tenants_le_def Let_def tenant_le_def)
qed

lemma authz_step_le: "authz_step lib keys limits x y \<Longrightarrow> tenants_le x y"
  by (induction rule: authz_step.induct)
     (auto simp: install_signed_bundle_def apply_signed_revoke_update_def install_bundle_le
       apply_revoke_update_le split: sum.split)

lemma authz_steps_le: "(authz_step lib keys limits)\<^sup>*\<^sup>* x y \<Longrightarrow> tenants_le x y"
  by (induction rule: rtranclp_induct) (auto intro: tenants_le_trans authz_step_le)

lemma accepted_revoke_floor:
  assumes "apply_revoke_update tenants u = (Inr outcome, after)"
  shows "\<exists>s. bt_get after (ru_tenant_id u) = Some s \<and> ru_revoke_epoch u \<le> floor_of s (ru_actor_id u)"
  using assms by (auto simp: apply_revoke_update_def Let_def split: option.splits if_splits)

text \<open>
  C38. A revocation sticks: once the store has accepted a signed revocation update, every
  proof older than its epoch is denied, for the named actor, or for every actor of the tenant
  when the update names none, in every later state of the store, whatever bundles are
  installed and whatever further updates are applied or refused.
\<close>

theorem revocation_sticks:
  assumes update: "revoke_open lib bytes keys limits = Inr u"
    and accepted: "apply_signed_revoke_update lib keys limits tenants bytes = (Inr outcome, after)"
    and later: "(authz_step lib keys limits)\<^sup>*\<^sup>* after final"
    and scope: "ai_tenant_id i = ru_tenant_id u" "ru_actor_id u = [] \<or> ru_actor_id u = ai_actor_id i"
    and old: "ai_actor_proof_revoke_epoch i < ru_revoke_epoch u"
  shows "\<exists>decision. store_evaluate final i = Inr decision \<and> de_decision decision = DecisionDeny"
proof -
  have "apply_revoke_update tenants u = (Inr outcome, after)"
    using accepted update by (simp add: apply_signed_revoke_update_def)
  then obtain s where s: "bt_get after (ru_tenant_id u) = Some s"
      "ru_revoke_epoch u \<le> floor_of s (ru_actor_id u)"
    using accepted_revoke_floor by blast
  then obtain s' where s': "bt_get final (ru_tenant_id u) = Some s'" "tenant_le s s'"
    using authz_steps_le [OF later] by (auto simp: tenants_le_def)
  then have "ai_actor_proof_revoke_epoch i < floor_of s' (ru_actor_id u)"
    using s(2) old by (auto simp: tenant_le_def intro: order.strict_trans2 order_trans)
  then have "ai_actor_proof_revoke_epoch i < tn_tenant_revoke_floor s'
      \<or> ai_actor_proof_revoke_epoch i <
        (case bt_get (tn_actor_revoke_floors s') (ai_actor_id i) of None \<Rightarrow> 0 | Some e \<Rightarrow> e)"
    using scope(2) by (auto simp: floor_of_def split: if_splits option.splits)
  then show ?thesis
    using s'(1) scope(1) by (simp add: store_evaluate_def revoked_denied)
qed

end
