(* ===== verification/Authz_Provider.thy ===== *)
theory Authz_Provider
  imports Authz_Evaluation Engine_Runs
begin

text \<open>
  The embedded authorization provider of the engine
  (\<open>apps/rust/bpmp-engine/src/authorization.rs\<close>) with the JWT verifier it uses
  (\<open>crates/bpmp-adapter-identity-jwt\<close>), and its composition with command handling. The
  locale \<open>authorization_contract\<close> is what command handling relies on: a authorized is returned
  only for a permitted request.
\<close>

section \<open>JSON web tokens\<close>

datatype jwt_algorithm =
    HS256 | HS384 | HS512 | ES256 | ES384 | RS256 | RS384 | RS512 | PS256 | PS384 | PS512 | EdDSA

datatype audience = AudienceOne string | AudienceMany "string list"

record actor_jwt_claims =
  jc_iss :: string
  jc_sub :: string
  jc_aud :: audience
  jc_exp :: u64
  jc_nbf :: "u64 option"
  jc_iat :: u64
  jc_tenant_id :: string
  jc_roles :: "string list"
  jc_capabilities :: "string list"
  jc_revoke_epoch :: u64

text \<open>
  The functions of \<open>jsonwebtoken\<close> and \<open>serde_json\<close>: parsing a key set, the header of a token,
  looking up and preparing a key, and checking a signature against the allowed algorithms.
\<close>

record ('j, 'd) jwt_library =
  jl_parse_jwks :: "u8 list \<Rightarrow> 'j list option"
  jl_decode_header :: "string \<Rightarrow> (jwt_algorithm \<times> string option) option"
  jl_find :: "'j list \<Rightarrow> string \<Rightarrow> 'j option"
  jl_decoding_key :: "'j \<Rightarrow> 'd option"
  jl_decode :: "string \<Rightarrow> 'd \<Rightarrow> jwt_algorithm list \<Rightarrow> actor_jwt_claims option"

datatype jwt_error =
    JwtInvalidConfiguration
  | SymmetricAlgorithmRejected
  | MalformedJwks
  | JwksKeyLimit
  | TokenTooLarge
  | MalformedToken
  | AlgorithmRejected
  | MissingKeyId
  | JwtUnknownKey
  | InvalidKey
  | SignatureOrClaimsInvalid
  | JwtScopeMismatch
  | InvalidTemporalClaims
  | InvalidAuthorizationClaims

record jwt_config =
  jw_issuers :: "string btree_set"
  jw_audiences :: "string btree_set"
  jw_allowed_algorithms :: "jwt_algorithm list"
  jw_max_token_bytes :: nat
  jw_max_jwks_keys :: nat
  jw_max_roles :: nat
  jw_max_capabilities :: nat
  jw_clock_skew_seconds :: u64

definition jwt_config_validate :: "jwt_config \<Rightarrow> jwt_error + unit" where
  "jwt_config_validate c =
     (if jw_issuers c = [] \<or> jw_audiences c = [] \<or> jw_allowed_algorithms c = []
         \<or> jw_max_token_bytes c = 0 \<or> jw_max_jwks_keys c = 0 \<or> jw_max_roles c = 0
         \<or> jw_max_capabilities c = 0
      then Inl JwtInvalidConfiguration
      else if list_ex (\<lambda>a. a = HS256 \<or> a = HS384 \<or> a = HS512) (jw_allowed_algorithms c)
      then Inl SymmetricAlgorithmRejected
      else Inr ())"

record verified_actor_claims =
  vc_tenant_id :: string
  vc_actor_id :: string
  vc_roles :: "string list"
  vc_capabilities :: "string list"
  vc_revoke_epoch :: u64
  vc_issued_at_epoch_seconds :: u64
  vc_expires_at_epoch_seconds :: u64

record 'j jwt_verifier =
  jv_config :: jwt_config
  jv_jwks :: "'j list"

definition parse_jwks :: "('j, 'd) jwt_library \<Rightarrow> u8 list \<Rightarrow> nat \<Rightarrow> jwt_error + 'j list" where
  "parse_jwks lib bytes max_keys =
     and_then (ok_or (jl_parse_jwks lib bytes) MalformedJwks) (\<lambda>jwks.
     if jwks = [] \<or> max_keys < length jwks then Inl JwksKeyLimit else Inr jwks)"

definition jwt_verifier_new ::
  "('j, 'd) jwt_library \<Rightarrow> jwt_config \<Rightarrow> u8 list \<Rightarrow> jwt_error + 'j jwt_verifier" where
  "jwt_verifier_new lib config jwks_json =
     and_then (jwt_config_validate config) (\<lambda>_.
     and_then (parse_jwks lib jwks_json (jw_max_jwks_keys config)) (\<lambda>jwks.
     Inr \<lparr>jv_config = config, jv_jwks = jwks\<rparr>))"

definition replace_jwks ::
  "('j, 'd) jwt_library \<Rightarrow> 'j jwt_verifier \<Rightarrow> u8 list \<Rightarrow> (jwt_error + unit) \<times> 'j jwt_verifier" where
  "replace_jwks lib v jwks_json =
     (case parse_jwks lib jwks_json (jw_max_jwks_keys (jv_config v)) of
        Inl e \<Rightarrow> (Inl e, v)
      | Inr jwks \<Rightarrow> (Inr (), v\<lparr>jv_jwks := jwks\<rparr>))"

primrec audience_matches :: "audience \<Rightarrow> string btree_set \<Rightarrow> bool" where
  "audience_matches (AudienceOne v) allowed \<longleftrightarrow> v \<in> set allowed"
| "audience_matches (AudienceMany vs) allowed \<longleftrightarrow> list_ex (\<lambda>v. v \<in> set allowed) vs"

definition validate_claims ::
  "jwt_config \<Rightarrow> actor_jwt_claims \<Rightarrow> u64 \<Rightarrow> jwt_error + verified_actor_claims" where
  "validate_claims config claims evaluated_at =
     (if jc_iss claims \<notin> set (jw_issuers config) \<or> \<not> audience_matches (jc_aud claims) (jw_audiences config)
         \<or> is_blank (jc_sub claims) \<or> is_blank (jc_tenant_id claims)
      then Inl JwtScopeMismatch
      else and_then (ok_or (checked_add (jc_exp claims) (jw_clock_skew_seconds config)) InvalidTemporalClaims)
        (\<lambda>latest.
        let earliest = saturating_sub (case jc_nbf claims of None \<Rightarrow> jc_iat claims | Some nbf \<Rightarrow> nbf)
              (jw_clock_skew_seconds config) in
        if evaluated_at < earliest \<or> latest \<le> evaluated_at \<or> jc_exp claims \<le> jc_iat claims
        then Inl InvalidTemporalClaims
        else let roles = canonical_strings (jc_roles claims);
                 capabilities = canonical_strings (jc_capabilities claims) in
        if jw_max_roles config < length roles \<or> jw_max_capabilities config < length capabilities
           \<or> [] \<in> set roles \<or> [] \<in> set capabilities
        then Inl InvalidAuthorizationClaims
        else Inr \<lparr>vc_tenant_id = jc_tenant_id claims, vc_actor_id = jc_sub claims, vc_roles = roles,
          vc_capabilities = capabilities, vc_revoke_epoch = jc_revoke_epoch claims,
          vc_issued_at_epoch_seconds = jc_iat claims, vc_expires_at_epoch_seconds = jc_exp claims\<rparr>))"

definition jwt_verify ::
  "('j, 'd) jwt_library \<Rightarrow> 'j jwt_verifier \<Rightarrow> string \<Rightarrow> u64 \<Rightarrow> jwt_error + verified_actor_claims" where
  "jwt_verify lib v token evaluated_at =
     (let config = jv_config v in
      if jw_max_token_bytes config < length token then Inl TokenTooLarge
      else and_then (ok_or (jl_decode_header lib token) MalformedToken) (\<lambda>(alg, kid).
      if alg \<notin> set (jw_allowed_algorithms config) then Inl AlgorithmRejected
      else and_then (ok_or kid MissingKeyId) (\<lambda>key_id.
      and_then (ok_or (jl_find lib (jv_jwks v) key_id) JwtUnknownKey) (\<lambda>jwk.
      and_then (ok_or (jl_decoding_key lib jwk) InvalidKey) (\<lambda>key.
      and_then (ok_or (jl_decode lib token key (jw_allowed_algorithms config)) SignatureOrClaimsInvalid)
        (\<lambda>claims. validate_claims config claims evaluated_at))))))"

section \<open>UTF-8\<close>

definition continuation :: "u8 \<Rightarrow> bool" where
  "continuation b \<longleftrightarrow> 128 \<le> b \<and> b \<le> 191"

definition utf8_second :: "u8 \<Rightarrow> u8 \<Rightarrow> bool" where
  "utf8_second a b \<longleftrightarrow>
     (if a = 224 then 160 \<le> b \<and> b \<le> 191 else if a = 237 then 128 \<le> b \<and> b \<le> 159
      else if a = 240 then 144 \<le> b \<and> b \<le> 191 else if a = 244 then 128 \<le> b \<and> b \<le> 143
      else continuation b)"

fun utf8_valid :: "u8 list \<Rightarrow> bool" where
  "utf8_valid [] \<longleftrightarrow> True"
| "utf8_valid (a # bs) \<longleftrightarrow>
     (if a < 128 then utf8_valid bs
      else if 194 \<le> a \<and> a \<le> 223
      then (case bs of b # rest \<Rightarrow> utf8_second a b \<and> utf8_valid rest | _ \<Rightarrow> False)
      else if 224 \<le> a \<and> a \<le> 239
      then (case bs of b # c # rest \<Rightarrow> utf8_second a b \<and> continuation c \<and> utf8_valid rest | _ \<Rightarrow> False)
      else if 240 \<le> a \<and> a \<le> 244
      then (case bs of b # c # d # rest \<Rightarrow>
              utf8_second a b \<and> continuation c \<and> continuation d \<and> utf8_valid rest | _ \<Rightarrow> False)
      else False)"

definition from_utf8 :: "u8 list \<Rightarrow> string option" where
  "from_utf8 bytes = (if utf8_valid bytes then Some (map (\<lambda>b. char_of (unat b)) bytes) else None)"

section \<open>The provider\<close>

record verified_actor =
  va_tenant_id :: string
  va_actor_id :: string
  va_roles :: "string list"
  va_capabilities :: "string list"
  va_revoke_epoch :: u64
  va_audience_workload_id :: "string option"

record ('k, 'j) embedded_provider =
  ep_actor_keys :: "'k keyring"
  ep_workload_keys :: "'k keyring"
  ep_proof_limits :: proof_limits
  ep_tenants :: tenants
  ep_jwt_verifier :: "'j jwt_verifier option"

text \<open>The texts of errors that the provider passes on.\<close>

record authz_messages =
  am_proof :: "proof_error \<Rightarrow> string"
  am_jwt :: "jwt_error \<Rightarrow> string"
  am_store :: "authorization_store_error \<Rightarrow> string"

definition valid_at :: "u64 \<Rightarrow> u64 \<Rightarrow> u64 \<Rightarrow> bool" where
  "valid_at issued_at expires_at evaluated_at \<longleftrightarrow> issued_at \<le> evaluated_at \<and> evaluated_at < expires_at"

definition verify_actor ::
  "'k authz_library \<Rightarrow> ('j, 'd) jwt_library \<Rightarrow> authz_messages \<Rightarrow> ('k, 'j) embedded_provider
   \<Rightarrow> authorization_request \<Rightarrow> authorization_error + verified_actor" where
  "verify_actor lib jwt messages p request =
     (case ar_actor_proof_kind request of
        SignedInternalContext \<Rightarrow>
          and_then (map_err (\<lambda>e. InvalidActorProof (am_proof messages e))
            (actor_open lib (ar_actor_proof request) (ep_actor_keys p) (ep_proof_limits p))) (\<lambda>actor.
          if sa_command_id actor \<noteq> ar_command_id request then Inl ScopeMismatch
          else if \<not> valid_at (sa_issued_at_epoch_ms actor) (sa_expires_at_epoch_ms actor)
                 (ar_evaluated_at_epoch_ms request)
          then Inl ActorProofOutsideValidity
          else Inr \<lparr>va_tenant_id = sa_tenant_id actor, va_actor_id = sa_actor_id actor,
            va_roles = sa_roles actor, va_capabilities = sa_capabilities actor,
            va_revoke_epoch = sa_revoke_epoch actor,
            va_audience_workload_id = Some (sa_audience_workload_id actor)\<rparr>)
      | OriginalJwt \<Rightarrow>
          and_then (ok_or (ep_jwt_verifier p) (AuthorizationUnavailable ''JWT verifier is not configured''))
            (\<lambda>verifier.
          and_then (ok_or (from_utf8 (ar_actor_proof request)) (InvalidActorProof ''JWT is not UTF-8''))
            (\<lambda>token.
          and_then (map_err (\<lambda>e. InvalidActorProof (am_jwt messages e))
            (jwt_verify jwt verifier token (ar_evaluated_at_epoch_ms request div 1000))) (\<lambda>claims.
          Inr \<lparr>va_tenant_id = vc_tenant_id claims, va_actor_id = vc_actor_id claims,
            va_roles = vc_roles claims, va_capabilities = vc_capabilities claims,
            va_revoke_epoch = vc_revoke_epoch claims, va_audience_workload_id = None\<rparr>))))"

definition authorization_input_of :: "authorization_request \<Rightarrow> verified_actor \<Rightarrow> authorization_input" where
  "authorization_input_of request actor =
     \<lparr>ai_tenant_id = ar_tenant_id request, ai_actor_id = va_actor_id actor, ai_roles = va_roles actor,
      ai_capabilities = va_capabilities actor, ai_actor_proof_revoke_epoch = va_revoke_epoch actor,
      ai_evaluated_at_epoch_ms = ar_evaluated_at_epoch_ms request,
      ai_workflow_type = ar_workflow_type request, ai_workflow_version = ar_workflow_version request,
      ai_active_node_id = ar_active_node_id request, ai_action = ar_action request\<rparr>"

definition embedded_authorize ::
  "'k authz_library \<Rightarrow> ('j, 'd) jwt_library \<Rightarrow> authz_messages \<Rightarrow> ('k, 'j) embedded_provider
   \<Rightarrow> authorization_request \<Rightarrow> authorization_error + authorized_principal" where
  "embedded_authorize lib jwt messages p request =
     and_then (verify_actor lib jwt messages p request) (\<lambda>actor.
     and_then (map_err (\<lambda>e. InvalidWorkloadProof (am_proof messages e))
       (workload_open lib (ar_workload_proof request) (ep_workload_keys p) (ep_proof_limits p))) (\<lambda>workload.
     if va_tenant_id actor \<noteq> ar_tenant_id request \<or> sw_tenant_id workload \<noteq> ar_tenant_id request
        \<or> sw_command_id workload \<noteq> ar_command_id request
     then Inl ScopeMismatch
     else if \<not> valid_at (sw_issued_at_epoch_ms workload) (sw_expires_at_epoch_ms workload)
            (ar_evaluated_at_epoch_ms request)
     then Inl WorkloadProofOutsideValidity
     else if (case va_audience_workload_id actor of None \<Rightarrow> False
              | Some aud \<Rightarrow> aud \<noteq> sw_workload_id workload)
     then Inl WorkloadAudienceMismatch
     else and_then (map_err (\<lambda>e. AuthorizationUnavailable (am_store messages e))
       (store_evaluate (ep_tenants p) (authorization_input_of request actor))) (\<lambda>decision.
     if de_decision decision = DecisionDeny
     then Inl (Denied (case de_deny_reason decision of None \<Rightarrow> ''UNKNOWN_DENY''
                       | Some reason \<Rightarrow> deny_code reason))
     else and_then (map_err (\<lambda>_. InvalidVerifiedIdentity) (identifier_new ''ActorId'' (va_actor_id actor)))
       (\<lambda>actor_id.
     and_then (map_err (\<lambda>_. InvalidVerifiedIdentity)
       (identifier_new ''PolicyVersion'' (de_policy_version decision))) (\<lambda>policy_version.
     Inr \<lparr>ap_actor_id = actor_id, ap_roles = va_roles actor, ap_workload_id = sw_workload_id workload,
       ap_policy_version = policy_version, ap_bundle_sequence = de_bundle_sequence decision,
       ap_revoke_epoch = de_required_revoke_epoch decision,
       ap_matched_grant_ids = de_matched_grant_ids decision\<rparr>)))))"

section \<open>Command handling behind a provider\<close>

locale authorization_contract =
  fixes authorize :: "authorization_request \<Rightarrow> authorization_error + authorized_principal"
    and permitted :: "authorization_request \<Rightarrow> authorized_principal \<Rightarrow> bool"
  assumes authorize_permitted: "authorize request = Inr authorized \<Longrightarrow> permitted request authorized"
begin

lemma handle_permitted:
  assumes "handle port authorize resolve s d request = (res, s')" and "isl res \<Longrightarrow> s' \<noteq> s"
  shows "\<exists>authorized. authorize (authorization_of d request) = Inr authorized
    \<and> permitted (authorization_of d request) authorized \<and> ac_tenant_id request = wd_tenant_id d"
  using assms authorize_permitted by (auto simp: handle_def split: if_splits sum.splits)

text \<open>The audit record of a prepared commit names the principal the provider returned.\<close>

lemma commit_audited:
  assumes "authorize (authorization_of d request) = Inr authorized"
    and "prepare_commit port resolve s d request authorized = Inr r"
  shows "permitted (authorization_of d request) authorized
    \<and> aa_actor_id (cr_authorization_audit r) = ap_actor_id authorized
    \<and> aa_matched_grant_ids (cr_authorization_audit r) = ap_matched_grant_ids authorized"
proof -
  from assms(2) obtain cfg loaded where "decide_commit d request authorized cfg loaded = Inr r"
    by (rule prepare_commit_Inr)
  then have "aa_actor_id (cr_authorization_audit r) = ap_actor_id authorized
      \<and> aa_matched_grant_ids (cr_authorization_audit r) = ap_matched_grant_ids authorized"
    by (auto simp: decide_commit_def and_then_Inr Let_def build_authorization_audit_def
        split: prod.splits if_splits)
  then show ?thesis using authorize_permitted [OF assms(1)] by simp
qed

end

text \<open>
  The evidence behind a verified actor: a context signed under the provider's keys for this
  command, or a token whose signature the library checked and whose claims are current.
\<close>

definition token_evidence ::
  "('j, 'd) jwt_library \<Rightarrow> 'j jwt_verifier \<Rightarrow> u8 list \<Rightarrow> u64 \<Rightarrow> actor_jwt_claims \<Rightarrow> bool" where
  "token_evidence jwt verifier bytes now claims \<longleftrightarrow>
     (\<exists>token alg key_id jwk key. from_utf8 bytes = Some token
        \<and> jl_decode_header jwt token = Some (alg, Some key_id)
        \<and> alg \<in> set (jw_allowed_algorithms (jv_config verifier))
        \<and> jl_find jwt (jv_jwks verifier) key_id = Some jwk \<and> jl_decoding_key jwt jwk = Some key
        \<and> jl_decode jwt token key (jw_allowed_algorithms (jv_config verifier)) = Some claims)
     \<and> jc_iss claims \<in> set (jw_issuers (jv_config verifier))
     \<and> audience_matches (jc_aud claims) (jw_audiences (jv_config verifier))
     \<and> unat now < unat (jc_exp claims) + unat (jw_clock_skew_seconds (jv_config verifier))"

definition actor_evidence ::
  "'k authz_library \<Rightarrow> ('j, 'd) jwt_library \<Rightarrow> ('k, 'j) embedded_provider \<Rightarrow> authorization_request
   \<Rightarrow> verified_actor \<Rightarrow> bool" where
  "actor_evidence lib jwt p request actor \<longleftrightarrow>
     (case ar_actor_proof_kind request of
        SignedInternalContext \<Rightarrow>
          (\<exists>signed. actor_open lib (ar_actor_proof request) (ep_actor_keys p) (ep_proof_limits p) = Inr signed
             \<and> sa_command_id signed = ar_command_id request
             \<and> valid_at (sa_issued_at_epoch_ms signed) (sa_expires_at_epoch_ms signed)
                 (ar_evaluated_at_epoch_ms request)
             \<and> va_tenant_id actor = sa_tenant_id signed \<and> va_actor_id actor = sa_actor_id signed
             \<and> va_roles actor = sa_roles signed \<and> va_capabilities actor = sa_capabilities signed
             \<and> va_revoke_epoch actor = sa_revoke_epoch signed
             \<and> va_audience_workload_id actor = Some (sa_audience_workload_id signed))
      | OriginalJwt \<Rightarrow>
          (\<exists>verifier claims. ep_jwt_verifier p = Some verifier
             \<and> token_evidence jwt verifier (ar_actor_proof request)
                 (ar_evaluated_at_epoch_ms request div 1000) claims
             \<and> va_tenant_id actor = jc_tenant_id claims \<and> va_actor_id actor = jc_sub claims
             \<and> set (va_roles actor) = set (jc_roles claims)
             \<and> set (va_capabilities actor) = set (jc_capabilities claims)
             \<and> va_revoke_epoch actor = jc_revoke_epoch claims))"

lemma jwt_verify_evidence:
  assumes "jwt_verify jwt verifier token now = Inr vc" and "from_utf8 bytes = Some token"
  shows "\<exists>claims. token_evidence jwt verifier bytes now claims
    \<and> vc_tenant_id vc = jc_tenant_id claims \<and> vc_actor_id vc = jc_sub claims
    \<and> set (vc_roles vc) = set (jc_roles claims) \<and> set (vc_capabilities vc) = set (jc_capabilities claims)
    \<and> vc_revoke_epoch vc = jc_revoke_epoch claims"
proof -
  from assms(1) obtain alg key_id jwk key claims where
    token: "jl_decode_header jwt token = Some (alg, Some key_id)"
      "alg \<in> set (jw_allowed_algorithms (jv_config verifier))"
      "jl_find jwt (jv_jwks verifier) key_id = Some jwk" "jl_decoding_key jwt jwk = Some key"
      "jl_decode jwt token key (jw_allowed_algorithms (jv_config verifier)) = Some claims"
    and claims: "validate_claims (jv_config verifier) claims now = Inr vc"
    unfolding jwt_verify_def Let_def if_Inl_Inr and_then_Inr ok_or_Inr
    by (auto simp: and_then_Inr ok_or_Inr split: if_split_asm)
  from claims obtain latest where
    latest: "checked_add (jc_exp claims) (jw_clock_skew_seconds (jv_config verifier)) = Some latest" "now < latest"
    and scope: "jc_iss claims \<in> set (jw_issuers (jv_config verifier))"
      "audience_matches (jc_aud claims) (jw_audiences (jv_config verifier))"
    and vc: "vc_tenant_id vc = jc_tenant_id claims" "vc_actor_id vc = jc_sub claims"
      "set (vc_roles vc) = set (jc_roles claims)" "set (vc_capabilities vc) = set (jc_capabilities claims)"
      "vc_revoke_epoch vc = jc_revoke_epoch claims"
    by (auto simp: validate_claims_def and_then_Inr ok_or_Inr Let_def not_le canonical_strings_def split: if_split_asm)
  have "unat now < unat (jc_exp claims) + unat (jw_clock_skew_seconds (jv_config verifier))"
    using latest unat_checked_add [OF latest(1)] by (simp add: word_less_nat_alt)
  then show ?thesis
    using token scope vc assms(2) unfolding token_evidence_def by blast
qed

lemma verify_actor_evidence:
  assumes "verify_actor lib jwt messages p request = Inr actor"
  shows "actor_evidence lib jwt p request actor"
proof (cases "ar_actor_proof_kind request")
  case SignedInternalContext
  then show ?thesis
    using assms
    by (auto simp: verify_actor_def actor_evidence_def and_then_Inr map_err_Inr split: if_split_asm)
next
  case OriginalJwt
  with assms obtain verifier token vc where v: "ep_jwt_verifier p = Some verifier"
    and token: "from_utf8 (ar_actor_proof request) = Some token"
    and vc: "jwt_verify jwt verifier token (ar_evaluated_at_epoch_ms request div 1000) = Inr vc"
    and actor: "actor = \<lparr>va_tenant_id = vc_tenant_id vc, va_actor_id = vc_actor_id vc,
            va_roles = vc_roles vc, va_capabilities = vc_capabilities vc,
            va_revoke_epoch = vc_revoke_epoch vc, va_audience_workload_id = None\<rparr>"
    by (auto simp: verify_actor_def and_then_Inr ok_or_Inr map_err_Inr)
  from jwt_verify_evidence [OF vc token] show ?thesis
    using OriginalJwt v by (auto simp: actor_evidence_def actor)
qed

text \<open>What the embedded provider checks before it returns a principal.\<close>

definition policy_permits ::
  "'k authz_library \<Rightarrow> ('j, 'd) jwt_library \<Rightarrow> ('k, 'j) embedded_provider
   \<Rightarrow> authorization_request \<Rightarrow> authorized_principal \<Rightarrow> bool" where
  "policy_permits lib jwt p request authorized \<longleftrightarrow>
     (\<exists>actor workload s. actor_evidence lib jwt p request actor
        \<and> va_tenant_id actor = ar_tenant_id request \<and> va_actor_id actor = ap_actor_id authorized
        \<and> va_roles actor = ap_roles authorized
        \<and> workload_open lib (ar_workload_proof request) (ep_workload_keys p) (ep_proof_limits p) = Inr workload
        \<and> sw_tenant_id workload = ar_tenant_id request \<and> sw_command_id workload = ar_command_id request
        \<and> sw_workload_id workload = ap_workload_id authorized
        \<and> va_audience_workload_id actor \<in> {None, Some (sw_workload_id workload)}
        \<and> valid_at (sw_issued_at_epoch_ms workload) (sw_expires_at_epoch_ms workload)
            (ar_evaluated_at_epoch_ms request)
        \<and> bt_get (ep_tenants p) (ar_tenant_id request) = Some s
        \<and> (let decision = evaluate (tn_bundle s)
                 \<lparr>ai_tenant_id = ar_tenant_id request, ai_actor_id = va_actor_id actor, ai_roles = va_roles actor,
                  ai_capabilities = va_capabilities actor, ai_actor_proof_revoke_epoch = va_revoke_epoch actor,
                  ai_evaluated_at_epoch_ms = ar_evaluated_at_epoch_ms request,
                  ai_workflow_type = ar_workflow_type request, ai_workflow_version = ar_workflow_version request,
                  ai_active_node_id = ar_active_node_id request, ai_action = ar_action request\<rparr>
                 \<lparr>rs_tenant_epoch = tn_tenant_revoke_floor s,
                  rs_actor_epoch = (case bt_get (tn_actor_revoke_floors s) (va_actor_id actor) of
                    None \<Rightarrow> 0 | Some e \<Rightarrow> e)\<rparr>
           in de_decision decision = DecisionAllow
              \<and> ap_matched_grant_ids authorized = de_matched_grant_ids decision
              \<and> ap_bundle_sequence authorized = de_bundle_sequence decision))"

lemma embedded_authorize_permits:
  assumes "embedded_authorize lib jwt messages p request = Inr authorized"
  shows "policy_permits lib jwt p request authorized"
proof -
  from assms obtain actor workload decision where
    actor: "verify_actor lib jwt messages p request = Inr actor"
      "va_tenant_id actor = ar_tenant_id request" "va_actor_id actor = ap_actor_id authorized"
      "va_roles actor = ap_roles authorized"
    and workload: "workload_open lib (ar_workload_proof request) (ep_workload_keys p) (ep_proof_limits p) = Inr workload"
      "sw_tenant_id workload = ar_tenant_id request" "sw_command_id workload = ar_command_id request"
      "sw_workload_id workload = ap_workload_id authorized"
      "va_audience_workload_id actor \<in> {None, Some (sw_workload_id workload)}"
      "valid_at (sw_issued_at_epoch_ms workload) (sw_expires_at_epoch_ms workload) (ar_evaluated_at_epoch_ms request)"
    and decision: "store_evaluate (ep_tenants p) (authorization_input_of request actor) = Inr decision"
      "de_decision decision \<noteq> DecisionDeny" "ap_matched_grant_ids authorized = de_matched_grant_ids decision"
      "ap_bundle_sequence authorized = de_bundle_sequence decision"
    by (fastforce simp: embedded_authorize_def and_then_Inr map_err_Inr identifier_new_def split: if_splits option.splits)
  have allow: "de_decision decision = DecisionAllow" using decision(2) by (cases "de_decision decision") simp_all
  obtain s where "bt_get (ep_tenants p) (ar_tenant_id request) = Some s"
    "decision = evaluate (tn_bundle s) (authorization_input_of request actor)
       \<lparr>rs_tenant_epoch = tn_tenant_revoke_floor s,
        rs_actor_epoch = (case bt_get (tn_actor_revoke_floors s) (va_actor_id actor) of
          None \<Rightarrow> 0 | Some e \<Rightarrow> e)\<rparr>"
    using decision(1) by (auto simp: store_evaluate_def and_then_Inr ok_or_Inr authorization_input_of_def)
  then show ?thesis
    unfolding policy_permits_def Let_def authorization_input_of_def
    using verify_actor_evidence [OF actor(1)] actor(2-4) workload allow decision(3,4) by blast
qed

interpretation embedded: authorization_contract "embedded_authorize lib jwt messages p"
  "policy_permits lib jwt p"
  for lib jwt messages p
  by unfold_locales (rule embedded_authorize_permits)

text \<open>
  C39. No command takes effect without policy. When the engine runs behind the embedded
  provider and answers a command, or changes its store, then: the command carries evidence
  of its actor (a context signed for this command under the provider's keys, or a token
  that the verifier accepts) and a workload proof for this command, both for the tenant of
  the workflow; the policy store holds a bundle of that tenant which was opened under the
  provider's keys and is valid at the evaluation time; the revocation epoch in the actor's
  evidence is not below the epoch of the bundle, of the actor in it, or of the revocations
  received for the tenant and the actor; and with the roles and capabilities of that
  evidence, a grant of the bundle allows the command's action on its node and workflow, and
  no grant that matches denies it. The policy store may be in any state that installs and
  revocations lead to.
\<close>

theorem commands_need_policy:
  assumes policies: "(authz_step lib keys limits)\<^sup>*\<^sup>* [] (ep_tenants p)"
    and handled: "handle port (embedded_authorize lib jwt messages p) resolve s d request = (res, s')"
    and effect: "isl res \<Longrightarrow> s' \<noteq> s"
  shows "\<exists>authorized actor workload ts bytes g i.
    embedded_authorize lib jwt messages p (authorization_of d request) = Inr authorized
    \<and> actor_evidence lib jwt p (authorization_of d request) actor
    \<and> va_tenant_id actor = ac_tenant_id request \<and> ac_tenant_id request = wd_tenant_id d
    \<and> va_actor_id actor = ap_actor_id authorized
    \<and> workload_open lib (ac_workload_proof request) (ep_workload_keys p) (ep_proof_limits p) = Inr workload
    \<and> sw_tenant_id workload = ac_tenant_id request \<and> sw_command_id workload = ac_command_id request
    \<and> valid_at (sw_issued_at_epoch_ms workload) (sw_expires_at_epoch_ms workload)
        (ac_evaluated_at_epoch_ms request)
    \<and> va_audience_workload_id actor \<in> {None, Some (sw_workload_id workload)}
    \<and> bt_get (ep_tenants p) (ac_tenant_id request) = Some ts
    \<and> bundle_open lib bytes keys limits = Inr (tn_bundle ts)
    \<and> pl_tenant_id (tn_bundle ts) = ac_tenant_id request
    \<and> pl_valid_from_epoch_ms (tn_bundle ts) \<le> ac_evaluated_at_epoch_ms request
    \<and> ac_evaluated_at_epoch_ms request < pl_expires_at_epoch_ms (tn_bundle ts)
    \<and> pl_revoke_epoch (tn_bundle ts) \<le> va_revoke_epoch actor
    \<and> (\<forall>a \<in> set (pl_actor_revoke_epochs (tn_bundle ts)).
         ae_actor_id a = va_actor_id actor \<longrightarrow> ae_revoke_epoch a \<le> va_revoke_epoch actor)
    \<and> tn_tenant_revoke_floor ts \<le> va_revoke_epoch actor
    \<and> (case bt_get (tn_actor_revoke_floors ts) (va_actor_id actor) of None \<Rightarrow> 0 | Some e \<Rightarrow> e)
        \<le> va_revoke_epoch actor
    \<and> i = \<lparr>ai_tenant_id = ac_tenant_id request, ai_actor_id = va_actor_id actor, ai_roles = va_roles actor,
        ai_capabilities = va_capabilities actor, ai_actor_proof_revoke_epoch = va_revoke_epoch actor,
        ai_evaluated_at_epoch_ms = ac_evaluated_at_epoch_ms request,
        ai_workflow_type = wd_workflow_type d, ai_workflow_version = wd_workflow_version d,
        ai_active_node_id = fst (transition_selector d (ac_command request)),
        ai_action = snd (transition_selector d (ac_command request))\<rparr>
    \<and> g \<in> set (pl_grants (tn_bundle ts)) \<and> gr_effect g = 1 \<and> grant_matches g i
    \<and> \<not> (\<exists>g \<in> set (pl_grants (tn_bundle ts)). gr_effect g = 2 \<and> grant_matches g i)"
proof -
  obtain authorized where authorized: "embedded_authorize lib jwt messages p (authorization_of d request) = Inr authorized"
    and permits: "policy_permits lib jwt p (authorization_of d request) authorized"
    and tenant: "ac_tenant_id request = wd_tenant_id d"
    using embedded.handle_permitted [OF handled effect] by blast
  have request: "ar_tenant_id (authorization_of d request) = ac_tenant_id request"
      "ar_workload_proof (authorization_of d request) = ac_workload_proof request"
      "ar_command_id (authorization_of d request) = ac_command_id request"
      "ar_evaluated_at_epoch_ms (authorization_of d request) = ac_evaluated_at_epoch_ms request"
      "ar_workflow_type (authorization_of d request) = wd_workflow_type d"
      "ar_workflow_version (authorization_of d request) = wd_workflow_version d"
      "ar_active_node_id (authorization_of d request) = fst (transition_selector d (ac_command request))"
      "ar_action (authorization_of d request) = snd (transition_selector d (ac_command request))"
    by (simp_all add: authorization_of_def split: prod.split)
  let ?i = "\<lambda>actor. \<lparr>ai_tenant_id = ac_tenant_id request, ai_actor_id = va_actor_id actor,
      ai_roles = va_roles actor, ai_capabilities = va_capabilities actor,
      ai_actor_proof_revoke_epoch = va_revoke_epoch actor,
      ai_evaluated_at_epoch_ms = ac_evaluated_at_epoch_ms request,
      ai_workflow_type = wd_workflow_type d, ai_workflow_version = wd_workflow_version d,
      ai_active_node_id = fst (transition_selector d (ac_command request)),
      ai_action = snd (transition_selector d (ac_command request))\<rparr>"
  from permits obtain actor workload ts where
    actor: "actor_evidence lib jwt p (authorization_of d request) actor"
      "va_tenant_id actor = ac_tenant_id request" "va_actor_id actor = ap_actor_id authorized"
    and workload: "workload_open lib (ac_workload_proof request) (ep_workload_keys p) (ep_proof_limits p) = Inr workload"
      "sw_tenant_id workload = ac_tenant_id request" "sw_command_id workload = ac_command_id request"
      "valid_at (sw_issued_at_epoch_ms workload) (sw_expires_at_epoch_ms workload)
        (ac_evaluated_at_epoch_ms request)"
      "va_audience_workload_id actor \<in> {None, Some (sw_workload_id workload)}"
    and ts: "bt_get (ep_tenants p) (ac_tenant_id request) = Some ts"
    and allow: "de_decision (evaluate (tn_bundle ts) (?i actor)
       \<lparr>rs_tenant_epoch = tn_tenant_revoke_floor ts,
        rs_actor_epoch = (case bt_get (tn_actor_revoke_floors ts) (va_actor_id actor) of
          None \<Rightarrow> 0 | Some e \<Rightarrow> e)\<rparr>) = DecisionAllow"
    unfolding policy_permits_def Let_def request by blast
  obtain bytes where bytes: "bundle_open lib bytes keys limits = Inr (tn_bundle ts)"
    using tenants_ok_reachable [OF policies] ts by (auto simp: tenants_ok_def)
  note decided = evaluate_decision [OF bundle_open_Inr(1) [OF bytes], THEN conjunct1, THEN iffD1, OF allow,
      simplified authorization_input.simps revocation_snapshot.simps]
  then obtain g where g: "g \<in> set (pl_grants (tn_bundle ts))" "gr_effect g = 1" "grant_matches g (?i actor)"
    by blast
  show ?thesis
    by (rule exI [of _ authorized], rule exI [of _ actor], rule exI [of _ workload], rule exI [of _ ts],
        rule exI [of _ bytes], rule exI [of _ g], rule exI [of _ "?i actor"])
      (use decided authorized actor workload ts bytes tenant g in auto)
qed

end
