(* ===== verification/Authz_Examples.thy ===== *)
theory Authz_Examples
  imports Authz_Provider Engine_Examples
begin

text \<open>
  A policy bundle, a revocation and a provider for the order workflow, with small concrete
  functions in place of the serialisation, hash and signature libraries.
\<close>

definition ax_grant :: policy_grant where
  "ax_grant =
     \<lparr>gr_grant_id = ''g'', gr_actor_ids = [], gr_roles = [''clerk''], gr_required_capabilities = [],
      gr_workflow_type = ''o'', gr_workflow_version = ''*'', gr_active_node_id = ''*'',
      gr_action = ''START'', gr_effect = 1, gr_priority = 0\<rparr>"

definition ax_bundle :: policy_bundle where
  "ax_bundle =
     \<lparr>pl_schema_version = 1, pl_tenant_id = ''t'', pl_bundle_sequence = 1, pl_policy_version = ''p'',
      pl_revoke_epoch = 1, pl_valid_from_epoch_ms = 1, pl_expires_at_epoch_ms = 100,
      pl_grants = [ax_grant], pl_actor_revoke_epochs = [], pl_signing_key_id = ''key'',
      pl_content_hash = [], pl_signature = []\<rparr>"

definition ax_signed :: policy_bundle where
  "ax_signed = ax_bundle\<lparr>pl_content_hash := [9], pl_signature := [9, 5]\<rparr>"

definition ax_update :: revoke_update where
  "ax_update =
     \<lparr>ru_schema_version = 1, ru_tenant_id = ''t'', ru_actor_id = ''alice'', ru_revoke_epoch = 3,
      ru_bundle_sequence = 1, ru_issued_at_epoch_ms = 5, ru_signing_key_id = ''key'',
      ru_content_hash = [9], ru_signature = [9, 5]\<rparr>"

definition ax_workload :: signed_workload_context where
  "ax_workload =
     \<lparr>sw_schema_version = 1, sw_tenant_id = ''t'', sw_workload_id = ''gateway'', sw_command_id = ''c'',
      sw_issued_at_epoch_ms = 1, sw_expires_at_epoch_ms = 100, sw_signing_key_id = ''key'',
      sw_content_hash = [9], sw_signature = [9, 5]\<rparr>"

text \<open>A message is encoded as one byte; the hash is constant; a signature appends the key.\<close>

definition ax_library :: "u8 authz_library" where
  "ax_library =
     \<lparr>al_bundle = \<lparr>mc_encode = (\<lambda>b. if b = ax_signed then [1] else [0]),
        mc_decode = (\<lambda>bytes. if bytes = [1] then Inr ax_signed else Inl ''unknown'')\<rparr>,
      al_revoke = \<lparr>mc_encode = (\<lambda>u. if u = ax_update then [2] else [0]),
        mc_decode = (\<lambda>bytes. if bytes = [2] then Inr ax_update else Inl ''unknown'')\<rparr>,
      al_actor = \<lparr>mc_encode = (\<lambda>p. [0]), mc_decode = (\<lambda>bytes. Inl ''unknown'')\<rparr>,
      al_workload = \<lparr>mc_encode = (\<lambda>p. if p = ax_workload then [] else [0]),
        mc_decode = (\<lambda>bytes. if bytes = [] then Inr ax_workload else Inl ''unknown'')\<rparr>,
      al_sha256 = (\<lambda>bytes. [9]),
      al_key_from_bytes = (\<lambda>bytes. case bytes of [k] \<Rightarrow> Some k | _ \<Rightarrow> None),
      al_verify = (\<lambda>k digest signature. signature = digest @ [k])\<rparr>"

definition ax_keys :: "u8 keyring" where
  "ax_keys = [(''key'', 5)]"

definition ax_limits :: artifact_limits where
  "ax_limits = \<lparr>lim_max_artifact_bytes = 10, lim_max_grants = 10\<rparr>"

lemmas ax_defs = ax_grant_def ax_bundle_def ax_signed_def ax_update_def ax_workload_def ax_library_def
  ax_keys_def ax_limits_def

lemmas artifact_defs = validate_bundle_def validate_schema_def AUTHORIZATION_BUNDLE_SCHEMA_VERSION_def
  validate_nonempty_def validate_key_id_def validate_grant_def validate_nonempty_values_def
  policy_effect_of_def canonicalize_bundle_def canonicalize_grant_def canonical_strings_def
  bundle_digest_def check_size_def keyring_verify_def map_err_def Let_def bt_get_Cons

lemma ax_keys_inserted: "keyring_insert ax_library [] ''key'' [5] = Inr ax_keys"
  by (simp add: keyring_insert_def ax_defs bt_contains_key_def)

lemma ax_sealed: "bundle_seal ax_library ax_bundle ''key'' (\<lambda>d. d @ [5]) ax_limits = Inr [1]"
  by (simp add: bundle_seal_def ax_defs artifact_defs word_le_nat_alt)

lemma ax_opened: "bundle_open ax_library [1] ax_keys ax_limits = Inr ax_signed"
  by (simp add: bundle_open_def ax_defs artifact_defs word_le_nat_alt)

theorem bundle_seal_open_witness:
  "\<exists>opened. bundle_open ax_library [1] ax_keys ax_limits = Inr opened \<and> bundle_ok opened
    \<and> opened\<lparr>pl_content_hash := pl_content_hash ax_bundle, pl_signature := pl_signature ax_bundle\<rparr> =
        canonicalize_bundle (ax_bundle\<lparr>pl_signing_key_id := ''key''\<rparr>)"
  by (rule bundle_seal_open [OF ax_sealed, where k = 5])
     (auto simp: ax_library_def ax_keys_def bt_get_Cons split: if_splits)

lemma ax_signed_ok: "bundle_ok ax_signed"
  using bundle_open_Inr(1) [OF ax_opened] .

section \<open>Decisions and revocation\<close>

definition ax_input :: authorization_input where
  "ax_input =
     \<lparr>ai_tenant_id = ''t'', ai_actor_id = ''alice'', ai_roles = [''clerk''], ai_capabilities = [],
      ai_actor_proof_revoke_epoch = 2, ai_evaluated_at_epoch_ms = 7, ai_workflow_type = ''o'',
      ai_workflow_version = ''1'', ai_active_node_id = ''s'', ai_action = ''START''\<rparr>"

theorem evaluate_allows_witness:
  "de_decision (evaluate ax_signed ax_input \<lparr>rs_tenant_epoch = 1, rs_actor_epoch = 2\<rparr>) = DecisionAllow
   \<and> de_matched_grant_ids (evaluate ax_signed ax_input \<lparr>rs_tenant_epoch = 1, rs_actor_epoch = 2\<rparr>) = [''g'']"
  using evaluate_allows [OF ax_signed_ok, of ax_input "\<lparr>rs_tenant_epoch = 1, rs_actor_epoch = 2\<rparr>"]
  by (simp add: ax_defs ax_input_def grant_matches_def subject_matches_def selector_matches_def
      word_le_nat_alt word_less_nat_alt)

definition ax_tenants :: tenants where
  "ax_tenants = snd (install_signed_bundle ax_library ax_keys ax_limits [] [1])"

definition ax_revoked :: tenants where
  "ax_revoked = snd (apply_signed_revoke_update ax_library ax_keys ax_limits ax_tenants [2])"

lemma ax_tenants_eq:
  "ax_tenants = [(''t'', \<lparr>tn_bundle = ax_signed, tn_tenant_revoke_floor = 1, tn_actor_revoke_floors = []\<rparr>)]"
proof -
  have "pl_tenant_id ax_signed = ''t''" "pl_revoke_epoch ax_signed = 1"
    by (simp_all add: ax_signed_def ax_bundle_def)
  then show ?thesis
    by (simp add: ax_tenants_def install_signed_bundle_def ax_opened install_bundle_def bt_remove_def)
qed

lemma ax_update_opened: "revoke_open ax_library [2] ax_keys ax_limits = Inr ax_update"
  by (simp add: revoke_open_def ax_defs artifact_defs validate_revoke_update_def revoke_digest_def)

lemma ax_revoked_accepted:
  "apply_signed_revoke_update ax_library ax_keys ax_limits ax_tenants [2] = (Inr Installed, ax_revoked)"
proof -
  have "pl_bundle_sequence ax_signed = 1" by (simp add: ax_signed_def ax_bundle_def)
  then have "fst (apply_signed_revoke_update ax_library ax_keys ax_limits ax_tenants [2]) = Inr Installed"
    by (simp add: apply_signed_revoke_update_def ax_update_opened apply_revoke_update_def ax_tenants_eq
        ax_update_def bt_get_Cons with_floor_entry_def bt_contains_key_def floor_of_def Let_def)
  then show ?thesis by (simp add: ax_revoked_def prod_eq_iff)
qed

theorem revocation_sticks_witness:
  "\<exists>decision. store_evaluate (snd (install_signed_bundle ax_library ax_keys ax_limits ax_revoked [1])) ax_input =
      Inr decision \<and> de_decision decision = DecisionDeny"
proof (rule revocation_sticks [OF ax_update_opened ax_revoked_accepted])
  show "(authz_step ax_library ax_keys ax_limits)\<^sup>*\<^sup>* ax_revoked
      (snd (install_signed_bundle ax_library ax_keys ax_limits ax_revoked [1]))"
    by (intro r_into_rtranclp authz_step.installed)
qed (simp_all add: ax_input_def ax_update_def word_less_nat_alt)

section \<open>A command behind the provider\<close>

definition ax_claims :: actor_jwt_claims where
  "ax_claims =
     \<lparr>jc_iss = ''idp'', jc_sub = ''alice'', jc_aud = AudienceOne ''bpmp'', jc_exp = 10, jc_nbf = None,
      jc_iat = 0, jc_tenant_id = ''t'', jc_roles = [''clerk''], jc_capabilities = [], jc_revoke_epoch = 1\<rparr>"

definition ax_jwt :: "(unit, unit) jwt_library" where
  "ax_jwt =
     \<lparr>jl_parse_jwks = (\<lambda>bytes. Some [()]), jl_decode_header = (\<lambda>token. Some (RS256, Some ''kid'')),
      jl_find = (\<lambda>jwks key_id. Some ()), jl_decoding_key = Some,
      jl_decode = (\<lambda>token key algorithms. Some ax_claims)\<rparr>"

definition ax_jwt_config :: jwt_config where
  "ax_jwt_config =
     \<lparr>jw_issuers = [''idp''], jw_audiences = [''bpmp''], jw_allowed_algorithms = [RS256],
      jw_max_token_bytes = 10, jw_max_jwks_keys = 1, jw_max_roles = 2, jw_max_capabilities = 2,
      jw_clock_skew_seconds = 0\<rparr>"

definition ax_messages :: authz_messages where
  "ax_messages = \<lparr>am_proof = (\<lambda>_. ''proof''), am_jwt = (\<lambda>_. ''jwt''), am_store = (\<lambda>_. ''store'')\<rparr>"

definition ax_provider :: "(u8, unit) embedded_provider" where
  "ax_provider =
     \<lparr>ep_actor_keys = ax_keys, ep_workload_keys = ax_keys,
      ep_proof_limits = \<lparr>pr_proof_bytes = 10, pr_roles = 2, pr_capabilities = 2\<rparr>,
      ep_tenants = ax_tenants, ep_jwt_verifier = Some \<lparr>jv_config = ax_jwt_config, jv_jwks = [()]\<rparr>\<rparr>"

lemma ax_provider_fields:
  "ep_workload_keys ax_provider = ax_keys" "ep_tenants ax_provider = ax_tenants"
  "ep_proof_limits ax_provider = \<lparr>pr_proof_bytes = 10, pr_roles = 2, pr_capabilities = 2\<rparr>"
  by (simp_all add: ax_provider_def)

lemma ax_actor:
  "verify_actor ax_library ax_jwt ax_messages ax_provider (authorization_of ex_definition ex_request) =
    Inr \<lparr>va_tenant_id = ''t'', va_actor_id = ''alice'', va_roles = [''clerk''], va_capabilities = [],
      va_revoke_epoch = 1, va_audience_workload_id = None\<rparr>"
proof -
  have "ar_actor_proof_kind (authorization_of ex_definition ex_request) = OriginalJwt"
      "ar_actor_proof (authorization_of ex_definition ex_request) = []"
      "ar_evaluated_at_epoch_ms (authorization_of ex_definition ex_request) = 7"
    by (simp_all add: authorization_of_def ex_request_def split: prod.split)
  moreover have "(7 :: u64) div 1000 = 0" by simp
  moreover have "\<not> is_blank ''alice''" "\<not> is_blank ''t''" by code_simp+
  ultimately show ?thesis
    by (simp add: verify_actor_def ax_provider_def from_utf8_def jwt_verify_def ax_jwt_config_def ax_jwt_def
        validate_claims_def ax_claims_def checked_add_def saturating_sub_def canonical_strings_def
        map_err_def Let_def word_less_nat_alt word_le_nat_alt)
qed

lemma ax_workload_opened:
  "workload_open ax_library [] ax_keys \<lparr>pr_proof_bytes = 10, pr_roles = 2, pr_capabilities = 2\<rparr> = Inr ax_workload"
  by (simp add: workload_open_def ax_defs proof_check_size_def validate_workload_def validate_common_def
      AUTHORIZATION_PROOF_SCHEMA_VERSION_def verify_digest_def workload_digest_def keyring_verify_def
      map_err_def bt_get_Cons word_le_nat_alt)

lemma ax_request:
  "ar_tenant_id (authorization_of ex_definition ex_request) = ''t''"
  "ar_command_id (authorization_of ex_definition ex_request) = ''c''"
  "ar_workload_proof (authorization_of ex_definition ex_request) = []"
  "ar_evaluated_at_epoch_ms (authorization_of ex_definition ex_request) = 7"
  "ar_workflow_type (authorization_of ex_definition ex_request) = ''o''"
  "ar_workflow_version (authorization_of ex_definition ex_request) = ''1''"
  "ar_active_node_id (authorization_of ex_definition ex_request) = ''s''"
  "ar_action (authorization_of ex_definition ex_request) = ''START''"
  by (simp_all add: authorization_of_def ex_request_def ex_definition_def)

lemma ax_authorized:
  "embedded_authorize ax_library ax_jwt ax_messages ax_provider (authorization_of ex_definition ex_request) =
    Inr ex_principal"
proof -
  have fields: "pl_tenant_id ax_signed = ''t''" "pl_revoke_epoch ax_signed = 1" "pl_bundle_sequence ax_signed = 1"
      "pl_valid_from_epoch_ms ax_signed = 1" "pl_expires_at_epoch_ms ax_signed = 100"
      "pl_actor_revoke_epochs ax_signed = []" "pl_grants ax_signed = [ax_grant]"
      "pl_policy_version ax_signed = ''p''"
    by (simp_all add: ax_signed_def ax_bundle_def)
  have "\<not> is_blank ''alice''" "\<not> is_blank ''p''" by code_simp+
  then show ?thesis
    by (simp add: embedded_authorize_def ax_actor ax_provider_fields ax_workload_opened ax_request
        ax_workload_def valid_at_def store_evaluate_def ax_tenants_eq authorization_input_of_def bt_get_Cons
        evaluate_def fields required_revoke_epoch_def binary_search_by_def required_epoch_def
        grant_matches_def subject_matches_def selector_matches_def ax_grant_def policy_effect_of_def
        identifier_new_def ex_principal_def map_err_def Let_def word_le_nat_alt word_less_nat_alt)
qed

lemma ax_handled:
  "handle (memory_port ex_encode) (embedded_authorize ax_library ax_jwt ax_messages ax_provider) ex_resolve
     default_memory_state ex_definition ex_request = (Inr (HandleCommitted ex_result), ex_store)"
proof -
  have "ex_authorize (authorization_of ex_definition ex_request) = Inr ex_principal"
    by (simp add: ex_authorize_def ax_request)
  then show ?thesis using ex_handled by (simp add: handle_def ax_authorized)
qed

theorem commands_need_policy_witness:
  "\<exists>authorized actor (g :: policy_grant).
    embedded_authorize ax_library ax_jwt ax_messages ax_provider (authorization_of ex_definition ex_request) =
      Inr authorized
    \<and> actor_evidence ax_library ax_jwt ax_provider (authorization_of ex_definition ex_request) actor
    \<and> va_actor_id actor = ap_actor_id authorized \<and> gr_effect g = 1
    \<and> set (gr_required_capabilities g) \<subseteq> set (va_capabilities actor)"
proof -
  have "(authz_step ax_library ax_keys ax_limits)\<^sup>*\<^sup>* [] (ep_tenants ax_provider)"
    unfolding ax_provider_def embedded_provider.simps ax_tenants_def
    by (intro r_into_rtranclp authz_step.installed)
  from commands_need_policy [OF this ax_handled] obtain authorized actor g i where
    "embedded_authorize ax_library ax_jwt ax_messages ax_provider (authorization_of ex_definition ex_request) =
      Inr authorized"
    "actor_evidence ax_library ax_jwt ax_provider (authorization_of ex_definition ex_request) actor"
    "va_actor_id actor = ap_actor_id authorized" "gr_effect g = 1" "grant_matches g i"
    "ai_capabilities i = va_capabilities actor"
    by auto
  moreover from this have "set (gr_required_capabilities g) \<subseteq> set (va_capabilities actor)"
    by (auto simp: grant_matches_def list_all_iff)
  ultimately show ?thesis by blast
qed

end
