(* ===== verification/Raft_State_Machine.thy ===== *)
theory Raft_State_Machine
  imports BTree "HOL-Library.Product_Lexorder"
begin

text \<open>
  The replicated state machine (\<open>crates/bpmp-raft-state-machine\<close>): validation of prepared
  batches, their digest, atomic application with preconditions and idempotency on the
  in-memory storage, entries of the Raft log, and snapshots. JSON serialisation and SHA-256
  are the fields of \<open>raft_library\<close>; log positions and memberships are OpenRaft's, and only
  compared and stored. A snapshot file is its bytes.
\<close>

section \<open>Batches\<close>

type_synonym value_digest = "u8 list"
type_synonym storage_key = "string \<times> u8 list"

datatype expected_value = ExpectedMissing | ExpectedDigest value_digest

record precondition =
  pc_storage_key :: storage_key
  pc_expected :: expected_value

datatype mutation = Put storage_key "u8 list" | Delete storage_key

primrec mutation_key :: "mutation \<Rightarrow> storage_key" where
  "mutation_key (Put k v) = k"
| "mutation_key (Delete k) = k"

record atomic_batch =
  ab_command_id :: string
  ab_idempotency_scope :: "u8 list"
  ab_preconditions :: "precondition list"
  ab_mutations :: "mutation list"
  ab_response_payload :: "u8 list"
  ab_batch_digest :: value_digest

record state_machine_limits =
  sl_max_conditions :: u32
  sl_max_mutations :: u32
  sl_max_batch_bytes :: u64
  sl_max_snapshot_bytes :: u64
  sl_snapshot_directory :: string
  sl_append_only_column_families :: "string btree_set"

datatype batch_error =
    InvalidLimits
  | MissingIdentity
  | DigestMismatch
  | ConditionLimitExceeded
  | MutationLimitExceeded
  | BatchByteLimitExceeded
  | Serialization
  | InvalidStorageKey
  | DuplicateCondition
  | DuplicateMutation
  | AppendOnlyViolation

definition limits_validate :: "state_machine_limits \<Rightarrow> batch_error + unit" where
  "limits_validate l =
     (if sl_max_conditions l = 0 \<or> sl_max_mutations l = 0 \<or> sl_max_batch_bytes l = 0
         \<or> sl_max_snapshot_bytes l = 0 \<or> sl_snapshot_directory l = []
      then Inl InvalidLimits
      else if list_ex is_blank (sl_append_only_column_families l) then Inl InvalidLimits
      else Inr ())"

record applied_command =
  ad_command_id :: string
  ad_batch_digest :: value_digest
  ad_response_payload :: "u8 list"

text \<open>The serialisable part of the in-memory state.\<close>

type_synonym application_state =
  "(storage_key \<times> u8 list) list \<times> (u8 list \<times> applied_command) list"

record ('l, 'm) state_machine_metadata =
  md_last_applied :: "'l option"
  md_membership :: 'm

record ('l, 'm) persisted_snapshot =
  pt_metadata :: "('l, 'm) state_machine_metadata"
  pt_application_state :: "u8 list"

record ('l, 'm) raft_library =
  rl_sha256 :: "u8 list \<Rightarrow> u8 list"
  rl_batch_json :: "atomic_batch \<Rightarrow> u8 list option"
  rl_encode_state :: "application_state \<Rightarrow> string + u8 list"
  rl_decode_state :: "u8 list \<Rightarrow> string + application_state"
  rl_encode_snapshot :: "('l, 'm) persisted_snapshot \<Rightarrow> string + u8 list"
  rl_decode_snapshot :: "u8 list \<Rightarrow> string + ('l, 'm) persisted_snapshot"

section \<open>Digest\<close>

text \<open>What the hasher is fed: every variable part is preceded by its length or a tag.\<close>

definition be_bytes :: "u64 \<Rightarrow> u8 list" where
  "be_bytes w = map (\<lambda>i. ucast (drop_bit (8 * i) w)) (rev [0..<8])"

definition digest_bytes :: "u8 list \<Rightarrow> u8 list" where
  "digest_bytes v = be_bytes (of_nat (length v)) @ v"

definition string_bytes :: "string \<Rightarrow> u8 list" where
  "string_bytes s = map (\<lambda>c. of_nat (of_char c)) s"

definition digest_key :: "storage_key \<Rightarrow> u8 list" where
  "digest_key k = digest_bytes (string_bytes (fst k)) @ digest_bytes (snd k)"

primrec digest_expected :: "expected_value \<Rightarrow> u8 list" where
  "digest_expected ExpectedMissing = [0]"
| "digest_expected (ExpectedDigest d) = 1 # d"

definition digest_condition :: "precondition \<Rightarrow> u8 list" where
  "digest_condition c = digest_key (pc_storage_key c) @ digest_expected (pc_expected c)"

primrec digest_mutation :: "mutation \<Rightarrow> u8 list" where
  "digest_mutation (Put k v) = 1 # digest_key k @ digest_bytes v"
| "digest_mutation (Delete k) = 2 # digest_key k"

definition digest_input :: "atomic_batch \<Rightarrow> u8 list" where
  "digest_input b =
     digest_bytes (string_bytes ''bpmp-authoritative-atomic-batch-v1'')
     @ digest_bytes (string_bytes (ab_command_id b)) @ digest_bytes (ab_idempotency_scope b)
     @ be_bytes (of_nat (length (ab_preconditions b))) @ concat (map digest_condition (ab_preconditions b))
     @ be_bytes (of_nat (length (ab_mutations b))) @ concat (map digest_mutation (ab_mutations b))
     @ digest_bytes (ab_response_payload b)"

definition calculate_digest :: "('l, 'm) raft_library \<Rightarrow> atomic_batch \<Rightarrow> value_digest" where
  "calculate_digest lib b = rl_sha256 lib (digest_input b)"

definition batch_new ::
  "('l, 'm) raft_library \<Rightarrow> string \<Rightarrow> u8 list \<Rightarrow> precondition list \<Rightarrow> mutation list \<Rightarrow> u8 list
   \<Rightarrow> atomic_batch" where
  "batch_new lib command_id scope preconditions mutations payload =
     (let b = \<lparr>ab_command_id = command_id, ab_idempotency_scope = scope, ab_preconditions = preconditions,
            ab_mutations = mutations, ab_response_payload = payload, ab_batch_digest = replicate 32 0\<rparr>
      in b\<lparr>ab_batch_digest := calculate_digest lib b\<rparr>)"

section \<open>Validation\<close>

definition validate_storage_key :: "storage_key \<Rightarrow> batch_error + unit" where
  "validate_storage_key k = (if is_blank (fst k) \<or> snd k = [] then Inl InvalidStorageKey else Inr ())"

definition check_condition :: "storage_key btree_set \<Rightarrow> precondition \<Rightarrow> batch_error + storage_key btree_set" where
  "check_condition seen c =
     and_then (validate_storage_key (pc_storage_key c)) (\<lambda>_.
     if pc_storage_key c \<in> set seen then Inl DuplicateCondition
     else Inr (bs_insert (pc_storage_key c) seen))"

definition is_delete :: "mutation \<Rightarrow> bool" where
  "is_delete m = (case m of Put _ _ \<Rightarrow> False | Delete _ \<Rightarrow> True)"

definition check_mutation ::
  "state_machine_limits \<Rightarrow> precondition list \<Rightarrow> storage_key btree_set \<Rightarrow> mutation
   \<Rightarrow> batch_error + storage_key btree_set" where
  "check_mutation limits preconditions seen m =
     (let k = mutation_key m in
      and_then (validate_storage_key k) (\<lambda>_.
      if k \<in> set seen then Inl DuplicateMutation
      else if fst k \<in> set (sl_append_only_column_families limits)
         \<and> (is_delete m
            \<or> \<not> list_ex (\<lambda>c. pc_storage_key c = k \<and> pc_expected c = ExpectedMissing) preconditions)
      then Inl AppendOnlyViolation
      else Inr (bs_insert k seen)))"

definition batch_validate ::
  "('l, 'm) raft_library \<Rightarrow> state_machine_limits \<Rightarrow> atomic_batch \<Rightarrow> batch_error + unit" where
  "batch_validate lib limits b =
     and_then (limits_validate limits) (\<lambda>_.
     if is_blank (ab_command_id b) \<or> ab_idempotency_scope b = [] then Inl MissingIdentity
     else if calculate_digest lib b \<noteq> ab_batch_digest b then Inl DigestMismatch
     else if unat (sl_max_conditions limits) < length (ab_preconditions b) then Inl ConditionLimitExceeded
     else if unat (sl_max_mutations limits) < length (ab_mutations b) then Inl MutationLimitExceeded
     else and_then (ok_or (rl_batch_json lib b) Serialization) (\<lambda>json.
     if sl_max_batch_bytes limits < of_nat (length json) then Inl BatchByteLimitExceeded
     else and_then (try_fold check_condition [] (ab_preconditions b)) (\<lambda>_.
     and_then (try_fold (check_mutation limits (ab_preconditions b)) [] (ab_mutations b)) (\<lambda>_. Inr ()))))"

section \<open>In-memory storage\<close>

datatype apply_outcome = Applied | ApplyDuplicate | PreconditionFailed u32 | Rejected string

record apply_response =
  rp_command_id :: string
  rp_batch_digest :: value_digest
  rp_outcome :: apply_outcome
  rp_response_payload :: "u8 list"

record ('l, 'm) memory_raft_state =
  mr_records :: "(storage_key, u8 list) btree_map"
  mr_applied :: "(u8 list, applied_command) btree_map"
  mr_metadata :: "('l, 'm) state_machine_metadata"

definition default_raft_state :: "'m \<Rightarrow> ('l, 'm) memory_raft_state" where
  "default_raft_state membership =
     \<lparr>mr_records = [], mr_applied = [],
      mr_metadata = \<lparr>md_last_applied = None, md_membership = membership\<rparr>\<rparr>"

definition rejected :: "atomic_batch \<Rightarrow> string \<Rightarrow> apply_response" where
  "rejected b reason =
     \<lparr>rp_command_id = ab_command_id b, rp_batch_digest = ab_batch_digest b, rp_outcome = Rejected reason,
      rp_response_payload = []\<rparr>"

definition storage_get :: "('l, 'm) memory_raft_state \<Rightarrow> storage_key \<Rightarrow> u8 list option" where
  "storage_get s k = bt_get (mr_records s) k"

definition precondition_satisfied ::
  "('l, 'm) raft_library \<Rightarrow> (storage_key, u8 list) btree_map \<Rightarrow> precondition \<Rightarrow> bool" where
  "precondition_satisfied lib records c =
     (case (pc_expected c, bt_get records (pc_storage_key c)) of
        (ExpectedMissing, None) \<Rightarrow> True
      | (ExpectedDigest d, Some v) \<Rightarrow> rl_sha256 lib v = d
      | _ \<Rightarrow> False)"

fun first_failed :: "(precondition \<Rightarrow> bool) \<Rightarrow> nat \<Rightarrow> precondition list \<Rightarrow> nat option" where
  "first_failed ok index [] = None"
| "first_failed ok index (c # cs) = (if ok c then first_failed ok (Suc index) cs else Some index)"

primrec apply_mutation ::
  "mutation \<Rightarrow> (storage_key, u8 list) btree_map \<Rightarrow> (storage_key, u8 list) btree_map" where
  "apply_mutation (Put k v) records = bt_insert k v records"
| "apply_mutation (Delete k) records = bt_remove k records"

text \<open>\<open>show_error\<close> is the text of a validation error.\<close>

definition storage_apply ::
  "('l, 'm) raft_library \<Rightarrow> (batch_error \<Rightarrow> string) \<Rightarrow> state_machine_limits \<Rightarrow> atomic_batch
   \<Rightarrow> ('l, 'm) state_machine_metadata \<Rightarrow> ('l, 'm) memory_raft_state
   \<Rightarrow> apply_response \<times> ('l, 'm) memory_raft_state" where
  "storage_apply lib show_error limits b metadata s =
     (case batch_validate lib limits b of
        Inl e \<Rightarrow> (rejected b (show_error e), s\<lparr>mr_metadata := metadata\<rparr>)
      | Inr _ \<Rightarrow>
         (case bt_get (mr_applied s) (ab_idempotency_scope b) of
            Some applied \<Rightarrow>
              (if ad_command_id applied = ab_command_id b \<and> ad_batch_digest applied = ab_batch_digest b
               then \<lparr>rp_command_id = ad_command_id applied, rp_batch_digest = ad_batch_digest applied,
                     rp_outcome = ApplyDuplicate, rp_response_payload = ad_response_payload applied\<rparr>
               else rejected b ''idempotency-scope-conflict'', s\<lparr>mr_metadata := metadata\<rparr>)
          | None \<Rightarrow>
              (case first_failed (precondition_satisfied lib (mr_records s)) 0 (ab_preconditions b) of
                 Some index \<Rightarrow>
                   (\<lparr>rp_command_id = ab_command_id b, rp_batch_digest = ab_batch_digest b,
                     rp_outcome = PreconditionFailed
                       (case u32_try_from index of None \<Rightarrow> - 1 | Some i \<Rightarrow> i),
                     rp_response_payload = []\<rparr>, s\<lparr>mr_metadata := metadata\<rparr>)
               | None \<Rightarrow>
                   (\<lparr>rp_command_id = ab_command_id b, rp_batch_digest = ab_batch_digest b,
                     rp_outcome = Applied, rp_response_payload = ab_response_payload b\<rparr>,
                    s\<lparr>mr_records := fold apply_mutation (ab_mutations b) (mr_records s),
                      mr_applied := bt_insert (ab_idempotency_scope b)
                        \<lparr>ad_command_id = ab_command_id b, ad_batch_digest = ab_batch_digest b,
                         ad_response_payload = ab_response_payload b\<rparr> (mr_applied s),
                      mr_metadata := metadata\<rparr>))))"

definition storage_export ::
  "('l, 'm) raft_library \<Rightarrow> ('l, 'm) memory_raft_state \<Rightarrow> string + u8 list \<times> ('l, 'm) state_machine_metadata"
  where
  "storage_export lib s =
     and_then (rl_encode_state lib (mr_records s, mr_applied s)) (\<lambda>bytes. Inr (bytes, mr_metadata s))"

definition storage_install ::
  "('l, 'm) raft_library \<Rightarrow> u8 list \<Rightarrow> ('l, 'm) state_machine_metadata \<Rightarrow> ('l, 'm) memory_raft_state
   \<Rightarrow> (string + unit) \<times> ('l, 'm) memory_raft_state" where
  "storage_install lib bytes metadata s =
     (case rl_decode_state lib bytes of
        Inl e \<Rightarrow> (Inl e, s)
      | Inr (records, applied) \<Rightarrow>
          (Inr (), \<lparr>mr_records = bt_extend [] records, mr_applied = bt_extend [] applied,
                    mr_metadata = metadata\<rparr>))"

section \<open>The state machine\<close>

datatype ('l, 'm) entry_payload = EntryBlank | EntryNormal atomic_batch | EntryMembership 'm

record ('l, 'm) log_entry =
  le_log_id :: 'l
  le_payload :: "('l, 'm) entry_payload"

record ('l, 'm) snapshot_meta =
  sm_last_log_id :: "'l option"
  sm_last_membership :: 'm

record ('l, 'm) authoritative_state_machine =
  am_storage :: "('l, 'm) memory_raft_state"
  am_limits :: state_machine_limits
  am_last_applied :: "'l option"
  am_membership :: 'm
  am_snapshot_index :: u64
  am_current_snapshot :: "(('l, 'm) snapshot_meta \<times> u8 list) option"

definition machine_new ::
  "('l, 'm) memory_raft_state \<Rightarrow> state_machine_limits
   \<Rightarrow> batch_error + ('l, 'm) authoritative_state_machine" where
  "machine_new s limits =
     and_then (limits_validate limits) (\<lambda>_.
     Inr \<lparr>am_storage = s, am_limits = limits, am_last_applied = md_last_applied (mr_metadata s),
       am_membership = md_membership (mr_metadata s), am_snapshot_index = 0,
       am_current_snapshot = None\<rparr>)"

definition blank_response :: apply_response where
  "blank_response =
     \<lparr>rp_command_id = [], rp_batch_digest = replicate 32 0, rp_outcome = Applied, rp_response_payload = []\<rparr>"

text \<open>\<open>stored\<close> makes the stored membership of an entry.\<close>

definition apply_entry ::
  "('l, 'm) raft_library \<Rightarrow> (batch_error \<Rightarrow> string) \<Rightarrow> ('l \<Rightarrow> 'm \<Rightarrow> 'm) \<Rightarrow> ('l, 'm) log_entry
   \<Rightarrow> ('l, 'm) authoritative_state_machine \<Rightarrow> apply_response \<times> ('l, 'm) authoritative_state_machine" where
  "apply_entry lib show_error stored e m =
     (let metadata = \<lparr>md_last_applied = Some (le_log_id e),
            md_membership = (case le_payload e of
               EntryMembership membership \<Rightarrow> stored (le_log_id e) membership | _ \<Rightarrow> am_membership m)\<rparr>;
          (response, s) =
            (case le_payload e of
               EntryNormal b \<Rightarrow> storage_apply lib show_error (am_limits m) b metadata (am_storage m)
             | _ \<Rightarrow> (blank_response, (am_storage m)\<lparr>mr_metadata := metadata\<rparr>))
      in (response, m\<lparr>am_storage := s, am_last_applied := md_last_applied metadata,
                      am_membership := md_membership metadata\<rparr>))"

fun apply_entries ::
  "('l, 'm) raft_library \<Rightarrow> (batch_error \<Rightarrow> string) \<Rightarrow> ('l \<Rightarrow> 'm \<Rightarrow> 'm) \<Rightarrow> ('l, 'm) log_entry list
   \<Rightarrow> ('l, 'm) authoritative_state_machine \<Rightarrow> apply_response list \<times> ('l, 'm) authoritative_state_machine"
  where
  "apply_entries lib show_error stored [] m = ([], m)"
| "apply_entries lib show_error stored (e # es) m =
     (let (response, m) = apply_entry lib show_error stored e m;
          (responses, m) = apply_entries lib show_error stored es m
      in (response # responses, m))"

definition get_snapshot_builder ::
  "('l, 'm) authoritative_state_machine \<Rightarrow> ('l, 'm) authoritative_state_machine" where
  "get_snapshot_builder m = m\<lparr>am_snapshot_index := saturating_add (am_snapshot_index m) 1\<rparr>"

text \<open>The writer refuses bytes beyond the limit, so a larger snapshot is an error.\<close>

definition build_snapshot ::
  "('l, 'm) raft_library \<Rightarrow> ('l, 'm) authoritative_state_machine
   \<Rightarrow> (string + ('l, 'm) snapshot_meta \<times> u8 list) \<times> ('l, 'm) authoritative_state_machine" where
  "build_snapshot lib m =
     (case and_then (storage_export lib (am_storage m)) (\<lambda>(application_state, metadata).
           and_then (rl_encode_snapshot lib
             \<lparr>pt_metadata = metadata, pt_application_state = application_state\<rparr>) (\<lambda>bytes.
           if unat (sl_max_snapshot_bytes (am_limits m)) < length bytes
           then Inl ''Raft snapshot byte budget exceeded''
           else Inr (\<lparr>sm_last_log_id = md_last_applied metadata,
                      sm_last_membership = md_membership metadata\<rparr>, bytes))) of
        Inl e \<Rightarrow> (Inl e, m)
      | Inr snapshot \<Rightarrow> (Inr snapshot, m\<lparr>am_current_snapshot := Some snapshot\<rparr>))"

definition install_snapshot ::
  "('l, 'm) raft_library \<Rightarrow> ('l, 'm) snapshot_meta \<Rightarrow> u8 list \<Rightarrow> ('l, 'm) authoritative_state_machine
   \<Rightarrow> (string + unit) \<times> ('l, 'm) authoritative_state_machine" where
  "install_snapshot lib meta bytes m =
     (case rl_decode_snapshot lib bytes of
        Inl e \<Rightarrow> (Inl e, m)
      | Inr persisted \<Rightarrow>
          if md_last_applied (pt_metadata persisted) \<noteq> sm_last_log_id meta
             \<or> md_membership (pt_metadata persisted) \<noteq> sm_last_membership meta
          then (Inl ''snapshot metadata mismatch'', m)
          else (case storage_install lib (pt_application_state persisted) (pt_metadata persisted)
                       (am_storage m) of
                  (Inl e, s) \<Rightarrow> (Inl e, m\<lparr>am_storage := s\<rparr>)
                | (Inr _, s) \<Rightarrow>
                    (Inr (), m\<lparr>am_storage := s,
                       am_last_applied := md_last_applied (pt_metadata persisted),
                       am_membership := md_membership (pt_metadata persisted),
                       am_current_snapshot := Some (meta, bytes)\<rparr>)))"

section \<open>The storage\<close>

lemma first_failed_None: "first_failed ok n cs = None \<longleftrightarrow> (\<forall>c \<in> set cs. ok c)"
  by (induction cs arbitrary: n) auto

text \<open>The four ways an application ends; only the last one changes records.\<close>

lemma storage_apply_cases:
  obtains (kept) "mr_records (snd (storage_apply lib show_error limits b metadata s)) = mr_records s"
      "mr_applied (snd (storage_apply lib show_error limits b metadata s)) = mr_applied s"
      "rp_outcome (fst (storage_apply lib show_error limits b metadata s)) \<noteq> Applied"
  | (applied) "batch_validate lib limits b = Inr ()" "bt_get (mr_applied s) (ab_idempotency_scope b) = None"
      "\<forall>c \<in> set (ab_preconditions b). precondition_satisfied lib (mr_records s) c"
      "mr_records (snd (storage_apply lib show_error limits b metadata s)) =
        fold apply_mutation (ab_mutations b) (mr_records s)"
      "mr_applied (snd (storage_apply lib show_error limits b metadata s)) =
        bt_insert (ab_idempotency_scope b)
          \<lparr>ad_command_id = ab_command_id b, ad_batch_digest = ab_batch_digest b,
           ad_response_payload = ab_response_payload b\<rparr> (mr_applied s)"
      "rp_outcome (fst (storage_apply lib show_error limits b metadata s)) = Applied"
      "rp_response_payload (fst (storage_apply lib show_error limits b metadata s)) = ab_response_payload b"
proof (cases "batch_validate lib limits b")
  case (Inl e)
  then show thesis by (intro kept) (simp_all add: storage_apply_def rejected_def)
next
  case (Inr u)
  show thesis
  proof (cases "bt_get (mr_applied s) (ab_idempotency_scope b)")
    case None
    show thesis
    proof (cases "first_failed (precondition_satisfied lib (mr_records s)) 0 (ab_preconditions b)")
      case passed: None
      then have "\<forall>c \<in> set (ab_preconditions b). precondition_satisfied lib (mr_records s) c"
        by (simp only: first_failed_None)
      then show thesis using Inr None passed by (intro applied) (simp_all add: storage_apply_def)
    next
      case (Some index)
      then show thesis using Inr None by (intro kept) (simp_all add: storage_apply_def)
    qed
  next
    case (Some a)
    then show thesis using Inr by (intro kept) (simp_all add: storage_apply_def rejected_def)
  qed
qed

lemma fold_mutations_other:
  "k \<notin> mutation_key ` set ms \<Longrightarrow> bt_get (fold apply_mutation ms records) k = bt_get records k"
proof (induction ms arbitrary: records)
  case (Cons m ms)
  then show ?case by (cases m) auto
qed simp

lemma fold_mutations_sorted: "bt_sorted records \<Longrightarrow> bt_sorted (fold apply_mutation ms records)"
proof (induction ms arbitrary: records)
  case (Cons m ms)
  then show ?case by (cases m) (simp_all add: bt_sorted_insert bt_sorted_remove)
qed simp

lemma check_mutation_append_only:
  assumes "check_mutation limits cs seen m = Inr seen'"
    and "fst (mutation_key m) \<in> set (sl_append_only_column_families limits)"
  shows "\<exists>c \<in> set cs. pc_storage_key c = mutation_key m \<and> pc_expected c = ExpectedMissing"
  using assms unfolding check_mutation_def Let_def and_then_Inr list_ex_iff
  by (meson Inl_Inr_False)

lemma check_mutations_append_only:
  "\<lbrakk>try_fold (check_mutation limits cs) seen ms = Inr seen'; m \<in> set ms;
    fst (mutation_key m) \<in> set (sl_append_only_column_families limits)\<rbrakk>
   \<Longrightarrow> \<exists>c \<in> set cs. pc_storage_key c = mutation_key m \<and> pc_expected c = ExpectedMissing"
proof (induction ms arbitrary: seen)
  case (Cons m' ms)
  obtain t where t: "check_mutation limits cs seen m' = Inr t"
      "try_fold (check_mutation limits cs) t ms = Inr seen'"
    using Cons.prems(1) by (auto simp: and_then_Inr)
  show ?case
  proof (cases "m = m'")
    case True
    then show ?thesis using check_mutation_append_only [OF t(1)] Cons.prems(3) by blast
  next
    case False
    then show ?thesis using Cons.IH [OF t(2)] Cons.prems(2,3) by simp
  qed
qed simp

text \<open>A batch that is applied touches no record of an append-only family that exists.\<close>

lemma applied_append_only:
  assumes valid: "batch_validate lib limits b = Inr u"
    and passed: "\<forall>c \<in> set (ab_preconditions b). precondition_satisfied lib records c"
    and family: "fst k \<in> set (sl_append_only_column_families limits)" and "bt_get records k = Some v"
  shows "k \<notin> mutation_key ` set (ab_mutations b)"
proof
  assume "k \<in> mutation_key ` set (ab_mutations b)"
  then obtain m where m: "m \<in> set (ab_mutations b)" "mutation_key m = k" by auto
  obtain seen where "try_fold (check_mutation limits (ab_preconditions b)) [] (ab_mutations b) = Inr seen"
    using valid by (auto simp: batch_validate_def and_then_Inr split: if_splits)
  from check_mutations_append_only [OF this m(1)] obtain c where
    "c \<in> set (ab_preconditions b)" "pc_storage_key c = k" "pc_expected c = ExpectedMissing"
    using family m(2) by auto
  moreover from this passed have "precondition_satisfied lib records c" by blast
  ultimately show False using assms(4) by (simp add: precondition_satisfied_def)
qed

definition storage_ok :: "('l, 'm) memory_raft_state \<Rightarrow> bool" where
  "storage_ok s \<longleftrightarrow> bt_sorted (mr_records s) \<and> bt_sorted (mr_applied s)"

lemma storage_apply_ok: "storage_ok s \<Longrightarrow> storage_ok (snd (storage_apply lib show_error limits b metadata s))"
  by (cases rule: storage_apply_cases [of lib show_error limits b metadata s])
     (simp_all add: storage_ok_def fold_mutations_sorted bt_sorted_insert)

lemma storage_apply_metadata [simp]:
  "mr_metadata (snd (storage_apply lib show_error limits b metadata s)) = metadata"
  by (simp add: storage_apply_def split: sum.split option.split)

text \<open>What a later state keeps: records of append-only families and the applied commands.\<close>

definition extends :: "string btree_set \<Rightarrow> ('l, 'm) memory_raft_state \<Rightarrow> ('l, 'm) memory_raft_state \<Rightarrow> bool" where
  "extends families s s' \<longleftrightarrow>
     (\<forall>k v. fst k \<in> set families \<longrightarrow> bt_get (mr_records s) k = Some v \<longrightarrow> bt_get (mr_records s') k = Some v)
     \<and> (\<forall>scope a. bt_get (mr_applied s) scope = Some a \<longrightarrow> bt_get (mr_applied s') scope = Some a)"

lemma extends_refl [simp]: "extends families s s"
  by (simp add: extends_def)

lemma extends_trans: "extends families s t \<Longrightarrow> extends families t u \<Longrightarrow> extends families s u"
  unfolding extends_def by blast

lemma extends_metadata [simp]: "extends families s (t\<lparr>mr_metadata := metadata\<rparr>) = extends families s t"
  by (simp add: extends_def)

lemma storage_apply_extends:
  "extends (sl_append_only_column_families limits) s (snd (storage_apply lib show_error limits b metadata s))"
proof (cases rule: storage_apply_cases [of lib show_error limits b metadata s])
  case kept
  then show ?thesis by (simp add: extends_def)
next
  case applied
  have "bt_get (fold apply_mutation (ab_mutations b) (mr_records s)) k = Some v"
    if "fst k \<in> set (sl_append_only_column_families limits)" "bt_get (mr_records s) k = Some v" for k v
    using applied_append_only [OF applied(1,3) that] fold_mutations_other that(2) by metis
  then show ?thesis unfolding extends_def applied(4,5) using applied(2) by (simp add: fun_upd_def)
qed

section \<open>Logs\<close>

lemma storage_ok_metadata [simp]: "storage_ok (s\<lparr>mr_metadata := metadata\<rparr>) = storage_ok s"
  by (simp add: storage_ok_def)

lemma apply_entry_limits [simp]: "am_limits (snd (apply_entry lib show_error stored e m)) = am_limits m"
  by (simp add: apply_entry_def Let_def split_beta)

lemma apply_entry_extends:
  "extends (sl_append_only_column_families (am_limits m)) (am_storage m)
    (am_storage (snd (apply_entry lib show_error stored e m)))"
  by (cases "le_payload e") (simp_all add: apply_entry_def Let_def split_beta storage_apply_extends)

lemma apply_entry_ok:
  "storage_ok (am_storage m) \<Longrightarrow> storage_ok (am_storage (snd (apply_entry lib show_error stored e m)))"
  by (cases "le_payload e") (simp_all add: apply_entry_def Let_def split_beta storage_apply_ok)

lemma apply_entries_limits [simp]:
  "am_limits (snd (apply_entries lib show_error stored es m)) = am_limits m"
  by (induction es arbitrary: m) (simp_all add: Let_def split_beta)

lemma apply_entries_extends:
  "extends (sl_append_only_column_families (am_limits m)) (am_storage m)
    (am_storage (snd (apply_entries lib show_error stored es m)))"
proof (induction es arbitrary: m)
  case (Cons e es)
  show ?case
    using extends_trans [OF apply_entry_extends Cons.IH [of "snd (apply_entry lib show_error stored e m)",
        unfolded apply_entry_limits]]
    by (simp add: Let_def split_beta)
qed simp

lemma apply_entries_ok:
  "storage_ok (am_storage m) \<Longrightarrow> storage_ok (am_storage (snd (apply_entries lib show_error stored es m)))"
  by (induction es arbitrary: m) (simp_all add: Let_def split_beta apply_entry_ok)

text \<open>The machine's position and membership are the ones its storage holds.\<close>

definition in_step :: "('l, 'm) authoritative_state_machine \<Rightarrow> bool" where
  "in_step m \<longleftrightarrow> mr_metadata (am_storage m) =
     \<lparr>md_last_applied = am_last_applied m, md_membership = am_membership m\<rparr>"

lemma apply_entry_in_step: "in_step (snd (apply_entry lib show_error stored e m))"
  by (cases "le_payload e") (simp_all add: in_step_def apply_entry_def Let_def split_beta)

lemma apply_entries_in_step: "in_step m \<Longrightarrow> in_step (snd (apply_entries lib show_error stored es m))"
  by (induction es arbitrary: m) (simp_all add: Let_def split_beta apply_entry_in_step)

text \<open>Entries see only the storage, the limits and the membership.\<close>

lemma apply_entries_same:
  assumes "am_storage m = am_storage n" and "am_limits m = am_limits n" and "am_membership m = am_membership n"
  shows "fst (apply_entries lib show_error stored es m) = fst (apply_entries lib show_error stored es n)
    \<and> am_storage (snd (apply_entries lib show_error stored es m)) =
      am_storage (snd (apply_entries lib show_error stored es n))"
  using assms
proof (induction es arbitrary: m n)
  case (Cons e es)
  have "fst (apply_entry lib show_error stored e m) = fst (apply_entry lib show_error stored e n)"
      "am_storage (snd (apply_entry lib show_error stored e m)) = am_storage (snd (apply_entry lib show_error stored e n))"
      "am_membership (snd (apply_entry lib show_error stored e m)) =
        am_membership (snd (apply_entry lib show_error stored e n))"
    using Cons.prems by (cases "le_payload e"; simp add: apply_entry_def Let_def split_beta)+
  then show ?case
    using Cons.IH [of "snd (apply_entry lib show_error stored e m)" "snd (apply_entry lib show_error stored e n)"]
      Cons.prems(2)
    by (simp add: Let_def split_beta)
qed simp

lemma storage_apply_again:
  assumes "rp_outcome (fst (storage_apply lib show_error limits b metadata s)) = Applied"
    and "extends families (snd (storage_apply lib show_error limits b metadata s)) t"
  shows "fst (storage_apply lib show_error limits b metadata' t) =
      \<lparr>rp_command_id = ab_command_id b, rp_batch_digest = ab_batch_digest b, rp_outcome = ApplyDuplicate,
       rp_response_payload = rp_response_payload (fst (storage_apply lib show_error limits b metadata s))\<rparr>
    \<and> mr_records (snd (storage_apply lib show_error limits b metadata' t)) = mr_records t"
proof (cases rule: storage_apply_cases [of lib show_error limits b metadata s])
  case kept
  then show ?thesis using assms(1) by simp
next
  case applied
  have "bt_get (mr_applied t) (ab_idempotency_scope b) =
      Some \<lparr>ad_command_id = ab_command_id b, ad_batch_digest = ab_batch_digest b,
            ad_response_payload = ab_response_payload b\<rparr>"
    using assms(2) applied(5) unfolding extends_def by simp
  then show ?thesis
    unfolding applied(7) using applied(1) by (simp add: storage_apply_def [of lib show_error limits b metadata' t])
qed

text \<open>A batch a log applied is a duplicate for every later state.\<close>

lemma apply_entries_again:
  assumes "apply_entries lib show_error stored es m = (rs, n)" and "i < length es"
    and "le_payload (es ! i) = EntryNormal b" and "rp_outcome (rs ! i) = Applied"
    and "extends (sl_append_only_column_families (am_limits m)) (am_storage n) t"
  shows "fst (storage_apply lib show_error (am_limits m) b metadata t) =
      \<lparr>rp_command_id = ab_command_id b, rp_batch_digest = ab_batch_digest b, rp_outcome = ApplyDuplicate,
       rp_response_payload = rp_response_payload (rs ! i)\<rparr>
    \<and> mr_records (snd (storage_apply lib show_error (am_limits m) b metadata t)) = mr_records t"
  using assms
proof (induction es arbitrary: m rs i)
  case (Cons e es)
  obtain r p where p: "apply_entry lib show_error stored e m = (r, p)" by fastforce
  obtain rs' where rs: "rs = r # rs'" and rest: "apply_entries lib show_error stored es p = (rs', n)"
    using Cons.prems(1) p by (auto split: prod.splits)
  have limits: "am_limits p = am_limits m" using apply_entry_limits [of lib show_error stored e m] p by simp
  show ?case
  proof (cases i)
    case 0
    define metadata' where "metadata' = \<lparr>md_last_applied = Some (le_log_id e), md_membership = am_membership m\<rparr>"
    have first: "r = fst (storage_apply lib show_error (am_limits m) b metadata' (am_storage m))"
        "am_storage p = snd (storage_apply lib show_error (am_limits m) b metadata' (am_storage m))"
      using p Cons.prems(3) 0 by (auto simp: apply_entry_def metadata'_def Let_def split_beta)
    have "extends (sl_append_only_column_families (am_limits m)) (am_storage p) t"
      using apply_entries_extends [of p lib show_error stored es] rest limits Cons.prems(5) extends_trans
      by fastforce
    then show ?thesis
      using storage_apply_again [of lib show_error "am_limits m" b metadata' "am_storage m"] Cons.prems(4) first rs 0
      by simp
  next
    case (Suc j)
    then show ?thesis using Cons.IH [OF rest, of j] Cons.prems limits rs by simp
  qed
qed simp

section \<open>Snapshots\<close>

text \<open>Deserialisation inverts serialisation: the law of the JSON codec snapshots rely on.\<close>

definition snapshot_codec :: "('l, 'm) raft_library \<Rightarrow> bool" where
  "snapshot_codec lib \<longleftrightarrow>
     (\<forall>s bytes. rl_encode_state lib s = Inr bytes \<longrightarrow> rl_decode_state lib bytes = Inr s)
     \<and> (\<forall>p bytes. rl_encode_snapshot lib p = Inr bytes \<longrightarrow> rl_decode_snapshot lib bytes = Inr p)"

lemma install_built_snapshot:
  assumes codec: "snapshot_codec lib" and built: "build_snapshot lib m = (Inr (meta, bytes), m')"
    and ok: "storage_ok (am_storage m)"
  shows "install_snapshot lib meta bytes n =
    (Inr (), n\<lparr>am_storage := am_storage m, am_last_applied := md_last_applied (mr_metadata (am_storage m)),
       am_membership := md_membership (mr_metadata (am_storage m)),
       am_current_snapshot := Some (meta, bytes)\<rparr>)"
proof -
  obtain state where state: "rl_encode_state lib (mr_records (am_storage m), mr_applied (am_storage m)) = Inr state"
    and snapshot: "rl_encode_snapshot lib
        \<lparr>pt_metadata = mr_metadata (am_storage m), pt_application_state = state\<rparr> = Inr bytes"
    and meta: "meta = \<lparr>sm_last_log_id = md_last_applied (mr_metadata (am_storage m)),
        sm_last_membership = md_membership (mr_metadata (am_storage m))\<rparr>"
    using built
    by (auto simp: build_snapshot_def storage_export_def and_then_Inr split: sum.splits if_splits)
  have "rl_decode_state lib state = Inr (mr_records (am_storage m), mr_applied (am_storage m))"
      "rl_decode_snapshot lib bytes = Inr \<lparr>pt_metadata = mr_metadata (am_storage m), pt_application_state = state\<rparr>"
    using codec state snapshot unfolding snapshot_codec_def by blast+
  then show ?thesis
    using ok by (simp add: install_snapshot_def storage_install_def meta bt_extend_empty storage_ok_def)
qed

lemma machine_new_ok:
  "machine_new (default_raft_state membership) limits = Inr m \<Longrightarrow>
   storage_ok (am_storage m) \<and> in_step m \<and> am_limits m = limits"
  by (auto simp: machine_new_def and_then_Inr default_raft_state_def storage_ok_def in_step_def)

text \<open>
  C40. The replicated state machine, from its empty storage: take a log \<open>before\<close> and any
  continuation \<open>after\<close>. A machine with the same limits that installs the snapshot built after
  \<open>before\<close> accepts it, and from there answers \<open>after\<close> with the same responses and reaches the
  same storage as the machine that built it. A record of an append-only column family, once
  written, keeps its value. A batch that \<open>before\<close> applied is answered as a duplicate with
  the recorded payload when it is proposed again after \<open>after\<close>, and changes no record.
\<close>

theorem replicated_log:
  assumes codec: "snapshot_codec lib"
    and new: "machine_new (default_raft_state membership) limits = Inr m0"
    and log: "apply_entries lib show_error stored before m0 = (responses, m)"
    and built: "build_snapshot lib m = (Inr (meta, bytes), m')"
    and later: "apply_entries lib show_error stored after m = (responses', n)"
    and peer: "am_limits peer = limits"
  shows "(case install_snapshot lib meta bytes peer of
       (Inl _, _) \<Rightarrow> False
     | (Inr _, restored) \<Rightarrow>
         fst (apply_entries lib show_error stored after restored) = responses'
         \<and> am_storage (snd (apply_entries lib show_error stored after restored)) = am_storage n)
   \<and> (\<forall>k v. fst k \<in> set (sl_append_only_column_families limits) \<and> storage_get (am_storage m) k = Some v
       \<longrightarrow> storage_get (am_storage n) k = Some v)
   \<and> (\<forall>i b e. i < length before \<and> le_payload (before ! i) = EntryNormal b
         \<and> rp_outcome (responses ! i) = Applied \<and> le_payload e = EntryNormal b
       \<longrightarrow> (case apply_entry lib show_error stored e n of (response, n') \<Rightarrow>
             rp_outcome response = ApplyDuplicate
             \<and> rp_response_payload response = rp_response_payload (responses ! i)
             \<and> mr_records (am_storage n') = mr_records (am_storage n)))"
proof -
  have m: "storage_ok (am_storage m)" "in_step m" "am_limits m = limits"
    using machine_new_ok [OF new] log apply_entries_ok [of m0 lib show_error stored before]
      apply_entries_in_step [of m0 lib show_error stored before]
      apply_entries_limits [of lib show_error stored before m0] by simp_all
  have n: "extends (sl_append_only_column_families limits) (am_storage m) (am_storage n)" "am_limits n = limits"
    using apply_entries_extends [of m lib show_error stored after]
      apply_entries_limits [of lib show_error stored after m] later m(3) by simp_all
  have "case install_snapshot lib meta bytes peer of
       (Inl _, _) \<Rightarrow> False
     | (Inr _, restored) \<Rightarrow>
         fst (apply_entries lib show_error stored after restored) = responses'
         \<and> am_storage (snd (apply_entries lib show_error stored after restored)) = am_storage n"
    unfolding install_built_snapshot [OF codec built m(1)]
    using apply_entries_same [of "peer\<lparr>am_storage := am_storage m,
        am_last_applied := md_last_applied (mr_metadata (am_storage m)),
        am_membership := md_membership (mr_metadata (am_storage m)),
        am_current_snapshot := Some (meta, bytes)\<rparr>" m lib show_error stored after] m(2,3) peer later
    by (simp add: in_step_def)
  moreover have "\<forall>k v. fst k \<in> set (sl_append_only_column_families limits) \<and> storage_get (am_storage m) k = Some v
       \<longrightarrow> storage_get (am_storage n) k = Some v"
    using n(1) unfolding extends_def storage_get_def by blast
  moreover have "case apply_entry lib show_error stored e n of (response, n') \<Rightarrow>
             rp_outcome response = ApplyDuplicate
             \<and> rp_response_payload response = rp_response_payload (responses ! i)
             \<and> mr_records (am_storage n') = mr_records (am_storage n)"
    if "i < length before" "le_payload (before ! i) = EntryNormal b" "rp_outcome (responses ! i) = Applied"
      "le_payload e = EntryNormal b" for i b e
    using apply_entries_again [OF log that(1-3), of "am_storage n"] n machine_new_ok [OF new] that(4)
    by (simp add: apply_entry_def Let_def split_beta)
  ultimately show ?thesis by (intro conjI allI impI) (simp_all only:)
qed

end
