(* ===== verification/Raft_Examples.thy ===== *)
theory Raft_Examples
  imports Raft_State_Machine
begin

text \<open>
  A concrete run of the replicated state machine: one audit record is written, the machine is
  snapshotted, a peer is restored from it and a blank entry follows. The hash is the length
  of its input, and the snapshot codec knows the one state of the run.
\<close>

definition audit_limits :: state_machine_limits where
  "audit_limits = \<lparr>sl_max_conditions = 4, sl_max_mutations = 4, sl_max_batch_bytes = 100,
     sl_max_snapshot_bytes = 100, sl_snapshot_directory = ''/snapshots'',
     sl_append_only_column_families = [''audit'']\<rparr>"

definition audit_batch :: atomic_batch where
  "audit_batch = \<lparr>ab_command_id = ''c1'', ab_idempotency_scope = [1],
     ab_preconditions = [\<lparr>pc_storage_key = (''audit'', [1]), pc_expected = ExpectedMissing\<rparr>],
     ab_mutations = [Put (''audit'', [1]) [7]], ab_response_payload = [9], ab_batch_digest = [141]\<rparr>"

definition audit_state :: application_state where
  "audit_state = ([((''audit'', [1]), [7])],
     [([1], \<lparr>ad_command_id = ''c1'', ad_batch_digest = [141], ad_response_payload = [9]\<rparr>)])"

definition audit_metadata :: "(nat, nat) state_machine_metadata" where
  "audit_metadata = \<lparr>md_last_applied = Some 1, md_membership = 3\<rparr>"

definition audit_snapshot :: "(nat, nat) persisted_snapshot" where
  "audit_snapshot = \<lparr>pt_metadata = audit_metadata, pt_application_state = [5]\<rparr>"

definition audit_library :: "(nat, nat) raft_library" where
  "audit_library = \<lparr>rl_sha256 = (\<lambda>bytes. [of_nat (length bytes)]), rl_batch_json = (\<lambda>_. Some [0]),
     rl_encode_state = (\<lambda>s. if s = audit_state then Inr [5] else Inl ''unsupported''),
     rl_decode_state = (\<lambda>bytes. if bytes = [5] then Inr audit_state else Inl ''unsupported''),
     rl_encode_snapshot = (\<lambda>p. if p = audit_snapshot then Inr [6] else Inl ''unsupported''),
     rl_decode_snapshot = (\<lambda>bytes. if bytes = [6] then Inr audit_snapshot else Inl ''unsupported'')\<rparr>"

definition audit_machine :: "(nat, nat) memory_raft_state \<Rightarrow> nat option \<Rightarrow> (nat, nat) authoritative_state_machine"
  where
  "audit_machine s applied = \<lparr>am_storage = s, am_limits = audit_limits, am_last_applied = applied,
     am_membership = 3, am_snapshot_index = 0, am_current_snapshot = None\<rparr>"

definition audit_storage :: "nat \<Rightarrow> (nat, nat) memory_raft_state" where
  "audit_storage applied = \<lparr>mr_records = fst audit_state, mr_applied = snd audit_state,
     mr_metadata = \<lparr>md_last_applied = Some applied, md_membership = 3\<rparr>\<rparr>"

definition audit_log :: "(nat, nat) log_entry list" where
  "audit_log = [\<lparr>le_log_id = 1, le_payload = EntryNormal audit_batch\<rparr>]"

definition audit_response :: apply_response where
  "audit_response = \<lparr>rp_command_id = ''c1'', rp_batch_digest = [141], rp_outcome = Applied,
     rp_response_payload = [9]\<rparr>"

lemmas audit_defs = audit_limits_def audit_batch_def audit_state_def audit_metadata_def audit_snapshot_def
  audit_library_def audit_machine_def audit_storage_def audit_log_def audit_response_def

lemma audit_codec: "snapshot_codec audit_library"
  by (simp add: snapshot_codec_def audit_library_def)

lemma audit_new: "machine_new (default_raft_state 3) audit_limits =
    Inr (audit_machine (default_raft_state 3) None)"
  by code_simp

lemma audit_applied:
  "apply_entries audit_library (\<lambda>_. '''') (\<lambda>_ x. x) audit_log (audit_machine (default_raft_state 3) None) =
    ([audit_response], audit_machine (audit_storage 1) (Some 1))"
  by code_simp

lemma audit_built:
  "build_snapshot audit_library (audit_machine (audit_storage 1) (Some 1)) =
    (Inr (\<lparr>sm_last_log_id = Some 1, sm_last_membership = 3\<rparr>, [6]),
     (audit_machine (audit_storage 1) (Some 1))
       \<lparr>am_current_snapshot := Some (\<lparr>sm_last_log_id = Some 1, sm_last_membership = 3\<rparr>, [6])\<rparr>)"
  by code_simp

lemma audit_later:
  "apply_entries audit_library (\<lambda>_. '''') (\<lambda>_ x. x) [\<lparr>le_log_id = 2, le_payload = EntryBlank\<rparr>]
      (audit_machine (audit_storage 1) (Some 1)) =
    ([blank_response], audit_machine (audit_storage 2) (Some 2))"
  by code_simp

lemma audit_peer: "am_limits (audit_machine (default_raft_state 4) None) = audit_limits"
  by (simp add: audit_machine_def)

text \<open>
  Witness for C40: the restored peer answers the blank entry and reaches the same storage, the
  audit record survives, and the batch proposed again is a duplicate that carries its payload.
\<close>

theorem replicated_log_witness:
  "(case install_snapshot audit_library \<lparr>sm_last_log_id = Some 1, sm_last_membership = 3\<rparr> [6]
      (audit_machine (default_raft_state 4) None) of
      (Inl _, _) \<Rightarrow> False
    | (Inr _, restored) \<Rightarrow>
        am_storage (snd (apply_entries audit_library (\<lambda>_. '''') (\<lambda>_ x. x)
          [\<lparr>le_log_id = 2, le_payload = EntryBlank\<rparr>] restored)) = audit_storage 2)
   \<and> storage_get (audit_storage 2) (''audit'', [1]) = Some [7]
   \<and> (case apply_entry audit_library (\<lambda>_. '''') (\<lambda>_ x. x)
         \<lparr>le_log_id = 3, le_payload = EntryNormal audit_batch\<rparr> (audit_machine (audit_storage 2) (Some 2)) of
       (response, n') \<Rightarrow> rp_outcome response = ApplyDuplicate \<and> rp_response_payload response = [9])"
proof -
  note result = replicated_log [OF audit_codec audit_new audit_applied audit_built audit_later audit_peer]
  have "storage_get (am_storage (audit_machine (audit_storage 1) (Some 1))) (''audit'', [1]) = Some [7]"
    by code_simp
  moreover have "fst (''audit'', [1 :: u8]) \<in> set (sl_append_only_column_families audit_limits)"
    by (simp add: audit_limits_def)
  ultimately have kept: "storage_get (am_storage (audit_machine (audit_storage 2) (Some 2))) (''audit'', [1]) = Some [7]"
    using conjunct1 [OF conjunct2 [OF result]] by blast
  have "0 < length audit_log \<and> le_payload (audit_log ! 0) = EntryNormal audit_batch
      \<and> rp_outcome ([audit_response] ! 0) = Applied
      \<and> le_payload \<lparr>le_log_id = (3 :: nat), le_payload = EntryNormal audit_batch :: (nat, nat) entry_payload\<rparr> =
        EntryNormal audit_batch"
    by (simp add: audit_log_def audit_response_def)
  from conjunct2 [OF conjunct2 [OF result], rule_format, OF this] have
    "case apply_entry audit_library (\<lambda>_. '''') (\<lambda>_ x. x)
         \<lparr>le_log_id = 3, le_payload = EntryNormal audit_batch\<rparr> (audit_machine (audit_storage 2) (Some 2)) of
       (response, n') \<Rightarrow> rp_outcome response = ApplyDuplicate \<and> rp_response_payload response = [9]"
    by (simp add: audit_response_def split_beta)
  with kept conjunct1 [OF result] show ?thesis
    by (simp add: audit_machine_def [of "audit_storage 2"] split: prod.splits sum.splits)
qed

end
