(* ===== verification/Spec2Isabelle.thy ===== *)
theory Spec2Isabelle
  imports Engine_Examples Decision_Events Codec_Examples Remote_Dispatch Boundary_Examples Authz_Examples Raft_Examples
begin

text \<open>
  A verification library for the workflow engine of the BPMP platform.

  \<^bold>\<open>The program.\<close> A BPMN/CMMN model is compiled to a \<open>WorkflowDefinition\<close>. Every
  instance of it is event sourced: \<open>decide\<close> turns a command, the definition and the
  current state into events, \<open>evolve\<close> applies events to the state, and \<open>rehydrate\<close> rebuilds
  a state from stored events. Both functions are pure Rust
  (\<open>crates/bpmp-domain-core\<close>). The engine (\<open>apps/rust/bpmp-engine\<close>) authorises a command,
  rehydrates the instance, decides, stamps the events and commits them with their outbox
  records; a publisher delivers the outbox, a boundary worker projects it to timers and
  correlations and sends commands back, and a registry hands tasks to remote workers. Signed
  policy bundles (\<open>crates/bpmp-authz-contracts\<close>, \<open>crates/bpmp-authz-engine\<close>) decide what is
  authorised, and \<open>crates/bpmp-raft-state-machine\<close> replicates prepared batches of writes.
  A decision works on a private copy of the routing part of the state (tokens,
  pending joins, multi-instance activities, boundary subscriptions, scopes) while it emits
  events, so that the copy and the replay of the events must agree.

  \<^bold>\<open>The domain core\<close> (paths under \<open>src/crates/bpmp-domain-core/src\<close>).
  \<^item> \<open>Prelude\<close>: results and early return, integer widths, strings. \<open>BTree\<close>: ordered maps and
    sets, with the contract \<open>ordered_map\<close> that the components use.
  \<^item> \<open>Workflow_Types\<close>: \<open>identifiers.rs\<close> and the data types of \<open>workflow.rs\<close>.
    The variants of \<open>DomainError\<close> are grouped into several datatypes under \<open>failure\<close>.
  \<^item> \<open>Configuration\<close>: \<open>configuration.rs\<close>.
  \<^item> \<open>Expressions\<close>: guards, expressions, branch selection, decision tables.
    \<open>Gateway_Coverage\<close>: the static checks on gateways. \<open>Workflow_Definition\<close>: construction and
    validation of definitions.
  \<^item> \<open>Routing\<close>: \<open>RoutingState\<close> and its methods. \<open>Evolve\<close>: \<open>evolve\<close>, \<open>rehydrate\<close>.
    \<open>Activation\<close>: \<open>activation_events\<close> and what it calls. \<open>Cases\<close>: the case runtime.
    \<open>Decide\<close>: \<open>decide\<close>. \<open>Activation_Invariants\<close> holds the invariants of the loop,
    \<open>Examples\<close> the concrete workflow that the theorems are applied to.

  \<^bold>\<open>The engine\<close> (paths under \<open>src/apps/rust/bpmp-engine/src\<close>).
  \<^item> \<open>Ports\<close>: \<open>ports.rs\<close>, with the contract \<open>workflow_store\<close>. \<open>Engine\<close>: \<open>Engine::handle\<close> of
    \<open>application.rs\<close>. \<open>Engine_Runs\<close>: interleaved handlers over any store with that contract.
    \<open>Decision_Events\<close>: what the events of a decision say of its command.
  \<^item> \<open>Outbox\<close>: \<open>outbox.rs\<close> and the contract \<open>outbox_store\<close>. \<open>Memory_Store\<close>: the workflow and
    outbox store of \<open>memory.rs\<close>, which interprets both contracts.
  \<^item> \<open>Event_Codec\<close>: \<open>event_codec.rs\<close> and the envelope messages of \<open>gen/rust/bpmp/engine/v1\<close>.
    \<open>Committed_Events\<close>: what the engine commits survives the codec.
  \<^item> \<open>Dispatch_Credit\<close>: \<open>dispatch_credit.rs\<close>, with the contract \<open>credit_ledger\<close>;
    \<open>Remote_Dispatch\<close>: \<open>remote_worker_dispatch.rs\<close>.
  \<^item> \<open>Boundary_Timers\<close> and \<open>Boundary_Runtime\<close>: \<open>boundary_runtime.rs\<close>. \<open>Boundary_Store\<close>: its
    store in \<open>memory.rs\<close>. \<open>Boundary_Leases\<close>: leases and fencing (\<open>leased_record\<close>).
    \<open>Boundary_Tracking\<close> and \<open>Boundary_Sync\<close>: the projection against the instances.

  \<^bold>\<open>Authorisation and replication\<close> (paths under \<open>src\<close>).
  \<^item> \<open>Authz_Artifacts\<close>: \<open>crates/bpmp-authz-contracts\<close>. \<open>Authz_Evaluation\<close>:
    \<open>crates/bpmp-authz-engine\<close> and \<open>crates/bpmp-adapter-policy-bundle\<close>. \<open>Authz_Provider\<close>:
    \<open>crates/bpmp-adapter-identity-jwt\<close> and \<open>authorization.rs\<close> of the engine, which interprets
    the contract \<open>authorization_contract\<close>.
  \<^item> \<open>Raft_State_Machine\<close>: \<open>crates/bpmp-raft-state-machine\<close>.
  \<^item> The theories named \<open>_Examples\<close> apply the theorems to concrete runs.

  \<^bold>\<open>Conventions.\<close> A struct is a record, an enum a datatype, a method that takes
  \<open>&mut self\<close> returns the new state, a loop with early return is \<open>try_fold\<close> or \<open>try_all\<close>.
  \<open>u8\<close>, \<open>u32\<close> and \<open>u64\<close> are words, with \<open>saturating\<close> and \<open>checked\<close> operations written out;
  \<open>i64\<close> is an integer with its bounds checked; \<open>usize\<close> is a natural number, since it counts
  elements that exist in memory. Strings are their UTF-8 bytes. A panic (\<open>expect\<close>,
  overflow, index out of range) is the error \<open>Panic\<close>, so that its absence is a theorem.
  The activation loop carries the step budget of the source, four times the number of
  nodes, and terminates on it; a larger budget changes no run that stays within it
  (\<open>step_budget_monotone\<close>). A trait is a record of operations on a state, and a method that
  holds the lock of a shared state is one step. Third-party code is an argument: prost, JSON,
  SHA-256, Ed25519 and JWT decoding are the fields of \<open>authz_library\<close>, \<open>jwt_library\<close>,
  \<open>raft_library\<close> and \<open>envelope_format\<close>, and the broker and the RFC 3339 parser are functions;
  what the code relies on is a hypothesis of the theorem that needs it.

  \<^bold>\<open>What is shown.\<close>
  \<^item> Instances: every instance that decisions can reach from the initial state satisfies the
    well-formedness invariant, and has outstanding work exactly while it is active (C1).
    The working copy of a decision is the replay of its events (C2), completion is the last
    event of a decision and leaves nothing behind (C3), no decision panics (C4), the events of
    a decision record its command first, report no other outside work, carry its time and
    stay within the configured limit (C5), and closed instances reject commands with the
    documented error (C20). The proof of C3 is a token balance over the stack of
    the loop and the pending joins that holds for arbitrary graphs.
  \<^item> Gateways and decisions: accepted coverage proofs are sound at run time (C6 to C8) if no
    branch carries an expression beside its guard, which the coverage checks do not exclude
    and on which every selection fails; the overlap that the integer check admits (C9);
    selection and decision tables equal their references (C10 to C12), for C10 on every
    outcome, and decision outputs are typed (C13).
  \<^item> Definitions and configuration: what acceptance means (C14, C16), and that the
    reachability search terminates with the reachable nodes (C15). C16 states the checks of
    \<open>configuration.rs\<close>, which admit retry multipliers below 1000; \<open>worker_outbox_config\<close>
    (\<open>outbox_publisher_config\<close> of \<open>linux_runtime.rs\<close> in \<open>apps/rust/bpmp-engine-server\<close>)
    then fails on the accepted snapshot.
  \<^item> Routing: joins, scopes (C17, C18), the slot of a completed iteration while no completion
    condition holds (C19); cases of accepted definitions move exactly as their sentries
    say (C21).
  \<^item> Engine: committed streams replay to reachable instances under every interleaving (C24),
    snapshots are taken exactly at multiples of the configured interval and are the replay up
    to there (C22), retries return the recorded result (C25), a request prepared on the current store commits
    (C26), and no command takes effect unless a signed bundle grants it to the roles and
    capabilities of verified, unrevoked evidence (C39).
  \<^item> Outbox: it holds exactly the committed events (C27), decodes to them (C23), and is
    published at least once, in order, within the configured retries (C28, C29).
  \<^item> Remote workers: consistency of the registry (C30), selection (C31).
  \<^item> Boundary runtime: the caught-up projection is exactly the armed subscriptions (C32),
    settled signals stay settled (C33), replaced timer claims are refused until the timer is
    armed again (C35), and durations are parsed to their length (C34).
  \<^item> Authorisation: sealing and opening (C36), the decision against its specification (C37),
    permanence of revocation (C38).
  \<^item> Replication: snapshots, append-only records and duplicates in a replicated log (C40).

  \<^bold>\<open>Not modelled.\<close> Clocks and random identifiers enter as values. Display texts of errors,
  serialisation derives, lock poisoning and the test modules of the sources have no
  counterpart. The local task runtime (except its checkpoint), the coordination and transport
  of remote workers, the snapshot codec, governance and compensation, the loader of compiled
  workflows, the servers (except \<open>worker_outbox_config\<close>), the BPMN compiler, the RocksDB, KMS and Wasm adapters, telemetry,
  and the Go and TypeScript programs are outside; they are network or disk I/O around the
  modelled parts, or components of their own.
\<close>

section \<open>Shared definitions and lemmas\<close>

text \<open>The error of a command in a lifecycle that does not admit it.\<close>

definition expected_rejection :: "instance_state \<Rightarrow> command \<Rightarrow> runtime_error" where
  "expected_rejection s command =
     (case command of
        StartWorkflow _ _ \<Rightarrow> AlreadyStarted
      | _ \<Rightarrow> (case is_lifecycle s of
                Initial \<Rightarrow> NotStarted
              | Completed \<Rightarrow> AlreadyCompleted
              | _ \<Rightarrow> InstanceTerminatedForCompliance))"

lemma accepted_splits:
  "new_with_execution_contracts tenant wtype wversion start nodes tables contracts = Inr d \<Longrightarrow>
    splits_nonempty d"
  by (intro valid_definition_splits) (rule new_with_execution_contracts_valid)

lemma decided_completion:
  assumes "decide d s command ctx = Inr es" and "instance_ok s" and "splits_nonempty d"
    and "i < length es" and "completion_event (es ! i)"
  shows "Suc i = length es \<and> is_lifecycle (foldl evolve s es) = Completed
    \<and> \<not> has_outstanding_work (routing_from (foldl evolve s es))"
proof -
  have es: "decide_events d s command ctx = Inr es" using assms(1) by (simp add: decide_Inr)
  have wf: "routing_wf (routing_from s)" using assms(2) by (simp add: instance_ok_def)
  have "\<not> is_case_command command"
  proof
    assume "is_case_command command"
    then have "is_case_event (es ! i)"
      using decide_events_case [OF es] assms(4) by (simp add: list_all_length)
    then show False using assms(5) by (cases "es ! i") simp_all
  qed
  then have ok: "decision_ok s es" using es wf assms(3) by (intro decide_events_ok)
  have terminal: "terminal_event (es ! i)" using assms(5) by (cases "es ! i") simp_all
  have last: "Suc i = length es"
  proof (rule ccontr)
    assume "Suc i \<noteq> length es"
    then have "es ! i \<in> set (butlast es)"
      using assms(4) by (auto simp: in_set_conv_nth nth_butlast intro!: exI [of _ i])
    then show False
      using ok terminal by (auto simp: decision_ok_def terminal_last_def list_all_iff)
  qed
  then have "last es = es ! i" by (metis diff_Suc_1 last_conv_nth length_0_conv nat.distinct(1))
  then have "\<not> has_outstanding_work (routing_from (foldl evolve s es))"
    using ok terminal by (auto simp: decision_ok_def Let_def routing_view.proj_replay)
  then show ?thesis
    using last decision_lifecycle [OF ok decide_workflow_active [OF es _ wf assms(3)]]
      \<open>\<not> is_case_command command\<close> by simp
qed

text \<open>
  The publisher settings that the engine server derives from the worker policy
  (\<open>outbox_publisher_config\<close> of \<open>apps/rust/bpmp-engine-server/src/linux_runtime.rs\<close>); a \<open>u32\<close>
  always fits \<open>usize\<close>.
\<close>

definition worker_outbox_config :: "engine_worker_policy \<Rightarrow> outbox_error + outbox_publisher_config" where
  "worker_outbox_config policy =
     outbox_publisher_config_new (unat (ew_outbox_batch_size policy))
       (rp_max_attempts (ew_outbox_retry policy)) (rp_initial_backoff_ms (ew_outbox_retry policy))
       (rp_max_backoff_ms (ew_outbox_retry policy)) (rp_multiplier_millis (ew_outbox_retry policy))"

section \<open>The engine core\<close>

text \<open>
  C1. Every instance state reachable on an accepted definition is well formed (token counts
  positive, joins below their expected count, multi-instance bookkeeping exact, scope nodes
  active at most once) and has outstanding work exactly while its lifecycle is active: a
  decision never leaves an active instance with nothing to wait for, nor a completed one
  with work.
\<close>

theorem reachable_instance_invariant:
  assumes "new_with_execution_contracts tenant wtype wversion start nodes tables contracts = Inr d"
    and "reachable_instance d s"
  shows "routing_wf (routing_from s)
    \<and> (is_active (is_lifecycle s) \<longleftrightarrow> has_outstanding_work (routing_from s))"
  using reachable_instance_ok [OF assms(2) accepted_splits [OF assms(1)]]
  by (simp add: instance_ok_def)

theorem reachable_instance_invariant_witness:
  "routing_wf (routing_from ex_waiting)
    \<and> (is_active (is_lifecycle ex_waiting) \<longleftrightarrow> has_outstanding_work (routing_from ex_waiting))"
  by (rule reachable_instance_invariant [OF ex_accepted ex_waiting_reachable])

text \<open>
  C2. The working copy of the routing state that a decision updates while it activates
  nodes is exactly what replaying the emitted events yields: for every instance state with
  the same routing part, applying the events gives the routing state the loop ended with.
\<close>

theorem activation_refines_replay:
  assumes "new_with_execution_contracts tenant wtype wversion start nodes tables contracts = Inr d"
    and "activation_events d cfg at n scope a = Inr a'"
    and "routing_wf (act_routing a)" and "routing_from s = act_routing a"
  shows "\<exists>es. act_events a' = act_events a @ es
    \<and> routing_from (foldl evolve s es) = act_routing a' \<and> routing_wf (act_routing a')"
  using activation_events_ok [OF assms(2,3) accepted_splits [OF assms(1)]] assms(4)
  by (auto simp: activation_ok_def routing_view.proj_replay)

theorem activation_refines_replay_witness:
  "\<exists>a'. activation_events ex_definition ex_config 9 ''j'' None
       \<lparr>act_variables = [], act_routing = routing_from ex_waiting, act_events = []\<rparr> = Inr a'
     \<and> (\<exists>es. act_events a' = es \<and> routing_from (foldl evolve ex_waiting es) = act_routing a'
          \<and> routing_wf (act_routing a'))"
proof -
  let ?a = "\<lparr>act_variables = [], act_routing = routing_from ex_waiting, act_events = []\<rparr>"
  have "\<exists>a'. activation_events ex_definition ex_config 9 ''j'' None ?a = Inr a'"
    by (simp add: ex_waiting_state runtime_defs ex_defs bt_remove_def)
  then obtain a' where a': "activation_events ex_definition ex_config 9 ''j'' None ?a = Inr a'" ..
  have "routing_wf (routing_from ex_waiting)"
    using reachable_instance_ok [OF ex_waiting_reachable accepted_splits [OF ex_accepted]]
    by (simp add: instance_ok_def)
  then show ?thesis
    using activation_refines_replay [OF ex_accepted a', of ex_waiting] a' by simp
qed

text \<open>
  C3. \<open>WorkflowCompleted\<close> is emitted at most once in a decision and only as its last event,
  whatever the shape of the graph; the instance is then completed and nothing (no token,
  pending join, multi-instance activity, subscription or scope) is left behind.
\<close>

theorem completion_is_last:
  assumes "new_with_execution_contracts tenant wtype wversion start nodes tables contracts = Inr d"
    and "reachable_instance d s" and "decide d s command ctx = Inr es"
    and "i < length es" and "completion_event (es ! i)"
  shows "Suc i = length es \<and> is_lifecycle (foldl evolve s es) = Completed
    \<and> \<not> has_outstanding_work (routing_from (foldl evolve s es))"
  using accepted_splits [OF assms(1)] reachable_instance_ok [OF assms(2)] assms(3-5)
  by (intro decided_completion) simp_all

theorem completion_is_last_witness:
  "\<exists>es. decide ex_definition ex_waiting (CompleteUserTask ''b'' ''yes'' 9) ex_context = Inr es
    \<and> length es = 4 \<and> is_lifecycle (foldl evolve ex_waiting es) = Completed
    \<and> \<not> has_outstanding_work (routing_from (foldl evolve ex_waiting es))"
  using completion_is_last [OF ex_accepted ex_waiting_reachable ex_decide_user, of 3]
  by (simp add: ex_decide_user)

text \<open>
  C4. No command makes a decision on a reachable instance panic: the subtraction in
  \<open>complete_task\<close> never underflows and the task type of a call activity is never empty.
\<close>

theorem decide_never_panics:
  assumes "new_with_execution_contracts tenant wtype wversion start nodes tables contracts = Inr d"
    and "reachable_instance d s"
  shows "no_panic (decide d s command ctx)"
  using reachable_instance_ok [OF assms(2) accepted_splits [OF assms(1)]]
  by (intro no_panic_decide) (simp add: instance_ok_def)

theorem decide_never_panics_witness:
  "no_panic (decide ex_definition ex_waiting (CompleteUserTask ''b'' ''yes'' 9) ex_context)"
  by (rule decide_never_panics [OF ex_accepted ex_waiting_reachable])

theorem decision_records_command_witness:
  "answers (StartWorkflow ''t'' 7) (WorkflowStarted ''t'' ''o'' ''1'' ''s'' 7)
   \<and> list_all (\<lambda>e. event_time e = 7)
       [WorkflowStarted ''t'' ''o'' ''1'' ''s'' 7, GatewaySplitActivated ''f'' ''j'' [''a'', ''b''] 7,
        ServiceTaskActivated ''a'' ''ship'' 7, UserTaskActivated ''b'' ''approve'' ''p'' None 7]"
  using decision_records_command [OF ex_decide_start] by simp

text \<open>
  C13. A decision table of an accepted definition returns values of the declared types only:
  every output it assigns belongs to a declared output and has its type.
\<close>

theorem decision_outputs_typed:
  assumes "new_with_execution_contracts tenant wtype wversion start nodes tables contracts = Inr d"
    and "bt_get (wd_decision_tables d) table_id = Some table"
    and "evaluate_decision_table table vars = Inr outputs"
    and "bt_get outputs name = Some v"
  shows "\<exists>output \<in> set (dt_outputs table). do_name output = name
    \<and> type_matches (do_value_type output) v"
proof -
  have "validate_decision_table table = Inr ()"
    using new_with_execution_contracts_valid [OF assms(1)] bt_get_in_set [OF assms(2)]
    by (auto simp: valid_definition_def tables_valid_def)
  moreover from assms(3) obtain r where r: "r \<in> set (dt_rules table)"
    and out: "outputs = rule_outputs table r"
    by (rule evaluate_decision_table_Inr)
  ultimately have typed: "\<forall>(v, output) \<in> set (zip (dr_output_values r) (dt_outputs table)).
      type_matches (do_value_type output) v"
    by (fastforce simp: validate_decision_table_def validate_decision_rule_def try_all_Inr
        split: if_splits)
  have "(name, v) \<in> set (map (\<lambda>(output, v). (do_name output, v))
      (zip (dt_outputs table) (dr_output_values r)))"
    using assms(4) map_of_SomeD [of "rev (map (\<lambda>(output, v). (do_name output, v))
        (zip (dt_outputs table) (dr_output_values r)))" name v]
    by (auto simp: out rule_outputs_def bt_get_extend split: option.splits)
  then obtain decl where "(decl, v) \<in> set (zip (dt_outputs table) (dr_output_values r))"
    "do_name decl = name"
    by auto
  then show ?thesis
    using typed by (force simp: set_zip)
qed

theorem decision_outputs_typed_witness:
  "\<exists>output \<in> set (dt_outputs ex_table). do_name output = ''o''
    \<and> type_matches (do_value_type output) (VString ''low'')"
proof -
  have "\<not> is_blank ''d''" by (rule not_blank [of "CHR ''d''"]) (simp_all add: printable_def)
  then have accepted: "\<exists>d. new_with_execution_contracts ''t'' ''o'' ''1'' ''s''
      [(''s'', Start ''x''), (''x'', DecisionTask ''d'' ''z''), (''z'', End)] [ex_table] no_contracts = Inr d
      \<and> bt_get (wd_decision_tables d) ''d'' = Some ex_table"
    by (simp add: definition_defs ex_table_def validate_decision_table_def validate_decision_rule_def)
  have "evaluate_decision_table ex_table [(''n'', VInteger 7)] = Inr [(''o'', VString ''low'')]"
    by (simp add: evaluate_decision_table_def table_defs bt_get_Cons)
  then show ?thesis
    using accepted decision_outputs_typed [of _ _ _ _ _ _ _ _ "''d''" ex_table "[(''n'', VInteger 7)]"
        "[(''o'', VString ''low'')]" "''o''" "VString ''low''"]
    by (fastforce simp: bt_get_Cons)
qed

text \<open>
  C16. A configuration snapshot is accepted exactly when its schema version is positive, its
  scopes are present and strictly ordered by precedence (so no kind occurs twice) and every
  engine policy passes the checks of \<open>configuration.rs\<close>; the accepted snapshot carries its
  inputs unchanged. These checks are weaker than the bound that the rest of the
  repository documents for retry multipliers, at least 1000 thousandths: a multiplier from
  1 to 999 is accepted here, and the publisher settings derived from an accepted snapshot
  are rejected exactly for such a multiplier.
\<close>

theorem resolved_config_accepts:
  "(resolved_config_new config_id config_version policy_version schema scopes content engine = Inr c
    \<longleftrightarrow> 0 < schema \<and> scopes \<noteq> []
      \<and> sorted_wrt (\<lambda>a b. precedence (sc_kind a) < precedence (sc_kind b)) scopes
      \<and> engine_ok engine
      \<and> c = \<lparr>rc_config_id = config_id, rc_config_version = config_version,
             rc_policy_version = policy_version, rc_schema_version = schema,
             rc_resolved_scopes = scopes, rc_content_hash = content, rc_engine = engine\<rparr>)
   \<and> (resolved_config_new config_id config_version policy_version schema scopes content engine = Inr c \<longrightarrow>
       (worker_outbox_config (en_workers (rc_engine c)) = Inl InvalidOutboxConfiguration
        \<longleftrightarrow> rp_multiplier_millis (ew_outbox_retry (en_workers engine)) < 1000))"
proof -
  have "worker_outbox_config (en_workers engine) = Inl InvalidOutboxConfiguration
      \<longleftrightarrow> rp_multiplier_millis (ew_outbox_retry (en_workers engine)) < 1000" if "engine_ok engine"
    using that
    by (auto simp: worker_outbox_config_def outbox_publisher_config_new_def engine_ok_def retry_ok_def
        unat_eq_0 not_less)
  then show ?thesis by (simp add: resolved_config_new_Inr)
qed

definition ex_slow_engine :: engine_policy where
  "ex_slow_engine = ex_engine\<lparr>en_workers := (en_workers ex_engine)\<lparr>ew_outbox_retry :=
     \<lparr>rp_max_attempts = 3, rp_initial_backoff_ms = 10, rp_max_backoff_ms = 100, rp_multiplier_millis = 500\<rparr>\<rparr>\<rparr>"

theorem resolved_config_accepts_witness:
  "\<exists>c. resolved_config_new ''c'' ''v'' ''p'' 1 [\<lparr>sc_kind = Platform, sc_reference = ''x''\<rparr>] [] ex_slow_engine = Inr c
    \<and> worker_outbox_config (en_workers (rc_engine c)) = Inl InvalidOutboxConfiguration"
proof -
  let ?c = "\<lparr>rc_config_id = ''c'', rc_config_version = ''v'', rc_policy_version = ''p'', rc_schema_version = 1,
    rc_resolved_scopes = [\<lparr>sc_kind = Platform, sc_reference = ''x''\<rparr>], rc_content_hash = [],
    rc_engine = ex_slow_engine\<rparr>"
  have "\<not> is_blank ''w''" by code_simp
  then have "engine_ok ex_slow_engine"
    by (simp add: engine_ok_def ex_slow_engine_def ex_engine_def retry_ok_def ex_retry_def remote_worker_ok_def
        boundary_runtime_ok_def local_wasm_ok_def)
  moreover have "rp_multiplier_millis (ew_outbox_retry (en_workers ex_slow_engine)) < 1000"
    by (simp add: ex_slow_engine_def)
  moreover note resolved_config_accepts [of "''c''" "''v''" "''p''" 1
      "[\<lparr>sc_kind = Platform, sc_reference = ''x''\<rparr>]" "[]" ex_slow_engine ?c]
  ultimately show ?thesis by (intro exI [of _ ?c]) simp
qed

text \<open>
  C20. A command that needs a running instance is rejected in every other lifecycle with the
  error naming it, and a workflow starts only once.
\<close>

theorem closed_instance_rejects:
  assumes "\<not> is_case_command command"
    and "(case command of StartWorkflow _ _ \<Rightarrow> is_lifecycle s \<noteq> Initial
          | _ \<Rightarrow> \<not> is_active (is_lifecycle s))"
  shows "decide d s command ctx = runtime_fail (expected_rejection s command)"
  using assms
  by (cases command; cases "is_lifecycle s")
     (simp_all add: decide_def when_task_active_def when_active_def expected_rejection_def)

theorem closed_instance_rejects_witness:
  "decide ex_definition (evolve ex_started (WorkflowCompleted 1)) (CompleteScriptTask ''x'' 2) ex_context
    = runtime_fail AlreadyCompleted"
  using closed_instance_rejects [of "CompleteScriptTask ''x'' 2"
      "evolve ex_started (WorkflowCompleted 1)" ex_definition ex_context]
  by (simp add: evolve_def clear_routing_def expected_rejection_def)

section \<open>The engine over the in-memory store\<close>

text \<open>
  C24. Concurrent handlers are serialised by the store: whatever the interleaving of loads and
  commits, the state that the engine rebuilds for an instance (from the latest snapshot and
  the events after it) is the replay of its whole stream, and it is a state that decisions
  on the registered definition reach; its sequence number is the stream version.
\<close>

theorem engine_streams_reachable:
  assumes "engine_run (memory_port encode) R default_memory_state s pending"
    and "memory_load s tenant instance_id = Inr loaded" and "li_version loaded \<noteq> 0"
  shows "loaded_state loaded = replay (sv_stream (memory_view s) (tenant, instance_id))
    \<and> unat (is_sequence (loaded_state loaded)) = unat (li_version loaded)
    \<and> (\<exists>d. registered R d \<and> wd_tenant_id d = tenant \<and> reachable_instance d (loaded_state loaded))"
proof -
  let ?es = "sv_stream (memory_view s) (tenant, instance_id)"
  have "view_ok R (memory_view default_memory_state)"
    by (simp add: view_ok_def memory_view_def default_memory_state_def)
  then have ok: "view_ok R (memory_view s)" using memory.engine_run_ok [OF assms(1)] by simp
  have load: "ws_load (memory_port encode) s tenant instance_id = Inr loaded"
    using assms(2) by (simp add: memory_port_def)
  have state: "loaded_state loaded = replay ?es" by (rule memory.loaded_replay [OF ok load])
  have version: "unat (li_version loaded) = length ?es" using memory.load_law [OF load] by simp
  then have "?es \<noteq> []" using assms(3) by (auto simp: unat_eq_0)
  then obtain d where "registered R d" "stream_of d (tenant, instance_id) ?es"
    by (cases rule: view_ok_cases [OF ok, of "(tenant, instance_id)"]) auto
  then show ?thesis
    using version replay_sequence [of ?es] stream_of_reachable by (auto simp: state stream_of_def)
qed

theorem engine_streams_reachable_witness:
  "\<exists>loaded d. memory_load ex_store ''t'' ''i'' = Inr loaded \<and> registered ex_registry d
    \<and> reachable_instance d (loaded_state loaded) \<and> unat (is_sequence (loaded_state loaded)) = 4"
proof -
  obtain loaded where loaded: "memory_load ex_store ''t'' ''i'' = Inr loaded" "li_version loaded = 4"
    using ex_store_loaded by blast
  then show ?thesis
    using engine_streams_reachable [OF ex_run loaded(1)] by auto
qed

text \<open>
  C22. Snapshots are taken exactly at the configured interval: a prepared commit carries a
  snapshot exactly when its events take the stream past a multiple of the interval, and the
  snapshot is then the replay of the whole stream up to the last such multiple, with that
  sequence number and the identity of the instance. The store may be in any state that
  interleaved handlers lead to, and its own snapshot is what the instance was loaded from.
\<close>

theorem snapshot_at_interval:
  assumes "engine_run (memory_port encode) R default_memory_state s pending"
    and "memory_load s (ac_tenant_id request) (ac_instance_id request) = Inr loaded"
    and "decide_commit d request authorized cfg loaded = Inr r"
  shows "(let stream = sv_stream (memory_view s) (ac_tenant_id request, ac_instance_id request) @ cr_events r;
              boundary = snapshot_boundary (unat (en_snapshot_interval_events (rc_engine cfg))) (length stream)
          in if boundary \<le> unat (li_version loaded) then cr_snapshot r = None
             else \<exists>sn. cr_snapshot r = Some sn \<and> sn_state sn = rehydrate None (map ee_event (take boundary stream))
               \<and> unat (is_sequence (sn_state sn)) = boundary
               \<and> sn_tenant_id sn = ac_tenant_id request \<and> sn_instance_id sn = ac_instance_id request
               \<and> sn_workflow_type sn = wd_workflow_type d \<and> sn_workflow_version sn = wd_workflow_version d)"
proof -
  let ?es = "sv_stream (memory_view s) (ac_tenant_id request, ac_instance_id request)"
  have ok: "view_ok R (memory_view s)" using assms(1) by (rule memory_view_ok)
  have load: "ws_load (memory_port encode) s (ac_tenant_id request) (ac_instance_id request) = Inr loaded"
    using assms(2) by (simp add: memory_port_def)
  have state: "loaded_state loaded = replay ?es" using memory.loaded_replay [OF ok load] .
  have version: "unat (li_version loaded) = length ?es" using memory.load_law [OF load] by simp
  note facts = decide_commit_Inr [OF assms(3)]
  have some: "cr_events r \<noteq> []"
    using facts(5) decide_events_answered by (fastforce simp: decide_Inr answered_def)
  let ?b = "snapshot_boundary (unat (en_snapshot_interval_events (rc_engine cfg))) (length ?es + length (cr_events r))"
  note snapshot = boundary_snapshot [OF facts(10,6) some, unfolded version state]
  have "take ?b (?es @ cr_events r) = ?es @ take (?b - length ?es) (cr_events r)" if "length ?es < ?b"
    using that by simp
  moreover have "length (take ?b (?es @ cr_events r)) = ?b"
    using snapshot_boundary_le by (simp only: length_take length_append min.absorb2)
  moreover have "?b < 2 ^ LENGTH(64)"
    using facts(8) version snapshot_boundary_le le_less_trans by metis
  ultimately show ?thesis
    using snapshot version replay_sequence [of "take ?b (?es @ cr_events r)"]
    by (auto simp: Let_def not_le replay_def rehydrate_def)
qed

definition ex_interval_config :: resolved_config_snapshot where
  "ex_interval_config = ex_config\<lparr>rc_engine := ex_engine\<lparr>en_snapshot_interval_events := 3\<rparr>\<rparr>"

theorem snapshot_at_interval_witness:
  "\<exists>r sn. decide_commit ex_definition ex_request ex_principal ex_interval_config
      \<lparr>li_snapshot = None, li_events = [], li_version = 0\<rparr> = Inr r
    \<and> cr_snapshot r = Some sn \<and> sn_state sn = rehydrate None (map ee_event (take 3 ex_events))"
proof -
  have fields: "rc_config_version ex_interval_config = ''v''" "rc_policy_version ex_interval_config = ''p''"
      "en_snapshot_interval_events (rc_engine ex_interval_config) = 3"
    by (simp_all add: ex_interval_config_def)
  have "decide ex_definition default_instance_state (StartWorkflow ''t'' 7)
      \<lparr>dc_configuration = ex_interval_config, dc_variables = []\<rparr> = Inr (map ee_event ex_events)"
    by (simp add: runtime_defs ex_defs ex_interval_config_def ex_events_def)
  moreover have "attach_metadata ex_definition ex_request ''alice'' ex_interval_config 0 (map ee_event ex_events) =
      Inr ex_events"
    using ex_attached by (simp add: attach_metadata_def attach_one_def fields)
  moreover have "new_committed_result 0 ex_events ex_interval_config = Inr ex_result"
    by (simp add: new_committed_result_def ex_result_def ex_events_def ex_metadata_def u64_try_from_def
        usize_max_def checked_add_def fields)
  moreover obtain snapshot where "snapshot_at_latest_boundary ex_definition ex_request ex_interval_config
      default_instance_state ex_events = Inr snapshot"
    by (simp add: snapshot_at_latest_boundary_def snapshot_loop_boundary fields)
  ultimately obtain r where r: "decide_commit ex_definition ex_request ex_principal ex_interval_config
      \<lparr>li_snapshot = None, li_events = [], li_version = 0\<rparr> = Inr r" and events: "cr_events r = ex_events"
    by (simp add: decide_commit_def rehydrate_def)
  have run: "engine_run (memory_port ex_encode) ex_registry default_memory_state default_memory_state []"
    by (rule engine_run.idle)
  have "sv_stream (memory_view default_memory_state) (''t'', ''i'') = []"
    by (simp add: memory_view_def default_memory_state_def)
  moreover have "snapshot_boundary 3 4 = 3" "length ex_events = 4"
    by (simp_all add: snapshot_boundary_def ex_events_def)
  ultimately have "\<exists>sn. cr_snapshot r = Some sn \<and> sn_state sn = rehydrate None (map ee_event (take 3 ex_events))"
    using snapshot_at_interval [OF run _ r] events ex_loaded by (auto simp: fields Let_def)
  with r show ?thesis by blast
qed

text \<open>
  C25. Commands are executed at most once: after a command was answered with a result, every
  later attempt of the same request is answered with that result as a duplicate and changes
  nothing, whatever was committed in between and however the configuration changed.
\<close>

theorem retry_returns_recorded_result:
  assumes "handle (memory_port encode) authorize resolve s d request = (Inr outcome, s')"
    and "s'' = foldl (\<lambda>s r. snd (memory_commit encode s r)) s' commits"
  shows "handle (memory_port encode) authorize resolve' s'' d request =
    (Inr (HandleDuplicate (outcome_result outcome)), s'')"
  using assms(2) by (intro memory.handle_retry [OF assms(1)]) (simp add: memory_port_def)

theorem retry_returns_recorded_result_witness:
  "handle (memory_port ex_encode) ex_authorize ex_resolve ex_store ex_definition ex_request =
    (Inr (HandleDuplicate ex_result), ex_store)"
  using retry_returns_recorded_result [OF ex_handled, of ex_store "[]" ex_resolve] by simp

text \<open>
  C26. The checks of the store never reject what the engine prepares: a request prepared from
  the current store by an authorised caller, with a fresh idempotency key and command, is
  committed (its audit record matches its events, its sequence numbers are contiguous, its
  snapshot lies in the committed range).
\<close>

theorem prepared_request_commits:
  assumes "engine_run (memory_port encode) R default_memory_state s pending"
    and "registered R d" and "ac_tenant_id request = wd_tenant_id d"
    and "prepare_commit (memory_port encode) resolve s d request authorized = Inr r"
    and "ap_workload_id authorized \<noteq> []" and "ap_matched_grant_ids authorized \<noteq> []"
    and "lookup_idempotency s (ac_tenant_id request) (ap_actor_id authorized)
      (ac_idempotency_key request) (ac_command_id request) = Inr None"
    and "audit_recorded s (ac_tenant_id request) (ac_command_id request) = None"
    and "length (ms_outbox s) + length (cr_events r) < 2 ^ LENGTH(64)"
  shows "fst (memory_commit encode s r) = Inr (Committed (cr_result r))"
proof -
  have "view_ok R (memory_view default_memory_state)"
    by (simp add: view_ok_def memory_view_def default_memory_state_def)
  then have ok: "view_ok R (memory_view s)" using memory.engine_run_ok [OF assms(1)] by simp
  from assms(4) obtain cfg loaded where "decide_commit d request authorized cfg loaded = Inr r"
    by (rule prepare_commit_Inr)
  then have "sv_result (memory_view s) (request_scope r) = None"
    using assms(7)
    by (simp add: decide_commit_Inr lookup_idempotency_def memory_view_def split: option.splits if_splits)
  then show ?thesis
    using ok assms(2-6,8,9) by (intro prepared_commit_succeeds)
qed

theorem prepared_request_commits_witness:
  "fst (memory_commit ex_encode default_memory_state ex_commit) = Inr (Committed ex_result)"
proof -
  have "fst (memory_commit ex_encode default_memory_state ex_commit) = Inr (Committed (cr_result ex_commit))"
    by (rule prepared_request_commits [OF engine_run.idle ex_registered _ ex_prepared])
       (simp_all add: ex_principal_def lookup_idempotency_def default_memory_state_def audit_recorded_def
         ex_commit_def ex_events_def)
  then show ?thesis by (simp add: ex_commit_def)
qed

text \<open>
  C27. The outbox is transactional: in every state of the adapter, the records of an instance
  carry exactly the identifiers and encodings of its committed events, in order; cursors
  count from one without gaps, and both checkpoints stay within the outbox.
\<close>

theorem transactional_outbox:
  assumes "reachable_memory encode s"
  shows "map (\<lambda>r. (ob_event_id r, ob_payload r)) (outbox_of s (tenant, instance_id)) =
      map (\<lambda>e. (em_event_id (ee_metadata e), encode e)) (sv_stream (memory_view s) (tenant, instance_id))
    \<and> cursors_ok s \<and> checkpoints_ok s"
  using outbox_invariant [OF assms] by (simp add: outbox_matches_def)

theorem transactional_outbox_witness:
  "map ob_event_id (outbox_of ex_store (''t'', ''i'')) = [''c:1'', ''c:2'', ''c:3'', ''c:4'']"
proof -
  have "map fst (map (\<lambda>r. (ob_event_id r, ob_payload r)) (outbox_of ex_store (''t'', ''i''))) =
      [''c:1'', ''c:2'', ''c:3'', ''c:4'']"
    using transactional_outbox [OF ex_store_reachable, of "''t''" "''i''"]
    by (simp add: ex_store_stream ex_events_def ex_metadata_def)
  then show ?thesis by (simp add: comp_def)
qed

text \<open>
  C28. Publication is at least once and in order: one run of the publisher, whatever fails in
  it, delivers a prefix of the pending records up to repetition, moves the checkpoint over
  delivered records only, and every record up to the new checkpoint has reached the broker.
\<close>

theorem outbox_at_least_once:
  assumes "broker_log publish log" and "reachable_memory encode (ps_store p)"
    and "ms_outbox_checkpoint (ps_store p) = c"
    and "run_once_with_config memory_outbox_port publish config c p = (res, p')"
  shows "delivered (log (ps_broker p)) (log (ps_broker p')) c
      (filter (\<lambda>r. c < ob_cursor r) (ms_outbox (ps_store p))) (ms_outbox_checkpoint (ps_store p'))
    \<and> ms_outbox (ps_store p') = ms_outbox (ps_store p)
    \<and> (\<forall>r \<in> set (ms_outbox (ps_store p)). c < ob_cursor r \<longrightarrow>
        ob_cursor r \<le> ms_outbox_checkpoint (ps_store p') \<longrightarrow> r \<in> set (log (ps_broker p')))"
proof -
  have "cursors_ok (ps_store p)" using outbox_invariant [OF assms(2)] by simp
  then show ?thesis
    using memory_outbox.run_once_delivers [OF assms(1) _ assms(3,4)]
      memory_outbox.run_once_at_least_once [OF assms(1) _ assms(3,4)]
    by blast
qed

theorem outbox_at_least_once_witness:
  "\<exists>res p'. run_once_with_config memory_outbox_port ex_broker ex_publisher 0 ex_publishing = (res, p')
    \<and> ms_outbox_checkpoint (ps_store p') = 2
    \<and> (\<forall>r \<in> set (ms_outbox ex_store). ob_cursor r \<le> 2 \<longrightarrow> r \<in> set (fst (ps_broker p')))"
proof -
  obtain res p' where run: "run_once_with_config memory_outbox_port ex_broker ex_publisher 0 ex_publishing = (res, p')"
    and c: "ms_outbox_checkpoint (ps_store p') = 2"
    using ex_published by blast
  have "\<forall>r \<in> set (ms_outbox ex_store). 0 < ob_cursor r \<longrightarrow> ob_cursor r \<le> 2 \<longrightarrow> r \<in> set (fst (ps_broker p'))"
    using outbox_at_least_once [OF ex_broker_log _ _ run] ex_store_reachable c
    by (simp add: ex_publishing_def ex_store_checkpoint)
  moreover have "\<forall>r \<in> set (ms_outbox ex_store). 0 < ob_cursor r"
    using outbox_invariant [OF ex_store_reachable]
    by (auto simp: cursors_ok_def in_set_conv_nth word_less_nat_alt)
  ultimately show ?thesis using run c by blast
qed

section \<open>Properties of the components, applied\<close>

theorem accepted_definition_valid_witness:
  "valid_definition ex_definition \<and> bt_get (wd_nodes ex_definition) ''s'' = Some (Start ''f'')"
  using accepted_definition_valid [OF ex_accepted] by (simp add: ex_nodes_def)

theorem iteration_refills_slot_witness:
  "\<exists>item. decide ex_mi_definition ex_mi_started (CompleteMultiInstanceIteration ''m'' 0 9) ex_context =
    Inr [MultiInstanceIterationCompleted ''m'' 0 9,
         MultiInstanceIterationActivated ''m'' ''scan'' 2 item 9]"
proof -
  have "instance_ok ex_mi_started"
    by (rule reachable_instance_ok [OF ex_mi_reachable ex_mi_splits])
  then show ?thesis
    using iteration_refills_slot [of ex_mi_started ex_mi_definition "''m''" "''z''" ex_mi_spec ex_mi_active 0
        ex_context 9]
    by (simp add: ex_mi_started_state ex_mi_active_def ex_mi_spec_def ex_mi_definition_def
        multi_instance_next_def definition_node_def node_multi_instance_def bt_get_Cons condition_unmet_def
        ex_context_def ex_config_def ex_engine_def word_le_nat_alt)
qed

theorem step_budget_monotone_witness:
  "activation_loop ex_definition ex_config 9 ''j'' 100 0 [(''j'', None)]
     \<lparr>act_variables = [], act_routing = routing_from ex_waiting, act_events = []\<rparr>
   = activation_loop ex_definition ex_config 9 ''j'' 24 0 [(''j'', None)]
     \<lparr>act_variables = [], act_routing = routing_from ex_waiting, act_events = []\<rparr>"
  by (rule step_budget_monotone)
     (simp_all add: ex_waiting_state runtime_defs ex_defs bt_remove_def)

end
